(* ===== verification/Prelude.thy ===== *)
theory Prelude
  imports Complex_Main "HOL-Library.Char_ord" "HOL-Library.List_Lexorder" "HOL-Library.Multiset"
    "HOL-Library.Sublist" "HOL-Library.AList" "HOL-Library.Monad_Syntax"
begin

text \<open>
  Shared ground of the development: the parts of the Go language and of its standard library
  that the modelled packages use (byte strings, slices, \<open>sort.Slice\<close>, \<open>strings\<close>, formatting),
  the bounded ring that three components keep, and the lemmas on them that the component
  theories share. A Go \<open>string\<close> is a list of bytes (type \<open>string\<close>, \<open>char\<close> being eight bits),
  a \<open>time.Time\<close> an \<open>int\<close> counting nanoseconds from Go's zero time, a \<open>float64\<close> an exact
  rational.
\<close>

section \<open>Collections of facts\<close>

named_theorems ring_simps \<open>facts about bounded rings\<close>
named_theorems sort_simps \<open>facts about sorted slices\<close>
named_theorems go_simps \<open>unfolding of the small Go helpers\<close>

type_synonym time = int
type_synonym float64 = rat

definition zero_time :: time where
  [simp]: "zero_time = 0"

text \<open>Go's \<open>int\<close> and \<open>int64\<close> have 64 bits: arithmetic that can leave the range wraps.\<close>

definition wrap64 :: "int \<Rightarrow> int" where
  "wrap64 x = (x + 2 ^ 63) mod 2 ^ 64 - 2 ^ 63"

lemma wrap64_id [simp]: "- (2 ^ 63) \<le> x \<Longrightarrow> x < 2 ^ 63 \<Longrightarrow> wrap64 x = x"
  by (simp add: wrap64_def)

lemma wrap64_range: "- (2 ^ 63) \<le> wrap64 x \<and> wrap64 x < 2 ^ 63"
proof -
  have "0 \<le> (x + 2 ^ 63) mod (2 ^ 64 :: int)" and "(x + 2 ^ 63) mod (2 ^ 64 :: int) < 2 ^ 64"
    by (rule pos_mod_sign pos_mod_bound, simp)+
  then show ?thesis by (simp add: wrap64_def)
qed

text \<open>Go's \<open>%\<close> truncates towards zero: the sign is the dividend's.\<close>

definition go_rem :: "int \<Rightarrow> int \<Rightarrow> int" where
  "go_rem a b = sgn a * (\<bar>a\<bar> mod \<bar>b\<bar>)"

section \<open>Slices: sort.Slice\<close>

text \<open>
  \<open>sort.Slice\<close> sorts by a strict comparison. Go leaves the order of equivalent elements open;
  this is the stable insertion sort the library runs on short slices. The facts below hold of
  every sorting function with this contract.
\<close>

fun insert_less :: "('a \<Rightarrow> 'a \<Rightarrow> bool) \<Rightarrow> 'a \<Rightarrow> 'a list \<Rightarrow> 'a list" where
  "insert_less lt x [] = [x]"
| "insert_less lt x (y # ys) = (if lt y x then y # insert_less lt x ys else x # y # ys)"

fun sort_slice :: "('a \<Rightarrow> 'a \<Rightarrow> bool) \<Rightarrow> 'a list \<Rightarrow> 'a list" where
  "sort_slice lt [] = []"
| "sort_slice lt (x # xs) = insert_less lt x (sort_slice lt xs)"

lemma mset_insert_less: "mset (insert_less lt x xs) = add_mset x (mset xs)"
  by (induction xs) auto

lemma mset_sort_slice [sort_simps]: "mset (sort_slice lt xs) = mset xs"
  by (induction xs) (auto simp: mset_insert_less)

lemma set_sort_slice [simp, sort_simps]: "set (sort_slice lt xs) = set xs"
  by (metis mset_sort_slice set_mset_mset)

lemma length_sort_slice [simp, sort_simps]: "length (sort_slice lt xs) = length xs"
  by (metis mset_sort_slice size_mset)

lemma distinct_sort_slice [simp, sort_simps]: "distinct (sort_slice lt xs) = distinct xs"
  by (metis mset_sort_slice mset_eq_imp_distinct_iff)

lemma distinct_map_sort_slice [simp, sort_simps]:
  "distinct (map f (sort_slice lt xs)) = distinct (map f xs)"
proof -
  have "mset (map f (sort_slice lt xs)) = mset (map f xs)" by (simp add: mset_sort_slice)
  then show ?thesis by (rule mset_eq_imp_distinct_iff)
qed

lemma sort_slice_eq_Nil [simp]: "sort_slice lt xs = [] \<longleftrightarrow> xs = []"
  by (metis length_0_conv length_sort_slice)

lemma insert_less_last: "(\<And>y. y \<in> set ys \<Longrightarrow> lt y x) \<Longrightarrow> insert_less lt x ys = ys @ [x]"
  by (induction ys) auto

text \<open>A slice already in strictly reversed order is reversed.\<close>

lemma sort_slice_rev: "sorted_wrt (\<lambda>a b. lt b a) xs \<Longrightarrow> sort_slice lt xs = rev xs"
  by (induction xs) (auto intro: insert_less_last)

text \<open>The contract a comparison passed to \<open>sort.Slice\<close> owes: a strict weak order.\<close>

locale go_less =
  fixes lt :: "'a \<Rightarrow> 'a \<Rightarrow> bool"
  assumes less_asym: "lt x y \<Longrightarrow> \<not> lt y x"
    and not_less_trans: "\<not> lt y x \<Longrightarrow> \<not> lt z y \<Longrightarrow> \<not> lt z x"
begin

lemma sorted_insert_less:
  "sorted_wrt (\<lambda>a b. \<not> lt b a) xs \<Longrightarrow> sorted_wrt (\<lambda>a b. \<not> lt b a) (insert_less lt x xs)"
proof (induction xs)
  case Nil
  then show ?case by simp
next
  case (Cons y ys)
  have set_ins: "set (insert_less lt x ys) = insert x (set ys)"
    by (metis mset_insert_less set_mset_add_mset_insert set_mset_mset)
  show ?case
  proof (cases "lt y x")
    case True
    with Cons show ?thesis by (auto simp: set_ins less_asym)
  next
    case False
    with Cons.prems show ?thesis using not_less_trans [of y x] by auto
  qed
qed

lemma sorted_sort_slice: "sorted_wrt (\<lambda>a b. \<not> lt b a) (sort_slice lt xs)"
  by (induction xs) (auto intro: sorted_insert_less)

lemma insert_less_front: "(\<And>y. y \<in> set ys \<Longrightarrow> \<not> lt y x) \<Longrightarrow> insert_less lt x ys = x # ys"
  by (cases ys) auto

lemma filter_insert_less:
  "sorted_wrt (\<lambda>a b. \<not> lt b a) xs \<Longrightarrow>
     filter P (insert_less lt x xs) = (if P x then insert_less lt x (filter P xs) else filter P xs)"
proof (induction xs)
  case Nil
  then show ?case by simp
next
  case (Cons y ys)
  show ?case
  proof (cases "lt y x")
    case True
    with Cons show ?thesis by simp
  next
    case False
    with Cons.prems have "\<And>z. z \<in> set (filter P (y # ys)) \<Longrightarrow> \<not> lt z x"
      using not_less_trans [of y x] by (auto split: if_splits)
    then have "insert_less lt x (filter P (y # ys)) = x # filter P (y # ys)"
      by (rule insert_less_front)
    with False show ?thesis by simp
  qed
qed

lemma filter_sort_slice: "filter P (sort_slice lt xs) = sort_slice lt (filter P xs)"
  by (induction xs) (auto simp: filter_insert_less sorted_sort_slice)

end

text \<open>A comparison of a key in a linear order meets the contract, ascending or descending.\<close>

locale key_less =
  fixes key :: "'a \<Rightarrow> 'k::linorder"
begin

definition by_key :: "'a \<Rightarrow> 'a \<Rightarrow> bool" where
  "by_key x y \<longleftrightarrow> key x < key y"

definition by_key_desc :: "'a \<Rightarrow> 'a \<Rightarrow> bool" where
  "by_key_desc x y \<longleftrightarrow> key y < key x"

end

sublocale key_less \<subseteq> asc: go_less by_key
  by unfold_locales (auto simp: by_key_def)

sublocale key_less \<subseteq> desc: go_less by_key_desc
  by unfold_locales (auto simp: by_key_desc_def)

context key_less begin

lemma sorted_by_key: "sorted (map key (sort_slice (\<lambda>x y. key x < key y) xs))"
proof -
  have "(\<lambda>x y. key x < key y) = by_key" by (simp add: fun_eq_iff by_key_def)
  with asc.sorted_sort_slice [of xs] show ?thesis
    by (simp add: sorted_map by_key_def not_less)
qed

lemma sorted_by_key_desc:
  "sorted_wrt (\<lambda>x y. key y \<le> key x) (sort_slice (\<lambda>x y. key y < key x) xs)"
proof -
  have "(\<lambda>x y. key y < key x) = by_key_desc" by (simp add: fun_eq_iff by_key_desc_def)
  with desc.sorted_sort_slice [of xs] show ?thesis
    by (simp add: by_key_desc_def not_less)
qed

text \<open>With distinct keys the result depends only on the elements, not on their order.\<close>

lemma sort_by_key_unique:
  assumes "mset xs = mset ys" and "distinct (map key xs)"
  shows "sort_slice (\<lambda>x y. key x < key y) xs = sort_slice (\<lambda>x y. key x < key y) ys"
proof (rule map_sorted_distinct_set_unique)
  have set_eq: "set xs = set ys" using assms(1) by (metis set_mset_mset)
  have ys: "distinct (map key ys)" using assms by (metis mset_eq_imp_distinct_iff mset_map)
  show "inj_on key (set (sort_slice (\<lambda>x y. key x < key y) xs) \<union> set (sort_slice (\<lambda>x y. key x < key y) ys))"
    using assms(2) by (simp add: set_eq [symmetric] distinct_map)
  show "sorted (map key (sort_slice (\<lambda>x y. key x < key y) xs))"
    "sorted (map key (sort_slice (\<lambda>x y. key x < key y) ys))" by (rule sorted_by_key)+
  show "distinct (map key (sort_slice (\<lambda>x y. key x < key y) xs))"
    "distinct (map key (sort_slice (\<lambda>x y. key x < key y) ys))" using assms(2) ys by simp_all
  show "set (sort_slice (\<lambda>x y. key x < key y) xs) = set (sort_slice (\<lambda>x y. key x < key y) ys)"
    by (simp add: set_eq)
qed

lemma filter_sort_desc:
  "filter P (sort_slice (\<lambda>x y. key y < key x) xs) = sort_slice (\<lambda>x y. key y < key x) (filter P xs)"
proof -
  have "(\<lambda>x y. key y < key x) = by_key_desc" by (simp add: fun_eq_iff by_key_desc_def)
  with desc.filter_sort_slice [of P xs] show ?thesis by simp
qed

end

text \<open>\<open>sort.Strings\<close>: Go compares strings bytewise, the order of \<open>List_Lexorder\<close> on bytes.\<close>

definition sort_strings :: "string list \<Rightarrow> string list" where
  "sort_strings = sort_slice (\<lambda>x y. x < y)"

interpretation str_key: key_less "\<lambda>s::string. s"
  by unfold_locales

lemma sort_strings_sorted [sort_simps]: "sorted (sort_strings xs)"
  using str_key.sorted_by_key [of xs] by (simp add: sort_strings_def)

lemma sort_strings_set [simp, sort_simps]: "set (sort_strings xs) = set xs"
  by (simp add: sort_strings_def)

lemma sort_strings_distinct [simp, sort_simps]: "distinct (sort_strings xs) = distinct xs"
  by (simp add: sort_strings_def)

lemma sort_strings_length [simp, sort_simps]: "length (sort_strings xs) = length xs"
  by (simp add: sort_strings_def)

lemma sort_strings_mset [sort_simps]: "mset (sort_strings xs) = mset xs"
  by (simp add: sort_strings_def mset_sort_slice)

section \<open>Maps kept as association lists\<close>

lemma alist_update_in: "kv \<in> set (AList.update k v al) \<Longrightarrow> kv = (k, v) \<or> kv \<in> set al"
  by (induction al) (auto split: if_splits)

lemma alist_update_dom: "fst ` set (AList.update k v al) = insert k (fst ` set al)"
  by (simp add: dom_update)

text \<open>\<open>for _, x := range xs { m[id(x)] = x }\<close> with distinct ids, on an empty map.\<close>

lemma alist_update_new: "k \<notin> fst ` set al \<Longrightarrow> AList.update k v al = al @ [(k, v)]"
  by (induction al) auto

lemma foldl_update_new:
  "distinct (map key xs) \<Longrightarrow> (\<forall>x \<in> set xs. key x \<notin> fst ` set m) \<Longrightarrow>
     foldl (\<lambda>m x. AList.update (key x) x m) m xs = m @ map (\<lambda>x. (key x, x)) xs"
proof (induction xs arbitrary: m)
  case Nil
  then show ?case by simp
next
  case (Cons x xs)
  have "foldl (\<lambda>m x. AList.update (key x) x m) (m @ [(key x, x)]) xs =
      (m @ [(key x, x)]) @ map (\<lambda>x. (key x, x)) xs"
    using Cons.prems by (intro Cons.IH) (auto simp: image_iff)
  with Cons.prems show ?case by (simp add: alist_update_new)
qed

section \<open>Bounded rings\<close>

text \<open>
  \<open>s.calls = append(s.calls, c)\<close> followed by
  \<open>if len(s.calls) > ringMax { s.calls = s.calls[len(s.calls)-ringMax:] }\<close>, in the general form
  that appends a slice.
\<close>

definition ring_extend :: "nat \<Rightarrow> 'a list \<Rightarrow> 'a list \<Rightarrow> 'a list" where
  "ring_extend cap ys xs =
     (let zs = xs @ ys in if length zs > cap then drop (length zs - cap) zs else zs)"

definition ring_push :: "nat \<Rightarrow> 'a \<Rightarrow> 'a list \<Rightarrow> 'a list" where
  "ring_push cap x xs = ring_extend cap [x] xs"

text \<open>The listing loop: newest first, kept by a filter, at most \<open>limit\<close> results.\<close>

definition ring_newest :: "('a \<Rightarrow> bool) \<Rightarrow> nat \<Rightarrow> 'a list \<Rightarrow> 'a list" where
  "ring_newest P limit xs = take limit (filter P (rev xs))"

lemma ring_extend_alt: "ring_extend cap ys xs = drop (length xs + length ys - cap) (xs @ ys)"
  by (simp add: ring_extend_def Let_def)

lemma length_ring_extend [ring_simps]: "length (ring_extend cap ys xs) \<le> cap"
  by (simp add: ring_extend_alt)

lemma set_ring_extend: "set (ring_extend cap ys xs) \<subseteq> set xs \<union> set ys"
  by (auto simp: ring_extend_alt dest: in_set_dropD)

lemma suffix_ring_extend [ring_simps]: "suffix (ring_extend cap ys xs) (xs @ ys)"
  unfolding ring_extend_alt by (rule suffix_drop)

lemma length_ring_push [ring_simps]: "length (ring_push cap x xs) \<le> cap"
  by (simp add: ring_push_def length_ring_extend)

lemma ring_push_alt: "ring_push cap x xs = drop (Suc (length xs) - cap) (xs @ [x])"
  by (simp add: ring_push_def ring_extend_alt)

lemma ring_push_room: "length xs < cap \<Longrightarrow> ring_push cap x xs = xs @ [x]"
  by (simp add: ring_push_alt)

lemma ring_push_full: "length xs = cap \<Longrightarrow> 0 < cap \<Longrightarrow> ring_push cap x xs = tl xs @ [x]"
  by (cases xs) (auto simp: ring_push_alt)

lemma set_ring_push: "set (ring_push cap x xs) \<subseteq> insert x (set xs)"
  using set_ring_extend [of cap "[x]" xs] by (auto simp: ring_push_def)

lemma last_ring_push [ring_simps]: "0 < cap \<Longrightarrow> last (ring_push cap x xs) = x"
  by (simp add: ring_push_alt)

lemma ring_push_in [ring_simps]: "0 < cap \<Longrightarrow> x \<in> set (ring_push cap x xs)"
  by (simp add: ring_push_alt)

lemma length_ring_newest: "length (ring_newest P limit xs) \<le> limit"
  by (simp add: ring_newest_def)

lemma set_ring_newest: "set (ring_newest P limit xs) \<subseteq> {x \<in> set xs. P x}"
  by (auto simp: ring_newest_def dest: in_set_takeD)

text \<open>
  The ring as a component relies on it: an operation that appends, a bound, and what is kept.
  After any run of appends the ring holds exactly the newest \<open>cap\<close> of what was written.
\<close>

locale bounded_ring =
  fixes cap :: nat
    and push :: "'a \<Rightarrow> 'a list \<Rightarrow> 'a list"
  assumes cap_pos: "0 < cap"
    and push_eq: "push x xs = drop (Suc (length xs) - cap) (xs @ [x])"
begin

lemma push_bounded: "length (push x xs) \<le> cap"
  by (simp add: push_eq)

lemma push_newest: "last (push x xs) = x" and push_nonempty: "push x xs \<noteq> []"
  using cap_pos by (simp_all add: push_eq)

lemma fold_push_keeps_newest:
  "length xs \<le> cap \<Longrightarrow> fold push ys xs = drop (length xs + length ys - cap) (xs @ ys)"
proof (induction ys arbitrary: xs)
  case Nil
  then show ?case by simp
next
  case (Cons y ys)
  show ?case
  proof (cases "length xs < cap")
    case True
    then show ?thesis using Cons.IH [of "xs @ [y]"] by (simp add: push_eq)
  next
    case False
    with Cons.prems cap_pos obtain z zs where xs: "xs = z # zs" and len: "length zs + 1 = cap"
      by (cases xs) auto
    have "fold push (y # ys) xs = fold push ys (zs @ [y])"
      using len by (simp add: xs push_eq)
    also have "\<dots> = drop (length ys) (zs @ y # ys)"
      using Cons.IH [of "zs @ [y]"] by (simp flip: len del: drop_append)
    also have "\<dots> = drop (length xs + length (y # ys) - cap) (xs @ y # ys)"
      by (simp add: xs flip: len del: drop_append)
    finally show ?thesis .
  qed
qed

lemma fold_push_bounded: "length xs \<le> cap \<Longrightarrow> length (fold push ys xs) \<le> cap"
  by (simp add: fold_push_keeps_newest)

end

end
