(* ===== verification/Go_Strings.thy ===== *)
theory Go_Strings
  imports Prelude
begin

text \<open>
  The functions of Go's \<open>strings\<close>, \<open>unicode/utf8\<close>, \<open>strconv\<close> and \<open>fmt\<close> packages that the
  modelled code calls, on byte strings. Separators and cut sets are ASCII in every call, so a
  byte-level definition computes what the rune-level library does. Lower-casing is the library's
  own two-way split: an all-ASCII string is mapped bytewise, any other goes through the Unicode
  tables, which are the argument \<open>ulow\<close> of every definition that needs them.
\<close>

abbreviation byte :: "char \<Rightarrow> nat" where
  "byte c \<equiv> of_char c"

abbreviation chr :: "nat \<Rightarrow> char" where
  "chr n \<equiv> char_of n"

section \<open>Prefixes, suffixes, search\<close>

definition has_prefix :: "string \<Rightarrow> string \<Rightarrow> bool" where
  "has_prefix s p \<longleftrightarrow> take (length p) s = p"

definition has_suffix :: "string \<Rightarrow> string \<Rightarrow> bool" where
  "has_suffix s p \<longleftrightarrow> length p \<le> length s \<and> drop (length s - length p) s = p"

definition trim_prefix :: "string \<Rightarrow> string \<Rightarrow> string" where
  "trim_prefix s p = (if has_prefix s p then drop (length p) s else s)"

definition trim_suffix :: "string \<Rightarrow> string \<Rightarrow> string" where
  "trim_suffix s p = (if has_suffix s p then take (length s - length p) s else s)"

fun contains :: "string \<Rightarrow> string \<Rightarrow> bool" where
  "contains [] p = (p = [])"
| "contains (c # cs) p = (has_prefix (c # cs) p \<or> contains cs p)"

definition contains_any :: "string \<Rightarrow> string \<Rightarrow> bool" where
  "contains_any s cs = list_ex (\<lambda>c. c \<in> set cs) s"

lemma has_prefix_iff: "has_prefix s p \<longleftrightarrow> prefix p s"
  by (metis append_take_drop_id has_prefix_def prefix_def append_eq_conv_conj)

lemma has_prefix_append [simp]: "has_prefix (p @ s) p"
  by (simp add: has_prefix_def)

lemma trim_prefix_append [simp]: "trim_prefix (p @ s) p = s"
  by (simp add: trim_prefix_def)

lemma contains_prefix: "has_prefix s p \<Longrightarrow> contains s p"
  by (cases s) (auto simp: has_prefix_def)

lemma contains_iff: "contains s p \<longleftrightarrow> (\<exists>a b. s = a @ p @ b)"
proof (induction s)
  case Nil
  then show ?case by auto
next
  case (Cons c cs)
  show ?case
  proof
    assume "contains (c # cs) p"
    then consider "prefix p (c # cs)" | "contains cs p" by (auto simp: has_prefix_iff)
    then show "\<exists>a b. c # cs = a @ p @ b"
    proof cases
      case 1
      then obtain b where "c # cs = [] @ p @ b" by (auto simp: prefix_def)
      then show ?thesis by blast
    next
      case 2
      then obtain a b where "c # cs = (c # a) @ p @ b" using Cons.IH by auto
      then show ?thesis by blast
    qed
  next
    assume "\<exists>a b. c # cs = a @ p @ b"
    then obtain a b where ab: "c # cs = a @ p @ b" by blast
    show "contains (c # cs) p"
    proof (cases a)
      case Nil
      with ab show ?thesis by (metis append_Nil contains_prefix has_prefix_append)
    next
      case (Cons x a')
      with ab have "cs = a' @ p @ b" by simp
      with Cons.IH show ?thesis by auto
    qed
  qed
qed

section \<open>Cutting, splitting and joining\<close>

text \<open>\<open>strings.Cut\<close>, \<open>strings.Split\<close> and \<open>strings.SplitN\<close> at a one-byte separator.\<close>

definition cut :: "char \<Rightarrow> string \<Rightarrow> (string \<times> string) option" where
  "cut c s = (if c \<in> set s then Some (takeWhile (\<lambda>x. x \<noteq> c) s, tl (dropWhile (\<lambda>x. x \<noteq> c) s))
              else None)"

fun split_on :: "char \<Rightarrow> string \<Rightarrow> string list" where
  "split_on c [] = [[]]"
| "split_on c (x # xs) =
     (if x = c then [] # split_on c xs
      else (case split_on c xs of [] \<Rightarrow> [[x]] | y # ys \<Rightarrow> (x # y) # ys))"

fun split_n :: "nat \<Rightarrow> char \<Rightarrow> string \<Rightarrow> string list" where
  "split_n 0 c s = []"
| "split_n (Suc 0) c s = [s]"
| "split_n (Suc (Suc n)) c s =
     (case cut c s of None \<Rightarrow> [s] | Some (a, b) \<Rightarrow> a # split_n (Suc n) c b)"

fun join :: "string \<Rightarrow> string list \<Rightarrow> string" where
  "join sep [] = []"
| "join sep [s] = s"
| "join sep (s # t # ts) = s @ sep @ join sep (t # ts)"

lemma cut_append: "c \<notin> set a \<Longrightarrow> cut c (a @ c # b) = Some (a, b)"
proof -
  assume "c \<notin> set a"
  then have "takeWhile (\<lambda>x. x \<noteq> c) (a @ c # b) = a"
    and "dropWhile (\<lambda>x. x \<noteq> c) (a @ c # b) = c # b"
    by (induction a) auto
  then show ?thesis by (simp add: cut_def)
qed

lemma cut_Some: "cut c s = Some (a, b) \<Longrightarrow> s = a @ c # b \<and> c \<notin> set a"
proof -
  assume h: "cut c s = Some (a, b)"
  then obtain u v where s: "s = u @ c # v" and u: "c \<notin> set u"
    by (auto simp: cut_def split: if_splits dest: split_list_first)
  with h have "a = u" and "b = v" by (simp_all add: cut_append)
  with s u show ?thesis by simp
qed

lemma split_on_not_Nil [simp]: "split_on c s \<noteq> []"
  by (cases s) (auto split: list.splits)

lemma split_on_join: "join [c] (split_on c s) = s"
proof (induction s)
  case Nil
  then show ?case by simp
next
  case (Cons x xs)
  obtain y ys where y: "split_on c xs = y # ys" by (cases "split_on c xs") auto
  with Cons show ?case by (cases ys) auto
qed

lemma split_on_no_sep: "p \<in> set (split_on c s) \<Longrightarrow> c \<notin> set p"
  by (induction s arbitrary: p) (auto split: if_splits list.splits)

lemma split_on_append_sep: "split_on c (a @ c # b) = split_on c a @ split_on c b"
  by (induction a) (auto split: list.splits)

lemma split_on_single: "c \<notin> set s \<Longrightarrow> split_on c s = [s]"
  by (induction s) auto

lemma split_on_append:
  "split_on c (a @ b) = butlast (split_on c a) @ (last (split_on c a) @ hd (split_on c b)) # tl (split_on c b)"
proof (induction a)
  case Nil
  then show ?case by (cases "split_on c b") auto
next
  case (Cons x xs)
  obtain y ys where y: "split_on c xs = y # ys" by (cases "split_on c xs") auto
  with Cons show ?case by (cases ys) auto
qed

section \<open>Case and white space\<close>

definition is_ascii :: "string \<Rightarrow> bool" where
  "is_ascii s = list_all (\<lambda>c. byte c < 128) s"

definition ascii_lower :: "char \<Rightarrow> char" where
  "ascii_lower c = (if 65 \<le> byte c \<and> byte c \<le> 90 then chr (byte c + 32) else c)"

definition to_lower :: "(string \<Rightarrow> string) \<Rightarrow> string \<Rightarrow> string" where
  "to_lower ulow s = (if is_ascii s then map ascii_lower s else ulow s)"

text \<open>The encodings of the code points for which \<open>unicode.IsSpace\<close> holds.\<close>

definition space_encodings :: "string list" where
  "space_encodings =
     map (\<lambda>n. [chr n]) [9, 10, 11, 12, 13, 32] @
     map (\<lambda>n. [chr 0xC2, chr n]) [0x85, 0xA0] @
     [[chr 0xE1, chr 0x9A, chr 0x80]] @
     map (\<lambda>n. [chr 0xE2, chr 0x80, chr n])
       [0x80, 0x81, 0x82, 0x83, 0x84, 0x85, 0x86, 0x87, 0x88, 0x89, 0x8A, 0xA8, 0xA9, 0xAF] @
     [[chr 0xE2, chr 0x81, chr 0x9F], [chr 0xE3, chr 0x80, chr 0x80]]"

fun trim_left_by :: "string list \<Rightarrow> string \<Rightarrow> string" where
  "trim_left_by es [] = []"
| "trim_left_by es (c # cs) =
     (case find (\<lambda>e. e \<noteq> [] \<and> has_prefix (c # cs) e) es of
        None \<Rightarrow> c # cs
      | Some e \<Rightarrow> trim_left_by es (drop (length e - 1) cs))"

definition trim_space :: "string \<Rightarrow> string" where
  "trim_space s = rev (trim_left_by (map rev space_encodings) (rev (trim_left_by space_encodings s)))"

lemma trim_left_by_keep:
  assumes "\<And>e. e \<in> set es \<Longrightarrow> e \<noteq> [] \<and> hd e \<noteq> c"
  shows "trim_left_by es (c # cs) = c # cs"
proof -
  have "find (\<lambda>e. e \<noteq> [] \<and> has_prefix (c # cs) e) es = None"
    using assms by (fastforce simp: find_None_iff has_prefix_def neq_Nil_conv)
  then show ?thesis by simp
qed

lemma space_encodings_ends:
  "e \<in> set space_encodings \<Longrightarrow> e \<noteq> [] \<and> (byte (hd e) \<le> 32 \<or> 128 \<le> byte (hd e)) \<and> (byte (last e) \<le> 32 \<or> 128 \<le> byte (last e))"
  by (auto simp: space_encodings_def)

text \<open>A string with printable ASCII ends is trimmed already.\<close>

lemma trim_space_printable:
  assumes "33 \<le> byte (hd s)" and "byte (hd s) \<le> 126" and "33 \<le> byte (last s)" and "byte (last s) \<le> 126" and "s \<noteq> []"
  shows "trim_space s = s"
proof -
  obtain c cs where s: "s = c # cs" using assms(5) by (cases s) auto
  have "trim_left_by space_encodings (c # cs) = c # cs"
    by (rule trim_left_by_keep) (use assms s space_encodings_ends in fastforce)
  moreover obtain d ds where r: "rev (c # cs) = d # ds" by (cases "rev (c # cs)") auto
  have "last s = d" using r s by (metis hd_rev list.sel(1))
  have "trim_left_by (map rev space_encodings) (d # ds) = d # ds"
  proof (rule trim_left_by_keep)
    fix e assume "e \<in> set (map rev space_encodings)"
    then obtain f where f: "f \<in> set space_encodings" "e = rev f" by auto
    with space_encodings_ends [OF f(1)] assms(3,4) \<open>last s = d\<close> show "e \<noteq> [] \<and> hd e \<noteq> d"
      by (auto simp: hd_rev)
  qed
  ultimately show ?thesis using r by (simp add: trim_space_def s) (metis rev_rev_ident s rev.simps(2))
qed

lemma trim_space_Nil [simp]: "trim_space [] = []"
  by (simp add: trim_space_def)

section \<open>Runes\<close>

text \<open>
  \<open>utf8.DecodeRuneInString\<close>: the code point and its width; an ill-formed sequence is
  U+FFFD of width one.
\<close>

definition in_byte_range :: "nat \<Rightarrow> nat \<Rightarrow> char \<Rightarrow> bool" where
  "in_byte_range lo hi c \<longleftrightarrow> lo \<le> byte c \<and> byte c \<le> hi"

definition rune_error :: nat where
  "rune_error = 0xFFFD"

fun decode2 :: "nat \<Rightarrow> string \<Rightarrow> nat \<times> nat" where
  "decode2 b0 (c1 # _) =
     (if in_byte_range 0x80 0xBF c1 then ((b0 - 0xC0) * 64 + (byte c1 - 0x80), 2) else (rune_error, 1))"
| "decode2 b0 _ = (rune_error, 1)"

fun decode3 :: "nat \<Rightarrow> nat \<Rightarrow> nat \<Rightarrow> string \<Rightarrow> nat \<times> nat" where
  "decode3 b0 lo hi (c1 # c2 # _) =
     (if in_byte_range lo hi c1 \<and> in_byte_range 0x80 0xBF c2
      then ((b0 - 0xE0) * 4096 + (byte c1 - 0x80) * 64 + (byte c2 - 0x80), 3) else (rune_error, 1))"
| "decode3 b0 lo hi _ = (rune_error, 1)"

fun decode4 :: "nat \<Rightarrow> nat \<Rightarrow> nat \<Rightarrow> string \<Rightarrow> nat \<times> nat" where
  "decode4 b0 lo hi (c1 # c2 # c3 # _) =
     (if in_byte_range lo hi c1 \<and> in_byte_range 0x80 0xBF c2 \<and> in_byte_range 0x80 0xBF c3
      then ((b0 - 0xF0) * 262144 + (byte c1 - 0x80) * 4096 + (byte c2 - 0x80) * 64 + (byte c3 - 0x80), 4)
      else (rune_error, 1))"
| "decode4 b0 lo hi _ = (rune_error, 1)"

definition decode_rune :: "char \<Rightarrow> string \<Rightarrow> nat \<times> nat" where
  "decode_rune c cs =
     (let b = byte c in
      if b < 0x80 then (b, 1)
      else if 0xC2 \<le> b \<and> b \<le> 0xDF then decode2 b cs
      else if b = 0xE0 then decode3 b 0xA0 0xBF cs
      else if b = 0xED then decode3 b 0x80 0x9F cs
      else if 0xE1 \<le> b \<and> b \<le> 0xEF then decode3 b 0x80 0xBF cs
      else if b = 0xF0 then decode4 b 0x90 0xBF cs
      else if b = 0xF4 then decode4 b 0x80 0x8F cs
      else if 0xF1 \<le> b \<and> b \<le> 0xF3 then decode4 b 0x80 0xBF cs
      else (rune_error, 1))"

text \<open>\<open>for i, r := range s\<close>: the runes of a string with their byte offsets.\<close>

fun range_runes :: "nat \<Rightarrow> string \<Rightarrow> (nat \<times> nat) list" where
  "range_runes i [] = []"
| "range_runes i (c # cs) =
     (case decode_rune c cs of (r, w) \<Rightarrow> (i, r) # range_runes (i + w) (drop (w - 1) cs))"

definition runes :: "string \<Rightarrow> nat list" where
  "runes s = map snd (range_runes 0 s)"

lemma decode_rune_width: "1 \<le> snd (decode_rune c cs) \<and> snd (decode_rune c cs) \<le> Suc (length cs)"
proof -
  have 2: "1 \<le> snd (decode2 b cs) \<and> snd (decode2 b cs) \<le> Suc (length cs)" for b
    by (cases "(b, cs)" rule: decode2.cases) auto
  have 3: "1 \<le> snd (decode3 b lo hi cs) \<and> snd (decode3 b lo hi cs) \<le> Suc (length cs)" for b lo hi
    by (cases "(b, lo, hi, cs)" rule: decode3.cases) auto
  have 4: "1 \<le> snd (decode4 b lo hi cs) \<and> snd (decode4 b lo hi cs) \<le> Suc (length cs)" for b lo hi
    by (cases "(b, lo, hi, cs)" rule: decode4.cases) auto
  show ?thesis by (simp add: decode_rune_def Let_def 2 [simplified] 3 [simplified] 4 [simplified])
qed

lemma range_runes_ascii: "is_ascii s \<Longrightarrow> range_runes i s = zip [i..<i + length s] (map byte s)"
proof (induction s arbitrary: i)
  case Nil
  then show ?case by simp
next
  case (Cons c cs)
  then have "decode_rune c cs = (byte c, 1)" and "is_ascii cs"
    by (simp_all add: decode_rune_def Let_def is_ascii_def)
  with Cons.IH [of "Suc i"] show ?case by (simp add: upt_conv_Cons del: upt_Suc)
qed

lemma runes_ascii: "is_ascii s \<Longrightarrow> runes s = map byte s"
  by (simp add: runes_def range_runes_ascii)

text \<open>A scan of the runes that only acts on ASCII ones may read the bytes instead.\<close>

lemma decode_rune_multi:
  assumes "\<not> byte c < 128"
  shows "128 \<le> fst (decode_rune c cs) \<and>
    list_all (\<lambda>d. 128 \<le> byte d) (take (snd (decode_rune c cs) - 1) cs)"
proof -
  have 2: "0xC2 \<le> b \<Longrightarrow> 128 \<le> fst (decode2 b cs) \<and>
      list_all (\<lambda>d. 128 \<le> byte d) (take (snd (decode2 b cs) - 1) cs)" for b
    by (cases "(b, cs)" rule: decode2.cases) (auto simp: in_byte_range_def rune_error_def)
  have 3: "0xE1 \<le> b \<or> 0xA0 \<le> lo \<Longrightarrow> 128 \<le> lo \<Longrightarrow> 128 \<le> fst (decode3 b lo hi cs) \<and>
      list_all (\<lambda>d. 128 \<le> byte d) (take (snd (decode3 b lo hi cs) - 1) cs)" for b lo hi
    by (cases "(b, lo, hi, cs)" rule: decode3.cases)
      (auto simp: in_byte_range_def rune_error_def numeral_2_eq_2)
  have 4: "0xF1 \<le> b \<or> 0x90 \<le> lo \<Longrightarrow> 128 \<le> lo \<Longrightarrow> 128 \<le> fst (decode4 b lo hi cs) \<and>
      list_all (\<lambda>d. 128 \<le> byte d) (take (snd (decode4 b lo hi cs) - 1) cs)" for b lo hi
    by (cases "(b, lo, hi, cs)" rule: decode4.cases)
      (auto simp: in_byte_range_def rune_error_def numeral_3_eq_3)
  have "fst (rune_error, 1::nat) \<ge> 128" by (simp add: rune_error_def)
  with assms show ?thesis
    by (simp add: decode_rune_def Let_def rune_error_def 2 [simplified] 3 [simplified] 4 [simplified])
qed

lemma filter_runes_ascii:
  assumes P: "\<And>r. P r \<Longrightarrow> r < 128"
  shows "filter P (runes s) = map byte (filter (\<lambda>c. P (byte c)) s)"
proof -
  have "filter P (map snd (range_runes i s)) = map byte (filter (\<lambda>c. P (byte c)) s)" for i
  proof (induction i s rule: range_runes.induct)
    case (1 i)
    then show ?case by simp
  next
    case (2 i c cs)
    obtain r w where d: "decode_rune c cs = (r, w)" by (cases "decode_rune c cs")
    have IH: "filter P (map snd (range_runes (i + w) (drop (w - 1) cs))) =
        map byte (filter (\<lambda>c. P (byte c)) (drop (w - 1) cs))"
      using "2.IH" [OF d [symmetric]] by simp
    show ?case
    proof (cases "byte c < 128")
      case True
      then have "r = byte c" and "w = 1" using d by (simp_all add: decode_rune_def Let_def)
      with IH d show ?thesis by simp
    next
      case False
      then have r: "128 \<le> r" and tk: "list_all (\<lambda>d. 128 \<le> byte d) (take (w - 1) cs)"
        using decode_rune_multi [of c cs] d by simp_all
      have skip: "filter (\<lambda>c. P (byte c)) (take (w - 1) cs) = []"
        using tk P by (auto simp: filter_empty_conv list_all_iff dest!: bspec) (meson leD)
      have "filter (\<lambda>c. P (byte c)) cs = filter (\<lambda>c. P (byte c)) (drop (w - 1) cs)"
        using skip by (metis append_Nil append_take_drop_id filter_append)
      moreover have "\<not> P r" and "\<not> P (byte c)" using r False P by (auto simp: not_less dest: leD)
      ultimately show ?thesis using IH d by simp
    qed
  qed
  then show ?thesis by (simp add: runes_def)
qed

section \<open>Slicing and formatting\<close>

text \<open>\<open>s[i:j]\<close>; \<open>None\<close> is the run-time panic of an index out of range.\<close>

definition go_slice :: "'a list \<Rightarrow> int \<Rightarrow> int \<Rightarrow> 'a list option" where
  "go_slice s i j = (if 0 \<le> i \<and> i \<le> j \<and> j \<le> int (length s)
                     then Some (take (nat j - nat i) (drop (nat i) s)) else None)"

definition go_index :: "'a list \<Rightarrow> int \<Rightarrow> 'a option" where
  "go_index s i = (if 0 \<le> i \<and> i < int (length s) then Some (s ! nat i) else None)"

lemma go_slice_Some [simp]:
  "0 \<le> i \<Longrightarrow> i \<le> j \<Longrightarrow> j \<le> int (length s) \<Longrightarrow> go_slice s i j = Some (take (nat j - nat i) (drop (nat i) s))"
  by (simp add: go_slice_def)

definition digit :: "nat \<Rightarrow> char" where
  "digit d = chr (48 + d)"

fun itoa :: "nat \<Rightarrow> string" where
  "itoa n = (if n < 10 then [digit n] else itoa (n div 10) @ [digit (n mod 10)])"

declare itoa.simps [simp del]

text \<open>\<open>%0wd\<close> of a number that is not negative.\<close>

definition pad_zero :: "nat \<Rightarrow> nat \<Rightarrow> string" where
  "pad_zero w n = (let s = itoa n in replicate (w - length s) (CHR ''0'') @ s)"

definition is_digit :: "char \<Rightarrow> bool" where
  "is_digit c \<longleftrightarrow> 48 \<le> byte c \<and> byte c \<le> 57"

definition digit_val :: "char \<Rightarrow> nat" where
  "digit_val c = byte c - 48"

lemma byte_digit [simp]: "d < 10 \<Longrightarrow> byte (digit d) = 48 + d"
  by (simp add: digit_def)

lemma is_digit_digit [simp]: "d < 10 \<Longrightarrow> is_digit (digit d)"
  by (simp add: is_digit_def)

lemma digit_val_digit [simp]: "d < 10 \<Longrightarrow> digit_val (digit d) = d"
  by (simp add: digit_val_def)

lemma digit_val_less: "is_digit c \<Longrightarrow> digit_val c < 10"
  unfolding is_digit_def digit_val_def by linarith

lemma digit_digit_val: "is_digit c \<Longrightarrow> digit (digit_val c) = c"
  by (simp add: is_digit_def digit_val_def digit_def)

lemma itoa_digits: "c \<in> set (itoa n) \<Longrightarrow> is_digit c"
proof (induction n rule: itoa.induct)
  case (1 n)
  then show ?case by (cases "n < 10") (auto simp: itoa.simps [of n])
qed

lemma itoa_not_Nil [simp]: "itoa n \<noteq> []"
  by (subst itoa.simps) simp

text \<open>Reading a digit string back: the left inverse of \<open>itoa\<close> and of padding.\<close>

definition dec_value :: "string \<Rightarrow> nat" where
  "dec_value s = foldl (\<lambda>n c. n * 10 + digit_val c) 0 s"

lemma foldl_dec_append: "foldl (\<lambda>n c. n * 10 + digit_val c) a (s @ [c]) =
    foldl (\<lambda>n c. n * 10 + digit_val c) a s * 10 + digit_val c"
  by simp

lemma dec_value_itoa [simp]: "dec_value (itoa n) = n"
proof (induction n rule: itoa.induct)
  case (1 n)
  show ?case
  proof (cases "n < 10")
    case True
    then show ?thesis by (simp add: itoa.simps [of n] dec_value_def)
  next
    case False
    with 1 have "dec_value (itoa n) = (n div 10) * 10 + n mod 10"
      by (simp add: itoa.simps [of n] dec_value_def)
    then show ?thesis by simp
  qed
qed

lemma itoa_inject [simp]: "itoa m = itoa n \<longleftrightarrow> m = n"
  by (metis dec_value_itoa)

lemma length_itoa_le: "n < 10 ^ Suc k \<Longrightarrow> length (itoa n) \<le> Suc k"
proof (induction k arbitrary: n)
  case 0
  then show ?case by (simp add: itoa.simps [of n])
next
  case (Suc k)
  then have "n div 10 < 10 ^ Suc k" by (simp add: less_mult_imp_div_less mult.commute)
  with Suc.IH show ?case by (subst itoa.simps) simp
qed

lemma length_pad_zero: "n < 10 ^ w \<Longrightarrow> 0 < w \<Longrightarrow> length (pad_zero w n) = w"
proof -
  assume "n < 10 ^ w" and "0 < w"
  then have "length (itoa n) \<le> w" using length_itoa_le [of n "w - 1"] by simp
  then show ?thesis by (simp add: pad_zero_def Let_def)
qed

lemma pad_zero_digits: "c \<in> set (pad_zero w n) \<Longrightarrow> is_digit c"
  by (auto simp: pad_zero_def Let_def is_digit_def dest: itoa_digits)

text \<open>\<open>hex.EncodeToString\<close>.\<close>

definition hex_digit :: "nat \<Rightarrow> char" where
  "hex_digit n = (if n < 10 then chr (48 + n) else chr (87 + n))"

definition hex_encode :: "string \<Rightarrow> string" where
  "hex_encode bs = concat (map (\<lambda>b. [hex_digit (byte b div 16), hex_digit (byte b mod 16)]) bs)"

definition is_hex_digit :: "char \<Rightarrow> bool" where
  "is_hex_digit c \<longleftrightarrow> is_digit c \<or> (97 \<le> byte c \<and> byte c \<le> 102)"

lemma hex_digit_is_hex: "n < 16 \<Longrightarrow> is_hex_digit (hex_digit n)"
  by (simp add: hex_digit_def is_hex_digit_def is_digit_def)

lemma hex_encode_hex: "c \<in> set (hex_encode bs) \<Longrightarrow> is_hex_digit c"
proof -
  assume "c \<in> set (hex_encode bs)"
  then obtain b :: char where "c = hex_digit (byte b div 16) \<or> c = hex_digit (byte b mod 16)"
    by (auto simp: hex_encode_def)
  moreover have "byte b < 256" by simp
  then have "byte b div 16 < 16" by linarith
  moreover have "byte b mod 16 < 16" by simp
  ultimately show ?thesis using hex_digit_is_hex by metis
qed

lemma length_hex_encode [simp]: "length (hex_encode bs) = 2 * length bs"
  by (induction bs) (auto simp: hex_encode_def)

end
