(* ===== verification/Spans.thy ===== *)
theory Spans
  imports Go_Strings
begin

text \<open>
  Detected spans (\<open>internal/gateway/detect/detector.go\<close>, type \<open>Span\<close>), the collapse of
  overlapping ones (\<open>Merge\<close>) and the rewriting of a text by its spans
  (\<open>internal/gateway/redact/mask.go\<close>, \<open>Mask\<close>). The lemmas show that \<open>Merge\<close> keeps exactly the
  covered bytes and returns disjoint ascending spans, and that \<open>Mask\<close>, which rewrites from the
  right, computes the left-to-right specification \<open>mask_ref\<close>.
\<close>

record Span =
  Start :: int
  End :: int
  Type :: string
  Confidence :: float64
  Detector :: string

definition span_less :: "Span \<Rightarrow> Span \<Rightarrow> bool" where
  "span_less a b = (if Start a \<noteq> Start b then Start a < Start b else End a > End b)"

interpretation span_order: go_less span_less
  by unfold_locales (auto simp: span_less_def split: if_splits)

section \<open>Merge\<close>

text \<open>The loop body for an overlapping span: the union wins the extent, the higher confidence the type.\<close>

definition absorb :: "Span \<Rightarrow> Span \<Rightarrow> Span" where
  "absorb lst sp =
     (let l1 = (if End sp > End lst then lst\<lparr>End := End sp\<rparr> else lst)
      in if Confidence sp > Confidence l1
         then l1\<lparr>Type := Type sp, Detector := Detector sp, Confidence := Confidence sp\<rparr>
         else l1)"

fun merge_loop :: "Span \<Rightarrow> Span list \<Rightarrow> Span list" where
  "merge_loop lst [] = [lst]"
| "merge_loop lst (sp # sps) =
     (if Start sp \<ge> End lst then lst # merge_loop sp sps else merge_loop (absorb lst sp) sps)"

definition Merge :: "Span list \<Rightarrow> Span list" where
  "Merge spans =
     (if length spans < 2 then spans
      else case sort_slice span_less spans of
             [] \<Rightarrow> []
           | sp # sps \<Rightarrow> merge_loop sp sps)"

definition covers :: "Span \<Rightarrow> int \<Rightarrow> bool" where
  "covers sp p \<longleftrightarrow> Start sp \<le> p \<and> p < End sp"

definition covered :: "Span list \<Rightarrow> int \<Rightarrow> bool" where
  "covered sps p \<longleftrightarrow> (\<exists>sp \<in> set sps. covers sp p)"

text \<open>The three contracts of a span list: ascending starts, disjointness, and being inside a text.\<close>

definition ascending :: "Span list \<Rightarrow> bool" where
  "ascending sps = sorted_wrt (\<lambda>a b. Start a \<le> Start b) sps"

definition disjoint_spans :: "Span list \<Rightarrow> bool" where
  "disjoint_spans sps = sorted_wrt (\<lambda>a b. End a \<le> Start b) sps"

definition span_in :: "string \<Rightarrow> Span \<Rightarrow> bool" where
  "span_in text sp \<longleftrightarrow> 0 \<le> Start sp \<and> Start sp \<le> End sp \<and> End sp \<le> int (length text)"

definition span_pos :: "string \<Rightarrow> Span \<Rightarrow> bool" where
  "span_pos text sp \<longleftrightarrow> 0 \<le> Start sp \<and> Start sp < End sp \<and> End sp \<le> int (length text)"

abbreviation nonempty :: "Span \<Rightarrow> bool" where
  "nonempty sp \<equiv> Start sp < End sp"

named_theorems span_simps \<open>projections of the span operations\<close>

lemma absorb_Start [simp, span_simps]: "Start (absorb lst sp) = Start lst"
  and absorb_End [simp, span_simps]: "End (absorb lst sp) = max (End lst) (End sp)"
  and absorb_Confidence [simp, span_simps]:
    "Confidence (absorb lst sp) = max (Confidence lst) (Confidence sp)"
  by (auto simp: absorb_def Let_def)

lemma absorb_typed:
  "(Type (absorb lst sp), Confidence (absorb lst sp)) \<in>
     {(Type lst, Confidence lst), (Type sp, Confidence sp)}"
  by (auto simp: absorb_def Let_def)

lemma covered_simps [simp, span_simps]:
  "covered [] p = False"
  "covered (sp # sps) p = (covers sp p \<or> covered sps p)"
  "covered (xs @ ys) p = (covered xs p \<or> covered ys p)"
  by (auto simp: covered_def)

lemma covers_absorb:
  assumes "Start lst \<le> Start sp" and "Start sp < End lst"
  shows "covers (absorb lst sp) p = (covers lst p \<or> covers sp p)"
  using assms by (auto simp: covers_def)

lemma ascending_sort: "ascending (sort_slice span_less spans)"
proof -
  have "sorted_wrt (\<lambda>a b. \<not> span_less b a) (sort_slice span_less spans)"
    by (rule span_order.sorted_sort_slice)
  then show ?thesis unfolding ascending_def
    by (rule sorted_wrt_mono_rel [rotated]) (auto simp: span_less_def split: if_splits)
qed

lemma ascending_absorb:
  "ascending (lst # sp # sps) \<Longrightarrow> ascending (absorb lst sp # sps)"
  by (simp add: ascending_def)

lemma covered_merge_loop:
  "ascending (lst # sps) \<Longrightarrow> covered (merge_loop lst sps) p = (covers lst p \<or> covered sps p)"
proof (induction lst sps rule: merge_loop.induct)
  case (1 lst)
  then show ?case by simp
next
  case (2 lst sp sps)
  show ?case
  proof (cases "Start sp \<ge> End lst")
    case True
    with 2 show ?thesis by (simp add: ascending_def)
  next
    case False
    with "2.prems" have "covers (absorb lst sp) p = (covers lst p \<or> covers sp p)"
      by (intro covers_absorb) (auto simp: ascending_def)
    with 2 False show ?thesis by (simp add: ascending_absorb)
  qed
qed

lemma merge_loop_starts: "ascending (lst # sps) \<Longrightarrow> sp \<in> set (merge_loop lst sps) \<Longrightarrow> Start lst \<le> Start sp"
proof (induction lst sps rule: merge_loop.induct)
  case (1 lst)
  then show ?case by simp
next
  case (2 lst x sps)
  then show ?case
    by (cases "Start x \<ge> End lst") (auto simp: ascending_def dest: order_trans)
qed

lemma disjoint_merge_loop: "ascending (lst # sps) \<Longrightarrow> disjoint_spans (merge_loop lst sps)"
proof (induction lst sps rule: merge_loop.induct)
  case (1 lst)
  then show ?case by (simp add: disjoint_spans_def)
next
  case (2 lst x sps)
  show ?case
  proof (cases "Start x \<ge> End lst")
    case True
    have "ascending (x # sps)" using "2.prems" by (simp add: ascending_def)
    then have "\<And>sp. sp \<in> set (merge_loop x sps) \<Longrightarrow> End lst \<le> Start sp"
      using True merge_loop_starts order_trans by blast
    with True 2 \<open>ascending (x # sps)\<close> show ?thesis by (simp add: disjoint_spans_def)
  next
    case False
    with 2 show ?thesis by (simp add: ascending_absorb)
  qed
qed

lemma ascending_merge_loop: "ascending (lst # sps) \<Longrightarrow> ascending (merge_loop lst sps)"
proof (induction lst sps rule: merge_loop.induct)
  case (1 lst)
  then show ?case by (simp add: ascending_def)
next
  case (2 lst x sps)
  show ?case
  proof (cases "Start x \<ge> End lst")
    case True
    have asc: "ascending (x # sps)" and "Start lst \<le> Start x"
      using "2.prems" by (simp_all add: ascending_def)
    then have "\<And>sp. sp \<in> set (merge_loop x sps) \<Longrightarrow> Start lst \<le> Start sp"
      using merge_loop_starts order_trans by blast
    with True 2 asc show ?thesis by (simp add: ascending_def)
  next
    case False
    with 2 show ?thesis by (simp add: ascending_absorb)
  qed
qed

text \<open>What every output span of the loop inherits from the inputs.\<close>

lemma merge_loop_all:
  assumes "P lst" and "\<And>sp. sp \<in> set sps \<Longrightarrow> P sp"
    and "\<And>a b. P a \<Longrightarrow> P b \<Longrightarrow> P (absorb a b)"
  shows "sp \<in> set (merge_loop lst sps) \<Longrightarrow> P sp"
  using assms(1,2)
proof (induction lst sps rule: merge_loop.induct)
  case (1 lst)
  then show ?case by simp
next
  case (2 lst x sps)
  then show ?case using assms(3) by (auto split: if_splits)
qed

lemma Merge_cases:
  obtains "length spans < 2" "Merge spans = spans"
  | sp sps where "sort_slice span_less spans = sp # sps" "Merge spans = merge_loop sp sps"
      "ascending (sp # sps)" "set (sp # sps) = set spans"
proof (cases "length spans < 2")
  case True
  with that(1) show ?thesis by (simp add: Merge_def)
next
  case False
  then have "sort_slice span_less spans \<noteq> []" by auto
  then obtain sp sps where s: "sort_slice span_less spans = sp # sps" by (cases "sort_slice span_less spans") auto
  moreover have "set (sp # sps) = set spans" by (metis s set_sort_slice)
  moreover have "ascending (sp # sps)" using ascending_sort [of spans] s by simp
  ultimately show ?thesis using that(2) False by (simp add: Merge_def)
qed

lemma short_spans: "length spans < 2 \<Longrightarrow> spans = [] \<or> (\<exists>sp. spans = [sp])"
  by (cases spans rule: list.exhaust) (auto simp: Suc_less_eq)

lemma Merge_covered: "covered (Merge spans) p = covered spans p"
proof (cases spans rule: Merge_cases)
  case 1
  then show ?thesis by simp
next
  case (2 sp sps)
  have "covered (Merge spans) p = covered (sp # sps) p"
    using 2 by (simp add: covered_merge_loop)
  also have "\<dots> = covered spans p" using 2(4) by (simp add: covered_def)
  finally show ?thesis .
qed

lemma Merge_disjoint: "disjoint_spans (Merge spans)"
proof (cases spans rule: Merge_cases)
  case 1
  then show ?thesis using short_spans [of spans] by (auto simp: disjoint_spans_def)
next
  case (2 sp sps)
  then show ?thesis by (simp add: disjoint_merge_loop)
qed

lemma Merge_ascending: "ascending (Merge spans)"
proof (cases spans rule: Merge_cases)
  case 1
  then show ?thesis using short_spans [of spans] by (auto simp: ascending_def)
next
  case (2 sp sps)
  then show ?thesis by (simp add: ascending_merge_loop)
qed

lemma Merge_all:
  assumes "\<And>sp. sp \<in> set spans \<Longrightarrow> P sp" and "\<And>a b. P a \<Longrightarrow> P b \<Longrightarrow> P (absorb a b)"
    and "sp \<in> set (Merge spans)"
  shows "P sp"
proof (cases spans rule: Merge_cases)
  case 1
  with assms show ?thesis by simp
next
  case (2 x sps)
  have "P x" and "\<And>sp. sp \<in> set sps \<Longrightarrow> P sp" using assms(1) 2(4) by auto
  with assms 2 show ?thesis by (auto intro: merge_loop_all [of P x sps])
qed

lemma Merge_span_in:
  assumes "\<And>sp. sp \<in> set spans \<Longrightarrow> span_in text sp" and "sp \<in> set (Merge spans)"
  shows "span_in text sp"
  by (rule Merge_all [where P = "span_in text", OF _ _ assms(2)])
    (auto simp: assms(1), auto simp: span_in_def)

lemma Merge_typed:
  assumes "sp \<in> set (Merge spans)"
  shows "(Type sp, Confidence sp) \<in> (\<lambda>s. (Type s, Confidence s)) ` set spans"
proof (rule Merge_all [where P = "\<lambda>sp. (Type sp, Confidence sp) \<in> (\<lambda>s. (Type s, Confidence s)) ` set spans", OF _ _ assms])
  fix a b :: Span
  assume "(Type a, Confidence a) \<in> (\<lambda>s. (Type s, Confidence s)) ` set spans"
    and "(Type b, Confidence b) \<in> (\<lambda>s. (Type s, Confidence s)) ` set spans"
  then show "(Type (absorb a b), Confidence (absorb a b)) \<in> (\<lambda>s. (Type s, Confidence s)) ` set spans"
    using absorb_typed [of a b] by auto
qed auto

lemma Merge_eq_Nil [simp]: "Merge spans = [] \<longleftrightarrow> spans = []"
proof (cases spans rule: Merge_cases)
  case 1
  then show ?thesis by simp
next
  case (2 sp sps)
  have "merge_loop x ys \<noteq> []" for x ys by (induction x ys rule: merge_loop.induct) auto
  with 2 show ?thesis by auto
qed

section \<open>Mask\<close>

definition mask_one :: "string \<Rightarrow> Span \<Rightarrow> string" where
  "mask_one text sp =
     (if Start sp < 0 \<or> End sp > int (length text) \<or> Start sp \<ge> End sp then text
      else take (nat (Start sp)) text @ ''['' @ Type sp @ '']'' @ drop (nat (End sp)) text)"

definition Mask :: "string \<Rightarrow> Span list \<Rightarrow> string" where
  "Mask text spans =
     (if spans = [] then text
      else foldl mask_one text (sort_slice (\<lambda>a b. Start a > Start b) spans))"

interpretation span_start: key_less Start
  by unfold_locales

text \<open>The specification: the gaps of the text and the placeholders, from the left.\<close>

fun mask_ref :: "string \<Rightarrow> nat \<Rightarrow> Span list \<Rightarrow> string" where
  "mask_ref text pos [] = drop pos text"
| "mask_ref text pos (sp # sps) =
     take (nat (Start sp) - pos) (drop pos text) @ ''['' @ Type sp @ '']'' @
     mask_ref text (nat (End sp)) sps"

lemma disjoint_strict:
  assumes "disjoint_spans spans" and "\<And>sp. sp \<in> set spans \<Longrightarrow> span_pos text sp"
  shows "sorted_wrt (\<lambda>a b. Start b > Start a) spans"
  using assms unfolding disjoint_spans_def
  by (induction spans) (force simp: span_pos_def)+

lemma foldl_mask_rev:
  assumes "disjoint_spans spans" and "\<And>sp. sp \<in> set spans \<Longrightarrow> span_pos text sp"
    and "\<And>sp. sp \<in> set spans \<Longrightarrow> int pos \<le> Start sp" and "pos \<le> length text"
  shows "foldl mask_one text (rev spans) = take pos text @ mask_ref text pos spans"
  using assms
proof (induction spans arbitrary: pos)
  case Nil
  then show ?case by simp
next
  case (Cons sp sps)
  have sp: "span_pos text sp" and pos: "int pos \<le> Start sp" using Cons.prems by auto
  define s e where "s = nat (Start sp)" and "e = nat (End sp)"
  have se: "Start sp = int s" "End sp = int e" "pos \<le> s" "s < e" "e \<le> length text"
    using sp pos by (auto simp: span_pos_def s_def e_def)
  have "foldl mask_one text (rev sps) = take e text @ mask_ref text e sps"
    using Cons.prems se by (intro Cons.IH) (auto simp: disjoint_spans_def)
  then have "foldl mask_one text (rev (sp # sps)) =
      take s text @ ''['' @ Type sp @ '']'' @ mask_ref text e sps"
    using se by (simp add: mask_one_def min_def)
  also have "take s text = take pos text @ take (s - pos) (drop pos text)"
    using se(3) by (metis le_add_diff_inverse take_add)
  finally show ?case using se by simp
qed

lemma Mask_ref_pos:
  assumes "disjoint_spans spans" and "\<And>sp. sp \<in> set spans \<Longrightarrow> span_pos text sp"
  shows "Mask text spans = mask_ref text 0 spans"
proof -
  have "sort_slice (\<lambda>a b. Start a > Start b) spans = rev spans"
    using disjoint_strict [OF assms] by (intro sort_slice_rev) simp
  moreover have "foldl mask_one text (rev spans) = mask_ref text 0 spans"
    using foldl_mask_rev [OF assms, of 0] assms(2) by (auto simp: span_pos_def)
  ultimately show ?thesis by (auto simp: Mask_def)
qed

text \<open>Two texts that agree outside the spans are masked to the same text.\<close>

lemma mask_ref_cong:
  assumes "length t1 = length t2"
    and "\<And>i. pos \<le> i \<Longrightarrow> i < length t1 \<Longrightarrow> \<not> covered spans (int i) \<Longrightarrow> t1 ! i = t2 ! i"
    and "disjoint_spans spans" and "\<And>sp. sp \<in> set spans \<Longrightarrow> span_pos t1 sp"
    and "\<And>sp. sp \<in> set spans \<Longrightarrow> int pos \<le> Start sp"
  shows "mask_ref t1 pos spans = mask_ref t2 pos spans"
  using assms
proof (induction spans arbitrary: pos)
  case Nil
  then show ?case by (auto intro!: nth_equalityI)
next
  case (Cons sp sps)
  define s e where "s = nat (Start sp)" and "e = nat (End sp)"
  have se: "Start sp = int s" "End sp = int e" "pos \<le> s" "s < e" "e \<le> length t1"
    using Cons.prems(4) [of sp] Cons.prems(5) [of sp] by (auto simp: span_pos_def s_def e_def)
  have later: "int e \<le> Start x" if "x \<in> set sps" for x
    using Cons.prems(3) that se by (simp add: disjoint_spans_def)
  have "take (s - pos) (drop pos t1) = take (s - pos) (drop pos t2)"
  proof (rule nth_equalityI)
    fix i assume "i < length (take (s - pos) (drop pos t1))"
    then have i: "pos + i < s" "pos + i < length t1" by auto
    have "\<not> covered (sp # sps) (int (pos + i))"
      using i later se by (force simp: covered_def covers_def)
    with Cons.prems(2) [of "pos + i"] i
    show "take (s - pos) (drop pos t1) ! i = take (s - pos) (drop pos t2) ! i"
      using Cons.prems(1) by simp
  qed (simp add: Cons.prems(1))
  moreover have "mask_ref t1 e sps = mask_ref t2 e sps"
  proof (rule Cons.IH)
    fix i assume i: "e \<le> i" "i < length t1" "\<not> covered sps (int i)"
    then have "\<not> covers sp (int i)" using se by (simp add: covers_def)
    with i Cons.prems(2) [of i] se show "t1 ! i = t2 ! i" by simp
  qed (use Cons.prems later in \<open>auto simp: disjoint_spans_def\<close>)
  ultimately show ?case using se by simp
qed

lemma Mask_noninterference_pos:
  assumes len: "length t1 = length t2"
    and agree: "\<And>i. i < length t1 \<Longrightarrow> \<not> covered spans (int i) \<Longrightarrow> t1 ! i = t2 ! i"
    and disj: "disjoint_spans spans" and inside: "\<And>sp. sp \<in> set spans \<Longrightarrow> span_pos t1 sp"
  shows "Mask t1 spans = Mask t2 spans"
proof -
  have inside2: "\<And>sp. sp \<in> set spans \<Longrightarrow> span_pos t2 sp" using inside len by (simp add: span_pos_def)
  have "mask_ref t1 0 spans = mask_ref t2 0 spans"
    using assms by (intro mask_ref_cong) (auto simp: span_pos_def)
  then show ?thesis using Mask_ref_pos disj inside inside2 by simp
qed

text \<open>Masking alone, with spans already disjoint: one placeholder per span, nothing else removed.\<close>

lemma length_mask_ref:
  assumes "disjoint_spans spans" and "\<And>sp. sp \<in> set spans \<Longrightarrow> span_pos text sp"
    and "\<And>sp. sp \<in> set spans \<Longrightarrow> int pos \<le> Start sp" and "pos \<le> length text"
  shows "int (length (mask_ref text pos spans)) + (\<Sum>sp\<leftarrow>spans. End sp - Start sp) =
    int (length text) - int pos + (\<Sum>sp\<leftarrow>spans. int (length (Type sp)) + 2)"
  using assms
proof (induction spans arbitrary: pos)
  case Nil
  then show ?case by simp
next
  case (Cons sp sps)
  define s e where "s = nat (Start sp)" and "e = nat (End sp)"
  have se: "Start sp = int s" "End sp = int e" "pos \<le> s" "s < e" "e \<le> length text"
    using Cons.prems(2) [of sp] Cons.prems(3) [of sp] by (auto simp: span_pos_def s_def e_def)
  have "int (length (mask_ref text e sps)) + (\<Sum>sp\<leftarrow>sps. End sp - Start sp) =
      int (length text) - int e + (\<Sum>sp\<leftarrow>sps. int (length (Type sp)) + 2)"
    using Cons.prems se by (intro Cons.IH) (auto simp: disjoint_spans_def)
  moreover have "min (length text - pos) (s - pos) = s - pos" using se by linarith
  ultimately show ?case using se by (simp add: of_nat_diff)
qed

lemma Mask_length_pos:
  assumes "disjoint_spans spans" and "\<And>sp. sp \<in> set spans \<Longrightarrow> span_pos text sp"
  shows "int (length (Mask text spans)) + (\<Sum>sp\<leftarrow>spans. End sp - Start sp) =
    int (length text) + (\<Sum>sp\<leftarrow>spans. int (length (Type sp)) + 2)"
proof -
  have "\<And>sp. sp \<in> set spans \<Longrightarrow> int 0 \<le> Start sp" using assms(2) by (auto simp: span_pos_def)
  with length_mask_ref [OF assms, of 0] show ?thesis by (simp add: Mask_ref_pos [OF assms])
qed

section \<open>Empty spans\<close>

text \<open>
  A pattern of a pack may match the empty string, so an engine may report an empty span.
  \<open>Mask\<close> skips it and it covers nothing: the facts above hold of the nonempty spans of a list.
\<close>

lemma Mask_nonempty: "Mask text spans = Mask text (filter nonempty spans)"
proof -
  have skip: "foldl mask_one t xs = foldl mask_one t (filter nonempty xs)" for t xs
    by (induction xs arbitrary: t) (auto simp: mask_one_def)
  have "filter nonempty (sort_slice (\<lambda>a b. Start b < Start a) spans) =
      sort_slice (\<lambda>a b. Start b < Start a) (filter nonempty spans)"
    using span_start.filter_sort_desc [of nonempty spans] .
  then have "foldl mask_one text (sort_slice (\<lambda>a b. Start a > Start b) spans) =
      foldl mask_one text (sort_slice (\<lambda>a b. Start a > Start b) (filter nonempty spans))"
    by (subst skip) simp
  then show ?thesis by (auto simp: Mask_def)
qed

lemma nonempty_pos:
  assumes "\<And>sp. sp \<in> set spans \<Longrightarrow> span_in text sp"
  shows "sp \<in> set (filter nonempty spans) \<Longrightarrow> span_pos text sp"
  using assms by (auto simp: span_in_def span_pos_def)

lemma disjoint_nonempty: "disjoint_spans spans \<Longrightarrow> disjoint_spans (filter nonempty spans)"
  unfolding disjoint_spans_def by (rule sorted_wrt_filter)

lemma covered_nonempty [simp]: "covered (filter nonempty spans) p = covered spans p"
  by (auto simp: covered_def covers_def)

lemma Mask_ref:
  assumes "disjoint_spans spans" and "\<And>sp. sp \<in> set spans \<Longrightarrow> span_in text sp"
  shows "Mask text spans = mask_ref text 0 (filter nonempty spans)"
  unfolding Mask_nonempty [of "text" spans]
  by (rule Mask_ref_pos [OF disjoint_nonempty [OF assms(1)] nonempty_pos [OF assms(2)]])

lemma Mask_noninterference:
  assumes "length t1 = length t2"
    and "\<And>i. i < length t1 \<Longrightarrow> \<not> covered spans (int i) \<Longrightarrow> t1 ! i = t2 ! i"
    and "disjoint_spans spans" and "\<And>sp. sp \<in> set spans \<Longrightarrow> span_in t1 sp"
  shows "Mask t1 spans = Mask t2 spans"
proof -
  have "Mask t1 (filter nonempty spans) = Mask t2 (filter nonempty spans)"
    using assms(1,2) disjoint_nonempty [OF assms(3)] nonempty_pos [OF assms(4)]
    by (intro Mask_noninterference_pos) auto
  then show ?thesis by (metis Mask_nonempty)
qed

lemma Mask_length:
  assumes "disjoint_spans spans" and "\<And>sp. sp \<in> set spans \<Longrightarrow> span_in text sp"
  shows "int (length (Mask text spans)) + (\<Sum>sp\<leftarrow>filter nonempty spans. End sp - Start sp) =
    int (length text) + (\<Sum>sp\<leftarrow>filter nonempty spans. int (length (Type sp)) + 2)"
  unfolding Mask_nonempty [of "text" spans]
  by (rule Mask_length_pos [OF disjoint_nonempty [OF assms(1)] nonempty_pos [OF assms(2)]])

end
