(* ===== verification/Validators.thy ===== *)
theory Validators
  imports Spans
begin

text \<open>
  The engine-independent validators of \<open>internal/gateway/detect/regex.go\<close> and the table
  \<open>typeGuards\<close> of \<open>detector.go\<close>. Each takes the text and the claimed offsets and returns
  \<open>None\<close> where the Go code would panic on an index out of range. The lemmas show that no
  validator panics on a span inside its text, and characterise what each accepts.
\<close>

section \<open>Hyphen adjacency\<close>

definition notHyphenAdjacent :: "string \<Rightarrow> int \<Rightarrow> int \<Rightarrow> bool option" where
  "notHyphenAdjacent text i j =
     do {
       left \<leftarrow> (if i > 0 then map_option (\<lambda>c. c = CHR ''-'') (go_index text (i - 1)) else Some False);
       if left then Some False
       else do {
         right \<leftarrow> (if j < int (length text) then map_option (\<lambda>c. c = CHR ''-'') (go_index text j)
                   else Some False);
         Some (\<not> right)
       }
     }"

section \<open>The Luhn checksum\<close>

text \<open>The loop over the digits from the right: \<open>double\<close> toggles, \<open>sum\<close> accumulates.\<close>

fun luhn_loop :: "nat list \<Rightarrow> bool \<Rightarrow> nat \<Rightarrow> nat" where
  "luhn_loop [] dbl acc = acc"
| "luhn_loop (d # ds) dbl acc =
     (let d' = (if dbl then (if d * 2 > 9 then d * 2 - 9 else d * 2) else d)
      in luhn_loop ds (\<not> dbl) (acc + d'))"

definition luhnValid :: "string \<Rightarrow> int \<Rightarrow> int \<Rightarrow> bool option" where
  "luhnValid text i j =
     do {
       ok \<leftarrow> notHyphenAdjacent text i j;
       if \<not> ok then Some False
       else do {
         sub \<leftarrow> go_slice text i j;
         let digits = map (\<lambda>r. r - 48) (filter (\<lambda>r. 48 \<le> r \<and> r \<le> 57) (runes sub));
         if length digits < 13 \<or> length digits > 19 then Some False
         else Some (luhn_loop (rev digits) False 0 mod 10 = 0)
       }
     }"

section \<open>Dotted quads\<close>

text \<open>\<open>n = n*10 + int(c-'0')\<close> over the runes of a part, in 64-bit arithmetic.\<close>

definition octet_value :: "string \<Rightarrow> int" where
  "octet_value part = foldl (\<lambda>n r. wrap64 (n * 10 + (int r - 48))) 0 (runes part)"

definition octet_ok :: "string \<Rightarrow> bool" where
  "octet_ok part \<longleftrightarrow>
     \<not> (length part > 1 \<and> hd part = CHR ''0'') \<and> \<not> octet_value part > 255"

definition validOctets :: "string \<Rightarrow> int \<Rightarrow> int \<Rightarrow> bool option" where
  "validOctets text i j =
     do {
       sub \<leftarrow> go_slice text i j;
       Some (list_all octet_ok (split_on (CHR ''.'') sub))
     }"

section \<open>IBAN check digits\<close>

fun iban_loop :: "nat list \<Rightarrow> nat \<Rightarrow> nat option" where
  "iban_loop [] rem = Some rem"
| "iban_loop (c # cs) rem =
     (if 48 \<le> c \<and> c \<le> 57 then iban_loop cs ((rem * 10 + (c - 48)) mod 97)
      else if 65 \<le> c \<and> c \<le> 90 then iban_loop cs ((rem * 100 + (c - 65 + 10)) mod 97)
      else None)"

definition ibanMod97 :: "string \<Rightarrow> int \<Rightarrow> int \<Rightarrow> bool option" where
  "ibanMod97 text i j =
     do {
       s \<leftarrow> go_slice text i j;
       if length s < 15 then Some False
       else Some (case iban_loop (runes (drop 4 s @ take 4 s)) 0 of
                    None \<Rightarrow> False
                  | Some rem \<Rightarrow> rem = 1)
     }"

section \<open>The guard table\<close>

definition typeGuards :: "string \<Rightarrow> (string \<Rightarrow> int \<Rightarrow> int \<Rightarrow> bool option) option" where
  "typeGuards =
     [''SSN'' \<mapsto> notHyphenAdjacent,
      ''CREDIT_CARD'' \<mapsto> luhnValid,
      ''IP'' \<mapsto> validOctets,
      ''IBAN'' \<mapsto> ibanMod97,
      ''ADDRESS'' \<mapsto> notHyphenAdjacent]"

section \<open>What the validators accept\<close>

text \<open>Inside a text no validator panics, so a guard's verdict is a boolean.\<close>

lemma go_index_Some [simp]: "0 \<le> i \<Longrightarrow> i < int (length s) \<Longrightarrow> go_index s i = Some (s ! nat i)"
  by (simp add: go_index_def)

lemma notHyphenAdjacent_inside:
  assumes "0 \<le> i" and "i \<le> j" and "j \<le> int (length text)"
  shows "notHyphenAdjacent text i j =
    Some (\<not> (i > 0 \<and> text ! nat (i - 1) = CHR ''-'') \<and>
          \<not> (j < int (length text) \<and> text ! nat j = CHR ''-''))"
  using assms by (auto simp: notHyphenAdjacent_def)

lemma guard_total:
  assumes "0 \<le> i" and "i \<le> j" and "j \<le> int (length text)"
  shows "\<exists>b. notHyphenAdjacent text i j = Some b" "\<exists>b. luhnValid text i j = Some b"
    "\<exists>b. validOctets text i j = Some b" "\<exists>b. ibanMod97 text i j = Some b"
  using assms notHyphenAdjacent_inside [OF assms]
  by (auto simp: luhnValid_def validOctets_def ibanMod97_def Let_def)

lemma typeGuards_total:
  assumes "typeGuards typ = Some guard" and "span_in text sp"
  shows "\<exists>b. guard text (Start sp) (End sp) = Some b"
proof -
  have "0 \<le> Start sp" "Start sp \<le> End sp" "End sp \<le> int (length text)"
    using assms(2) by (auto simp: span_in_def)
  from guard_total [OF this] assms(1) show ?thesis
    by (auto simp: typeGuards_def split: if_splits)
qed

text \<open>The Luhn sum as a sum over positions from the right.\<close>

definition luhn_weight :: "nat \<Rightarrow> nat \<Rightarrow> nat" where
  "luhn_weight k d = (if even k then d else if d * 2 > 9 then d * 2 - 9 else d * 2)"

lemma luhn_loop_sum:
  "luhn_loop ds dbl s =
     s + (\<Sum>(k, d)\<leftarrow>enumerate (if dbl then Suc 0 else 0) ds. luhn_weight k d)"
proof -
  have shift: "(\<Sum>(k, d)\<leftarrow>enumerate (Suc (Suc n)) ds. luhn_weight k d) =
      (\<Sum>(k, d)\<leftarrow>enumerate n ds. luhn_weight k d)" for n and ds :: "nat list"
    by (induction ds arbitrary: n) (auto simp: luhn_weight_def)
  show ?thesis
  proof (induction ds arbitrary: dbl s)
    case Nil
    then show ?case by simp
  next
    case (Cons d ds)
    then show ?case using shift [of 0 ds]
      by (cases dbl) (simp_all add: luhn_weight_def Let_def)
  qed
qed

text \<open>On decimal digits the fold computes the decimal value as long as it fits.\<close>

lemma dec_runes:
  assumes "list_all is_digit s"
  shows "map (\<lambda>r. int r - 48) (runes s) = map (\<lambda>c. int (digit_val c)) s"
proof -
  have "is_ascii s" using assms by (auto simp: is_ascii_def list_all_iff is_digit_def)
  then have "runes s = map byte s" by (rule runes_ascii)
  then show ?thesis using assms
    by (auto simp: digit_val_def is_digit_def list_all_iff of_nat_diff)
qed

lemma foldl_dec_bound:
  "list_all is_digit s \<Longrightarrow> foldl (\<lambda>n c. n * 10 + digit_val c) a s < (a + 1) * 10 ^ length s"
proof (induction s arbitrary: a)
  case Nil
  then show ?case by simp
next
  case (Cons c cs)
  then have "digit_val c < 10" by (simp add: digit_val_less)
  then have "a * 10 + digit_val c + 1 \<le> (a + 1) * 10" by simp
  then have "(a * 10 + digit_val c + 1) * 10 ^ length cs \<le> (a + 1) * 10 * 10 ^ length cs"
    by (rule mult_right_mono) simp
  moreover have "foldl (\<lambda>n c. n * 10 + digit_val c) (a * 10 + digit_val c) cs
      < (a * 10 + digit_val c + 1) * 10 ^ length cs"
    using Cons by simp
  ultimately have "foldl (\<lambda>n c. n * 10 + digit_val c) (a * 10 + digit_val c) cs
      < (a + 1) * 10 * 10 ^ length cs"
    by (rule order.strict_trans2 [rotated])
  then show ?case by (simp only: foldl_Cons length_Cons power_Suc mult.assoc)
qed

lemma octet_value_digits:
  assumes "list_all is_digit s" and "length s \<le> 18"
  shows "octet_value s = int (dec_value s)"
proof -
  define f where "f = (\<lambda>n r. wrap64 (n * 10 + (int r - 48)))"
  have "foldl f (int a) (runes t) = int (foldl (\<lambda>n c. n * 10 + digit_val c) a t)"
    if "list_all is_digit t" and "(a + 1) * 10 ^ length t \<le> 10 ^ 18" for a t
    using that
  proof (induction t arbitrary: a)
    case Nil
    then show ?case by (simp add: runes_def)
  next
    case (Cons c cs)
    have asc: "is_ascii (c # cs)" and asc': "is_ascii cs"
      using Cons.prems by (auto simp: is_ascii_def list_all_iff is_digit_def)
    have d: "is_digit c" "digit_val c < 10" using Cons.prems by (simp_all add: digit_val_less)
    have grow: "(a * 10 + digit_val c + 1) * 10 ^ length cs \<le> (a + 1) * 10 ^ length (c # cs)"
      using d by (simp add: algebra_simps)
    have "(a * 10 + digit_val c + 1) * 1 \<le> (a * 10 + digit_val c + 1) * 10 ^ length cs"
      by (rule mult_le_mono2) simp
    also note grow
    also note Cons.prems(2)
    finally have small: "a * 10 + digit_val c < 10 ^ 18" by simp
    have v: "int (byte c) - 48 = int (digit_val c)" using d by (simp add: digit_val_def is_digit_def)
    have "f (int a) (byte c) = int (a * 10 + digit_val c)"
      unfolding f_def v using small by (simp add: wrap64_def)
    moreover have "foldl f (int (a * 10 + digit_val c)) (runes cs) =
        int (foldl (\<lambda>n c. n * 10 + digit_val c) (a * 10 + digit_val c) cs)"
      using Cons.prems grow by (intro Cons.IH) auto
    ultimately show ?case using asc asc' by (simp add: runes_ascii)
  qed
  note fold = this
  have "(10::nat) ^ length s \<le> 10 ^ 18" using assms(2) by (rule power_increasing) simp
  then have "(0 + 1) * (10::nat) ^ length s \<le> 10 ^ 18" by (simp only: add_0 mult_1)
  from fold [OF assms(1) this]
  have "foldl f 0 (runes s) = int (foldl (\<lambda>n c. n * 10 + digit_val c) 0 s)"
    by (simp only: of_nat_0)
  then show ?thesis by (simp add: octet_value_def f_def dec_value_def)
qed

text \<open>
  ISO 13616: a letter stands for its value from 10 to 35. The remainder loop computes the decimal
  number so written, modulo 97.
\<close>

definition iban_char :: "char \<Rightarrow> bool" where
  "iban_char c \<longleftrightarrow> is_digit c \<or> (65 \<le> byte c \<and> byte c \<le> 90)"

definition iban_expand :: "string \<Rightarrow> string" where
  "iban_expand s = concat (map (\<lambda>c. if is_digit c then [c] else itoa (byte c - 55)) s)"

lemma foldl_dec_itoa2:
  assumes "10 \<le> n" and "n < 100"
  shows "foldl (\<lambda>n c. n * 10 + digit_val c) a (itoa n) = a * 100 + n"
proof -
  have "itoa n = [digit (n div 10), digit (n mod 10)]"
    using assms by (simp add: itoa.simps [of n] itoa.simps [of "n div 10"] less_mult_imp_div_less)
  with assms show ?thesis by (simp add: less_mult_imp_div_less)
qed

lemma foldl_dec_mod:
  "foldl (\<lambda>n c. n * 10 + digit_val c) (a mod 97) xs mod 97 = foldl (\<lambda>n c. n * 10 + digit_val c) a xs mod 97"
proof (induction xs rule: rev_induct)
  case Nil
  then show ?case by simp
next
  case (snoc x xs)
  then show ?case by (metis (no_types, lifting) foldl_dec_append mod_add_left_eq mod_mult_left_eq)
qed

lemma iban_loop_value:
  "list_all iban_char s \<Longrightarrow> r < 97 \<Longrightarrow>
     iban_loop (map byte s) r = Some (foldl (\<lambda>n c. n * 10 + digit_val c) r (iban_expand s) mod 97)"
proof (induction s arbitrary: r)
  case Nil
  then show ?case by (simp add: iban_expand_def)
next
  case (Cons c cs)
  let ?dec = "foldl (\<lambda>n c. n * 10 + digit_val c)"
  show ?case
  proof (cases "is_digit c")
    case True
    then have "48 \<le> byte c \<and> byte c \<le> 57" and v: "byte c - 48 = digit_val c"
      by (simp_all add: is_digit_def digit_val_def)
    then have "iban_loop (map byte (c # cs)) r = iban_loop (map byte cs) ((r * 10 + digit_val c) mod 97)" by simp
    also have "\<dots> = Some (?dec ((r * 10 + digit_val c) mod 97) (iban_expand cs) mod 97)"
      using Cons.prems by (intro Cons.IH) auto
    finally show ?thesis using True by (simp add: foldl_dec_mod) (simp add: iban_expand_def)
  next
    case False
    then have c: "65 \<le> byte c" "byte c \<le> 90" using Cons.prems by (auto simp: iban_char_def)
    then have "byte c - 65 + 10 = byte c - 55" by linarith
    with c have "iban_loop (map byte (c # cs)) r = iban_loop (map byte cs) ((r * 100 + (byte c - 55)) mod 97)"
      by simp
    also have "\<dots> = Some (?dec ((r * 100 + (byte c - 55)) mod 97) (iban_expand cs) mod 97)"
      using Cons.prems by (intro Cons.IH) auto
    also have "\<dots> = Some (?dec (?dec r (itoa (byte c - 55))) (iban_expand cs) mod 97)"
      using c by (subst foldl_dec_itoa2) (auto simp: foldl_dec_mod)
    finally show ?thesis using False by (simp add: iban_expand_def)
  qed
qed

text \<open>The slice a validator looks at, and the three validators on the shapes the recognizers admit.\<close>

definition slice :: "string \<Rightarrow> int \<Rightarrow> int \<Rightarrow> string" where
  "slice text i j = take (nat j - nat i) (drop (nat i) text)"

lemma ibanMod97_value:
  assumes "0 \<le> i" and "i \<le> j" and "j \<le> int (length text)"
    and "list_all iban_char (slice text i j)" and "15 \<le> length (slice text i j)"
  shows "ibanMod97 text i j =
    Some (dec_value (iban_expand (drop 4 (slice text i j) @ take 4 (slice text i j))) mod 97 = 1)"
proof -
  let ?s = "slice text i j" and ?r = "drop 4 (slice text i j) @ take 4 (slice text i j)"
  have r: "list_all iban_char ?r"
    using assms(4) by (auto simp: list_all_iff dest: in_set_takeD in_set_dropD)
  then have "is_ascii ?r" unfolding is_ascii_def
    by (rule list.pred_mono_strong) (auto simp: iban_char_def is_digit_def)
  then have "iban_loop (runes ?r) 0 = Some (dec_value (iban_expand ?r) mod 97)"
    using iban_loop_value [OF r, of 0] by (simp add: runes_ascii dec_value_def)
  moreover have "go_slice text i j = Some ?s" using assms(1-3) by (simp add: slice_def)
  ultimately show ?thesis using assms(5) by (simp add: ibanMod97_def)
qed

lemma validOctets_value:
  assumes "0 \<le> i" and "i \<le> j" and "j \<le> int (length text)"
    and "\<And>part. part \<in> set (split_on (CHR ''.'') (slice text i j)) \<Longrightarrow> list_all is_digit part \<and> length part \<le> 18"
  shows "validOctets text i j =
    Some (\<forall>part \<in> set (split_on (CHR ''.'') (slice text i j)).
            dec_value part \<le> 255 \<and> \<not> (length part > 1 \<and> hd part = CHR ''0''))"
proof -
  have "octet_ok part \<longleftrightarrow> dec_value part \<le> 255 \<and> \<not> (length part > 1 \<and> hd part = CHR ''0'')"
    if "part \<in> set (split_on (CHR ''.'') (slice text i j))" for part
    using octet_value_digits [of part] assms(4) [OF that] by (auto simp: octet_ok_def)
  moreover have "go_slice text i j = Some (slice text i j)" using assms(1-3) by (simp add: slice_def)
  ultimately show ?thesis by (simp add: validOctets_def list_all_iff)
qed

text \<open>The Luhn digits of a slice, and the effect of changing one digit.\<close>

definition luhn_digits :: "string \<Rightarrow> nat list" where
  "luhn_digits s = map digit_val (filter is_digit s)"

lemma luhn_digits_runes: "map (\<lambda>r. r - 48) (filter (\<lambda>r. 48 \<le> r \<and> r \<le> 57) (runes s)) = luhn_digits s"
proof -
  have "filter (\<lambda>r. 48 \<le> r \<and> r \<le> 57) (runes s) = map byte (filter (\<lambda>c. 48 \<le> byte c \<and> byte c \<le> 57) s)"
    by (rule filter_runes_ascii) simp
  then show ?thesis by (simp add: luhn_digits_def is_digit_def [abs_def] digit_val_def [abs_def] comp_def)
qed

definition luhn_ok :: "nat list \<Rightarrow> bool" where
  "luhn_ok ds \<longleftrightarrow> 13 \<le> length ds \<and> length ds \<le> 19 \<and> luhn_loop (rev ds) False 0 mod 10 = 0"

lemma luhnValid_ok:
  assumes "0 \<le> i" and "i \<le> j" and "j \<le> int (length text)"
  shows "luhnValid text i j =
    Some (notHyphenAdjacent text i j = Some True \<and> luhn_ok (luhn_digits (slice text i j)))"
proof -
  obtain b where b: "notHyphenAdjacent text i j = Some b" using guard_total(1) [OF assms] by blast
  have "go_slice text i j = Some (slice text i j)" using assms by (simp add: slice_def)
  with b show ?thesis
    by (cases b) (simp_all add: luhnValid_def luhn_digits_runes luhn_ok_def Let_def not_less not_le)
qed

lemma luhn_double_inj:
  assumes "(if x * 2 > 9 then x * 2 - 9 else x * 2) = (if y * 2 > 9 then y * 2 - 9 else y * (2::nat))"
  shows "x = y"
proof (cases "x * 2 > 9"; cases "y * 2 > 9")
  assume "x * 2 > 9" "y * 2 > 9" then show ?thesis using assms by simp
next
  assume a: "x * 2 > 9" "\<not> y * 2 > 9"
  then have "x * 2 = y * 2 + 9" using assms by simp
  then show ?thesis by presburger
next
  assume a: "\<not> x * 2 > 9" "y * 2 > 9"
  then have "y * 2 = x * 2 + 9" using assms by simp
  then show ?thesis by presburger
next
  assume "\<not> x * 2 > 9" "\<not> y * 2 > 9" then show ?thesis using assms by simp
qed

lemma luhn_weight_inj:
  assumes "x < 10" and "y < 10" and "luhn_weight k x mod 10 = luhn_weight k y mod 10"
  shows "x = y"
proof -
  have small: "luhn_weight k z mod 10 = luhn_weight k z" if "z < 10" for z
    using that by (auto simp: luhn_weight_def)
  have eq: "luhn_weight k x = luhn_weight k y" using assms small by simp
  show ?thesis
  proof (cases "even k")
    case True
    then show ?thesis using eq by (simp add: luhn_weight_def)
  next
    case False
    then have double: "luhn_weight k z = (if z * 2 > 9 then z * 2 - 9 else z * 2)" for z
      unfolding luhn_weight_def by (rule if_not_P)
    show ?thesis by (rule luhn_double_inj [OF eq [unfolded double]])
  qed
qed

lemma mod10_cancel:
  assumes "(s + a) mod 10 = 0" and "(s + b) mod 10 = (0::nat)"
  shows "a mod 10 = b mod 10"
proof -
  have "(s + a) mod 10 = (s + b) mod 10" using assms by simp
  then show ?thesis unfolding nat_mod_eq_iff by auto
qed

lemma luhn_change_digit:
  assumes "luhn_ok (a @ x # b)" and "x < 10" and "y < 10" and "x \<noteq> y"
  shows "\<not> luhn_ok (a @ y # b)"
proof
  assume "luhn_ok (a @ y # b)"
  let ?k = "length b"
  have split: "luhn_loop (rev (a @ z # b)) False 0 =
      (\<Sum>(k, d)\<leftarrow>enumerate 0 (rev b). luhn_weight k d) + luhn_weight ?k z +
      (\<Sum>(k, d)\<leftarrow>enumerate (Suc ?k) (rev a). luhn_weight k d)" for z
    by (simp add: luhn_loop_sum enumerate_append_eq)
  define S where "S = (\<Sum>(k, d)\<leftarrow>enumerate 0 (rev b). luhn_weight k d) +
      (\<Sum>(k, d)\<leftarrow>enumerate (Suc ?k) (rev a). luhn_weight k d)"
  have "(S + luhn_weight ?k x) mod 10 = 0" "(S + luhn_weight ?k y) mod 10 = 0"
    using assms(1) \<open>luhn_ok (a @ y # b)\<close> split [of x] split [of y]
    by (simp_all add: luhn_ok_def S_def ac_simps)
  then have "luhn_weight ?k x mod 10 = luhn_weight ?k y mod 10"
    by (rule mod10_cancel)
  with assms(2-4) luhn_weight_inj show False by blast
qed

end
