(* ===== verification/Chain.thy ===== *)
theory Chain
  imports Validators
begin

text \<open>
  The chain of \<open>internal/gateway/detect/detector.go\<close>: engines run in order, each span checked by
  the guard of its claimed type and against the allow list of the pattern pack, the survivors
  merged, one error per failed engine. An engine is a name and a function from a text to an error
  message or spans, \<open>None\<close> where it would panic; the context and its timeout are part of that
  function.
\<close>

section \<open>Pattern rules\<close>

record PatternRule =
  rule_ID :: string
  rule_Type :: string
  rule_Kind :: string
  rule_Regex :: string
  rule_DenyList :: "string list"
  rule_AllowList :: "string list"
  rule_Threshold :: float64
  rule_Context :: "string list"
  rule_Confidence :: float64

definition isRegex :: "PatternRule \<Rightarrow> bool" where
  "isRegex r \<longleftrightarrow> rule_Kind r = [] \<or> rule_Kind r = ''regex''"

section \<open>Engines and the chain\<close>

record Engine =
  Name :: string
  Detect :: "string \<Rightarrow> (string + Span list) option"

text \<open>\<open>allow\<close> is \<open>None\<close> until the first pattern pack is stored.\<close>

record Chain =
  Detectors :: "Engine list"
  allow :: "(string \<rightharpoonup> string set) option"

definition add_allow ::
    "(string \<Rightarrow> string) \<Rightarrow> (string \<rightharpoonup> string set) \<Rightarrow> PatternRule \<Rightarrow> (string \<rightharpoonup> string set)" where
  "add_allow ulow m r =
     (if rule_Kind r \<noteq> ''allow_list'' \<or> rule_AllowList r = [] then m
      else (let known = (case m (rule_Type r) of None \<Rightarrow> {} | Some terms \<Rightarrow> terms)
            in m(rule_Type r \<mapsto>
                 foldl (\<lambda>terms term. insert (to_lower ulow term) terms) known (rule_AllowList r))))"

definition Chain_SetPatternPack :: "(string \<Rightarrow> string) \<Rightarrow> PatternRule list \<Rightarrow> Chain \<Rightarrow> Chain" where
  "Chain_SetPatternPack ulow rules c =
     c\<lparr>allow := Some (foldl (add_allow ulow) (\<lambda>_. None) rules)\<rparr>"

definition allowed :: "(string \<Rightarrow> string) \<Rightarrow> Chain \<Rightarrow> string \<Rightarrow> string \<Rightarrow> bool" where
  "allowed ulow c typ sub =
     (case allow c of
        None \<Rightarrow> False
      | Some m \<Rightarrow> (case m typ of None \<Rightarrow> False | Some terms \<Rightarrow> to_lower ulow sub \<in> terms))"

text \<open>The verdict on one span of an engine: \<open>None\<close> where slicing or a guard would panic.\<close>

definition keep_span :: "(string \<Rightarrow> string) \<Rightarrow> Chain \<Rightarrow> string \<Rightarrow> Span \<Rightarrow> bool option" where
  "keep_span ulow c text sp =
     do {
       guarded \<leftarrow> (case typeGuards (Type sp) of
                     None \<Rightarrow> Some True
                   | Some guard \<Rightarrow> guard text (Start sp) (End sp));
       if \<not> guarded then Some False
       else if Start sp \<ge> 0 \<and> End sp \<le> int (length text) then do {
         sub \<leftarrow> go_slice text (Start sp) (End sp);
         Some (\<not> allowed ulow c (Type sp) sub)
       }
       else Some True
     }"

fun keep_spans :: "(string \<Rightarrow> string) \<Rightarrow> Chain \<Rightarrow> string \<Rightarrow> Span list \<Rightarrow> Span list option" where
  "keep_spans ulow c text [] = Some []"
| "keep_spans ulow c text (sp # sps) =
     do {
       keep \<leftarrow> keep_span ulow c text sp;
       rest \<leftarrow> keep_spans ulow c text sps;
       Some (if keep then sp # rest else rest)
     }"

fun run_engines ::
    "(string \<Rightarrow> string) \<Rightarrow> Chain \<Rightarrow> string \<Rightarrow> Engine list \<Rightarrow> (Span list \<times> string list) option" where
  "run_engines ulow c text [] = Some ([], [])"
| "run_engines ulow c text (d # ds) =
     do {
       result \<leftarrow> Detect d text;
       case result of
         Inl err \<Rightarrow> do {
           (all, errs) \<leftarrow> run_engines ulow c text ds;
           Some (all, (Name d @ '': '' @ err) # errs)
         }
       | Inr spans \<Rightarrow> do {
           kept \<leftarrow> keep_spans ulow c text spans;
           (all, errs) \<leftarrow> run_engines ulow c text ds;
           Some (kept @ all, errs)
         }
     }"

definition Chain_Run ::
    "(string \<Rightarrow> string) \<Rightarrow> Chain \<Rightarrow> string \<Rightarrow> (Span list \<times> string list) option" where
  "Chain_Run ulow c text =
     do {
       (all, errs) \<leftarrow> run_engines ulow c text (Detectors c);
       Some (Merge all, errs)
     }"

section \<open>The engine contract\<close>

text \<open>
  What the chain relies on from an engine: it does not panic, and the spans of a successful run
  lie inside the text it was given. Under it no guard and no slice panics.
\<close>

definition engine_ok :: "Engine \<Rightarrow> bool" where
  "engine_ok d \<longleftrightarrow>
     (\<forall>text. Detect d text \<noteq> None \<and>
        (\<forall>spans. Detect d text = Some (Inr spans) \<longrightarrow> (\<forall>sp \<in> set spans. span_in text sp)))"

definition chain_ok :: "Chain \<Rightarrow> bool" where
  "chain_ok c \<longleftrightarrow> (\<forall>d \<in> set (Detectors c). engine_ok d)"

lemma keep_span_inside:
  assumes "span_in text sp"
  shows "\<exists>b. keep_span ulow c text sp = Some b"
proof -
  have sp: "0 \<le> Start sp" "Start sp \<le> End sp" "End sp \<le> int (length text)"
    using assms by (auto simp: span_in_def)
  show ?thesis
  proof (cases "typeGuards (Type sp)")
    case None
    with sp show ?thesis by (simp add: keep_span_def)
  next
    case (Some guard)
    from typeGuards_total [OF Some assms] obtain b where "guard text (Start sp) (End sp) = Some b" ..
    with Some sp show ?thesis by (simp add: keep_span_def) (metis (full_types))
  qed
qed

lemma keep_spans_filter:
  assumes "\<And>sp. sp \<in> set sps \<Longrightarrow> span_in text sp"
  shows "keep_spans ulow c text sps = Some (filter (\<lambda>sp. keep_span ulow c text sp = Some True) sps)"
  using assms
proof (induction sps)
  case Nil
  then show ?case by simp
next
  case (Cons sp sps)
  have "span_in text sp" using Cons.prems by simp
  then obtain b where "keep_span ulow c text sp = Some b" by (rule keep_span_inside [THEN exE])
  with Cons show ?case by auto
qed

text \<open>The result of the loop in closed form, which every property below reads off.\<close>

definition engine_spans :: "string \<Rightarrow> Engine list \<Rightarrow> Span list" where
  "engine_spans text ds = concat (map (\<lambda>d. case Detect d text of Some (Inr spans) \<Rightarrow> spans | _ \<Rightarrow> []) ds)"

definition engine_errs :: "string \<Rightarrow> Engine list \<Rightarrow> string list" where
  "engine_errs text ds =
     concat (map (\<lambda>d. case Detect d text of Some (Inl err) \<Rightarrow> [Name d @ '': '' @ err] | _ \<Rightarrow> []) ds)"

lemma run_engines_closed:
  assumes "\<And>d. d \<in> set ds \<Longrightarrow> engine_ok d"
  shows "run_engines ulow c text ds =
    Some (filter (\<lambda>sp. keep_span ulow c text sp = Some True) (engine_spans text ds), engine_errs text ds)"
  using assms
proof (induction ds)
  case Nil
  then show ?case by (simp add: engine_spans_def engine_errs_def)
next
  case (Cons d ds)
  have "Detect d text \<noteq> None" using Cons.prems [of d] by (simp add: engine_ok_def)
  then obtain result where d: "Detect d text = Some result" by auto
  show ?case
  proof (cases result)
    case (Inl err)
    with d Cons show ?thesis by (simp add: engine_spans_def engine_errs_def)
  next
    case (Inr spans)
    with d have "\<And>sp. sp \<in> set spans \<Longrightarrow> span_in text sp"
      using Cons.prems [of d] by (simp add: engine_ok_def)
    with d Inr Cons show ?thesis by (simp add: keep_spans_filter engine_spans_def engine_errs_def)
  qed
qed

lemma Chain_Run_closed:
  assumes "chain_ok c"
  shows "Chain_Run ulow c text =
    Some (Merge (filter (\<lambda>sp. keep_span ulow c text sp = Some True) (engine_spans text (Detectors c))),
          engine_errs text (Detectors c))"
  using assms by (simp add: Chain_Run_def chain_ok_def run_engines_closed)

lemma engine_spans_in:
  assumes "chain_ok c" and "sp \<in> set (engine_spans text (Detectors c))"
  shows "span_in text sp"
proof -
  obtain d where "d \<in> set (Detectors c)" "sp \<in> set (case Detect d text of Some (Inr spans) \<Rightarrow> spans | _ \<Rightarrow> [])"
    using assms(2) by (auto simp: engine_spans_def)
  moreover from this obtain spans where "Detect d text = Some (Inr spans)" "sp \<in> set spans"
    by (cases "Detect d text"; cases "the (Detect d text)") auto
  ultimately show ?thesis using assms(1) by (auto simp: chain_ok_def engine_ok_def)
qed

lemma Chain_Run_span_in:
  assumes "chain_ok c" and "Chain_Run ulow c text = Some (spans, errs)" and "sp \<in> set spans"
  shows "span_in text sp"
proof (rule Merge_span_in)
  show "sp \<in> set (Merge (filter (\<lambda>sp. keep_span ulow c text sp = Some True) (engine_spans text (Detectors c))))"
    using assms by (auto simp: Chain_Run_closed)
qed (use assms(1) engine_spans_in in auto)

lemma Chain_Run_disjoint:
  assumes "chain_ok c" and "Chain_Run ulow c text = Some (spans, errs)"
  shows "disjoint_spans spans"
  using assms by (auto simp: Chain_Run_closed Merge_disjoint)

text \<open>A kept span passed its guard and is not an allow-listed term.\<close>

lemma keep_span_True:
  assumes "keep_span ulow c text sp = Some True" and "span_in text sp"
  shows "case typeGuards (Type sp) of None \<Rightarrow> True | Some guard \<Rightarrow> guard text (Start sp) (End sp) = Some True"
    and "\<not> allowed ulow c (Type sp) (take (nat (End sp) - nat (Start sp)) (drop (nat (Start sp)) text))"
proof -
  have sp: "0 \<le> Start sp" "Start sp \<le> End sp" "End sp \<le> int (length text)"
    using assms(2) by (auto simp: span_in_def)
  show "case typeGuards (Type sp) of None \<Rightarrow> True | Some guard \<Rightarrow> guard text (Start sp) (End sp) = Some True"
    using assms(1) by (auto simp: keep_span_def split: option.splits Option.bind_splits if_splits)
  show "\<not> allowed ulow c (Type sp) (take (nat (End sp) - nat (Start sp)) (drop (nat (Start sp)) text))"
    using assms(1) sp by (auto simp: keep_span_def split: Option.bind_splits if_splits)
qed

section \<open>The allow list\<close>

lemma foldl_insert_lower: "foldl (\<lambda>terms term. insert (f term) terms) A ts = A \<union> f ` set ts"
  by (induction ts arbitrary: A) auto

lemma foldl_add_allow:
  "term \<in> (case foldl (add_allow ulow) m rules typ of None \<Rightarrow> {} | Some terms \<Rightarrow> terms) \<longleftrightarrow>
     term \<in> (case m typ of None \<Rightarrow> {} | Some terms \<Rightarrow> terms) \<or>
     (\<exists>r \<in> set rules. rule_Kind r = ''allow_list'' \<and> rule_Type r = typ \<and>
        term \<in> to_lower ulow ` set (rule_AllowList r))"
proof (induction rules arbitrary: m)
  case Nil
  then show ?case by simp
next
  case (Cons r rules)
  have "term \<in> (case add_allow ulow m r typ of None \<Rightarrow> {} | Some terms \<Rightarrow> terms) \<longleftrightarrow>
      term \<in> (case m typ of None \<Rightarrow> {} | Some terms \<Rightarrow> terms) \<or>
      (rule_Kind r = ''allow_list'' \<and> rule_Type r = typ \<and> term \<in> to_lower ulow ` set (rule_AllowList r))"
    by (auto simp: add_allow_def Let_def foldl_insert_lower split: option.splits)
  with Cons show ?case by auto
qed

lemma allowed_SetPatternPack:
  "allowed ulow (Chain_SetPatternPack ulow rules c) typ sub \<longleftrightarrow>
     (\<exists>r \<in> set rules. rule_Kind r = ''allow_list'' \<and> rule_Type r = typ \<and>
        to_lower ulow sub \<in> to_lower ulow ` set (rule_AllowList r))"
proof -
  have "allowed ulow (Chain_SetPatternPack ulow rules c) typ sub \<longleftrightarrow>
      to_lower ulow sub \<in> (case foldl (add_allow ulow) (\<lambda>_. None) rules typ of None \<Rightarrow> {} | Some terms \<Rightarrow> terms)"
    by (simp add: allowed_def Chain_SetPatternPack_def split: option.splits)
  then show ?thesis by (simp add: foldl_add_allow)
qed

end
