(* ===== verification/Regexp.thy ===== *)
theory Regexp
  imports Chain
begin

text \<open>
  The fragment of Go's \<open>regexp\<close> that the built-in recognizers of
  \<open>internal/gateway/detect/regex.go\<close> use: ASCII character classes, sequence, alternation, counted
  and unbounded repetition, and \<open>\b\<close>. \<open>ends\<close> lists the ends of the matches at a position in the
  order of preference of the leftmost-first semantics, \<open>find_all\<close> is \<open>FindAllStringIndex\<close>.
  Repeated expressions of the recognizers never match the empty string, so an iteration always
  advances. \<open>matches\<close> says declaratively what an expression matches.
\<close>

datatype Re =
    Cls "(nat \<times> nat) list"
  | Seq Re Re
  | Alt Re Re
  | Rep Re nat "nat option"
  | WordB

definition in_class :: "(nat \<times> nat) list \<Rightarrow> char \<Rightarrow> bool" where
  "in_class rs c = list_ex (\<lambda>(lo, hi). lo \<le> byte c \<and> byte c \<le> hi) rs"

definition word_char :: "char \<Rightarrow> bool" where
  "word_char c = in_class [(48, 57), (65, 90), (95, 95), (97, 122)] c"

definition word_boundary :: "string \<Rightarrow> nat \<Rightarrow> bool" where
  "word_boundary t i \<longleftrightarrow>
     (0 < i \<and> i \<le> length t \<and> word_char (t ! (i - 1))) \<noteq> (i < length t \<and> word_char (t ! i))"

fun rep_ends :: "(nat \<Rightarrow> nat list) \<Rightarrow> nat \<Rightarrow> nat \<Rightarrow> nat \<Rightarrow> nat list" where
  "rep_ends f lo 0 i = (if lo = 0 then [i] else [])"
| "rep_ends f lo (Suc n) i =
     concat (map (\<lambda>j. if i < j then rep_ends f (lo - 1) n j else []) (f i)) @
     (if lo = 0 then [i] else [])"

fun ends :: "Re \<Rightarrow> string \<Rightarrow> nat \<Rightarrow> nat list" where
  "ends (Cls rs) t i = (if i < length t \<and> in_class rs (t ! i) then [Suc i] else [])"
| "ends (Seq a b) t i = concat (map (ends b t) (ends a t i))"
| "ends (Alt a b) t i = ends a t i @ ends b t i"
| "ends (Rep a lo hi) t i =
     rep_ends (ends a t) lo (case hi of None \<Rightarrow> length t | Some h \<Rightarrow> h) i"
| "ends WordB t i = (if word_boundary t i then [i] else [])"

function find_from :: "Re \<Rightarrow> string \<Rightarrow> nat \<Rightarrow> (nat \<times> nat) list" where
  "find_from re t i =
     (if i > length t then []
      else case ends re t i of
             [] \<Rightarrow> find_from re t (Suc i)
           | j # _ \<Rightarrow> (i, j) # find_from re t (max j (Suc i)))"
  by pat_completeness auto
termination by (relation "measure (\<lambda>(re, t, i). Suc (length t) - i)") auto

declare find_from.simps [simp del]

definition find_all :: "Re \<Rightarrow> string \<Rightarrow> (int \<times> int) list" where
  "find_all re t = map (\<lambda>(i, j). (int i, int j)) (find_from re t 0)"

section \<open>What an expression matches\<close>

fun matches :: "Re \<Rightarrow> string \<Rightarrow> nat \<Rightarrow> nat \<Rightarrow> bool" where
  "matches (Cls rs) t i j \<longleftrightarrow> j = Suc i \<and> i < length t \<and> in_class rs (t ! i)"
| "matches (Seq a b) t i j \<longleftrightarrow> (\<exists>k. matches a t i k \<and> matches b t k j)"
| "matches (Alt a b) t i j \<longleftrightarrow> matches a t i j \<or> matches b t i j"
| "matches (Rep a lo hi) t i j \<longleftrightarrow>
     (\<exists>n \<ge> lo. (\<forall>h. hi = Some h \<longrightarrow> n \<le> h) \<and> (i, j) \<in> {(x, y). matches a t x y \<and> x < y} ^^ n)"
| "matches WordB t i j \<longleftrightarrow> j = i \<and> word_boundary t i"

lemma matches_range: "matches re t i j \<Longrightarrow> i \<le> length t \<Longrightarrow> i \<le> j \<and> j \<le> length t"
proof (induction re arbitrary: i j)
  case (Rep re lo hi)
  then obtain n where n: "(i, j) \<in> {(x, y). matches re t x y \<and> x < y} ^^ n" by auto
  have "(x, y) \<in> {(x, y). matches re t x y \<and> x < y} ^^ n \<Longrightarrow> x \<le> length t \<Longrightarrow> x \<le> y \<and> y \<le> length t" for x y
  proof (induction n arbitrary: y)
    case 0
    then show ?case by simp
  next
    case (Suc n)
    then obtain z where "(x, z) \<in> {(x, y). matches re t x y \<and> x < y} ^^ n" "matches re t z y" by auto
    with Suc Rep.IH [of z y] show ?case by force
  qed
  with n Rep.prems show ?case by simp
qed (fastforce simp: word_boundary_def split: if_splits)+

lemma relpow_advance:
  "(i, j) \<in> {(x, y). R x y \<and> x < (y::nat)} ^^ n \<Longrightarrow> i + n \<le> j"
  by (induction n arbitrary: j) (auto, fastforce)

lemma set_rep_ends:
  "j \<in> set (rep_ends f lo n i) \<longleftrightarrow>
     (\<exists>k. lo \<le> k \<and> k \<le> n \<and> (i, j) \<in> {(x, y). y \<in> set (f x) \<and> x < y} ^^ k)"
proof (induction f lo n i rule: rep_ends.induct)
  case (1 f lo i)
  then show ?case by auto
next
  case (2 f lo n i)
  let ?R = "{(x, y). y \<in> set (f x) \<and> x < y}"
  have "j \<in> set (rep_ends f lo (Suc n) i) \<longleftrightarrow>
      (\<exists>m \<in> set (f i). i < m \<and> j \<in> set (rep_ends f (lo - 1) n m)) \<or> (lo = 0 \<and> j = i)"
    by auto
  also have "\<dots> \<longleftrightarrow> (\<exists>m \<in> set (f i). i < m \<and> (\<exists>k. lo - 1 \<le> k \<and> k \<le> n \<and> (m, j) \<in> ?R ^^ k)) \<or> (lo = 0 \<and> j = i)"
    using 2 by auto
  also have "\<dots> \<longleftrightarrow> (\<exists>k. lo \<le> k \<and> k \<le> Suc n \<and> (i, j) \<in> ?R ^^ k)" (is "?L \<longleftrightarrow> ?Q")
  proof
    assume ?L
    then consider m k where "m \<in> set (f i)" "i < m" "lo - 1 \<le> k" "k \<le> n" "(m, j) \<in> ?R ^^ k"
      | "lo = 0" "j = i" by blast
    then show ?Q
    proof cases
      case 1
      then have "(i, j) \<in> ?R ^^ Suc k" by (intro relpow_Suc_I2 [of i m]) auto
      with 1 show ?thesis by (intro exI [of _ "Suc k"]) auto
    next
      case 2
      then show ?thesis by (intro exI [of _ 0]) auto
    qed
  next
    assume ?Q
    then obtain k where k: "lo \<le> k" "k \<le> Suc n" "(i, j) \<in> ?R ^^ k" by blast
    show ?L
    proof (cases k)
      case 0
      with k show ?thesis by simp
    next
      case (Suc k')
      with k obtain m where m: "(i, m) \<in> ?R" "(m, j) \<in> ?R ^^ k'" by (meson relpow_Suc_D2)
      have "lo - 1 \<le> k'" "k' \<le> n" using k Suc by simp_all
      with m have "m \<in> set (f i) \<and> i < m \<and> (\<exists>k. lo - 1 \<le> k \<and> k \<le> n \<and> (m, j) \<in> ?R ^^ k)" by blast
      then show ?thesis by blast
    qed
  qed
  finally show ?case .
qed

text \<open>The executable matcher lists exactly the declared matches.\<close>

lemma set_ends: "i \<le> length t \<Longrightarrow> j \<in> set (ends re t i) \<longleftrightarrow> matches re t i j"
proof (induction re arbitrary: i j)
  case (Seq a b)
  have "(\<exists>k \<in> set (ends a t i). j \<in> set (ends b t k)) \<longleftrightarrow> (\<exists>k. matches a t i k \<and> matches b t k j)"
    using Seq matches_range [of a t i] by auto
  then show ?case by simp
next
  case (Rep a lo hi)
  let ?F = "{(x, y). y \<in> set (ends a t x) \<and> x < y}" and ?M = "{(x, y). matches a t x y \<and> x < y}"
  have end_M: "(i, y) \<in> ?M ^^ n \<Longrightarrow> y \<le> length t" for n y
    using matches_range [of "Rep a n (Some n)" t i y] Rep.prems by auto
  have same: "(i, j) \<in> ?F ^^ n \<longleftrightarrow> (i, j) \<in> ?M ^^ n \<and> (j \<le> length t)" for n j
  proof (induction n arbitrary: j)
    case 0
    with Rep.prems show ?case by auto
  next
    case (Suc n)
    have "(i, j) \<in> ?F ^^ Suc n \<longleftrightarrow> (\<exists>k. (i, k) \<in> ?F ^^ n \<and> (k, j) \<in> ?F)" by auto
    also have "\<dots> \<longleftrightarrow> (\<exists>k. (i, k) \<in> ?M ^^ n \<and> k \<le> length t \<and> (k, j) \<in> ?M)"
      using Suc Rep.IH by auto
    also have "\<dots> \<longleftrightarrow> (i, j) \<in> ?M ^^ Suc n \<and> j \<le> length t"
      using matches_range [of a t] end_M by auto
    finally show ?case .
  qed
  have bound: "(i, j) \<in> ?M ^^ n \<Longrightarrow> n \<le> length t" for n
    using relpow_advance [of i j n "matches a t"] end_M [of j n] by simp
  show ?case
    using bound end_M by (auto simp: set_rep_ends same split: option.splits)
qed auto

lemma matches_rep_len: "matches (Rep a lo (Some hi)) t i j \<Longrightarrow> i + lo \<le> j"
  using relpow_advance by fastforce

text \<open>The hits of a search: matches, ascending, disjoint, and none skipped between them.\<close>

fun hits :: "Re \<Rightarrow> string \<Rightarrow> nat \<Rightarrow> (nat \<times> nat) list \<Rightarrow> bool" where
  "hits re t pos [] \<longleftrightarrow> (\<forall>i j. pos \<le> i \<and> i \<le> length t \<longrightarrow> \<not> matches re t i j)"
| "hits re t pos ((i, j) # rest) \<longleftrightarrow>
     pos \<le> i \<and> i \<le> length t \<and> matches re t i j \<and>
     (\<forall>k l. pos \<le> k \<and> k < i \<longrightarrow> \<not> matches re t k l) \<and>
     hits re t (max j (Suc i)) rest"

lemma hits_skip:
  assumes "\<And>j. \<not> matches re t pos j" and "hits re t (Suc pos) hs"
  shows "hits re t pos hs"
proof -
  have step: "pos \<le> i \<Longrightarrow> (\<And>j. Suc pos \<le> i \<Longrightarrow> \<not> matches re t i j) \<Longrightarrow> \<not> matches re t i l" for i l
    using assms(1) by (cases "i = pos") auto
  show ?thesis
  proof (cases hs)
    case Nil
    with assms(2) step show ?thesis by auto
  next
    case (Cons h rest)
    obtain i j where h: "h = (i, j)" by (cases h)
    have "\<forall>k l. pos \<le> k \<and> k < i \<longrightarrow> \<not> matches re t k l"
      using assms(2) step Cons h by auto
    with assms(2) Cons h show ?thesis by auto
  qed
qed

lemma find_from_hits: "hits re t pos (find_from re t pos)"
proof (induction re t pos rule: find_from.induct)
  case (1 re t pos)
  show ?case
  proof (cases "pos > length t")
    case True
    then show ?thesis by (auto simp: find_from.simps [of re t pos])
  next
    case False
    then have pos: "pos \<le> length t" by simp
    show ?thesis
    proof (cases "ends re t pos")
      case Nil
      then have "\<And>j. \<not> matches re t pos j" using set_ends [OF pos, of _ re] by simp
      with 1 False Nil show ?thesis by (simp add: find_from.simps [of re t pos] hits_skip)
    next
      case (Cons j js)
      then have "matches re t pos j" using set_ends [OF pos, of j re] by simp
      with 1 False Cons pos show ?thesis by (auto simp: find_from.simps [of re t pos])
    qed
  qed
qed

lemma hits_in: "hits re t pos hs \<Longrightarrow> (i, j) \<in> set hs \<Longrightarrow> matches re t i j \<and> i \<le> length t"
  by (induction re t pos hs rule: hits.induct) auto

lemma find_all_in:
  assumes "(s, e) \<in> set (find_all re t)"
  shows "0 \<le> s \<and> s \<le> e \<and> e \<le> int (length t)" and "matches re t (nat s) (nat e)"
proof -
  obtain i j where "s = int i" "e = int j" "(i, j) \<in> set (find_from re t 0)"
    using assms by (auto simp: find_all_def)
  with hits_in [OF find_from_hits, of i j re t 0] matches_range [of re t i j]
  show "0 \<le> s \<and> s \<le> e \<and> e \<le> int (length t)" and "matches re t (nat s) (nat e)" by auto
qed

end
