(* ===== verification/Recognizers.thy ===== *)
theory Recognizers
  imports Regexp
begin

text \<open>
  The in-process engine of \<open>internal/gateway/detect/regex.go\<close>: the built-in recognizers, the
  pattern-pack overlay, and \<open>Detect\<close>. Compiling the regular expression of a pack rule is the
  library's work, the parameter \<open>compile\<close>: it yields an error message or the search function
  \<open>FindAllStringIndex\<close> of the expression.
\<close>

record recognizer =
  rec_typ :: string
  rec_re :: "string \<Rightarrow> (int \<times> int) list"
  rec_confidence :: float64
  rec_validate :: "(string \<Rightarrow> int \<Rightarrow> int \<Rightarrow> bool option) option"

section \<open>The expressions\<close>

fun re_seq :: "Re list \<Rightarrow> Re" where
  "re_seq [] = Rep (Cls []) 0 (Some 0)"
| "re_seq [a] = a"
| "re_seq (a # b # rs) = Seq a (re_seq (b # rs))"

definition lit :: "char \<Rightarrow> Re" where "lit c = Cls [(byte c, byte c)]"
definition one_of :: "string \<Rightarrow> Re" where "one_of cs = Cls (map (\<lambda>c. (byte c, byte c)) cs)"
definition re_opt :: "Re \<Rightarrow> Re" where "re_opt a = Rep a 0 (Some 1)"
definition re_digit :: Re where "re_digit = Cls [(48, 57)]"
definition exactly :: "nat \<Rightarrow> Re \<Rightarrow> Re" where "exactly n a = Rep a n (Some n)"

text \<open>\<open>\b[A-Za-z0-9._%+-]+@[A-Za-z0-9.-]+\.[A-Za-z]{2,}\b\<close>\<close>

definition email_re :: Re where
  "email_re = re_seq
     [WordB,
      Rep (Cls [(65, 90), (97, 122), (48, 57), (46, 46), (95, 95), (37, 37), (43, 43), (45, 45)]) 1 None,
      lit (CHR ''@''),
      Rep (Cls [(65, 90), (97, 122), (48, 57), (46, 46), (45, 45)]) 1 None,
      lit (CHR ''.''),
      Rep (Cls [(65, 90), (97, 122)]) 2 None,
      WordB]"

text \<open>\<open>\b\d{3}[- ]\d{2}[- ]\d{4}\b\<close>\<close>

definition ssn_re :: Re where
  "ssn_re = re_seq
     [WordB, exactly 3 re_digit, one_of ''- '', exactly 2 re_digit, one_of ''- '',
      exactly 4 re_digit, WordB]"

text \<open>\<open>(\+1[-. ]?)?(\(\d{3}\)[-. ]?|\d{3}[-. ])\d{3}[-. ]\d{4}\b\<close>\<close>

definition phone_re :: Re where
  "phone_re = re_seq
     [re_opt (re_seq [lit (CHR ''+''), lit (CHR ''1''), re_opt (one_of ''-. '')]),
      Alt (re_seq [lit (CHR ''(''), exactly 3 re_digit, lit (CHR '')''), re_opt (one_of ''-. '')])
          (re_seq [exactly 3 re_digit, one_of ''-. '']),
      exactly 3 re_digit, one_of ''-. '', exactly 4 re_digit, WordB]"

text \<open>\<open>\+[1-9]\d{9,14}\b\<close>\<close>

definition e164_re :: Re where
  "e164_re = re_seq [lit (CHR ''+''), Cls [(49, 57)], Rep re_digit 9 (Some 14), WordB]"

text \<open>\<open>\b\d(?:[- ]?\d){12,18}\b\<close>\<close>

definition card_re :: Re where
  "card_re = re_seq
     [WordB, re_digit, Rep (re_seq [re_opt (one_of ''- ''), re_digit]) 12 (Some 18), WordB]"

text \<open>\<open>\b(?:\d{1,3}\.){3}\d{1,3}\b\<close>\<close>

definition ip_re :: Re where
  "ip_re = re_seq
     [WordB, exactly 3 (re_seq [Rep re_digit 1 (Some 3), lit (CHR ''.'')]), Rep re_digit 1 (Some 3), WordB]"

text \<open>\<open>\b[A-Z]{2}\d{2}[A-Z0-9]{11,30}\b\<close>\<close>

definition iban_re :: Re where
  "iban_re = re_seq
     [WordB, exactly 2 (Cls [(65, 90)]), exactly 2 re_digit, Rep (Cls [(65, 90), (48, 57)]) 11 (Some 30), WordB]"

text \<open>\<open>(?i)\bMRN[-: ]?\d{6,10}\b\<close>\<close>

definition mrn_re :: Re where
  "mrn_re = re_seq
     [WordB, one_of ''Mm'', one_of ''Rr'', one_of ''Nn'', re_opt (one_of ''-: ''),
      Rep re_digit 6 (Some 10), WordB]"

text \<open>\<open>\b(0[1-9]|1[0-2])/(0[1-9]|[12]\d|3[01])/(19|20)\d{2}\b\<close>\<close>

definition dob_re :: Re where
  "dob_re = re_seq
     [WordB,
      Alt (re_seq [lit (CHR ''0''), Cls [(49, 57)]]) (re_seq [lit (CHR ''1''), Cls [(48, 50)]]),
      lit (CHR ''/''),
      Alt (re_seq [lit (CHR ''0''), Cls [(49, 57)]])
          (Alt (re_seq [one_of ''12'', re_digit]) (re_seq [lit (CHR ''3''), one_of ''01''])),
      lit (CHR ''/''),
      Alt (re_seq [lit (CHR ''1''), lit (CHR ''9'')]) (re_seq [lit (CHR ''2''), lit (CHR ''0'')]),
      exactly 2 re_digit, WordB]"

section \<open>Recognizers\<close>

definition builtinRecognizers :: "recognizer list" where
  "builtinRecognizers =
    [\<lparr>rec_typ = ''EMAIL'', rec_re = find_all email_re, rec_confidence = 95/100, rec_validate = None\<rparr>,
     \<lparr>rec_typ = ''SSN'', rec_re = find_all ssn_re, rec_confidence = 9/10,
      rec_validate = Some notHyphenAdjacent\<rparr>,
     \<lparr>rec_typ = ''PHONE'', rec_re = find_all phone_re, rec_confidence = 85/100,
      rec_validate = Some notHyphenAdjacent\<rparr>,
     \<lparr>rec_typ = ''PHONE'', rec_re = find_all e164_re, rec_confidence = 85/100, rec_validate = None\<rparr>,
     \<lparr>rec_typ = ''CREDIT_CARD'', rec_re = find_all card_re, rec_confidence = 9/10,
      rec_validate = Some luhnValid\<rparr>,
     \<lparr>rec_typ = ''IP'', rec_re = find_all ip_re, rec_confidence = 8/10, rec_validate = Some validOctets\<rparr>,
     \<lparr>rec_typ = ''IBAN'', rec_re = find_all iban_re, rec_confidence = 9/10, rec_validate = Some ibanMod97\<rparr>,
     \<lparr>rec_typ = ''MRN'', rec_re = find_all mrn_re, rec_confidence = 85/100, rec_validate = None\<rparr>,
     \<lparr>rec_typ = ''DOB'', rec_re = find_all dob_re, rec_confidence = 7/10, rec_validate = None\<rparr>]"

text \<open>The overlay loop of \<open>SetPatternPack\<close>: the recognizers of the regex rules, in order, or the first error.\<close>

fun pack_recognizers ::
    "(string \<Rightarrow> string + (string \<Rightarrow> (int \<times> int) list)) \<Rightarrow> PatternRule list \<Rightarrow> string + recognizer list" where
  "pack_recognizers compile [] = Inr []"
| "pack_recognizers compile (r # rs) =
     (if \<not> isRegex r then pack_recognizers compile rs
      else case compile (rule_Regex r) of
             Inl err \<Rightarrow> Inl (''pattern '' @ rule_ID r @ '' ('' @ rule_Type r @ ''): '' @ err)
           | Inr re \<Rightarrow>
               (case pack_recognizers compile rs of
                  Inl err \<Rightarrow> Inl err
                | Inr recs \<Rightarrow>
                    Inr (\<lparr>rec_typ = rule_Type r, rec_re = re,
                          rec_confidence = (if rule_Confidence r = 0 then 75/100 else rule_Confidence r),
                          rec_validate = None\<rparr> # recs)))"

text \<open>The swap happens only when every rule compiled: the first component is the error.\<close>

definition Regex_SetPatternPack ::
    "(string \<Rightarrow> string + (string \<Rightarrow> (int \<times> int) list)) \<Rightarrow> PatternRule list \<Rightarrow> recognizer list \<Rightarrow>
     string option \<times> recognizer list" where
  "Regex_SetPatternPack compile rules compiled =
     (case pack_recognizers compile rules of
        Inl err \<Rightarrow> (Some err, compiled)
      | Inr recs \<Rightarrow> (None, builtinRecognizers @ recs))"

fun rec_spans :: "recognizer \<Rightarrow> string \<Rightarrow> (int \<times> int) list \<Rightarrow> Span list option" where
  "rec_spans rec text [] = Some []"
| "rec_spans rec text ((s, e) # locs) =
     do {
       ok \<leftarrow> (case rec_validate rec of None \<Rightarrow> Some True | Some validate \<Rightarrow> validate text s e);
       rest \<leftarrow> rec_spans rec text locs;
       Some (if ok
             then \<lparr>Start = s, End = e, Type = rec_typ rec, Confidence = rec_confidence rec,
                   Detector = ''regex''\<rparr> # rest
             else rest)
     }"

fun all_spans :: "recognizer list \<Rightarrow> string \<Rightarrow> Span list option" where
  "all_spans [] text = Some []"
| "all_spans (rec # recs) text =
     do {
       spans \<leftarrow> rec_spans rec text (rec_re rec text);
       rest \<leftarrow> all_spans recs text;
       Some (spans @ rest)
     }"

definition Regex_Detect :: "recognizer list \<Rightarrow> string \<Rightarrow> Span list option" where
  "Regex_Detect recs text = map_option Merge (all_spans recs text)"

definition regex_engine :: "recognizer list \<Rightarrow> Engine" where
  "regex_engine recs = \<lparr>Name = ''regex'', Detect = (\<lambda>text. map_option Inr (Regex_Detect recs text))\<rparr>"

section \<open>The engine contract\<close>

text \<open>What a search function owes: offsets in order inside the text. The built-in ones have it.\<close>

definition search_ok :: "(string \<Rightarrow> (int \<times> int) list) \<Rightarrow> bool" where
  "search_ok re \<longleftrightarrow> (\<forall>text. \<forall>(s, e) \<in> set (re text). 0 \<le> s \<and> s \<le> e \<and> e \<le> int (length text))"

definition compile_ok :: "(string \<Rightarrow> string + (string \<Rightarrow> (int \<times> int) list)) \<Rightarrow> bool" where
  "compile_ok compile \<longleftrightarrow> (\<forall>p re. compile p = Inr re \<longrightarrow> search_ok re)"

definition recognizer_ok :: "recognizer \<Rightarrow> bool" where
  "recognizer_ok rec \<longleftrightarrow> search_ok (rec_re rec) \<and>
     rec_validate rec \<in> {None, Some notHyphenAdjacent, Some luhnValid, Some validOctets, Some ibanMod97}"

lemma search_ok_find_all: "search_ok (find_all re)"
  by (auto simp: search_ok_def dest: find_all_in)

lemma builtins_ok: "list_all recognizer_ok builtinRecognizers"
  by (simp add: builtinRecognizers_def recognizer_ok_def search_ok_find_all)

lemma pack_recognizers_ok:
  assumes "compile_ok compile"
  shows "pack_recognizers compile rules = Inr recs \<Longrightarrow> list_all recognizer_ok recs"
  using assms
  by (induction rules arbitrary: recs)
    (auto simp: compile_ok_def recognizer_ok_def split: if_splits sum.splits)

lemma SetPatternPack_ok:
  assumes "compile_ok compile" and "list_all recognizer_ok compiled"
  shows "list_all recognizer_ok (snd (Regex_SetPatternPack compile rules compiled))"
  using assms builtins_ok by (auto simp: Regex_SetPatternPack_def pack_recognizers_ok split: sum.splits)

lemma rec_spans_ok:
  assumes "recognizer_ok rec" and "\<And>s e. (s, e) \<in> set locs \<Longrightarrow> 0 \<le> s \<and> s \<le> e \<and> e \<le> int (length text)"
  shows "\<exists>spans. rec_spans rec text locs = Some spans \<and> (\<forall>sp \<in> set spans. span_in text sp)"
  using assms(2)
proof (induction locs)
  case Nil
  then show ?case by simp
next
  case (Cons loc locs)
  obtain s e where loc: "loc = (s, e)" by (cases loc)
  with Cons.prems have se: "0 \<le> s" "s \<le> e" "e \<le> int (length text)" by auto
  then have "\<exists>b. (case rec_validate rec of None \<Rightarrow> Some True | Some validate \<Rightarrow> validate text s e) = Some b"
    using guard_total [OF se] assms(1) by (auto simp: recognizer_ok_def)
  then obtain b where b: "(case rec_validate rec of None \<Rightarrow> Some True | Some validate \<Rightarrow> validate text s e) = Some b" ..
  moreover obtain spans where "rec_spans rec text locs = Some spans" "\<forall>sp \<in> set spans. span_in text sp"
    using Cons by auto
  ultimately show ?case using se by (cases b) (simp_all add: loc span_in_def)
qed

lemma all_spans_ok:
  assumes "list_all recognizer_ok recs"
  shows "\<exists>spans. all_spans recs text = Some spans \<and> (\<forall>sp \<in> set spans. span_in text sp)"
  using assms
proof (induction recs)
  case Nil
  then show ?case by simp
next
  case (Cons rec recs)
  have "recognizer_ok rec" using Cons.prems by simp
  moreover from this have "\<And>s e. (s, e) \<in> set (rec_re rec text) \<Longrightarrow> 0 \<le> s \<and> s \<le> e \<and> e \<le> int (length text)"
    by (auto simp: recognizer_ok_def search_ok_def)
  ultimately obtain s1 where "rec_spans rec text (rec_re rec text) = Some s1" "\<forall>sp \<in> set s1. span_in text sp"
    using rec_spans_ok by blast
  moreover obtain s2 where "all_spans recs text = Some s2" "\<forall>sp \<in> set s2. span_in text sp"
    using Cons by auto
  ultimately show ?case by auto
qed

lemma Regex_Detect_ok:
  assumes "list_all recognizer_ok recs"
  shows "\<exists>spans. Regex_Detect recs text = Some spans \<and> disjoint_spans spans \<and> (\<forall>sp \<in> set spans. span_in text sp)"
proof -
  obtain spans where s: "all_spans recs text = Some spans" "\<forall>sp \<in> set spans. span_in text sp"
    using all_spans_ok [OF assms] by blast
  then have "\<forall>sp \<in> set (Merge spans). span_in text sp" by (auto intro: Merge_span_in)
  with s show ?thesis by (simp add: Regex_Detect_def Merge_disjoint)
qed

lemma regex_engine_ok:
  assumes "list_all recognizer_ok recs"
  shows "engine_ok (regex_engine recs)"
  using Regex_Detect_ok [OF assms] by (force simp: engine_ok_def regex_engine_def)

text \<open>Which bytes a run covers: those of the hits that pass their recognizer's validator.\<close>

lemma rec_spans_covers:
  "rec_spans rec text locs = Some spans \<Longrightarrow>
     covered spans p \<longleftrightarrow>
       (\<exists>(s, e) \<in> set locs. s \<le> p \<and> p < e \<and>
          (case rec_validate rec of None \<Rightarrow> True | Some validate \<Rightarrow> validate text s e = Some True))"
proof (induction locs arbitrary: spans)
  case Nil
  then show ?case by simp
next
  case (Cons loc locs)
  obtain s e where loc: "loc = (s, e)" by (cases loc)
  obtain ok rest where ok: "(case rec_validate rec of None \<Rightarrow> Some True | Some validate \<Rightarrow> validate text s e) = Some ok"
    and rest: "rec_spans rec text locs = Some rest"
    using Cons.prems loc by (auto split: Option.bind_splits)
  have "(case rec_validate rec of None \<Rightarrow> True | Some validate \<Rightarrow> validate text s e = Some True) \<longleftrightarrow> ok"
    using ok by (auto split: option.splits)
  with Cons.IH [OF rest] Cons.prems ok rest show ?case
    by (cases ok) (auto simp: loc covers_def)
qed

lemma all_spans_covers:
  "all_spans recs text = Some spans \<Longrightarrow>
     covered spans p \<longleftrightarrow>
       (\<exists>rec \<in> set recs. \<exists>(s, e) \<in> set (rec_re rec text). s \<le> p \<and> p < e \<and>
          (case rec_validate rec of None \<Rightarrow> True | Some validate \<Rightarrow> validate text s e = Some True))"
proof (induction recs arbitrary: spans)
  case Nil
  then show ?case by simp
next
  case (Cons rec recs)
  then obtain s1 s2 where "rec_spans rec text (rec_re rec text) = Some s1" "all_spans recs text = Some s2"
    "spans = s1 @ s2" by (auto split: Option.bind_splits)
  with Cons.IH [of s2] rec_spans_covers [of rec "text" "rec_re rec text" s1 p] show ?case by simp
qed

lemma Regex_Detect_covers:
  assumes "list_all recognizer_ok recs"
  shows "\<exists>spans. Regex_Detect recs text = Some spans \<and> disjoint_spans spans \<and> (\<forall>sp \<in> set spans. span_in text sp) \<and>
    (\<forall>p. covered spans p \<longleftrightarrow>
       (\<exists>rec \<in> set recs. \<exists>(s, e) \<in> set (rec_re rec text). s \<le> p \<and> p < e \<and>
          (case rec_validate rec of None \<Rightarrow> True | Some validate \<Rightarrow> validate text s e = Some True)))"
proof -
  obtain spans where s: "all_spans recs text = Some spans" "\<forall>sp \<in> set spans. span_in text sp"
    using all_spans_ok [OF assms] by blast
  then have "\<forall>sp \<in> set (Merge spans). span_in text sp" by (auto intro: Merge_span_in)
  with s all_spans_covers [OF s(1)] show ?thesis
    by (intro exI [of _ "Merge spans"]) (simp add: Regex_Detect_def Merge_disjoint Merge_covered)
qed

end
