(* ===== verification/Presidio.thy ===== *)
theory Presidio
  imports Recognizers
begin

text \<open>
  The sidecar engine of \<open>internal/gateway/detect/presidio.go\<close> and the vocabulary it shares with
  the harness (\<open>internal/model/presidio.go\<close>). The HTTP exchange with the analyzer is the
  parameter \<open>post\<close> (an error, or a status and a body), the decoding of the response body the
  parameter \<open>decode\<close>. The lemmas show that every span the engine reports lies inside the text,
  whatever the analyzer answers, and that a pack rule can only lower the request threshold.
\<close>

section \<open>Shared vocabulary\<close>

definition PresidioDefaultScoreGate :: float64 where
  "PresidioDefaultScoreGate = 4/10"

definition PresidioEntityMap :: "string \<Rightarrow> string option" where
  "PresidioEntityMap =
     [''PERSON'' \<mapsto> ''PERSON_NAME'',
      ''LOCATION'' \<mapsto> ''ADDRESS'',
      ''EMAIL_ADDRESS'' \<mapsto> ''EMAIL'',
      ''PHONE_NUMBER'' \<mapsto> ''PHONE'',
      ''US_SSN'' \<mapsto> ''SSN'',
      ''US_ITIN'' \<mapsto> ''SSN'',
      ''CREDIT_CARD'' \<mapsto> ''CREDIT_CARD'',
      ''IP_ADDRESS'' \<mapsto> ''IP'',
      ''IBAN_CODE'' \<mapsto> ''IBAN'',
      ''MEDICAL_LICENSE'' \<mapsto> ''MRN'',
      ''DATE_TIME'' \<mapsto> [],
      ''URL'' \<mapsto> [],
      ''NRP'' \<mapsto> []]"

definition RuneToByteOffsets :: "string \<Rightarrow> int list" where
  "RuneToByteOffsets s = map int (map fst (range_runes 0 s) @ [length s])"

section \<open>The compiled pack\<close>

text \<open>The two payload shapes of an ad-hoc recognizer.\<close>

datatype adhoc =
    AdhocPattern (adhoc_id: string) (adhoc_entity: string) string float64 "string list"
  | AdhocDenyList (adhoc_id: string) (adhoc_entity: string) "string list"

record compiledPack =
  adhoc :: "adhoc list"
  gates :: "(string \<times> float64) list"
  types :: "string set"

definition empty_pack :: compiledPack where
  "empty_pack = \<lparr>adhoc = [], gates = [], types = {}\<rparr>"

definition pack_rule :: "compiledPack \<Rightarrow> PatternRule \<Rightarrow> compiledPack" where
  "pack_rule c r =
     (let c = c\<lparr>types := insert (rule_Type r) (types c)\<rparr> in
      if isRegex r then
        c\<lparr>adhoc := adhoc c @
             [AdhocPattern (rule_ID r) (rule_Type r) (rule_Regex r) (rule_Confidence r) (rule_Context r)]\<rparr>
      else if rule_Kind r = ''deny_list'' \<and> rule_DenyList r \<noteq> [] then
        c\<lparr>adhoc := adhoc c @ [AdhocDenyList (rule_ID r) (rule_Type r) (rule_DenyList r)]\<rparr>
      else if rule_Kind r = ''threshold'' \<and> rule_Threshold r > 0 then
        (case map_of (gates c) (rule_Type r) of
           None \<Rightarrow> c\<lparr>gates := AList.update (rule_Type r) (rule_Threshold r) (gates c)\<rparr>
         | Some g \<Rightarrow> if rule_Threshold r < g
                      then c\<lparr>gates := AList.update (rule_Type r) (rule_Threshold r) (gates c)\<rparr>
                      else c)
      else c)"

definition Presidio_SetPatternPack :: "PatternRule list \<Rightarrow> compiledPack" where
  "Presidio_SetPatternPack rules = foldl pack_rule empty_pack rules"

section \<open>Detect\<close>

record presidioResult =
  EntityType :: string
  res_Start :: int
  res_End :: int
  Score :: float64

record analyzeRequest =
  req_text :: string
  req_threshold :: float64
  req_adhoc :: "adhoc list"

definition reqThreshold :: "compiledPack \<Rightarrow> float64" where
  "reqThreshold pack =
     foldl (\<lambda>t g. if g < t then g else t) PresidioDefaultScoreGate (map snd (gates pack))"

text \<open>One iteration of the result loop: no span, one span, or \<open>None\<close> for a panic.\<close>

definition result_span :: "compiledPack \<Rightarrow> int list \<Rightarrow> presidioResult \<Rightarrow> Span list option" where
  "result_span pack runeToByte r =
     (let mapped = PresidioEntityMap (EntityType r) in
      if mapped = None \<and> EntityType r \<notin> types pack then Some []
      else let typ = (case mapped of Some typ \<Rightarrow> typ | None \<Rightarrow> EntityType r) in
        if typ = [] then Some []
        else if res_Start r < 0 \<or> res_End r > int (length runeToByte) - 1 \<or> res_Start r \<ge> res_End r
        then Some []
        else if Score r < (case map_of (gates pack) typ of Some g \<Rightarrow> g | None \<Rightarrow> PresidioDefaultScoreGate)
        then Some []
        else do {
          s \<leftarrow> go_index runeToByte (res_Start r);
          e \<leftarrow> go_index runeToByte (res_End r);
          Some [\<lparr>Start = s, End = e, Type = typ, Confidence = Score r, Detector = ''presidio''\<rparr>]
        })"

fun result_spans :: "compiledPack \<Rightarrow> int list \<Rightarrow> presidioResult list \<Rightarrow> Span list option" where
  "result_spans pack runeToByte [] = Some []"
| "result_spans pack runeToByte (r # rs) =
     do {
       sp \<leftarrow> result_span pack runeToByte r;
       rest \<leftarrow> result_spans pack runeToByte rs;
       Some (sp @ rest)
     }"

definition Presidio_Detect ::
    "(analyzeRequest \<Rightarrow> string + (nat \<times> string)) \<Rightarrow> (string \<Rightarrow> string + presidioResult list) \<Rightarrow>
     compiledPack \<Rightarrow> string \<Rightarrow> (string + Span list) option" where
  "Presidio_Detect post decode pack text =
     (case post \<lparr>req_text = text, req_threshold = reqThreshold pack, req_adhoc = adhoc pack\<rparr> of
        Inl err \<Rightarrow> Some (Inl err)
      | Inr (status, body) \<Rightarrow>
          if status \<noteq> 200 then Some (Inl (''presidio analyze returned '' @ itoa status))
          else (case decode (take (4 * 1024 * 1024) body) of
                  Inl err \<Rightarrow> Some (Inl (''presidio response: '' @ err))
                | Inr results \<Rightarrow>
                    map_option Inr (result_spans pack (RuneToByteOffsets text) results)))"

definition presidio_engine ::
    "(analyzeRequest \<Rightarrow> string + (nat \<times> string)) \<Rightarrow> (string \<Rightarrow> string + presidioResult list) \<Rightarrow>
     compiledPack \<Rightarrow> Engine" where
  "presidio_engine post decode pack =
     \<lparr>Name = ''presidio'', Detect = Presidio_Detect post decode pack\<rparr>"

section \<open>Offsets\<close>

lemma range_runes_offsets:
  "sorted_wrt (<) (map fst (range_runes i s)) \<and> (\<forall>k \<in> set (map fst (range_runes i s)). i \<le> k \<and> k < i + length s)"
proof (induction i s rule: range_runes.induct)
  case (1 i)
  then show ?case by simp
next
  case (2 i c cs)
  obtain r w where d: "decode_rune c cs = (r, w)" by (cases "decode_rune c cs")
  have w: "1 \<le> w" "w \<le> Suc (length cs)" using decode_rune_width [of c cs] d by simp_all
  have IH: "sorted_wrt (<) (map fst (range_runes (i + w) (drop (w - 1) cs)))"
    "\<And>k. k \<in> set (map fst (range_runes (i + w) (drop (w - 1) cs))) \<Longrightarrow>
       i + w \<le> k \<and> k < i + w + (length cs - (w - 1))"
    using "2.IH" [OF d [symmetric]] unfolding length_drop by blast+
  show ?case
  proof
    show "sorted_wrt (<) (map fst (range_runes i (c # cs)))"
      using IH(1) IH(2) w d by (auto, fastforce)
    show "\<forall>k \<in> set (map fst (range_runes i (c # cs))). i \<le> k \<and> k < i + length (c # cs)"
    proof
      fix k assume "k \<in> set (map fst (range_runes i (c # cs)))"
      then have "k = i \<or> k \<in> set (map fst (range_runes (i + w) (drop (w - 1) cs)))" using d by auto
      then show "i \<le> k \<and> k < i + length (c # cs)"
      proof
        assume "k = i"
        then show ?thesis by simp
      next
        assume "k \<in> set (map fst (range_runes (i + w) (drop (w - 1) cs)))"
        from IH(2) [OF this] w show ?thesis by simp
      qed
    qed
  qed
qed

lemma RuneToByteOffsets_mono: "sorted_wrt (<) (RuneToByteOffsets s)"
  using range_runes_offsets [of 0 s]
  by (auto simp: RuneToByteOffsets_def sorted_wrt_append sorted_wrt_map)

lemma RuneToByteOffsets_range: "k \<in> set (RuneToByteOffsets s) \<Longrightarrow> 0 \<le> k \<and> k \<le> int (length s)"
  using range_runes_offsets [of 0 s] by (fastforce simp: RuneToByteOffsets_def)

lemma RuneToByteOffsets_length: "length (RuneToByteOffsets s) = Suc (length (runes s))"
  by (simp add: RuneToByteOffsets_def runes_def)

section \<open>The engine contract\<close>

lemma result_span_ok:
  "\<exists>spans. result_span pack (RuneToByteOffsets text) r = Some spans \<and> (\<forall>sp \<in> set spans. span_in text sp \<and> nonempty sp)"
proof -
  let ?o = "RuneToByteOffsets text"
  show ?thesis
  proof (cases "result_span pack ?o r = Some []")
    case True
    then show ?thesis by simp
  next
    case False
    define ty where "ty = (case PresidioEntityMap (EntityType r) of Some typ \<Rightarrow> typ | None \<Rightarrow> EntityType r)"
    have eq: "result_span pack ?o r =
        do { s \<leftarrow> go_index ?o (res_Start r); e \<leftarrow> go_index ?o (res_End r);
             Some [\<lparr>Start = s, End = e, Type = ty, Confidence = Score r, Detector = ''presidio''\<rparr>] }"
      using False unfolding result_span_def Let_def ty_def [symmetric]
      by (simp split: if_splits)
    have 2: "0 \<le> res_Start r" "res_Start r < res_End r" "res_End r < int (length ?o)"
      using False unfolding result_span_def Let_def ty_def [symmetric]
      by (simp_all split: if_splits)
    have "?o ! nat (res_Start r) < ?o ! nat (res_End r)"
      using sorted_wrt_nth_less [OF RuneToByteOffsets_mono [of "text"], of "nat (res_Start r)" "nat (res_End r)"] 2
      by linarith
    moreover have "?o ! nat (res_Start r) \<in> set ?o" "?o ! nat (res_End r) \<in> set ?o"
      using 2 by (auto intro!: nth_mem)
    then have "0 \<le> ?o ! nat (res_Start r)" "?o ! nat (res_End r) \<le> int (length text)"
      using RuneToByteOffsets_range by blast+
    ultimately show ?thesis using 2 by (simp add: eq span_in_def)
  qed
qed

lemma result_spans_ok:
  "\<exists>spans. result_spans pack (RuneToByteOffsets text) rs = Some spans \<and> (\<forall>sp \<in> set spans. span_in text sp)"
proof (induction rs)
  case Nil
  then show ?case by simp
next
  case (Cons r rs)
  obtain s1 where "result_span pack (RuneToByteOffsets text) r = Some s1" "\<forall>sp \<in> set s1. span_in text sp"
    using result_span_ok by blast
  with Cons show ?case by auto
qed

lemma presidio_engine_ok: "engine_ok (presidio_engine post decode pack)"
proof -
  have "Presidio_Detect post decode pack text \<noteq> None \<and>
      (\<forall>spans. Presidio_Detect post decode pack text = Some (Inr spans) \<longrightarrow> (\<forall>sp \<in> set spans. span_in text sp))" for "text"
  proof (cases "\<exists>e. Presidio_Detect post decode pack text = Some (Inl e)")
    case True
    then show ?thesis by auto
  next
    case False
    then obtain rs where "Presidio_Detect post decode pack text =
        map_option Inr (result_spans pack (RuneToByteOffsets text) rs)"
      by (auto simp: Presidio_Detect_def split: sum.splits if_splits)
    with result_spans_ok [of pack "text" rs] show ?thesis by auto
  qed
  then show ?thesis by (simp add: engine_ok_def presidio_engine_def)
qed

text \<open>What a span that comes back is: named, and at or above the gate of its type.\<close>

definition pack_gate :: "compiledPack \<Rightarrow> string \<Rightarrow> float64" where
  "pack_gate pack typ = (case map_of (gates pack) typ of Some g \<Rightarrow> g | None \<Rightarrow> PresidioDefaultScoreGate)"

lemma result_span_gate:
  assumes "result_span pack offs r = Some spans" and "sp \<in> set spans"
  shows "Type sp \<noteq> [] \<and> pack_gate pack (Type sp) \<le> Confidence sp \<and> Confidence sp = Score r"
  using assms
  by (auto simp: result_span_def pack_gate_def Let_def not_less split: if_splits Option.bind_splits option.splits)

lemma result_spans_gate:
  "result_spans pack offs rs = Some spans \<Longrightarrow> sp \<in> set spans \<Longrightarrow>
     Type sp \<noteq> [] \<and> pack_gate pack (Type sp) \<le> Confidence sp"
proof (induction rs arbitrary: spans)
  case (Cons r rs)
  then obtain s1 s2 where "result_span pack offs r = Some s1" "result_spans pack offs rs = Some s2" "spans = s1 @ s2"
    by (auto split: Option.bind_splits)
  with Cons result_span_gate [of pack offs r s1 sp] show ?case by auto
qed simp

lemma result_spans_nonempty:
  "result_spans pack (RuneToByteOffsets text) rs = Some spans \<Longrightarrow> sp \<in> set spans \<Longrightarrow> span_in text sp \<and> nonempty sp"
proof (induction rs arbitrary: spans)
  case (Cons r rs)
  then obtain s1 s2 where s: "result_span pack (RuneToByteOffsets text) r = Some s1"
      "result_spans pack (RuneToByteOffsets text) rs = Some s2" "spans = s1 @ s2"
    by (auto split: Option.bind_splits)
  with Cons result_span_ok [of pack "text" r] show ?case by auto
qed simp

lemma Presidio_Detect_cases:
  obtains e where "Presidio_Detect post decode pack text = Some (Inl e)"
  | rs spans where "Presidio_Detect post decode pack text = Some (Inr spans)"
      "result_spans pack (RuneToByteOffsets text) rs = Some spans"
proof (cases "\<exists>e. Presidio_Detect post decode pack text = Some (Inl e)")
  case True
  with that(1) show ?thesis by blast
next
  case False
  then obtain rs where "Presidio_Detect post decode pack text =
      map_option Inr (result_spans pack (RuneToByteOffsets text) rs)"
    by (auto simp: Presidio_Detect_def split: sum.splits if_splits)
  with result_spans_ok [of pack "text" rs] that(2) show ?thesis by auto
qed

section \<open>Thresholds\<close>

lemma foldl_min_le:
  "foldl (\<lambda>t g. if g < t then g else t) a gs \<le> (a::float64) \<and>
     (\<forall>g \<in> set gs. foldl (\<lambda>t g. if g < t then g else t) a gs \<le> g)"
proof (induction gs arbitrary: a)
  case Nil
  then show ?case by simp
next
  case (Cons g gs)
  show ?case using Cons.IH [of "if g < a then g else a"] by (auto split: if_splits)
qed

lemma reqThreshold_le:
  "reqThreshold pack \<le> PresidioDefaultScoreGate"
  "map_of (gates pack) typ = Some g \<Longrightarrow> reqThreshold pack \<le> g"
  using foldl_min_le [of PresidioDefaultScoreGate "map snd (gates pack)"]
  by (auto simp: reqThreshold_def dest!: map_of_SomeD)

text \<open>
  The gate of a type is the least positive threshold of the pack's threshold rules for it: the
  specification below reads it off the rules.
\<close>

definition rule_thresholds :: "PatternRule list \<Rightarrow> string \<Rightarrow> float64 list" where
  "rule_thresholds rules typ =
     map rule_Threshold (filter (\<lambda>r. rule_Kind r = ''threshold'' \<and> rule_Threshold r > 0 \<and> rule_Type r = typ) rules)"

fun least_opt :: "float64 list \<Rightarrow> float64 option" where
  "least_opt [] = None"
| "least_opt (x # xs) = Some (foldl min x xs)"

lemma pack_rule_gate:
  "map_of (gates (pack_rule c r)) typ =
     (if rule_Kind r = ''threshold'' \<and> rule_Threshold r > 0 \<and> rule_Type r = typ
      then (case map_of (gates c) typ of None \<Rightarrow> Some (rule_Threshold r) | Some g \<Rightarrow> Some (min g (rule_Threshold r)))
      else map_of (gates c) typ)"
  by (auto simp: pack_rule_def Let_def isRegex_def update_conv' min_def split: option.splits)

lemma foldl_pack_gate:
  "map_of (gates (foldl pack_rule c rules)) typ =
     (case map_of (gates c) typ of
        None \<Rightarrow> least_opt (rule_thresholds rules typ)
      | Some g \<Rightarrow> Some (foldl min g (rule_thresholds rules typ)))"
proof (induction rules arbitrary: c)
  case Nil
  then show ?case by (simp add: rule_thresholds_def split: option.splits)
next
  case (Cons r rules)
  show ?case by (auto simp: Cons.IH pack_rule_gate rule_thresholds_def split: option.splits)
qed

lemma SetPatternPack_gate:
  "map_of (gates (Presidio_SetPatternPack rules)) typ = least_opt (rule_thresholds rules typ)"
  by (simp add: Presidio_SetPatternPack_def foldl_pack_gate empty_pack_def)

end
