(* ===== verification/Keystore.thy ===== *)
theory Keystore
  imports Go_Strings
begin

text \<open>
  The keystore of the control plane: the records and the key format of
  \<open>internal/model/keystore.go\<close>, the operations of \<open>internal/store/keystore.go\<close> and the
  write-through file of \<open>internal/store/keystore_persist.go\<close>. The two Go maps are association
  lists with distinct keys. SHA-256, the random bytes, the clock, the JSON codec and the file
  system are arguments: \<open>clk i\<close> is the \<open>i\<close>-th reading of \<open>time.Now\<close> in a call.
\<close>

section \<open>Records\<close>

record App =
  app_ID :: string
  app_Name :: string
  app_Baseline :: string
  app_Disabled :: bool
  app_CreatedAt :: time

record APIKey =
  key_ID :: string
  key_AppID :: string
  key_Subject :: string
  key_Label :: string
  key_Digest :: string
  key_Routes :: "string list"
  key_CreatedAt :: time
  key_ExpiresAt :: "time option"
  key_RevokedAt :: "time option"

definition Active :: "APIKey \<Rightarrow> time \<Rightarrow> bool" where
  "Active k now \<longleftrightarrow>
     (if key_RevokedAt k \<noteq> None then False
      else case key_ExpiresAt k of None \<Rightarrow> True | Some t \<Rightarrow> now < t)"

definition AllowsRoute :: "APIKey \<Rightarrow> string \<Rightarrow> bool" where
  "AllowsRoute k route \<longleftrightarrow> (if key_Routes k = [] then True else list_ex (\<lambda>r. r = route) (key_Routes k))"

record KeySnapshot =
  snap_Version :: int
  snap_UpdatedAt :: time
  snap_Apps :: "App list"
  snap_Keys :: "APIKey list"

section \<open>The key format\<close>

definition KeyPrefix :: string where "KeyPrefix = ''gwk''"
definition kidBytes :: nat where "kidBytes = 6"
definition secBytes :: nat where "secBytes = 24"

text \<open>\<open>base64.RawURLEncoding\<close>: three bytes to four characters, no padding.\<close>

definition b64_char :: "nat \<Rightarrow> char" where
  "b64_char n =
     (if n < 26 then chr (65 + n) else if n < 52 then chr (71 + n)
      else if n < 62 then chr (n - 4) else if n = 62 then CHR ''-'' else CHR ''_'')"

fun b64url :: "string \<Rightarrow> string" where
  "b64url (a # b # c # bs) =
     (let n = byte a * 65536 + byte b * 256 + byte c
      in [b64_char (n div 262144), b64_char (n div 4096 mod 64), b64_char (n div 64 mod 64), b64_char (n mod 64)]
         @ b64url bs)"
| "b64url [a, b] =
     (let n = byte a * 65536 + byte b * 256
      in [b64_char (n div 262144), b64_char (n div 4096 mod 64), b64_char (n div 64 mod 64)])"
| "b64url [a] =
     (let n = byte a * 65536 in [b64_char (n div 262144), b64_char (n div 4096 mod 64)])"
| "b64url [] = []"

definition NewAPIKeySecret :: "string \<Rightarrow> string \<Rightarrow> string \<times> string" where
  "NewAPIKeySecret idb secb =
     (let kid = hex_encode idb; secret = b64url secb
      in (kid, KeyPrefix @ ''_'' @ kid @ ''_'' @ secret))"

definition ParseAPIKey :: "string \<Rightarrow> (string \<times> string) option" where
  "ParseAPIKey presented =
     (case split_n 3 (CHR ''_'') presented of
        [p, kid, secret] \<Rightarrow>
          if p \<noteq> KeyPrefix \<or> kid = [] \<or> secret = [] then None else Some (kid, secret)
      | _ \<Rightarrow> None)"

definition DigestSecret :: "(string \<Rightarrow> string) \<Rightarrow> string \<Rightarrow> string" where
  "DigestSecret sha256 secret = hex_encode (sha256 secret)"

section \<open>The store\<close>

definition maxAppNameLen :: nat where "maxAppNameLen = 120"
definition maxSubjectLen :: nat where "maxSubjectLen = 200"
definition maxLabelLen :: nat where "maxLabelLen = 120"
definition maxKeyRoutes :: nat where "maxKeyRoutes = 8"

text \<open>The pattern \<open>^[a-z0-9][a-z0-9_-]{0,62}$\<close>.\<close>

definition lower_alnum :: "char \<Rightarrow> bool" where
  "lower_alnum c \<longleftrightarrow> (97 \<le> byte c \<and> byte c \<le> 122) \<or> is_digit c"

definition appIDPattern :: "string \<Rightarrow> bool" where
  "appIDPattern s \<longleftrightarrow>
     (case s of
        [] \<Rightarrow> False
      | c # cs \<Rightarrow> lower_alnum c \<and> length cs \<le> 62 \<and>
          list_all (\<lambda>c. lower_alnum c \<or> c = CHR ''_'' \<or> c = CHR ''-'') cs)"

text \<open>The two sentinel errors with what they wrap, and the error that minting cannot reach.\<close>

datatype invalid =
    BadAppID | NameTooLong | NameBounds | AppExists string
  | SubjectTooLong | LabelTooLong | TooManyRoutes | AlreadyExpired

datatype store_error =
    ErrInvalid invalid
  | ErrNotFound string string
  | MintFailed

text \<open>
  The file behind the keystore: marshalling, the outcome of the write of the temporary file and
  of the rename. Only the rename changes the committed content.
\<close>

record key_fs =
  marshal :: "KeySnapshot \<Rightarrow> string + string"
  write_err :: "string option"
  rename_err :: "string option"

record keystore =
  apps :: "(string \<times> App) list"
  keys :: "(string \<times> APIKey) list"
  keysVersion :: int
  keysUpdatedAt :: time
  keyFile :: bool
  disk :: "string option"
  keysPersistErr :: "string option"

definition new_keystore :: keystore where
  "new_keystore =
     \<lparr>apps = [], keys = [], keysVersion = 0, keysUpdatedAt = zero_time, keyFile = False,
      disk = None, keysPersistErr = None\<rparr>"

definition sortedApps :: "(string \<times> App) list \<Rightarrow> App list" where
  "sortedApps m = sort_slice (\<lambda>a b. app_ID a < app_ID b) (map snd m)"

definition keySnapshot :: "keystore \<Rightarrow> KeySnapshot" where
  "keySnapshot s =
     \<lparr>snap_Version = keysVersion s, snap_UpdatedAt = keysUpdatedAt s, snap_Apps = sortedApps (apps s),
      snap_Keys = sort_slice (\<lambda>a b. key_ID a < key_ID b) (map snd (keys s))\<rparr>"

text \<open>\<open>keystoreFile.save\<close>: the new committed content and the error.\<close>

definition keyfile_save :: "key_fs \<Rightarrow> KeySnapshot \<Rightarrow> string option \<Rightarrow> string option \<times> string option" where
  "keyfile_save fs snap content =
     (case marshal fs snap of
        Inl err \<Rightarrow> (content, Some (''encoding keystore: '' @ err))
      | Inr buf \<Rightarrow>
          (case write_err fs of
             Some err \<Rightarrow> (content, Some (''writing keystore: '' @ err))
           | None \<Rightarrow>
               (case rename_err fs of
                  Some err \<Rightarrow> (content, Some (''committing keystore: '' @ err))
                | None \<Rightarrow> (Some buf, None))))"

definition bumpKeys :: "key_fs \<Rightarrow> time \<Rightarrow> keystore \<Rightarrow> keystore" where
  "bumpKeys fs now s =
     (let s = s\<lparr>keysVersion := keysVersion s + 1, keysUpdatedAt := now\<rparr> in
      if \<not> keyFile s then s
      else case keyfile_save fs (keySnapshot s) (disk s) of
             (content, err) \<Rightarrow> s\<lparr>disk := content, keysPersistErr := err\<rparr>)"

definition CreateApp :: "key_fs \<Rightarrow> (nat \<Rightarrow> time) \<Rightarrow> App \<Rightarrow> keystore \<Rightarrow> (store_error + App) \<times> keystore" where
  "CreateApp fs clk a s =
     (if \<not> appIDPattern (app_ID a) then (Inl (ErrInvalid BadAppID), s)
      else let a = (if app_Name a = [] then a\<lparr>app_Name := app_ID a\<rparr> else a) in
        if length (app_Name a) > maxAppNameLen then (Inl (ErrInvalid NameTooLong), s)
        else if map_of (apps s) (app_ID a) \<noteq> None then (Inl (ErrInvalid (AppExists (app_ID a))), s)
        else let a = a\<lparr>app_CreatedAt := clk 0\<rparr> in
          (Inr a, bumpKeys fs (clk 1) (s\<lparr>apps := AList.update (app_ID a) a (apps s)\<rparr>)))"

definition UpdateApp ::
    "key_fs \<Rightarrow> (nat \<Rightarrow> time) \<Rightarrow> string \<Rightarrow> string option \<Rightarrow> bool option \<Rightarrow> string option \<Rightarrow> keystore \<Rightarrow>
     (store_error + App) \<times> keystore" where
  "UpdateApp fs clk i baseline disabled name s =
     (case map_of (apps s) i of
        None \<Rightarrow> (Inl (ErrNotFound ''app'' i), s)
      | Some a \<Rightarrow>
          (let a = (case baseline of None \<Rightarrow> a | Some b \<Rightarrow> a\<lparr>app_Baseline := b\<rparr>);
               a = (case disabled of None \<Rightarrow> a | Some d \<Rightarrow> a\<lparr>app_Disabled := d\<rparr>)
           in case name of
                Some n \<Rightarrow>
                  if n = [] \<or> length n > maxAppNameLen then (Inl (ErrInvalid NameBounds), s)
                  else let a = a\<lparr>app_Name := n\<rparr> in
                    (Inr a, bumpKeys fs (clk 0) (s\<lparr>apps := AList.update i a (apps s)\<rparr>))
              | None \<Rightarrow> (Inr a, bumpKeys fs (clk 0) (s\<lparr>apps := AList.update i a (apps s)\<rparr>))))"

definition GetApp :: "string \<Rightarrow> keystore \<Rightarrow> App option" where
  "GetApp i s = map_of (apps s) i"

definition ListApps :: "keystore \<Rightarrow> App list" where
  "ListApps s = sortedApps (apps s)"

definition IssueKey ::
    "key_fs \<Rightarrow> (nat \<Rightarrow> time) \<Rightarrow> (string \<Rightarrow> string) \<Rightarrow> string \<Rightarrow> string \<Rightarrow>
     string \<Rightarrow> string \<Rightarrow> string \<Rightarrow> string list \<Rightarrow> time option \<Rightarrow> keystore \<Rightarrow>
     (store_error + (APIKey \<times> string)) \<times> keystore" where
  "IssueKey fs clk sha256 idb secb appID subject label routes expiresAt s =
     (if length subject > maxSubjectLen then (Inl (ErrInvalid SubjectTooLong), s)
      else if length label > maxLabelLen then (Inl (ErrInvalid LabelTooLong), s)
      else if length routes > maxKeyRoutes then (Inl (ErrInvalid TooManyRoutes), s)
      else if (case expiresAt of None \<Rightarrow> False | Some t \<Rightarrow> \<not> t > clk 0) then (Inl (ErrInvalid AlreadyExpired), s)
      else if map_of (apps s) appID = None then (Inl (ErrNotFound ''app'' appID), s)
      else case NewAPIKeySecret idb secb of
        (kid, plaintext) \<Rightarrow>
          (case ParseAPIKey plaintext of
             None \<Rightarrow> (Inl MintFailed, s)
           | Some (_, secret) \<Rightarrow>
               (let k = \<lparr>key_ID = kid, key_AppID = appID, key_Subject = subject, key_Label = label,
                         key_Digest = DigestSecret sha256 secret, key_Routes = routes,
                         key_CreatedAt = clk 1, key_ExpiresAt = expiresAt, key_RevokedAt = None\<rparr>
                in (Inr (k, plaintext),
                    bumpKeys fs (clk 2) (s\<lparr>keys := AList.update kid k (keys s)\<rparr>)))))"

definition RevokeKey ::
    "key_fs \<Rightarrow> (nat \<Rightarrow> time) \<Rightarrow> string \<Rightarrow> keystore \<Rightarrow> (store_error + APIKey) \<times> keystore" where
  "RevokeKey fs clk kid s =
     (case map_of (keys s) kid of
        None \<Rightarrow> (Inl (ErrNotFound ''key'' kid), s)
      | Some k \<Rightarrow>
          if key_RevokedAt k \<noteq> None then (Inr k, s)
          else let k = k\<lparr>key_RevokedAt := Some (clk 0)\<rparr> in
            (Inr k, bumpKeys fs (clk 1) (s\<lparr>keys := AList.update kid k (keys s)\<rparr>)))"

definition ListKeys :: "string \<Rightarrow> keystore \<Rightarrow> APIKey list" where
  "ListKeys appID s =
     sort_slice (\<lambda>a b. key_CreatedAt a > key_CreatedAt b)
       (map (\<lambda>k. k\<lparr>key_Digest := []\<rparr>)
         (filter (\<lambda>k. \<not> (appID \<noteq> [] \<and> key_AppID k \<noteq> appID)) (map snd (keys s))))"

definition KeystorePersistError :: "keystore \<Rightarrow> string option" where
  "KeystorePersistError s = keysPersistErr s"

text \<open>
  Boot: the directory, the read of the file (\<open>None\<close> when it does not exist) and its decoding.
\<close>

definition keyfile_load :: "(string \<Rightarrow> string + KeySnapshot) \<Rightarrow> (string + string option) \<Rightarrow> string + KeySnapshot" where
  "keyfile_load unmarshal raw =
     (case raw of
        Inl err \<Rightarrow> Inl (''reading keystore: '' @ err)
      | Inr None \<Rightarrow> Inr \<lparr>snap_Version = 0, snap_UpdatedAt = zero_time, snap_Apps = [], snap_Keys = []\<rparr>
      | Inr (Some buf) \<Rightarrow>
          (case unmarshal buf of
             Inl err \<Rightarrow> Inl (''parsing keys.json: '' @ err)
           | Inr snap \<Rightarrow> Inr snap))"

definition EnableKeystorePersistence ::
    "string option \<Rightarrow> (string \<Rightarrow> string + KeySnapshot) \<Rightarrow> (string + string option) \<Rightarrow> keystore \<Rightarrow>
     string option \<times> keystore" where
  "EnableKeystorePersistence mkdir_err unmarshal raw s =
     (case mkdir_err of
        Some err \<Rightarrow> (Some (''keystore dir: '' @ err), s)
      | None \<Rightarrow>
          (case keyfile_load unmarshal raw of
             Inl err \<Rightarrow> (Some err, s)
           | Inr snap \<Rightarrow>
               (None,
                s\<lparr>apps := foldl (\<lambda>m a. AList.update (app_ID a) a m) (apps s) (snap_Apps snap),
                  keys := foldl (\<lambda>m k. AList.update (key_ID k) k m) (keys s) (snap_Keys snap),
                  keysVersion := snap_Version snap, keysUpdatedAt := snap_UpdatedAt snap,
                  keyFile := True, disk := (case raw of Inr c \<Rightarrow> c | Inl _ \<Rightarrow> None)\<rparr>)))"

section \<open>The key format round-trips\<close>

lemma split_n_three:
  assumes "c \<notin> set a" and "c \<notin> set b"
  shows "split_n 3 c (a @ c # b @ c # r) = [a, b, r]"
  using assms by (simp add: numeral_3_eq_3 cut_append)

lemma hex_encode_no_sep: "CHR ''_'' \<notin> set (hex_encode bs)"
  using hex_encode_hex [of "CHR ''_''" bs] by (auto simp: is_hex_digit_def is_digit_def)

lemma hex_encode_Nil [simp]: "hex_encode bs = [] \<longleftrightarrow> bs = []"
  by (cases bs) (simp_all add: hex_encode_def)

lemma b64url_Nil [simp]: "b64url bs = [] \<longleftrightarrow> bs = []"
  by (cases bs rule: b64url.cases) (simp_all add: Let_def)

lemma length_b64url: "length bs mod 3 = 0 \<Longrightarrow> length (b64url bs) = 4 * (length bs div 3)"
proof (induction bs rule: b64url.induct)
  case (1 a b c bs)
  then have "length bs mod 3 = 0" by (simp add: mod_Suc split: if_splits)
  with 1 show ?case by (simp add: Let_def)
qed simp_all

lemma ParseAPIKey_New:
  assumes "idb \<noteq> []" and "secb \<noteq> []"
  shows "ParseAPIKey (snd (NewAPIKeySecret idb secb)) = Some (fst (NewAPIKeySecret idb secb), b64url secb)"
proof -
  have "CHR ''_'' \<notin> set KeyPrefix" by (simp add: KeyPrefix_def)
  from split_n_three [OF this hex_encode_no_sep, of idb "b64url secb"]
  show ?thesis using assms by (simp add: NewAPIKeySecret_def ParseAPIKey_def Let_def)
qed

text \<open>A parse splits the presented string at its first two separators and loses nothing.\<close>

lemma ParseAPIKey_Some:
  assumes "ParseAPIKey presented = Some (kid, secret)"
  shows "presented = KeyPrefix @ ''_'' @ kid @ ''_'' @ secret" and "CHR ''_'' \<notin> set kid"
    and "kid \<noteq> []" and "secret \<noteq> []"
proof -
  obtain r1 where 1: "cut (CHR ''_'') presented = Some (KeyPrefix, r1)"
    and 2: "cut (CHR ''_'') r1 = Some (kid, secret)" and ne: "kid \<noteq> []" "secret \<noteq> []"
    using assms
    by (auto simp: ParseAPIKey_def numeral_3_eq_3 split: option.splits list.splits if_splits)
  show "presented = KeyPrefix @ ''_'' @ kid @ ''_'' @ secret" "CHR ''_'' \<notin> set kid"
    using cut_Some [OF 1] cut_Some [OF 2] by auto
  show "kid \<noteq> []" "secret \<noteq> []" using ne by auto
qed

text \<open>The form of a key: prefix, id and secret, the id without the separator and neither empty.\<close>

lemma ParseAPIKey_iff:
  "ParseAPIKey presented = Some (kid, secret) \<longleftrightarrow>
     presented = KeyPrefix @ ''_'' @ kid @ ''_'' @ secret \<and> CHR ''_'' \<notin> set kid \<and> kid \<noteq> [] \<and> secret \<noteq> []"
proof
  assume "presented = KeyPrefix @ ''_'' @ kid @ ''_'' @ secret \<and> CHR ''_'' \<notin> set kid \<and> kid \<noteq> [] \<and> secret \<noteq> []"
  moreover have "CHR ''_'' \<notin> set KeyPrefix" by (simp add: KeyPrefix_def)
  ultimately show "ParseAPIKey presented = Some (kid, secret)"
    using split_n_three [of "CHR ''_''" KeyPrefix kid secret] by (simp add: ParseAPIKey_def)
qed (use ParseAPIKey_Some in blast)

section \<open>The invariant of the store\<close>

definition app_ok :: "string \<times> App \<Rightarrow> bool" where
  "app_ok ia \<longleftrightarrow> app_ID (snd ia) = fst ia \<and> appIDPattern (fst ia) \<and>
     app_Name (snd ia) \<noteq> [] \<and> length (app_Name (snd ia)) \<le> maxAppNameLen"

definition key_ok :: "(string \<times> App) list \<Rightarrow> string \<times> APIKey \<Rightarrow> bool" where
  "key_ok as ik \<longleftrightarrow> key_ID (snd ik) = fst ik \<and> map_of as (key_AppID (snd ik)) \<noteq> None \<and>
     length (key_Subject (snd ik)) \<le> maxSubjectLen \<and> length (key_Label (snd ik)) \<le> maxLabelLen \<and>
     length (key_Routes (snd ik)) \<le> maxKeyRoutes"

definition keystore_inv :: "keystore \<Rightarrow> bool" where
  "keystore_inv s \<longleftrightarrow>
     distinct (map fst (apps s)) \<and> distinct (map fst (keys s)) \<and>
     (\<forall>ia \<in> set (apps s). app_ok ia) \<and> (\<forall>ik \<in> set (keys s). key_ok (apps s) ik)"

lemma bumpKeys_simps [simp]:
  "apps (bumpKeys fs now s) = apps s"
  "keys (bumpKeys fs now s) = keys s"
  "keysVersion (bumpKeys fs now s) = keysVersion s + 1"
  "keysUpdatedAt (bumpKeys fs now s) = now"
  "keyFile (bumpKeys fs now s) = keyFile s"
  by (simp_all add: bumpKeys_def Let_def split: prod.splits)

lemma key_ok_more_apps: "key_ok as ik \<Longrightarrow> key_ok (AList.update i a as) ik"
  by (auto simp: key_ok_def update_conv')

lemma appIDPattern_Nil: "appIDPattern i \<Longrightarrow> i \<noteq> []"
  by (auto simp: appIDPattern_def)

lemma keystore_inv_new: "keystore_inv new_keystore"
  by (simp add: keystore_inv_def new_keystore_def)

lemma keystore_inv_app:
  assumes "keystore_inv s" and "app_ok (i, a)"
  shows "keystore_inv (bumpKeys fs now (s\<lparr>apps := AList.update i a (apps s)\<rparr>))"
  using assms by (auto simp: keystore_inv_def distinct_update key_ok_more_apps dest!: alist_update_in)

lemma keystore_inv_key:
  assumes "keystore_inv s" and "key_ok (apps s) (i, k)"
  shows "keystore_inv (bumpKeys fs now (s\<lparr>keys := AList.update i k (keys s)\<rparr>))"
  using assms by (auto simp: keystore_inv_def distinct_update dest!: alist_update_in)

lemma keystore_inv_lookup:
  "keystore_inv s \<Longrightarrow> map_of (apps s) i = Some a \<Longrightarrow> app_ok (i, a)"
  "keystore_inv s \<Longrightarrow> map_of (keys s) kid = Some k \<Longrightarrow> key_ok (apps s) (kid, k)"
  by (auto simp: keystore_inv_def dest: map_of_SomeD)

lemma CreateApp_inv: "keystore_inv s \<Longrightarrow> keystore_inv (snd (CreateApp fs clk a s))"
  by (auto simp: CreateApp_def Let_def app_ok_def appIDPattern_Nil intro!: keystore_inv_app)

lemma UpdateApp_inv: "keystore_inv s \<Longrightarrow> keystore_inv (snd (UpdateApp fs clk i b d n s))"
  using keystore_inv_lookup(1) [of s i]
  by (auto simp: UpdateApp_def Let_def app_ok_def intro!: keystore_inv_app split: option.splits)

lemma IssueKey_inv: "keystore_inv s \<Longrightarrow> keystore_inv (snd (IssueKey fs clk sha idb secb aid sub lab rts ex s))"
  by (auto simp: IssueKey_def Let_def key_ok_def intro!: keystore_inv_key split: option.splits prod.splits)

lemma RevokeKey_inv: "keystore_inv s \<Longrightarrow> keystore_inv (snd (RevokeKey fs clk kid s))"
  using keystore_inv_lookup(2) [of s kid]
  by (auto simp: RevokeKey_def Let_def key_ok_def intro!: keystore_inv_key split: option.splits)

section \<open>Steps and reachable stores\<close>

inductive kstep :: "(key_fs \<Rightarrow> bool) \<Rightarrow> keystore \<Rightarrow> keystore \<Rightarrow> bool" for F where
  create: "F fs \<Longrightarrow> kstep F s (snd (CreateApp fs clk a s))"
| update: "F fs \<Longrightarrow> kstep F s (snd (UpdateApp fs clk i b d n s))"
| issue: "F fs \<Longrightarrow> kstep F s (snd (IssueKey fs clk sha idb secb aid sub lab rts ex s))"
| revoke: "F fs \<Longrightarrow> kstep F s (snd (RevokeKey fs clk kid s))"

inductive_cases kstepE: "kstep F s s'"

lemma kstep_inv: "kstep F s s' \<Longrightarrow> keystore_inv s \<Longrightarrow> keystore_inv s'"
  by (induction rule: kstep.induct) (simp_all add: CreateApp_inv UpdateApp_inv IssueKey_inv RevokeKey_inv)

lemma ksteps_inv: "(kstep F)\<^sup>*\<^sup>* s s' \<Longrightarrow> keystore_inv s \<Longrightarrow> keystore_inv s'"
  by (induction rule: rtranclp_induct) (auto intro: kstep_inv)

lemma keystore_lookup_ids:
  assumes "keystore_inv s"
  shows "map_of (keys s) kid = Some k \<Longrightarrow> key_ID k = kid" and "map_of (apps s) i = Some a \<Longrightarrow> app_ID a = i"
  using assms by (auto simp: keystore_inv_def app_ok_def key_ok_def dest!: map_of_SomeD)

text \<open>What activity and the route list mean, spelled out.\<close>

lemma active_spelled: "Active k now \<longleftrightarrow> key_RevokedAt k = None \<and> (\<forall>t. key_ExpiresAt k = Some t \<longrightarrow> now < t)"
  by (simp add: Active_def split: option.split)

lemma routes_spelled: "AllowsRoute k route \<longleftrightarrow> key_Routes k = [] \<or> route \<in> set (key_Routes k)"
  by (auto simp: AllowsRoute_def list_ex_iff)

text \<open>\<open>F\<close> restricts the file systems the steps run on. A step either leaves the store as it was or advances the version by one.\<close>

lemma CreateApp_version:
  "snd (CreateApp fs clk a s) = s \<or> keysVersion (snd (CreateApp fs clk a s)) = keysVersion s + 1"
  by (simp add: CreateApp_def Let_def)

lemma UpdateApp_version:
  "snd (UpdateApp fs clk i b d n s) = s \<or> keysVersion (snd (UpdateApp fs clk i b d n s)) = keysVersion s + 1"
  by (simp add: UpdateApp_def Let_def split: option.splits)

lemma IssueKey_version:
  "snd (IssueKey fs clk sha idb secb aid sub lab rts ex s) = s \<or>
   keysVersion (snd (IssueKey fs clk sha idb secb aid sub lab rts ex s)) = keysVersion s + 1"
  by (simp add: IssueKey_def Let_def split: option.splits prod.splits)

lemma RevokeKey_version:
  "snd (RevokeKey fs clk kid s) = s \<or> keysVersion (snd (RevokeKey fs clk kid s)) = keysVersion s + 1"
  by (simp add: RevokeKey_def Let_def split: option.splits)

lemma kstep_version: "kstep F s s' \<Longrightarrow> s' = s \<or> keysVersion s' = keysVersion s + 1"
  by (elim kstepE) (metis CreateApp_version UpdateApp_version IssueKey_version RevokeKey_version)+

lemma ksteps_version: "(kstep F)\<^sup>*\<^sup>* s s' \<Longrightarrow> s' = s \<or> keysVersion s < keysVersion s'"
  by (induction rule: rtranclp_induct) (auto dest!: kstep_version)

section \<open>Durability\<close>

text \<open>The law of the codec: what was marshalled reads back.\<close>

definition codec_ok :: "(string \<Rightarrow> string + KeySnapshot) \<Rightarrow> key_fs \<Rightarrow> bool" where
  "codec_ok unmarshal fs \<longleftrightarrow> (\<forall>snap buf. marshal fs snap = Inr buf \<longrightarrow> unmarshal buf = Inr snap)"

text \<open>Durable: unless the last write failed, what a boot would read is the snapshot of the store.\<close>

definition durable :: "(string \<Rightarrow> string + KeySnapshot) \<Rightarrow> keystore \<Rightarrow> bool" where
  "durable unmarshal s \<longleftrightarrow>
     (keyFile s \<and> keysPersistErr s = None \<longrightarrow> keyfile_load unmarshal (Inr (disk s)) = Inr (keySnapshot s))"

lemma bumpKeys_durable: "codec_ok unmarshal fs \<Longrightarrow> durable unmarshal (bumpKeys fs now s)"
  by (auto simp: bumpKeys_def durable_def keyfile_save_def keyfile_load_def codec_ok_def keySnapshot_def Let_def
      split: sum.splits option.splits)

lemma kstep_durable:
  assumes "kstep (codec_ok unmarshal) s s'" and "durable unmarshal s"
  shows "durable unmarshal s'"
  using assms
  by (cases rule: kstep.cases)
    (auto simp: CreateApp_def UpdateApp_def IssueKey_def RevokeKey_def Let_def bumpKeys_durable
      split: option.splits prod.splits)

lemma ksteps_durable:
  "(kstep (codec_ok unmarshal))\<^sup>*\<^sup>* s s' \<Longrightarrow> durable unmarshal s \<Longrightarrow> durable unmarshal s'"
  by (induction rule: rtranclp_induct) (auto intro: kstep_durable)

text \<open>A failed write leaves the committed file as it was, whole.\<close>

lemma keyfile_save_atomic:
  "fst (keyfile_save fs snap content) = content \<or> marshal fs snap = Inr (the (fst (keyfile_save fs snap content)))"
  by (auto simp: keyfile_save_def split: sum.splits option.splits)

section \<open>The snapshot as the gateway reads it\<close>

text \<open>
  What a reader of snapshots relies on: the lists have distinct ids and hold exactly what the
  store would answer to a lookup.
\<close>

locale key_source =
  fixes inv :: "'s \<Rightarrow> bool"
    and app_of :: "'s \<Rightarrow> string \<Rightarrow> App option"
    and key_of :: "'s \<Rightarrow> string \<Rightarrow> APIKey option"
    and snapshot :: "'s \<Rightarrow> KeySnapshot"
  assumes apps_distinct: "inv s \<Longrightarrow> distinct (map app_ID (snap_Apps (snapshot s)))"
    and keys_distinct: "inv s \<Longrightarrow> distinct (map key_ID (snap_Keys (snapshot s)))"
    and apps_in: "inv s \<Longrightarrow> app_of s i = Some a \<longleftrightarrow> a \<in> set (snap_Apps (snapshot s)) \<and> app_ID a = i"
    and keys_in: "inv s \<Longrightarrow> key_of s kid = Some k \<longleftrightarrow> k \<in> set (snap_Keys (snapshot s)) \<and> key_ID k = kid"
begin

lemma app_lookup:
  assumes "inv s"
  shows "map_of (map (\<lambda>a. (app_ID a, a)) (snap_Apps (snapshot s))) = app_of s"
proof
  fix i
  have d: "distinct (map fst (map (\<lambda>a. (app_ID a, a)) (snap_Apps (snapshot s))))"
    using apps_distinct [OF assms] by (simp add: comp_def)
  have "map_of (map (\<lambda>a. (app_ID a, a)) (snap_Apps (snapshot s))) i = Some a \<longleftrightarrow> app_of s i = Some a" for a
    unfolding map_of_eq_Some_iff [OF d] apps_in [OF assms] by auto
  then show "map_of (map (\<lambda>a. (app_ID a, a)) (snap_Apps (snapshot s))) i = app_of s i"
    by (metis not_Some_eq)
qed

lemma key_lookup:
  assumes "inv s"
  shows "map_of (map (\<lambda>k. (key_ID k, k)) (snap_Keys (snapshot s))) = key_of s"
proof
  fix i
  have d: "distinct (map fst (map (\<lambda>k. (key_ID k, k)) (snap_Keys (snapshot s))))"
    using keys_distinct [OF assms] by (simp add: comp_def)
  have "map_of (map (\<lambda>k. (key_ID k, k)) (snap_Keys (snapshot s))) i = Some k \<longleftrightarrow> key_of s i = Some k" for k
    unfolding map_of_eq_Some_iff [OF d] keys_in [OF assms] by auto
  then show "map_of (map (\<lambda>k. (key_ID k, k)) (snap_Keys (snapshot s))) i = key_of s i"
    by (metis not_Some_eq)
qed

end

interpretation app_order: key_less app_ID by unfold_locales
interpretation key_order: key_less key_ID by unfold_locales

text \<open>The values of a map keyed by id, as a list with distinct ids.\<close>

lemma map_values:
  assumes "distinct (map fst m)" and "\<forall>ix \<in> set m. idf (snd ix) = fst ix"
  shows "distinct (map idf (map snd m))" and "map_of m i = Some x \<longleftrightarrow> x \<in> set (map snd m) \<and> idf x = i"
proof -
  have "map idf (map snd m) = map fst m" using assms(2) by simp
  with assms(1) show "distinct (map idf (map snd m))" by (simp only:)
  show "map_of m i = Some x \<longleftrightarrow> x \<in> set (map snd m) \<and> idf x = i"
    unfolding map_of_eq_Some_iff [OF assms(1)] using assms(2) by force
qed

lemma keystore_inv_ids:
  "keystore_inv s \<Longrightarrow> distinct (map fst (apps s)) \<and> (\<forall>ia \<in> set (apps s). app_ID (snd ia) = fst ia)"
  "keystore_inv s \<Longrightarrow> distinct (map fst (keys s)) \<and> (\<forall>ik \<in> set (keys s). key_ID (snd ik) = fst ik)"
  by (auto simp: keystore_inv_def app_ok_def key_ok_def)

interpretation store_keys: key_source keystore_inv "\<lambda>s. map_of (apps s)" "\<lambda>s. map_of (keys s)" keySnapshot
proof unfold_locales
  fix s i a k kid assume inv: "keystore_inv s"
  show "distinct (map app_ID (snap_Apps (keySnapshot s)))" "distinct (map key_ID (snap_Keys (keySnapshot s)))"
    using keystore_inv_ids [OF inv] map_values(1) [of "apps s" app_ID] map_values(1) [of "keys s" key_ID]
    by (simp_all add: keySnapshot_def sortedApps_def)
  show "map_of (apps s) i = Some a \<longleftrightarrow> a \<in> set (snap_Apps (keySnapshot s)) \<and> app_ID a = i"
    using keystore_inv_ids(1) [OF inv] map_values(2) [of "apps s" app_ID i a]
    by (simp add: keySnapshot_def sortedApps_def)
  show "map_of (keys s) kid = Some k \<longleftrightarrow> k \<in> set (snap_Keys (keySnapshot s)) \<and> key_ID k = kid"
    using keystore_inv_ids(2) [OF inv] map_values(2) [of "keys s" key_ID kid k]
    by (simp add: keySnapshot_def)
qed

section \<open>Restart\<close>

text \<open>A boot that reads what a store committed is, to every reader, that store again.\<close>

lemma map_of_inv: "distinct (map fst ps) \<Longrightarrow> ip \<in> set ps \<longleftrightarrow> map_of ps (fst ip) = Some (snd ip)"
  by (cases ip) simp

lemma boot_restores:
  assumes inv: "keystore_inv s" and snap: "keyfile_load unmarshal (Inr content) = Inr (keySnapshot s)"
    and boot: "EnableKeystorePersistence None unmarshal (Inr content) new_keystore = (err, s')"
  shows "err = None" and "map_of (apps s') = map_of (apps s)" and "map_of (keys s') = map_of (keys s)"
    and "keySnapshot s' = keySnapshot s" and "durable unmarshal s'" and "keystore_inv s'"
proof -
  let ?S = "keySnapshot s"
  have apps': "apps s' = map (\<lambda>a. (app_ID a, a)) (snap_Apps ?S)"
    and keys': "keys s' = map (\<lambda>k. (key_ID k, k)) (snap_Keys ?S)"
    and rest: "err = None" "keysVersion s' = keysVersion s" "keysUpdatedAt s' = keysUpdatedAt s" "disk s' = content"
    using boot snap store_keys.apps_distinct [OF inv] store_keys.keys_distinct [OF inv]
    by (auto simp: EnableKeystorePersistence_def new_keystore_def foldl_update_new keySnapshot_def split: sum.splits)
  show "err = None" and apps_eq: "map_of (apps s') = map_of (apps s)" and keys_eq: "map_of (keys s') = map_of (keys s)"
    using rest apps' keys' store_keys.app_lookup [OF inv] store_keys.key_lookup [OF inv] by simp_all
  have "sortedApps (apps s') = sortedApps (apps s)" unfolding sortedApps_def
    by (rule app_order.sort_by_key_unique)
      (use store_keys.apps_distinct [OF inv] in
        \<open>simp_all add: apps' comp_def keySnapshot_def sortedApps_def mset_sort_slice\<close>)
  moreover have "sort_slice (\<lambda>a b. key_ID a < key_ID b) (map snd (keys s')) =
      sort_slice (\<lambda>a b. key_ID a < key_ID b) (map snd (keys s))"
    by (rule key_order.sort_by_key_unique)
      (use store_keys.keys_distinct [OF inv] in
        \<open>simp_all add: keys' comp_def keySnapshot_def mset_sort_slice\<close>)
  ultimately show eq: "keySnapshot s' = ?S" using rest by (simp add: keySnapshot_def)
  show "durable unmarshal s'" using rest snap by (simp add: durable_def eq)
  have dist: "distinct (map fst (apps s'))" "distinct (map fst (keys s'))"
    using store_keys.apps_distinct [OF inv] store_keys.keys_distinct [OF inv] by (simp_all add: apps' keys' comp_def)
  have "set (apps s') = set (apps s)" "set (keys s') = set (keys s)"
    using inv map_of_inv [OF dist(1)] map_of_inv [OF dist(2)] map_of_inv [of "apps s"] map_of_inv [of "keys s"]
    unfolding keystore_inv_def apps_eq keys_eq by blast+
  with inv dist show "keystore_inv s'" unfolding keystore_inv_def key_ok_def apps_eq by (simp only:) blast
qed

text \<open>The first boot, on a directory without the file, is durable as well.\<close>

lemma first_boot:
  assumes "EnableKeystorePersistence None unmarshal (Inr None) new_keystore = (err, s)"
  shows "err = None" and "keystore_inv s" and "durable unmarshal s" and "keyFile s"
  using assms
  by (auto simp: EnableKeystorePersistence_def keyfile_load_def new_keystore_def keystore_inv_def durable_def keySnapshot_def
      sortedApps_def)

section \<open>Issuing and revoking\<close>

text \<open>The closed form of a successful issue, and what a refused one leaves behind.\<close>

lemma IssueKey_ok:
  assumes "IssueKey fs clk sha idb secb aid sub lab rts ex s = (Inr (k, plaintext), s')"
    and "idb \<noteq> []" and "secb \<noteq> []"
  shows "plaintext = KeyPrefix @ ''_'' @ key_ID k @ ''_'' @ b64url secb"
    and "ParseAPIKey plaintext = Some (key_ID k, b64url secb)"
    and "key_ID k = hex_encode idb" and "key_Digest k = DigestSecret sha (b64url secb)"
    and "key_AppID k = aid" and "key_Routes k = rts" and "key_Subject k = sub" and "key_ExpiresAt k = ex"
    and "key_RevokedAt k = None"
    and "map_of (keys s') = (map_of (keys s))(key_ID k \<mapsto> k)" and "apps s' = apps s"
    and "map_of (apps s) aid \<noteq> None"
proof -
  have "ParseAPIKey (snd (NewAPIKeySecret idb secb)) = Some (hex_encode idb, b64url secb)"
    using ParseAPIKey_New [OF assms(2,3)] by (simp add: NewAPIKeySecret_def Let_def)
  with assms(1) show "plaintext = KeyPrefix @ ''_'' @ key_ID k @ ''_'' @ b64url secb"
    and "ParseAPIKey plaintext = Some (key_ID k, b64url secb)"
    and "key_ID k = hex_encode idb" and "key_Digest k = DigestSecret sha (b64url secb)"
    and "key_AppID k = aid" and "key_Routes k = rts" and "key_Subject k = sub" and "key_ExpiresAt k = ex"
    and "key_RevokedAt k = None"
    and "map_of (keys s') = (map_of (keys s))(key_ID k \<mapsto> k)" and "apps s' = apps s"
    and "map_of (apps s) aid \<noteq> None"
    by (auto simp: IssueKey_def NewAPIKeySecret_def Let_def update_conv' split: if_splits)
qed

lemma RevokeKey_ok:
  assumes "RevokeKey fs clk kid s = (Inr k, s')"
  shows "map_of (keys s') kid = Some k" and "key_RevokedAt k \<noteq> None" and "apps s' = apps s"
    and "\<And>kid'. kid' \<noteq> kid \<Longrightarrow> map_of (keys s') kid' = map_of (keys s) kid'"
  using assms by (auto simp: RevokeKey_def Let_def update_conv' split: option.splits if_splits)

text \<open>A tombstone stays, unless the six random bytes of a later issue repeat the key id.\<close>

definition revoked :: "keystore \<Rightarrow> string \<Rightarrow> bool" where
  "revoked s kid \<longleftrightarrow> (\<exists>k. map_of (keys s) kid = Some k \<and> key_RevokedAt k \<noteq> None)"

lemma revoked_stays:
  assumes "revoked s kid"
  shows "revoked (snd (CreateApp fs clk a s)) kid" and "revoked (snd (UpdateApp fs clk i b d n s)) kid"
    and "revoked (snd (RevokeKey fs clk kid' s)) kid"
    and "hex_encode idb \<noteq> kid \<Longrightarrow> revoked (snd (IssueKey fs clk sha idb secb aid sub lab rts ex s)) kid"
  using assms
  by (auto simp: revoked_def CreateApp_def UpdateApp_def RevokeKey_def IssueKey_def NewAPIKeySecret_def
      update_conv' Let_def split: option.splits prod.splits)

text \<open>Any further operations that do not mint the same id keep the tombstone.\<close>

inductive kstep_fresh :: "string \<Rightarrow> keystore \<Rightarrow> keystore \<Rightarrow> bool" for kid where
  fresh_create: "kstep_fresh kid s (snd (CreateApp fs clk a s))"
| fresh_update: "kstep_fresh kid s (snd (UpdateApp fs clk i b d n s))"
| fresh_issue: "hex_encode idb \<noteq> kid \<Longrightarrow> kstep_fresh kid s (snd (IssueKey fs clk sha idb secb aid sub lab rts ex s))"
| fresh_revoke: "kstep_fresh kid s (snd (RevokeKey fs clk kid' s))"

lemma kstep_fresh_keeps:
  "kstep_fresh kid s s' \<Longrightarrow> revoked s kid \<Longrightarrow> keystore_inv s \<Longrightarrow> revoked s' kid \<and> keystore_inv s'"
  by (induction rule: kstep_fresh.induct)
    (simp_all add: revoked_stays CreateApp_inv UpdateApp_inv IssueKey_inv RevokeKey_inv)

lemma kstep_fresh_path:
  "(kstep_fresh kid)\<^sup>*\<^sup>* s s' \<Longrightarrow> revoked s kid \<Longrightarrow> keystore_inv s \<Longrightarrow> revoked s' kid \<and> keystore_inv s'"
  by (induction rule: rtranclp_induct) (auto dest: kstep_fresh_keeps)

end
