(* ===== verification/Json.thy ===== *)
theory Json
  imports Go_Strings
begin

text \<open>
  Decoded JSON documents, the \<open>any\<close> values of \<open>encoding/json\<close>: an object is an association list
  with distinct keys, whose order stands for the iteration order Go leaves open. A position in a
  document is a path of keys and indices; \<open>jget\<close> reads it and \<open>jput\<close> is the assignment that a
  closure \<open>m[k] = v\<close> or \<open>a[i] = v\<close> performs in place.
\<close>

datatype json =
    JNull
  | JBool bool
  | JNum float64
  | JStr string
  | JArr "json list"
  | JObj "(string \<times> json) list"

datatype step = Key string | Idx nat

type_synonym path = "step list"

fun jchild :: "json \<Rightarrow> step \<Rightarrow> json option" where
  "jchild (JObj kvs) (Key k) = map_of kvs k"
| "jchild (JArr vs) (Idx i) = (if i < length vs then Some (vs ! i) else None)"
| "jchild _ _ = None"

fun jget :: "json \<Rightarrow> path \<Rightarrow> json option" where
  "jget v [] = Some v"
| "jget v (s # p) = (case jchild v s of None \<Rightarrow> None | Some w \<Rightarrow> jget w p)"

text \<open>Replacing an existing child; a missing one is left alone.\<close>

fun jset :: "json \<Rightarrow> step \<Rightarrow> json \<Rightarrow> json" where
  "jset (JObj kvs) (Key k) w = (if map_of kvs k = None then JObj kvs else JObj (AList.update k w kvs))"
| "jset (JArr vs) (Idx i) w = JArr (vs[i := w])"
| "jset v _ w = v"

fun jput :: "json \<Rightarrow> path \<Rightarrow> json \<Rightarrow> json" where
  "jput v [] w = w"
| "jput v (s # p) w = (case jchild v s of None \<Rightarrow> v | Some u \<Rightarrow> jset v s (jput u p w))"

fun as_str :: "json option \<Rightarrow> string option" where
  "as_str (Some (JStr s)) = Some s"
| "as_str _ = None"

fun as_arr :: "json option \<Rightarrow> json list option" where
  "as_arr (Some (JArr vs)) = Some vs"
| "as_arr _ = None"

fun as_obj :: "json option \<Rightarrow> (string \<times> json) list option" where
  "as_obj (Some (JObj kvs)) = Some kvs"
| "as_obj _ = None"

lemma as_str_Some [simp]: "as_str v = Some s \<longleftrightarrow> v = Some (JStr s)"
  by (cases v rule: as_str.cases) auto

lemma as_arr_Some [simp]: "as_arr v = Some vs \<longleftrightarrow> v = Some (JArr vs)"
  by (cases v rule: as_arr.cases) auto

lemma as_obj_Some [simp]: "as_obj v = Some kvs \<longleftrightarrow> v = Some (JObj kvs)"
  by (cases v rule: as_obj.cases) auto

text \<open>Distinct keys at every level, what \<open>json.Unmarshal\<close> produces.\<close>

fun wf_json :: "json \<Rightarrow> bool" where
  "wf_json (JArr vs) = (\<forall>v \<in> set vs. wf_json v)"
| "wf_json (JObj kvs) = (distinct (map fst kvs) \<and> (\<forall>kv \<in> set kvs. wf_json (snd kv)))"
| "wf_json _ = True"

section \<open>Reading and writing positions\<close>

lemma jchild_jset_same: "jchild v s = Some u \<Longrightarrow> jchild (jset v s w) s = Some w"
  by (cases "(v, s)" rule: jchild.cases) (auto simp: update_conv' split: if_splits)

lemma jchild_jset_other: "s \<noteq> s' \<Longrightarrow> jchild (jset v s w) s' = jchild v s'"
  by (cases "(v, s)" rule: jchild.cases; cases s') (auto simp: update_conv' split: if_splits)

lemma jget_append: "jget v (p @ q) = (case jget v p of None \<Rightarrow> None | Some w \<Rightarrow> jget w q)"
  by (induction v p rule: jget.induct) (auto split: option.splits)

lemma jget_jput_same: "jget v p = Some u \<Longrightarrow> jget (jput v p w) p = Some w"
  by (induction v p w rule: jput.induct) (auto simp: jchild_jset_same split: option.splits)

text \<open>The frame: a position that neither extends nor is extended by the written one keeps its value.\<close>

lemma jget_jput_other:
  "\<not> prefix p q \<Longrightarrow> \<not> prefix q p \<Longrightarrow> jget (jput v p w) q = jget v q"
proof (induction v p w arbitrary: q rule: jput.induct)
  case (1 v w)
  then show ?case by simp
next
  case (2 v s p w)
  then obtain s' q' where q: "q = s' # q'" by (cases q) auto
  show ?case
  proof (cases "jchild v s")
    case None
    then show ?thesis by simp
  next
    case (Some u)
    show ?thesis
    proof (cases "s = s'")
      case True
      with 2 Some q show ?thesis by (auto simp: jchild_jset_same)
    next
      case False
      with Some q show ?thesis by (simp add: jchild_jset_other)
    qed
  qed
qed

text \<open>Two positions that both hold strings are equal or independent.\<close>

lemma string_paths_independent:
  assumes "jget v p = Some (JStr s)" and "jget v q = Some (JStr t)" and "p \<noteq> q"
  shows "\<not> prefix p q"
proof
  assume "prefix p q"
  then obtain r where r: "q = p @ r" by (auto simp: prefix_def)
  with assms(3) obtain st r' where "r = st # r'" by (cases r) auto
  with assms r show False by (cases st) (auto simp: jget_append)
qed

lemma jput_wf: "wf_json v \<Longrightarrow> wf_json w \<Longrightarrow> wf_json (jput v p w)"
proof (induction v p w rule: jput.induct)
  case (1 v w)
  then show ?case by simp
next
  case (2 v s p w)
  show ?case
  proof (cases "jchild v s")
    case None
    with 2 show ?thesis by simp
  next
    case (Some u)
    have child: "wf_json u"
      using 2(2) Some by (cases "(v, s)" rule: jchild.cases) (auto split: if_splits dest: map_of_SomeD)
    with 2 Some have put: "wf_json (jput u p w)" by blast
    have "wf_json (jset v s x)" if "wf_json x" for x
      using 2(2) that
      by (cases "(v, s)" rule: jchild.cases)
        (auto dest!: set_update_subset_insert [THEN subsetD] alist_update_in simp: distinct_update)
    with put Some show ?thesis by simp
  qed
qed

section \<open>Rewriting the strings of a document\<close>

text \<open>\<open>jmap f\<close> applies \<open>f\<close> at the position of every string leaf and keeps everything else.\<close>

fun jmap :: "(path \<Rightarrow> string \<Rightarrow> string) \<Rightarrow> json \<Rightarrow> json"
  and jmap_items :: "(path \<Rightarrow> string \<Rightarrow> string) \<Rightarrow> nat \<Rightarrow> json list \<Rightarrow> json list"
  and jmap_members :: "(path \<Rightarrow> string \<Rightarrow> string) \<Rightarrow> (string \<times> json) list \<Rightarrow> (string \<times> json) list" where
  "jmap f (JStr s) = JStr (f [] s)"
| "jmap f (JArr vs) = JArr (jmap_items f 0 vs)"
| "jmap f (JObj kvs) = JObj (jmap_members f kvs)"
| "jmap f v = v"
| "jmap_items f i [] = []"
| "jmap_items f i (v # vs) = jmap (\<lambda>p. f (Idx i # p)) v # jmap_items f (Suc i) vs"
| "jmap_members f [] = []"
| "jmap_members f ((k, v) # kvs) = (k, jmap (\<lambda>p. f (Key k # p)) v) # jmap_members f kvs"

lemma jmap_id: "jmap (\<lambda>p s. s) v = v"
  and "jmap_items (\<lambda>p s. s) i vs = vs"
  and "jmap_members (\<lambda>p s. s) kvs = kvs"
proof -
  have "(\<forall>p s. f p s = s) \<Longrightarrow> jmap f v = v"
    and "(\<forall>p s. g p s = s) \<Longrightarrow> jmap_items g i vs = vs"
    and "(\<forall>p s. h p s = s) \<Longrightarrow> jmap_members h kvs = kvs" for f g h
    by (induction f v and g i vs and h kvs rule: jmap_jmap_items_jmap_members.induct) auto
  then show "jmap (\<lambda>p s. s) v = v" "jmap_items (\<lambda>p s. s) i vs = vs" "jmap_members (\<lambda>p s. s) kvs = kvs"
    by auto
qed

lemma jmap_comp: "jmap f (jmap g v) = jmap (\<lambda>p s. f p (g p s)) v"
  and "jmap_items f i (jmap_items g' i vs) = jmap_items (\<lambda>p s. f p (g' p s)) i vs"
  and "jmap_members f (jmap_members g'' kvs) = jmap_members (\<lambda>p s. f p (g'' p s)) kvs"
  by (induction g v and g' i vs and g'' kvs arbitrary: f and f and f
      rule: jmap_jmap_items_jmap_members.induct) auto

lemma jmap_items_nth:
  "length (jmap_items f i vs) = length vs"
  "k < length vs \<Longrightarrow> jmap_items f i vs ! k = jmap (\<lambda>p. f (Idx (i + k) # p)) (vs ! k)"
proof -
  show "length (jmap_items f i vs) = length vs" by (induction vs arbitrary: i) auto
  show "k < length vs \<Longrightarrow> jmap_items f i vs ! k = jmap (\<lambda>p. f (Idx (i + k) # p)) (vs ! k)"
    by (induction vs arbitrary: i k) (auto simp: less_Suc_eq_0_disj)
qed

lemma jmap_members_map: "jmap_members f kvs = map (\<lambda>(k, v). (k, jmap (\<lambda>p. f (Key k # p)) v)) kvs"
  by (induction kvs) auto

lemma alist_update_map:
  "distinct (map fst kvs) \<Longrightarrow> map_of kvs k = Some u \<Longrightarrow>
     AList.update k w kvs = map (\<lambda>(k', v). (k', if k' = k then w else v)) kvs"
proof (induction kvs)
  case Nil
  then show ?case by simp
next
  case (Cons kv kvs)
  have "k \<notin> fst ` set kvs \<Longrightarrow> map (\<lambda>(k', v). (k', if k' = k then w else v)) kvs = kvs"
    by (induction kvs) auto
  with Cons show ?case by (cases kv) (simp split: if_splits)
qed

text \<open>Assigning one string leaf is a rewriting that acts at one position.\<close>

lemma jput_jmap:
  "wf_json v \<Longrightarrow> jget v p = Some (JStr s) \<Longrightarrow>
     jput v p (JStr t) = jmap (\<lambda>q u. if q = p then t else u) v"
proof (induction p arbitrary: v)
  case Nil
  then show ?case by simp
next
  case (Cons st p)
  then obtain u where u: "jchild v st = Some u" "jget u p = Some (JStr s)"
    by (auto split: option.splits)
  have skip: "If False t = (\<lambda>s. s)" by (simp add: fun_eq_iff)
  show ?case
  proof (cases v)
    case (JObj kvs)
    with u obtain k where k: "st = Key k" "map_of kvs k = Some u" by (cases st) auto
    with JObj Cons.prems have wf: "wf_json u" "distinct (map fst kvs)" by (auto dest: map_of_SomeD)
    have IH: "jput u p (JStr t) = jmap (\<lambda>q u. if q = p then t else u) u"
      using Cons.IH [OF wf(1) u(2)] .
    have only: "w = u" if "(k, w) \<in> set kvs" for w
      using that k(2) wf(2) by (metis map_of_is_SomeI option.inject)
    have "AList.update k (jput u p (JStr t)) kvs = jmap_members (\<lambda>q u. if q = Key k # p then t else u) kvs"
      unfolding jmap_members_map alist_update_map [OF wf(2) k(2)] IH
      by (rule map_cong) (use only in \<open>auto simp: jmap_id skip\<close>)
    with JObj k u show ?thesis by simp
  next
    case (JArr vs)
    with u obtain i where i: "st = Idx i" "i < length vs" "u = vs ! i"
      by (cases st) (auto split: if_splits)
    with JArr Cons.prems have wf: "wf_json u" by auto
    have IH: "jput u p (JStr t) = jmap (\<lambda>q u. if q = p then t else u) u"
      using Cons.IH [OF wf u(2)] .
    have "vs[i := jmap (\<lambda>q u. if q = p then t else u) u] =
        jmap_items (\<lambda>q u. if q = Idx i # p then t else u) 0 vs"
      by (rule nth_equalityI)
        (use i in \<open>auto simp: jmap_items_nth nth_list_update jmap_id skip\<close>)
    with JArr i IH u show ?thesis by simp
  qed (use u in \<open>cases st; simp\<close>)+
qed

lemma jget_jmap_str: "jget v p = Some (JStr s) \<Longrightarrow> jget (jmap f v) p = Some (JStr (f p s))"
proof (induction p arbitrary: v f)
  case Nil
  then show ?case by simp
next
  case (Cons st p)
  then obtain u where u: "jchild v st = Some u" "jget u p = Some (JStr s)"
    by (auto split: option.splits)
  have "jchild (jmap f v) st = Some (jmap (\<lambda>q. f (st # q)) u)"
  proof (cases v)
    case (JObj kvs)
    with u obtain k where k: "st = Key k" "map_of kvs k = Some u" by (cases st) auto
    then have "map_of (map (\<lambda>(k, v). (k, jmap (\<lambda>p. f (Key k # p)) v)) kvs) k =
        Some (jmap (\<lambda>q. f (Key k # q)) u)"
      by (induction kvs) (auto split: if_splits)
    with JObj k show ?thesis by (simp add: jmap_members_map)
  next
    case (JArr vs)
    with u show ?thesis by (cases st) (auto simp: jmap_items_nth split: if_splits)
  qed (use u in \<open>cases st; simp\<close>)+
  with Cons.IH [OF u(2)] show ?case by simp
qed

lemma jmap_cong:
  assumes "\<And>p s. jget v p = Some (JStr s) \<Longrightarrow> f p s = g p s" and "wf_json v"
  shows "jmap f v = jmap g v"
proof -
  have "wf_json v \<Longrightarrow> (\<forall>p s. jget v p = Some (JStr s) \<longrightarrow> f p s = g p s) \<Longrightarrow> jmap f v = jmap g v" for g
  proof (induction v arbitrary: f g rule: json.induct)
    case (JStr s)
    then show ?case by (metis jget.simps(1) jmap.simps(1))
  next
    case (JArr vs)
    have "jmap (\<lambda>p. f (Idx i # p)) (vs ! i) = jmap (\<lambda>p. g (Idx i # p)) (vs ! i)" if i: "i < length vs" for i
    proof (rule JArr.IH)
      show "\<forall>p s. jget (vs ! i) p = Some (JStr s) \<longrightarrow> f (Idx i # p) s = g (Idx i # p) s"
        using JArr.prems(2) i by (metis (no_types, lifting) jchild.simps(2) jget.simps(2) option.simps(5))
    qed (use JArr.prems i in auto)
    then have "jmap_items f 0 vs = jmap_items g 0 vs"
      by (intro nth_equalityI) (auto simp: jmap_items_nth)
    then show ?case by simp
  next
    case (JObj kvs)
    have "jmap (\<lambda>p. f (Key k # p)) u = jmap (\<lambda>p. g (Key k # p)) u" if ku: "(k, u) \<in> set kvs" for k u
    proof (rule JObj.IH [of "(k, u)"])
      have "map_of kvs k = Some u" using ku JObj.prems(1) by simp
      then show "\<forall>p s. jget u p = Some (JStr s) \<longrightarrow> f (Key k # p) s = g (Key k # p) s"
        using JObj.prems(2) by (metis (no_types, lifting) jchild.simps(1) jget.simps(2) option.simps(5))
    qed (use JObj.prems ku in auto)
    then show ?case by (auto simp: jmap_members_map intro!: map_cong)
  qed auto
  with assms show ?thesis by blast
qed

text \<open>A run of assignments, each of a function of the text first found at its position.\<close>

lemma foldl_jput_jmap:
  assumes "wf_json v" and "\<And>p s. (p, s) \<in> set ps \<Longrightarrow> jget v p = Some (JStr s)"
  shows "foldl (\<lambda>d (p, s). jput d p (JStr (f s))) v ps =
    jmap (\<lambda>p s. if p \<in> fst ` set ps then f s else s) v"
  using assms(2)
proof (induction ps rule: rev_induct)
  case Nil
  then show ?case by (simp add: jmap_id)
next
  case (snoc pq ps)
  obtain p s where pq: "pq = (p, s)" by (cases pq)
  let ?g = "\<lambda>ps q s. if q \<in> fst ` set ps then f s else s"
  let ?w = "foldl (\<lambda>d (p, s). jput d p (JStr (f s))) v ps"
  have w: "?w = jmap (?g ps) v" using snoc by auto
  have wfw: "wf_json ?w" using assms(1)
  proof (induction ps rule: rev_induct)
    case Nil
    then show ?case by simp
  next
    case (snoc x xs)
    then show ?case by (cases x) (simp add: jput_wf)
  qed
  have at: "jget v p = Some (JStr s)" using snoc.prems pq by auto
  then have "jget ?w p = Some (JStr (?g ps p s))" by (simp add: w jget_jmap_str)
  from jput_jmap [OF wfw this]
  have "jput ?w p (JStr (f s)) = jmap (\<lambda>q u. if q = p then f s else u) (jmap (?g ps) v)"
    by (simp add: w)
  also have "\<dots> = jmap (\<lambda>q u. if q = p then f s else ?g ps q u) v"
    by (simp add: jmap_comp)
  also have "\<dots> = jmap (?g (ps @ [pq])) v"
    using at assms(1) by (intro jmap_cong) (auto simp: pq)
  finally show ?case by (simp add: pq)
qed

end
