(* ===== verification/Secrets.thy ===== *)
theory Secrets
  imports Json
begin

text \<open>
  Credentials by reference: the shapes of \<open>internal/redact/redact.go\<close>, the resolver of
  \<open>internal/gateway/credbroker/credbroker.go\<close>, and the boot configuration of
  \<open>internal/gateway/config/config.go\<close>. The environment is a function \<open>getenv\<close> (an unset
  variable reads as the empty string); URL, query-string, duration and strict JSON parsing are
  arguments. The lemmas show what a loaded configuration can and cannot contain.
\<close>

section \<open>internal/redact\<close>

definition placeholder :: string where "placeholder = ''[REDACTED]''"

definition sensitiveKeys :: "string list" where
  "sensitiveKeys =
     [''authorization'', ''cookie'', ''set-cookie'', ''x-api-key'', ''api-key'', ''api_key'',
      ''token'', ''access_token'', ''refresh_token'', ''secret'', ''client_secret'',
      ''password'', ''passwd'', ''private_key'', ''x-goog-api-key'', ''x-amz-security-token'']"

definition isSensitive :: "(string \<Rightarrow> string) \<Rightarrow> string \<Rightarrow> bool" where
  "isSensitive ulow key = list_ex (\<lambda>s. contains (to_lower ulow key) s) sensitiveKeys"

definition redact_mask :: "(string \<Rightarrow> string) \<Rightarrow> (string \<times> string list) list \<Rightarrow> (string \<times> string list) list" where
  "redact_mask ulow m = map (\<lambda>(k, v). (k, if isSensitive ulow k then [placeholder] else v)) m"

definition redact_Headers :: "(string \<Rightarrow> string) \<Rightarrow> (string \<times> string list) list \<Rightarrow> (string \<times> string list) list" where
  "redact_Headers = redact_mask"

definition redact_Query :: "(string \<Rightarrow> string) \<Rightarrow> (string \<times> string list) list \<Rightarrow> (string \<times> string list) list" where
  "redact_Query = redact_mask"

definition plaintext_words :: "string list" where
  "plaintext_words = [''secret'', ''token'', ''password'', ''api_key'', ''apikey'', ''private_key'']"

definition secret_key_name :: "(string \<Rightarrow> string) \<Rightarrow> string \<Rightarrow> bool" where
  "secret_key_name ulow k \<longleftrightarrow>
     (let lk = to_lower ulow k in lk \<noteq> ''secret_ref'' \<and> list_ex (contains lk) plaintext_words)"

fun HasPlaintextSecretKey :: "(string \<Rightarrow> string) \<Rightarrow> (string \<times> json) list \<Rightarrow> bool" where
  "HasPlaintextSecretKey ulow [] = False"
| "HasPlaintextSecretKey ulow ((k, v) # kvs) =
     (if to_lower ulow k = ''secret_ref'' then HasPlaintextSecretKey ulow kvs
      else if secret_key_name ulow k then True
      else (case v of JObj nested \<Rightarrow> HasPlaintextSecretKey ulow nested | _ \<Rightarrow> False) \<or>
           HasPlaintextSecretKey ulow kvs)"

text \<open>The patterns \<open>^(env|vault|kms):\S+$\<close> and \<open>^(sk-|sk_live_|\<dots>)\<close>.\<close>

definition re_space :: "char \<Rightarrow> bool" where
  "re_space c \<longleftrightarrow> byte c \<in> {9, 10, 12, 13, 32}"

definition IsSecretRef :: "string \<Rightarrow> bool" where
  "IsSecretRef v \<longleftrightarrow>
     list_ex (\<lambda>scheme. has_prefix v (scheme @ '':'') \<and> drop (length scheme + 1) v \<noteq> [] \<and>
                list_all (\<lambda>c. \<not> re_space c) (drop (length scheme + 1) v))
       [''env'', ''vault'', ''kms'']"

definition raw_prefixes :: "string list" where
  "raw_prefixes = [''sk-'', ''sk_live_'', ''ghp_'', ''gho_'', ''github_pat_'', ''AKIA'', ''ASIA'', ''xoxb-'', ''ya29.'']"

definition LooksLikeRawSecret :: "string \<Rightarrow> bool" where
  "LooksLikeRawSecret v = list_ex (has_prefix v) raw_prefixes"

text \<open>\<open>embeddedSecret\<close>: a raw prefix at the start or after a character that is not a letter or digit.\<close>

definition ascii_alnum :: "char \<Rightarrow> bool" where
  "ascii_alnum c \<longleftrightarrow> (48 \<le> byte c \<and> byte c \<le> 57) \<or> (65 \<le> byte c \<and> byte c \<le> 90) \<or> (97 \<le> byte c \<and> byte c \<le> 122)"

fun embedded_from :: "bool \<Rightarrow> string \<Rightarrow> bool" where
  "embedded_from boundary [] = False"
| "embedded_from boundary (c # cs) =
     ((boundary \<and> LooksLikeRawSecret (c # cs)) \<or> embedded_from (\<not> ascii_alnum c) cs)"

definition embeddedSecret :: "string \<Rightarrow> bool" where
  "embeddedSecret s = embedded_from True s"

section \<open>The resolver\<close>

datatype resolve_error = NotSchemeName string | EmptyValue string | DeferredScheme string | UnknownScheme string

definition Resolve :: "(string \<Rightarrow> string) \<Rightarrow> string \<Rightarrow> resolve_error + string" where
  "Resolve getenv ref =
     (case cut (CHR '':'') ref of
        None \<Rightarrow> Inl (NotSchemeName ref)
      | Some (scheme, name) \<Rightarrow>
          if name = [] then Inl (NotSchemeName ref)
          else if scheme = ''env'' then
            (let v = getenv name in if v = [] then Inl (EmptyValue ref) else Inr v)
          else if scheme = ''vault'' \<or> scheme = ''kms'' then Inl (DeferredScheme scheme)
          else Inl (UnknownScheme scheme))"

section \<open>The configuration\<close>

record Upstream =
  BaseURL :: string
  CredentialRef :: string
  Auth :: string

definition AuthAPIKey :: string where "AuthAPIKey = ''x-api-key''"
definition AuthBearer :: string where "AuthBearer = ''bearer''"

record Config =
  ListenAddr :: string
  AdvertiseURL :: string
  AllowedHosts :: "string list"
  Upstreams :: "(string \<times> Upstream) list"
  ClientKeysRef :: string
  ControlPlaneKeyRef :: string
  cfg_Detectors :: "string list"
  PresidioURL :: string
  DetectorTimeout :: int
  RedactAction :: string
  FailMode :: string
  ControlPlaneURL :: string
  ObsPushInterval :: int
  PolicyPullInterval :: int
  MaxBodyBytes :: int

text \<open>What \<open>url.Parse\<close> yields of a URL, as far as the code looks.\<close>

record URL =
  url_Scheme :: string
  url_Host :: string
  url_Hostname :: string
  url_User :: "string option"
  url_Path :: string
  url_RawQuery :: string

datatype config_error =
    NotAbsoluteURL string string
  | UpstreamsMissing | UpstreamsNotJSON string | InlineSecretKey string | UpstreamsBadField string
  | UpstreamsEmpty | UserinfoURL string | InlineCredential string | RawCredential string
  | NotSecretRef string string | BadAuth string string
  | UnknownDetector string | EmptyChain | BadAction string | BadFailMode string
  | NotPositive string string

definition env_or :: "(string \<Rightarrow> string) \<Rightarrow> string \<Rightarrow> string \<Rightarrow> string" where
  "env_or getenv key fallback = (if getenv key \<noteq> [] then getenv key else fallback)"

text \<open>\<open>strconv.Atoi\<close> and \<open>strconv.ParseInt(v, 10, 64)\<close>: an optional sign, digits, the 64-bit range.\<close>

definition parse_int64 :: "string \<Rightarrow> int option" where
  "parse_int64 s =
     (let (neg, ds) = (case s of [] \<Rightarrow> (False, [])
                       | c # cs \<Rightarrow> if c = CHR ''-'' then (True, cs) else if c = CHR ''+'' then (False, cs) else (False, s));
          v = (if neg then - int (dec_value ds) else int (dec_value ds))
      in if ds = [] \<or> \<not> list_all is_digit ds \<or> v < - (2 ^ 63) \<or> v \<ge> 2 ^ 63 then None else Some v)"

definition envMillis :: "(string \<Rightarrow> string) \<Rightarrow> string \<Rightarrow> int \<Rightarrow> config_error + int" where
  "envMillis getenv key fallback =
     (let v = getenv key in
      if v = [] then Inr (wrap64 (fallback * 1000000))
      else case parse_int64 v of
             None \<Rightarrow> Inl (NotPositive key v)
           | Some n \<Rightarrow> if n \<le> 0 then Inl (NotPositive key v) else Inr (wrap64 (n * 1000000)))"

definition envDuration :: "(string \<Rightarrow> int option) \<Rightarrow> (string \<Rightarrow> string) \<Rightarrow> string \<Rightarrow> int \<Rightarrow> config_error + int" where
  "envDuration parseDuration getenv key fallback =
     (let v = getenv key in
      if v = [] then Inr fallback
      else case parseDuration v of
             None \<Rightarrow> Inl (NotPositive key v)
           | Some d \<Rightarrow> if d \<le> 0 then Inl (NotPositive key v) else Inr d)"

definition envInt64 :: "(string \<Rightarrow> string) \<Rightarrow> string \<Rightarrow> int \<Rightarrow> config_error + int" where
  "envInt64 getenv key fallback =
     (let v = getenv key in
      if v = [] then Inr fallback
      else case parse_int64 v of
             None \<Rightarrow> Inl (NotPositive key v)
           | Some n \<Rightarrow> if n \<le> 0 then Inl (NotPositive key v) else Inr n)"

definition decodedQuery :: "(string \<Rightarrow> (string \<times> string list) list option) \<Rightarrow> URL \<Rightarrow> string" where
  "decodedQuery parseQuery u =
     (case parseQuery (url_RawQuery u) of
        None \<Rightarrow> url_RawQuery u
      | Some q \<Rightarrow> concat (map (\<lambda>(k, vs). concat (map (\<lambda>v. k @ ''='' @ v @ ''&'') vs)) q))"

text \<open>The parsers the configuration relies on.\<close>

record parsers =
  parseURL :: "string \<Rightarrow> URL option"
  parseQuery :: "string \<Rightarrow> (string \<times> string list) list option"
  parseDuration :: "string \<Rightarrow> int option"
  decodeJSON :: "string \<Rightarrow> string + json"
  decodeUpstreams :: "string \<Rightarrow> string + (string \<times> Upstream) list"
  lowerUnicode :: "string \<Rightarrow> string"

definition absolute :: "URL option \<Rightarrow> bool" where
  "absolute u \<longleftrightarrow> (case u of None \<Rightarrow> False | Some u \<Rightarrow> url_Scheme u \<noteq> [] \<and> url_Host u \<noteq> [])"

definition check_upstream :: "parsers \<Rightarrow> string \<times> Upstream \<Rightarrow> config_error option" where
  "check_upstream ps ru =
     (case ru of (route, up) \<Rightarrow>
        (case parseURL ps (BaseURL up) of
           None \<Rightarrow> Some (NotAbsoluteURL route (BaseURL up))
         | Some u \<Rightarrow>
             if url_Scheme u = [] \<or> url_Host u = [] then Some (NotAbsoluteURL route (BaseURL up))
             else if url_User u \<noteq> None then Some (UserinfoURL route)
             else if embeddedSecret (BaseURL up) \<or> embeddedSecret (decodedQuery (parseQuery ps) u)
             then Some (InlineCredential route)
             else if LooksLikeRawSecret (CredentialRef up) then Some (RawCredential route)
             else if \<not> IsSecretRef (CredentialRef up) then Some (NotSecretRef route (CredentialRef up))
             else if Auth up \<notin> {[], AuthAPIKey, AuthBearer} then Some (BadAuth route (Auth up))
             else None))"

fun first_error :: "('a \<Rightarrow> 'e option) \<Rightarrow> 'a list \<Rightarrow> 'e option" where
  "first_error f [] = None"
| "first_error f (x # xs) = (case f x of Some e \<Rightarrow> Some e | None \<Rightarrow> first_error f xs)"

text \<open>The first, untyped pass: the document is an object of objects (or nulls) without secret keys.\<close>

definition loose_routes :: "string + json \<Rightarrow> string + (string \<times> (string \<times> json) list) list" where
  "loose_routes doc =
     (case doc of
        Inl err \<Rightarrow> Inl err
      | Inr JNull \<Rightarrow> Inr []
      | Inr (JObj kvs) \<Rightarrow>
          if list_all (\<lambda>(k, v). case v of JObj _ \<Rightarrow> True | JNull \<Rightarrow> True | _ \<Rightarrow> False) kvs
          then Inr (map (\<lambda>(k, v). (k, case v of JObj m \<Rightarrow> m | _ \<Rightarrow> [])) kvs)
          else Inl ''cannot unmarshal into map''
      | Inr _ \<Rightarrow> Inl ''cannot unmarshal into map'')"

definition parseUpstreams :: "parsers \<Rightarrow> string \<Rightarrow> config_error + (string \<times> Upstream) list" where
  "parseUpstreams ps raw =
     (if trim_space raw = [] then Inl UpstreamsMissing
      else case loose_routes (decodeJSON ps raw) of
        Inl err \<Rightarrow> Inl (UpstreamsNotJSON err)
      | Inr loose \<Rightarrow>
          (case first_error (\<lambda>(route, obj).
                   if HasPlaintextSecretKey (lowerUnicode ps) obj then Some (InlineSecretKey route) else None) loose of
             Some e \<Rightarrow> Inl e
           | None \<Rightarrow>
               (case decodeUpstreams ps raw of
                  Inl err \<Rightarrow> Inl (UpstreamsBadField err)
                | Inr ups \<Rightarrow>
                    if ups = [] then Inl UpstreamsEmpty
                    else (case first_error (check_upstream ps) ups of
                            Some e \<Rightarrow> Inl e
                          | None \<Rightarrow> Inr ups))))"

definition nonblank_fields :: "string \<Rightarrow> string list" where
  "nonblank_fields raw = filter (\<lambda>h. h \<noteq> []) (map trim_space (split_on (CHR '','') raw))"

definition parse_detectors :: "string \<Rightarrow> config_error + string list" where
  "parse_detectors raw =
     (let ds = nonblank_fields raw in
      case find (\<lambda>d. d \<noteq> ''regex'' \<and> d \<noteq> ''presidio'') ds of
        Some d \<Rightarrow> Inl (UnknownDetector d)
      | None \<Rightarrow> if ds = [] then Inl EmptyChain else Inr ds)"

text \<open>Sequencing of fallible steps: the first error returns.\<close>

definition andThen :: "'e + 'a \<Rightarrow> ('a \<Rightarrow> 'e + 'b) \<Rightarrow> 'e + 'b" where
  "andThen r f = (case r of Inl e \<Rightarrow> Inl e | Inr x \<Rightarrow> f x)"

definition require :: "bool \<Rightarrow> 'e \<Rightarrow> 'e + unit" where
  "require ok e = (if ok then Inr () else Inl e)"

lemma andThen_Inr [simp]: "andThen r f = Inr y \<longleftrightarrow> (\<exists>x. r = Inr x \<and> f x = Inr y)"
  by (cases r) (auto simp: andThen_def)

lemma require_Inr [simp]: "require ok e = Inr u \<longleftrightarrow> ok"
  by (auto simp: require_def)

definition Load :: "parsers \<Rightarrow> (string \<Rightarrow> string) \<Rightarrow> config_error + Config" where
  "Load ps getenv =
     (let listen = env_or getenv ''GATEWAY_LISTEN_ADDR'' ''127.0.0.1:8125'';
          keysRef = env_or getenv ''GATEWAY_CLIENT_KEYS_REF'' ''env:GATEWAY_CLIENT_KEYS'';
          spineRef = env_or getenv ''GATEWAY_CONTROL_PLANE_KEY_REF'' ''env:GATEWAY_CONTROL_PLANE_KEY'';
          action = env_or getenv ''GATEWAY_REDACT_ACTION'' ''mask'';
          failMode = env_or getenv ''GATEWAY_FAIL_MODE'' ''closed'';
          advertise = env_or getenv ''GATEWAY_ADVERTISE_URL'' (''http://'' @ listen)
      in andThen (require (absolute (parseURL ps advertise)) (NotAbsoluteURL ''GATEWAY_ADVERTISE_URL'' advertise)) (\<lambda>_.
         andThen (parseUpstreams ps (getenv ''GATEWAY_UPSTREAMS'')) (\<lambda>upstreams.
         andThen (require (IsSecretRef keysRef) (NotSecretRef ''GATEWAY_CLIENT_KEYS_REF'' keysRef)) (\<lambda>_.
         andThen (require (IsSecretRef spineRef) (NotSecretRef ''GATEWAY_CONTROL_PLANE_KEY_REF'' spineRef)) (\<lambda>_.
         andThen (parse_detectors (env_or getenv ''GATEWAY_DETECTORS'' ''regex'')) (\<lambda>detectors.
         andThen (require (action \<in> {''mask'', ''block'', ''per_policy''}) (BadAction action)) (\<lambda>_.
         andThen (require (failMode \<in> {''open'', ''closed''}) (BadFailMode failMode)) (\<lambda>_.
         andThen (envMillis getenv ''GATEWAY_DETECTOR_TIMEOUT_MS'' 800) (\<lambda>timeout.
         andThen (envDuration (parseDuration ps) getenv ''GATEWAY_OBS_PUSH_INTERVAL'' (5 * 10 ^ 9)) (\<lambda>obsPush.
         andThen (envDuration (parseDuration ps) getenv ''GATEWAY_POLICY_PULL_INTERVAL'' (15 * 10 ^ 9)) (\<lambda>pull.
         andThen (envInt64 getenv ''GATEWAY_MAX_BODY_BYTES'' (10 * 2 ^ 20)) (\<lambda>maxBody.
         Inr \<lparr>ListenAddr = listen, AdvertiseURL = advertise,
              AllowedHosts = nonblank_fields (getenv ''GATEWAY_ALLOWED_HOSTS'') @
                [url_Hostname (the (parseURL ps advertise))],
              Upstreams = upstreams, ClientKeysRef = keysRef, ControlPlaneKeyRef = spineRef,
              cfg_Detectors = detectors,
              PresidioURL = env_or getenv ''GATEWAY_PRESIDIO_URL'' ''http://127.0.0.1:8126'',
              DetectorTimeout = timeout, RedactAction = action, FailMode = failMode,
              ControlPlaneURL = env_or getenv ''GATEWAY_CONTROL_PLANE_URL'' ''http://127.0.0.1:8122'',
              ObsPushInterval = obsPush, PolicyPullInterval = pull, MaxBodyBytes = maxBody\<rparr>))))))))))))"

section \<open>What a loaded configuration holds\<close>

lemma first_error_None: "first_error f xs = None \<longleftrightarrow> (\<forall>x \<in> set xs. f x = None)"
  by (induction xs) (auto split: option.splits)

definition upstream_ok :: "parsers \<Rightarrow> Upstream \<Rightarrow> bool" where
  "upstream_ok ps up \<longleftrightarrow>
     (\<exists>u. parseURL ps (BaseURL up) = Some u \<and> url_Scheme u \<noteq> [] \<and> url_Host u \<noteq> [] \<and> url_User u = None \<and>
        \<not> embeddedSecret (BaseURL up) \<and> \<not> embeddedSecret (decodedQuery (parseQuery ps) u)) \<and>
     IsSecretRef (CredentialRef up) \<and> \<not> LooksLikeRawSecret (CredentialRef up) \<and>
     Auth up \<in> {[], AuthAPIKey, AuthBearer}"

lemma check_upstream_None: "check_upstream ps (route, up) = None \<longleftrightarrow> upstream_ok ps up"
  by (auto simp: check_upstream_def upstream_ok_def split: option.splits if_splits)

lemma parseUpstreams_ok:
  assumes "parseUpstreams ps raw = Inr ups"
  shows "ups \<noteq> []" and "\<forall>(route, up) \<in> set ups. upstream_ok ps up"
proof -
  have "ups \<noteq> []" and "first_error (check_upstream ps) ups = None"
    using assms by (auto simp: parseUpstreams_def split: if_splits sum.splits option.splits)
  then show "ups \<noteq> []" and "\<forall>(route, up) \<in> set ups. upstream_ok ps up"
    by (auto simp: first_error_None check_upstream_None)
qed

lemma parse_detectors_ok:
  "parse_detectors raw = Inr ds \<Longrightarrow> ds \<noteq> [] \<and> set ds \<subseteq> {''regex'', ''presidio''}"
  by (auto simp: parse_detectors_def Let_def find_None_iff split: option.splits if_splits)

definition config_ok :: "parsers \<Rightarrow> Config \<Rightarrow> bool" where
  "config_ok ps cfg \<longleftrightarrow>
     Upstreams cfg \<noteq> [] \<and> (\<forall>(route, up) \<in> set (Upstreams cfg). upstream_ok ps up) \<and>
     IsSecretRef (ClientKeysRef cfg) \<and> IsSecretRef (ControlPlaneKeyRef cfg) \<and>
     cfg_Detectors cfg \<noteq> [] \<and> set (cfg_Detectors cfg) \<subseteq> {''regex'', ''presidio''} \<and>
     RedactAction cfg \<in> {''mask'', ''block'', ''per_policy''} \<and> FailMode cfg \<in> {''open'', ''closed''} \<and>
     0 < ObsPushInterval cfg \<and> 0 < PolicyPullInterval cfg \<and> 0 < MaxBodyBytes cfg"

lemma envDuration_pos: "envDuration pd getenv key fallback = Inr d \<Longrightarrow> 0 < fallback \<Longrightarrow> 0 < d"
  by (auto simp: envDuration_def Let_def split: if_splits option.splits)

lemma envInt64_pos: "envInt64 getenv key fallback = Inr d \<Longrightarrow> 0 < fallback \<Longrightarrow> 0 < d"
  by (auto simp: envInt64_def Let_def split: if_splits option.splits)

lemma Load_config_ok: "Load ps getenv = Inr cfg \<Longrightarrow> config_ok ps cfg"
  unfolding Load_def Let_def andThen_Inr require_Inr sum.inject
  apply (elim exE conjE)
  apply (drule parse_detectors_ok, drule envDuration_pos, simp, drule envDuration_pos, simp, drule envInt64_pos, simp)
  apply (frule parseUpstreams_ok(1), drule parseUpstreams_ok(2))
  apply (hypsubst)
  apply (simp add: config_ok_def)
  done

text \<open>What the resolver returns is a nonempty value of the environment.\<close>

lemma Resolve_env:
  "Resolve getenv ref = Inr v \<longleftrightarrow> (\<exists>name. ref = ''env:'' @ name \<and> name \<noteq> [] \<and> getenv name = v \<and> v \<noteq> [])"
proof
  assume "Resolve getenv ref = Inr v"
  then obtain name where "cut (CHR '':'') ref = Some (''env'', name)" "name \<noteq> []" "getenv name = v" "v \<noteq> []"
    by (auto simp: Resolve_def Let_def split: option.splits if_splits)
  then show "\<exists>name. ref = ''env:'' @ name \<and> name \<noteq> [] \<and> getenv name = v \<and> v \<noteq> []"
    using cut_Some by fastforce
next
  assume "\<exists>name. ref = ''env:'' @ name \<and> name \<noteq> [] \<and> getenv name = v \<and> v \<noteq> []"
  then obtain name where n: "ref = ''env'' @ CHR '':'' # name" "name \<noteq> []" "getenv name = v" "v \<noteq> []" by auto
  then show "Resolve getenv ref = Inr v" by (simp add: Resolve_def cut_def)
qed

text \<open>Masked headers keep the keys and hide every value under a sensitive one.\<close>

lemma redact_mask_hides:
  "(k, v) \<in> set (redact_mask ulow m) \<Longrightarrow> isSensitive ulow k \<Longrightarrow> v = [placeholder]"
  by (auto simp: redact_mask_def)

lemma redact_mask_keys: "map fst (redact_mask ulow m) = map fst m"
  by (simp add: redact_mask_def comp_def case_prod_unfold)

end
