(* ===== verification/Policy_Model.thy ===== *)
theory Policy_Model
  imports Json
begin

text \<open>
  The policy contract shared by both binaries: \<open>Baseline\<close> and \<open>Policy\<close>
  (\<open>internal/model/policy.go\<close>), the derivation of the gateway's action
  (\<open>internal/model/gateway_action.go\<close>) and the four named baselines
  (\<open>internal/policy/baselines.go\<close>).
\<close>

record Baseline =
  bl_ID :: string
  bl_Name :: string
  bl_Rigor :: string
  bl_Description :: string
  bl_ModelAccess :: string
  bl_TrainingOptOut :: bool
  bl_ZDR :: string
  bl_PIIRedaction :: string
  bl_ContentSafety :: string
  bl_RetentionDays :: int
  bl_OrgCapUSD :: int
  bl_UserCapUSD :: int
  bl_CodeReview :: string
  bl_BAAOnly :: bool

record Policy =
  pol_Baseline :: string
  pol_VendorDefaults :: "(string \<times> json) list"
  pol_Vendors :: "(string \<times> (string \<times> json) list) list"
  pol_Agentic :: "(string \<times> (string \<times> json) list) list"
  pol_Budget :: "(string \<times> json) list"
  pol_AppliedAt :: time

definition ActionMask :: string where "ActionMask = ''mask''"
definition ActionBlock :: string where "ActionBlock = ''block''"
definition ActionDetect :: string where "ActionDetect = ''detect''"
definition actionPass :: string where "actionPass = ''pass''"

definition ZDRAttestationVendor :: string where "ZDRAttestationVendor = ''anthropic''"
definition ZDRAttestationKey :: string where "ZDRAttestationKey = ''zdr_attested''"

definition RequiresZDRAttestation :: "Baseline \<Rightarrow> bool" where
  "RequiresZDRAttestation b \<longleftrightarrow> bl_PIIRedaction b = ''on+phi'' \<and> bl_ZDR b = ''enforced''"

definition GatewayAction :: "Baseline \<Rightarrow> bool \<Rightarrow> string" where
  "GatewayAction b zdrAttested =
     (if bl_PIIRedaction b = ''off'' then ActionDetect
      else if bl_PIIRedaction b = ''on+phi'' then
        (if RequiresZDRAttestation b \<and> \<not> zdrAttested then ActionBlock else ActionMask)
      else ActionMask)"

text \<open>The lookup shared by the preview and by the gateway's pull: absent or not a boolean reads as false.\<close>

definition attested_in :: "(string \<times> (string \<times> json) list) list \<Rightarrow> bool" where
  "attested_in vendors =
     (case map_of vendors ZDRAttestationVendor of
        None \<Rightarrow> False
      | Some v \<Rightarrow> (case map_of v ZDRAttestationKey of Some (JBool b) \<Rightarrow> b | _ \<Rightarrow> False))"

definition ZDRAttestedIn :: "Policy option \<Rightarrow> bool" where
  "ZDRAttestedIn p = (case p of None \<Rightarrow> False | Some p \<Rightarrow> attested_in (pol_Vendors p))"

definition lock :: string where
  "lock = [chr 0xF0, chr 0x9F, chr 0x94, chr 0x92]"

definition Baselines :: "Baseline list" where
  "Baselines =
    [\<lparr>bl_ID = ''general_saas'', bl_Name = ''General SaaS'', bl_Rigor = lock,
      bl_Description = ''Balanced defaults for typical SaaS engineering orgs.'',
      bl_ModelAccess = ''open'', bl_TrainingOptOut = True, bl_ZDR = ''off'', bl_PIIRedaction = ''off'',
      bl_ContentSafety = ''standard'', bl_RetentionDays = 30, bl_OrgCapUSD = 10000, bl_UserCapUSD = 200,
      bl_CodeReview = ''agentic-reviewer (customer-facing)'', bl_BAAOnly = False\<rparr>,
     \<lparr>bl_ID = ''fintech'', bl_Name = ''Fintech'', bl_Rigor = lock @ lock,
      bl_Description = ''Elevated controls for regulated financial workloads.'',
      bl_ModelAccess = ''restricted (prod-tier only)'', bl_TrainingOptOut = True, bl_ZDR = ''where_native'',
      bl_PIIRedaction = ''on'', bl_ContentSafety = ''elevated'', bl_RetentionDays = 7,
      bl_OrgCapUSD = 50000, bl_UserCapUSD = 500,
      bl_CodeReview = ''human-required (financial flows)'', bl_BAAOnly = False\<rparr>,
     \<lparr>bl_ID = ''healthcare'', bl_Name = ''Healthcare'', bl_Rigor = lock @ lock @ lock,
      bl_Description = ''Maximum rigor; BAA-signed vendors only; zero retention.'',
      bl_ModelAccess = ''BAA-only allowlist'', bl_TrainingOptOut = True, bl_ZDR = ''enforced'',
      bl_PIIRedaction = ''on+phi'', bl_ContentSafety = ''maximum'', bl_RetentionDays = 0,
      bl_OrgCapUSD = 0, bl_UserCapUSD = 100,
      bl_CodeReview = ''human-required (all)'', bl_BAAOnly = True\<rparr>,
     \<lparr>bl_ID = ''gov_infra'', bl_Name = ''Gov / Infra'', bl_Rigor = lock @ lock @ lock,
      bl_Description = ''FedRAMP/on-prem only; audit-controlled retention.'',
      bl_ModelAccess = ''FedRAMP/on-prem only'', bl_TrainingOptOut = True, bl_ZDR = ''enforced'',
      bl_PIIRedaction = ''on'', bl_ContentSafety = ''maximum'', bl_RetentionDays = 0,
      bl_OrgCapUSD = 0, bl_UserCapUSD = 0,
      bl_CodeReview = ''human-required (all)'', bl_BAAOnly = True\<rparr>]"

definition BaselineByID :: "string \<Rightarrow> Baseline option" where
  "BaselineByID i = find (\<lambda>b. bl_ID b = i) Baselines"

text \<open>The actions and when each is derived.\<close>

lemmas action_defs = ActionMask_def ActionBlock_def ActionDetect_def actionPass_def

lemma GatewayAction_cases: "GatewayAction b z \<in> {ActionMask, ActionBlock, ActionDetect}"
  by (simp add: GatewayAction_def)

lemma GatewayAction_detect: "GatewayAction b z = ActionDetect \<longleftrightarrow> bl_PIIRedaction b = ''off''"
  by (simp add: GatewayAction_def action_defs)

lemma GatewayAction_block:
  "GatewayAction b z = ActionBlock \<longleftrightarrow> RequiresZDRAttestation b \<and> \<not> z"
  by (auto simp: GatewayAction_def RequiresZDRAttestation_def action_defs)

text \<open>Attesting never turns enforcement off: it only turns a block into a mask.\<close>

lemma GatewayAction_attest:
  "GatewayAction b True = (if GatewayAction b False = ActionBlock then ActionMask else GatewayAction b False)"
  by (simp add: GatewayAction_def action_defs)

lemma Baselines_distinct: "distinct (map bl_ID Baselines)"
  by (simp add: Baselines_def)

end
