(* ===== verification/Gateway_Server.thy ===== *)
theory Gateway_Server
  imports Presidio Keystore Secrets Policy_Model
begin

text \<open>
  One gateway instance (\<open>internal/gateway/server.go\<close>), the edge-side keystore and caller
  authentication (\<open>keystore.go\<close>), the resolution of the action a caller runs under
  (\<open>proxy.go\<close>, \<open>actionFor\<close>) and the downward half of the spine (\<open>spine_pull.go\<close>). Every
  atomically swapped pointer of the Go struct is a field; the answer of each control-plane GET
  is an argument. The report ring and the metrics are in the theories of their own.
\<close>

section \<open>State\<close>

text \<open>The pulled keystore in lookup form.\<close>

record key_table =
  tab_version :: int
  tab_apps :: "(string \<times> App) list"
  tab_keys :: "(string \<times> APIKey) list"

definition newKeySnapshot :: "KeySnapshot \<Rightarrow> key_table" where
  "newKeySnapshot snap =
     \<lparr>tab_version = snap_Version snap,
      tab_apps = foldl (\<lambda>m a. AList.update (app_ID a) a m) [] (snap_Apps snap),
      tab_keys = foldl (\<lambda>m k. AList.update (key_ID k) k m) [] (snap_Keys snap)\<rparr>"

text \<open>A detector instance of the chain; \<open>s.regexDet\<close> and \<open>s.presidio\<close> are the last of their kind.\<close>

datatype det = DRegex "recognizer list" | DPresidio compiledPack

record gateway =
  gw_cfg :: Config
  clientKeys :: "string list"
  spineKey :: string
  dets :: "det list"
  chain_allow :: "(string \<rightharpoonup> string set) option"
  policyAction :: "string option"
  policyBaseline :: "string option"
  zdrAttested :: bool
  packVersion :: int
  baselines :: "(string \<times> Baseline) list option"
  gw_keys :: "key_table option"

datatype boot_error = ClientKeysUnresolved resolve_error | NoClientKeys | SpineKeyUnresolved resolve_error

definition new_detectors :: "string list \<Rightarrow> det list" where
  "new_detectors names =
     concat (map (\<lambda>name. if name = ''regex'' then [DRegex builtinRecognizers]
                         else if name = ''presidio'' then [DPresidio empty_pack] else []) names)"

definition New :: "(string \<Rightarrow> string) \<Rightarrow> Config \<Rightarrow> boot_error + gateway" where
  "New getenv cfg =
     (case Resolve getenv (ClientKeysRef cfg) of
        Inl e \<Rightarrow> Inl (ClientKeysUnresolved e)
      | Inr raw \<Rightarrow>
          (let ks = nonblank_fields raw in
           if ks = [] then Inl NoClientKeys
           else let spine = Resolve getenv (ControlPlaneKeyRef cfg) in
             case spine of
               Inl e \<Rightarrow>
                 if \<not> has_prefix (ControlPlaneKeyRef cfg) ''env:'' then Inl (SpineKeyUnresolved e)
                 else Inr \<lparr>gw_cfg = cfg, clientKeys = ks, spineKey = [], dets = new_detectors (cfg_Detectors cfg),
                           chain_allow = None, policyAction = None, policyBaseline = None,
                           zdrAttested = False, packVersion = 0, baselines = None, gw_keys = None\<rparr>
             | Inr v \<Rightarrow>
                 Inr \<lparr>gw_cfg = cfg, clientKeys = ks, spineKey = v, dets = new_detectors (cfg_Detectors cfg),
                      chain_allow = None, policyAction = None, policyBaseline = None,
                      zdrAttested = False, packVersion = 0, baselines = None, gw_keys = None\<rparr>))"

text \<open>The chain the proxy runs, and the world its engines and digests need.\<close>

record world =
  sha256 :: "string \<Rightarrow> string"
  ulow :: "string \<Rightarrow> string"
  compile :: "string \<Rightarrow> string + (string \<Rightarrow> (int \<times> int) list)"
  analyze :: "analyzeRequest \<Rightarrow> string + (nat \<times> string)"
  decode_results :: "string \<Rightarrow> string + presidioResult list"

definition det_engine :: "world \<Rightarrow> det \<Rightarrow> Engine" where
  "det_engine w d =
     (case d of
        DRegex recs \<Rightarrow> regex_engine recs
      | DPresidio pack \<Rightarrow> presidio_engine (analyze w) (decode_results w) pack)"

definition gw_chain :: "world \<Rightarrow> gateway \<Rightarrow> Chain" where
  "gw_chain w gw = \<lparr>Detectors = map (det_engine w) (dets gw), allow = chain_allow gw\<rparr>"

section \<open>Authentication\<close>

record principal =
  p_AppID :: string
  p_KeyID :: string
  p_Subject :: string
  p_Baseline :: string

definition no_principal :: principal where
  "no_principal = \<lparr>p_AppID = [], p_KeyID = [], p_Subject = [], p_Baseline = []\<rparr>"

definition envPrincipal :: principal where
  "envPrincipal = \<lparr>p_AppID = ''env'', p_KeyID = ''env'', p_Subject = [], p_Baseline = []\<rparr>"

definition authenticateKeystore ::
    "world \<Rightarrow> time \<Rightarrow> gateway \<Rightarrow> string \<Rightarrow> string \<Rightarrow> string \<Rightarrow> principal option" where
  "authenticateKeystore w now gw kid secret route =
     do {
       tab \<leftarrow> gw_keys gw;
       k \<leftarrow> map_of (tab_keys tab) kid;
       if DigestSecret (sha256 w) secret \<noteq> key_Digest k then None
       else if \<not> Active k now \<or> \<not> AllowsRoute k route then None
       else do {
         app \<leftarrow> map_of (tab_apps tab) (key_AppID k);
         if app_Disabled app then None
         else Some \<lparr>p_AppID = app_ID app, p_KeyID = key_ID k, p_Subject = key_Subject k,
                    p_Baseline = app_Baseline app\<rparr>
       }
     }"

definition authenticate :: "world \<Rightarrow> time \<Rightarrow> gateway \<Rightarrow> string \<Rightarrow> string \<Rightarrow> principal option" where
  "authenticate w now gw presented route =
     (if presented = [] then None
      else case ParseAPIKey presented of
             Some (kid, secret) \<Rightarrow> authenticateKeystore w now gw kid secret route
           | None \<Rightarrow> if presented \<in> set (clientKeys gw) then Some envPrincipal else None)"

section \<open>Which action a caller runs under\<close>

definition resolveAction :: "gateway \<Rightarrow> principal \<Rightarrow> string \<times> string \<times> bool" where
  "resolveAction gw p =
     (if RedactAction (gw_cfg gw) \<noteq> ''per_policy'' then (RedactAction (gw_cfg gw), [], False)
      else let own = (if p_Baseline p = [] then None
                      else case baselines gw of None \<Rightarrow> None | Some bs \<Rightarrow> map_of bs (p_Baseline p));
               missing = (p_Baseline p \<noteq> []);
               global = (case policyBaseline gw of None \<Rightarrow> [] | Some b \<Rightarrow> b)
           in case own of
                Some b \<Rightarrow> (GatewayAction b (zdrAttested gw), bl_ID b, False)
              | None \<Rightarrow>
                  (case policyAction gw of
                     Some v \<Rightarrow> (v, global, missing)
                   | None \<Rightarrow> (ActionMask, global, missing)))"

definition actionFor :: "gateway \<Rightarrow> principal \<Rightarrow> string \<times> string" where
  "actionFor gw p = (case resolveAction gw p of (action, baseline, missing) \<Rightarrow> (action, baseline))"

definition enforces :: "string \<Rightarrow> bool" where
  "enforces action \<longleftrightarrow> action = ActionMask \<or> action = ActionBlock"

definition allAppsEnforce :: "gateway \<Rightarrow> bool" where
  "allAppsEnforce gw =
     (case gw_keys gw of
        None \<Rightarrow> True
      | Some tab \<Rightarrow>
          list_all (\<lambda>(i, app).
            if app_Disabled app \<or> app_Baseline app = [] then True
            else enforces (fst (resolveAction gw
                   \<lparr>p_AppID = app_ID app, p_KeyID = [], p_Subject = [], p_Baseline = app_Baseline app\<rparr>)))
            (tab_apps tab))"

section \<open>Pulling\<close>

definition pullKeys :: "string + KeySnapshot \<Rightarrow> gateway \<Rightarrow> string option \<times> gateway" where
  "pullKeys answer gw =
     (case answer of
        Inl err \<Rightarrow> (Some err, gw)
      | Inr snap \<Rightarrow>
          if (case gw_keys gw of None \<Rightarrow> False | Some prev \<Rightarrow> tab_version prev = snap_Version snap)
          then (None, gw)
          else (None, gw\<lparr>gw_keys := Some (newKeySnapshot snap)\<rparr>))"

text \<open>The policy the control plane answers: nothing applied, or a baseline and the vendor flags.\<close>

type_synonym policy_answer = "string + (string \<times> (string \<times> (string \<times> json) list) list) option"

definition pullPolicy :: "policy_answer \<Rightarrow> string + Baseline list \<Rightarrow> gateway \<Rightarrow> string option \<times> gateway" where
  "pullPolicy policy bls gw =
     (if RedactAction (gw_cfg gw) \<noteq> ''per_policy'' then (None, gw)
      else case policy of
        Inl err \<Rightarrow> (Some err, gw)
      | Inr applied \<Rightarrow>
          (case bls of
             Inl err \<Rightarrow> (Some err, gw)
           | Inr bs \<Rightarrow>
               (let byID = foldl (\<lambda>m b. AList.update (bl_ID b) b m) [] bs;
                    gw = gw\<lparr>baselines := Some byID\<rparr>
                in case applied of
                     None \<Rightarrow> (None, gw)
                   | Some (baseline, vendors) \<Rightarrow>
                       if baseline = [] then (None, gw)
                       else (case map_of byID baseline of
                               None \<Rightarrow> (Some (''baseline not found: '' @ baseline), gw)
                             | Some base \<Rightarrow>
                                 (let attested = attested_in vendors
                                  in (None, gw\<lparr>zdrAttested := attested,
                                               policyAction := Some (GatewayAction base attested),
                                               policyBaseline := Some baseline\<rparr>))))))"

text \<open>A rule as the control plane ships it; the gateway keeps its detector half.\<close>

record PackRule = PatternRule +
  rule_Rationale :: string
  rule_AddedAt :: time

record PatternPack =
  pack_Version :: int
  pack_UpdatedAt :: time
  pack_Rules :: "PackRule list"

fun update_last :: "('a \<Rightarrow> 'a option) \<Rightarrow> 'a list \<Rightarrow> 'a list" where
  "update_last f [] = []"
| "update_last f (x # xs) =
     (if list_ex (\<lambda>y. f y \<noteq> None) xs then x # update_last f xs
      else case f x of None \<Rightarrow> x # xs | Some y \<Rightarrow> y # xs)"

definition as_regex :: "det \<Rightarrow> recognizer list option" where
  "as_regex d = (case d of DRegex recs \<Rightarrow> Some recs | _ \<Rightarrow> None)"

definition last_regex :: "det list \<Rightarrow> recognizer list option" where
  "last_regex ds = (case List.map_filter as_regex ds of [] \<Rightarrow> None | rs \<Rightarrow> Some (last rs))"

definition set_regex :: "recognizer list \<Rightarrow> det list \<Rightarrow> det list" where
  "set_regex recs = update_last (\<lambda>d. case d of DRegex _ \<Rightarrow> Some (DRegex recs) | _ \<Rightarrow> None)"

definition set_presidio :: "compiledPack \<Rightarrow> det list \<Rightarrow> det list" where
  "set_presidio pack = update_last (\<lambda>d. case d of DPresidio _ \<Rightarrow> Some (DPresidio pack) | _ \<Rightarrow> None)"

definition pullPatterns :: "world \<Rightarrow> string + PatternPack \<Rightarrow> gateway \<Rightarrow> string option \<times> gateway" where
  "pullPatterns w answer gw =
     (case answer of
        Inl err \<Rightarrow> (Some err, gw)
      | Inr pack \<Rightarrow>
          if pack_Version pack = packVersion gw then (None, gw)
          else let rules = map PatternRule.truncate (pack_Rules pack);
                   (err, ds) = (case last_regex (dets gw) of
                      None \<Rightarrow> (None, dets gw)
                    | Some recs \<Rightarrow>
                        (case Regex_SetPatternPack (compile w) rules recs of
                           (Some e, _) \<Rightarrow> (Some e, dets gw)
                         | (None, recs') \<Rightarrow> (None, set_regex recs' (dets gw))))
               in case err of
                    Some e \<Rightarrow> (Some (''pattern pack rejected: '' @ e), gw\<lparr>packVersion := pack_Version pack\<rparr>)
                  | None \<Rightarrow>
                      (None, gw\<lparr>dets := set_presidio (Presidio_SetPatternPack rules) ds,
                                chain_allow := allow (Chain_SetPatternPack (ulow w) rules (gw_chain w gw)),
                                packVersion := pack_Version pack\<rparr>))"

definition pullOnce ::
    "world \<Rightarrow> policy_answer \<Rightarrow> string + Baseline list \<Rightarrow> string + PatternPack \<Rightarrow> string + KeySnapshot \<Rightarrow>
     gateway \<Rightarrow> string option \<times> gateway" where
  "pullOnce w policy bls pack snap gw =
     (let (e1, gw1) = pullPolicy policy bls gw;
          (e2, gw2) = pullPatterns w pack gw1;
          (e3, gw3) = pullKeys snap gw2
      in (case e1 of Some e \<Rightarrow> Some e | None \<Rightarrow> (case e2 of Some e \<Rightarrow> Some e | None \<Rightarrow> e3), gw3))"

section \<open>The detector chain of a running gateway\<close>

text \<open>Every recognizer the gateway ever runs is built in or came out of \<open>compile\<close>.\<close>

definition dets_ok :: "det list \<Rightarrow> bool" where
  "dets_ok ds \<longleftrightarrow> (\<forall>recs. DRegex recs \<in> set ds \<longrightarrow> list_all recognizer_ok recs)"

lemma New_dets_ok: "New getenv cfg = Inr gw \<Longrightarrow> dets_ok (dets gw)"
  by (auto simp: New_def Let_def dets_ok_def new_detectors_def builtins_ok split: sum.splits if_splits)

lemma set_update_last: "x \<in> set (update_last f xs) \<Longrightarrow> x \<in> set xs \<or> (\<exists>y \<in> set xs. f y = Some x)"
  by (induction xs) (auto split: if_splits option.splits)

lemma dets_ok_set_regex: "dets_ok ds \<Longrightarrow> list_all recognizer_ok recs \<Longrightarrow> dets_ok (set_regex recs ds)"
  unfolding dets_ok_def set_regex_def by (auto dest!: set_update_last split: det.splits)

lemma dets_ok_set_presidio: "dets_ok ds \<Longrightarrow> dets_ok (set_presidio pack ds)"
  unfolding dets_ok_def set_presidio_def by (auto dest!: set_update_last split: det.splits)

lemma dets_ok_last_regex: "dets_ok ds \<Longrightarrow> last_regex ds = Some recs \<Longrightarrow> list_all recognizer_ok recs"
proof -
  assume ok: "dets_ok ds" and "last_regex ds = Some recs"
  then have "recs \<in> set (List.map_filter as_regex ds)"
    by (auto simp: last_regex_def split: list.splits)
  then have "DRegex recs \<in> set ds"
    by (auto simp: map_filter_def as_regex_def split: det.splits)
  with ok show ?thesis by (simp add: dets_ok_def)
qed

lemma pullPatterns_dets_ok:
  assumes "compile_ok (compile w)" and "dets_ok (dets gw)"
  shows "dets_ok (dets (snd (pullPatterns w answer gw)))"
proof -
  have "list_all recognizer_ok recs'"
    if "last_regex (dets gw) = Some recs" "Regex_SetPatternPack (compile w) rules recs = (None, recs')"
    for rules recs recs'
    using SetPatternPack_ok [OF assms(1) dets_ok_last_regex [OF assms(2) that(1)], of rules] that(2) by simp
  with assms(2) show ?thesis
    by (auto simp: pullPatterns_def Let_def dets_ok_set_regex dets_ok_set_presidio
        split: sum.splits option.splits prod.splits)
qed

lemma pullPolicy_dets [simp]: "dets (snd (pullPolicy policy bls gw)) = dets gw"
  by (simp add: pullPolicy_def Let_def split: sum.splits option.splits prod.splits)

lemma pullKeys_dets [simp]: "dets (snd (pullKeys answer gw)) = dets gw"
  by (simp add: pullKeys_def split: sum.splits)

lemma pullOnce_dets_ok:
  assumes "compile_ok (compile w)" and "dets_ok (dets gw)"
  shows "dets_ok (dets (snd (pullOnce w policy bls pack snap gw)))"
  using pullPatterns_dets_ok [OF assms(1), of "snd (pullPolicy policy bls gw)" pack] assms(2)
  by (simp add: pullOnce_def Let_def case_prod_unfold)

lemma gw_chain_ok: "dets_ok (dets gw) \<Longrightarrow> chain_ok (gw_chain w gw)"
  by (auto simp: chain_ok_def gw_chain_def det_engine_def dets_ok_def regex_engine_ok presidio_engine_ok
      split: det.splits)

text \<open>A pack with a rule that does not compile installs nothing, and is not tried again.\<close>

lemma pullPatterns_rejected:
  assumes "pullPatterns w (Inr pack) gw = (Some err, gw')"
  shows "gw' = gw\<lparr>packVersion := pack_Version pack\<rparr>"
    and "pullPatterns w (Inr pack) gw' = (None, gw')"
  using assms by (auto simp: pullPatterns_def Let_def split: if_splits option.splits prod.splits)

lemma pack_recognizers_rejects:
  "r \<in> set rules \<Longrightarrow> isRegex r \<Longrightarrow> compiler (rule_Regex r) = Inl e \<Longrightarrow> \<exists>err. pack_recognizers compiler rules = Inl err"
  by (induction rules) (auto split: sum.split)

lemma bad_rule_rejected:
  assumes "r \<in> set (pack_Rules pack)" and "rule_Kind r = [] \<or> rule_Kind r = ''regex''" and "compile w (rule_Regex r) = Inl e"
    and "DRegex recs \<in> set (dets gw)" and "pack_Version pack \<noteq> packVersion gw"
  shows "\<exists>err. fst (pullPatterns w (Inr pack) gw) = Some err"
proof -
  have "PatternRule.truncate r \<in> set (map PatternRule.truncate (pack_Rules pack))" "isRegex (PatternRule.truncate r)"
    "compile w (rule_Regex (PatternRule.truncate r)) = Inl e"
    using assms(1-3) by (simp_all add: isRegex_def PatternRule.truncate_def)
  from pack_recognizers_rejects [where compiler = "compile w", OF this]
  obtain err where err: "pack_recognizers (compile w) (map PatternRule.truncate (pack_Rules pack)) = Inl err" by blast
  have "recs \<in> set (List.map_filter as_regex (dets gw))"
    using assms(4) by (force simp: List.map_filter_def as_regex_def)
  then obtain recs' where "last_regex (dets gw) = Some recs'"
    by (cases "List.map_filter as_regex (dets gw)") (simp_all add: last_regex_def)
  then show ?thesis using assms(5) by (simp add: pullPatterns_def Regex_SetPatternPack_def err Let_def)
qed

section \<open>Who authenticates\<close>

lemma authenticateKeystore_Some:
  "authenticateKeystore w now gw kid secret route = Some p \<longleftrightarrow>
     (\<exists>tab k app. gw_keys gw = Some tab \<and> map_of (tab_keys tab) kid = Some k \<and>
        key_Digest k = DigestSecret (sha256 w) secret \<and> Active k now \<and> AllowsRoute k route \<and>
        map_of (tab_apps tab) (key_AppID k) = Some app \<and> \<not> app_Disabled app \<and>
        p = \<lparr>p_AppID = app_ID app, p_KeyID = key_ID k, p_Subject = key_Subject k, p_Baseline = app_Baseline app\<rparr>)"
  by (auto simp: authenticateKeystore_def split: Option.bind_splits if_splits)

lemma authenticate_Some:
  "authenticate w now gw presented route = Some p \<longleftrightarrow>
     (\<exists>kid secret. ParseAPIKey presented = Some (kid, secret) \<and>
        authenticateKeystore w now gw kid secret route = Some p) \<or>
     (presented \<noteq> [] \<and> ParseAPIKey presented = None \<and> presented \<in> set (clientKeys gw) \<and> p = envPrincipal)"
proof -
  have "ParseAPIKey [] = None" by (simp add: ParseAPIKey_def numeral_3_eq_3 cut_def)
  then show ?thesis by (auto simp: authenticate_def split: option.splits if_splits)
qed

text \<open>The edge holds the store's own lookup once it has pulled the store's snapshot.\<close>

lemma newKeySnapshot_lookup:
  assumes "keystore_inv s"
  shows "map_of (tab_apps (newKeySnapshot (keySnapshot s))) = map_of (apps s)"
    and "map_of (tab_keys (newKeySnapshot (keySnapshot s))) = map_of (keys s)"
  using store_keys.app_lookup [OF assms] store_keys.key_lookup [OF assms]
    store_keys.apps_distinct [OF assms] store_keys.keys_distinct [OF assms]
  by (simp_all add: newKeySnapshot_def foldl_update_new)

definition pulled_from :: "gateway \<Rightarrow> keystore \<Rightarrow> bool" where
  "pulled_from gw s \<longleftrightarrow> gw_keys gw = Some (newKeySnapshot (keySnapshot s))"

lemma authenticate_pulled:
  assumes "pulled_from gw s" and "keystore_inv s" and "ParseAPIKey presented = Some (kid, secret)"
  shows "authenticate w now gw presented route = Some p \<longleftrightarrow>
    (\<exists>k app. map_of (keys s) kid = Some k \<and> key_Digest k = DigestSecret (sha256 w) secret \<and>
       Active k now \<and> AllowsRoute k route \<and> map_of (apps s) (key_AppID k) = Some app \<and>
       \<not> app_Disabled app \<and>
       p = \<lparr>p_AppID = app_ID app, p_KeyID = key_ID k, p_Subject = key_Subject k, p_Baseline = app_Baseline app\<rparr>)"
  using assms(1) newKeySnapshot_lookup [OF assms(2)]
  by (simp add: authenticate_Some authenticateKeystore_Some assms(3) pulled_from_def)

lemma issued_key_authenticates:
  assumes issue: "IssueKey fs clk (sha256 w) idb secb aid sub lab rts ex s = (Inr (k, plaintext), s')"
    and "idb \<noteq> []" and "secb \<noteq> []" and inv: "keystore_inv s" and pulled: "pulled_from gw s'"
  shows "authenticate w now gw plaintext route =
    (case map_of (apps s) aid of
       None \<Rightarrow> None
     | Some app \<Rightarrow>
         if app_Disabled app \<or> (\<exists>t. ex = Some t \<and> t \<le> now) \<or> (rts \<noteq> [] \<and> route \<notin> set rts) then None
         else Some \<lparr>p_AppID = aid, p_KeyID = key_ID k, p_Subject = sub, p_Baseline = app_Baseline app\<rparr>)"
proof -
  note ok = IssueKey_ok [OF issue assms(2,3)]
  have inv': "keystore_inv s'" using IssueKey_inv [OF inv, of fs clk "sha256 w" idb secb aid sub lab rts ex] issue by simp
  obtain app where app: "map_of (apps s) aid = Some app" using ok(12) by auto
  have id: "app_ID app = aid" using keystore_inv_lookup(1) [OF inv app] by (simp add: app_ok_def)
  have act: "Active k now \<longleftrightarrow> \<not> (\<exists>t. ex = Some t \<and> t \<le> now)"
    using ok by (auto simp: Active_def split: option.splits)
  have rt: "AllowsRoute k route \<longleftrightarrow> \<not> (rts \<noteq> [] \<and> route \<notin> set rts)"
    using ok by (auto simp: AllowsRoute_def list_ex_iff)
  have iff: "authenticate w now gw plaintext route = Some p \<longleftrightarrow>
      \<not> (app_Disabled app \<or> (\<exists>t. ex = Some t \<and> t \<le> now) \<or> (rts \<noteq> [] \<and> route \<notin> set rts)) \<and>
      p = \<lparr>p_AppID = aid, p_KeyID = key_ID k, p_Subject = sub, p_Baseline = app_Baseline app\<rparr>" for p
    unfolding authenticate_pulled [OF pulled inv' ok(2)] using app ok act rt id by auto
  let ?refuse = "app_Disabled app \<or> (\<exists>t. ex = Some t \<and> t \<le> now) \<or> (rts \<noteq> [] \<and> route \<notin> set rts)"
  show ?thesis
  proof (cases ?refuse)
    case True
    then have "\<And>p. authenticate w now gw plaintext route \<noteq> Some p" using iff by blast
    then have "authenticate w now gw plaintext route = None" by (meson not_None_eq)
    with True app show ?thesis by auto
  next
    case False
    with iff [of "\<lparr>p_AppID = aid, p_KeyID = key_ID k, p_Subject = sub, p_Baseline = app_Baseline app\<rparr>"] app
    show ?thesis by auto
  qed
qed

lemma revoked_key_refused:
  assumes "revoked s kid" and "keystore_inv s" and "pulled_from gw s"
    and "ParseAPIKey presented = Some (kid, secret)"
  shows "authenticate w now gw presented route = None"
proof -
  have "\<not> (\<exists>p. authenticate w now gw presented route = Some p)"
    using assms(1) by (auto simp: authenticate_pulled [OF assms(3,2,4)] revoked_def Active_def)
  then show ?thesis by (meson not_None_eq)
qed

section \<open>Every caller is enforced when the gateway says so\<close>

lemma resolveAction_baseline: "p_Baseline p = p_Baseline q \<Longrightarrow> resolveAction gw p = resolveAction gw q"
  unfolding resolveAction_def by (simp only:)

lemma allAppsEnforce_callers:
  assumes "enforces (fst (actionFor gw no_principal))" and "allAppsEnforce gw"
    and "authenticate w now gw presented route = Some p"
  shows "enforces (fst (actionFor gw p))"
proof (cases "p_Baseline p = []")
  case True
  then have "resolveAction gw p = resolveAction gw no_principal"
    by (intro resolveAction_baseline) (simp add: no_principal_def)
  with assms(1) show ?thesis by (simp add: actionFor_def)
next
  case False
  then have "p \<noteq> envPrincipal" by (auto simp: envPrincipal_def)
  with assms(3) obtain kid secret where "authenticateKeystore w now gw kid secret route = Some p"
    by (auto simp: authenticate_Some)
  then obtain tab k app where tab: "gw_keys gw = Some tab" "map_of (tab_apps tab) (key_AppID (k::APIKey)) = Some app"
      "\<not> app_Disabled app"
    and p: "p = \<lparr>p_AppID = app_ID app, p_KeyID = key_ID k, p_Subject = key_Subject k, p_Baseline = app_Baseline app\<rparr>"
    unfolding authenticateKeystore_Some by blast
  have "(key_AppID k, app) \<in> set (tab_apps tab)" using tab(2) by (rule map_of_SomeD)
  with assms(2) tab False p have "enforces (fst (resolveAction gw
      \<lparr>p_AppID = app_ID app, p_KeyID = [], p_Subject = [], p_Baseline = app_Baseline app\<rparr>))"
    by (force simp: allAppsEnforce_def list_all_iff)
  moreover have "resolveAction gw p = resolveAction gw
      \<lparr>p_AppID = app_ID app, p_KeyID = [], p_Subject = [], p_Baseline = app_Baseline app\<rparr>"
    by (rule resolveAction_baseline) (simp add: p)
  ultimately show ?thesis by (simp add: actionFor_def case_prod_unfold)
qed

text \<open>A pinned action is everyone's; a per-policy one is mask until a policy was pulled.\<close>

lemma actionFor_pinned:
  "RedactAction (gw_cfg gw) \<noteq> ''per_policy'' \<Longrightarrow> actionFor gw p = (RedactAction (gw_cfg gw), [])"
  by (simp add: actionFor_def resolveAction_def)

lemma actionFor_range:
  assumes "RedactAction (gw_cfg gw) \<in> {''mask'', ''block'', ''per_policy''}"
    and "\<forall>v. policyAction gw = Some v \<longrightarrow> v \<in> {ActionMask, ActionBlock, ActionDetect}"
  shows "fst (actionFor gw p) \<in> {ActionMask, ActionBlock, ActionDetect}"
  using assms GatewayAction_cases
  by (auto simp: actionFor_def resolveAction_def Let_def action_defs split: option.splits prod.splits if_splits)

lemma pullPolicy_action:
  assumes "\<forall>v. policyAction gw = Some v \<longrightarrow> v \<in> {ActionMask, ActionBlock, ActionDetect}"
  shows "\<forall>v. policyAction (snd (pullPolicy policy bls gw)) = Some v \<longrightarrow> v \<in> {ActionMask, ActionBlock, ActionDetect}"
  using assms GatewayAction_cases
  by (auto simp: pullPolicy_def Let_def split: sum.splits option.splits prod.splits)

end
