(* ===== verification/Walkers.thy ===== *)
theory Walkers
  imports Json
begin

text \<open>
  The two dialect walkers, \<open>internal/gateway/adapter_anthropic.go\<close> and
  \<open>internal/gateway/adapter_openai.go\<close>: which string fields of a request body are text. A
  \<open>textField\<close> carries the label the audit records, the position of the field (what its setter
  assigns) and its text. The predicates \<open>anthropic_pos\<close> and \<open>openai_pos\<close> say which positions the doc
  comments of the walkers name, with one restriction the comments leave out: the leaves of a tool input
  count down to \<open>maxWalkDepth\<close> only. The lemmas show that a walker yields exactly the strings at those
  positions, and that rewriting its fields changes nothing else.
\<close>

record textField =
  fld_path :: string
  fld_at :: path
  fld_text :: string

definition locs :: "textField list \<Rightarrow> (path \<times> string) set" where
  "locs fs = (\<lambda>f. (fld_at f, fld_text f)) ` set fs"

lemma locs_simps [simp]:
  "locs [] = {}"
  "locs (f # fs) = insert (fld_at f, fld_text f) (locs fs)"
  "locs (fs @ gs) = locs fs \<union> locs gs"
  "locs (concat fss) = (\<Union>fs \<in> set fss. locs fs)"
  by (auto simp: locs_def)

definition maxWalkDepth :: nat where
  "maxWalkDepth = 32"

definition idx_label :: "string \<Rightarrow> nat \<Rightarrow> string" where
  "idx_label l i = l @ ''['' @ itoa i @ '']''"

definition stringField :: "(string \<times> json) list \<Rightarrow> string \<Rightarrow> string \<Rightarrow> path \<Rightarrow> textField list" where
  "stringField obj key l pos =
     (case as_str (map_of obj key) of
        None \<Rightarrow> []
      | Some s \<Rightarrow> [\<lparr>fld_path = l, fld_at = pos @ [Key key], fld_text = s\<rparr>])"

section \<open>Arbitrary JSON\<close>

fun walkJSONStrings :: "json \<Rightarrow> string \<Rightarrow> path \<Rightarrow> nat \<Rightarrow> textField list"
  and walk_members :: "(string \<times> json) list \<Rightarrow> string \<Rightarrow> path \<Rightarrow> nat \<Rightarrow> textField list"
  and walk_items :: "nat \<Rightarrow> json list \<Rightarrow> string \<Rightarrow> path \<Rightarrow> nat \<Rightarrow> textField list" where
  "walkJSONStrings (JObj kvs) l pos depth =
     (if depth > maxWalkDepth then [] else walk_members kvs l pos depth)"
| "walkJSONStrings (JArr vs) l pos depth =
     (if depth > maxWalkDepth then [] else walk_items 0 vs l pos depth)"
| "walkJSONStrings _ l pos depth = []"
| "walk_members [] l pos depth = []"
| "walk_members ((k, v) # kvs) l pos depth =
     (case v of
        JStr s \<Rightarrow> [\<lparr>fld_path = l @ ''.'' @ k, fld_at = pos @ [Key k], fld_text = s\<rparr>]
      | _ \<Rightarrow> walkJSONStrings v (l @ ''.'' @ k) (pos @ [Key k]) (Suc depth)) @
     walk_members kvs l pos depth"
| "walk_items i [] l pos depth = []"
| "walk_items i (v # vs) l pos depth =
     (case v of
        JStr s \<Rightarrow> [\<lparr>fld_path = idx_label l i, fld_at = pos @ [Idx i], fld_text = s\<rparr>]
      | _ \<Rightarrow> walkJSONStrings v (idx_label l i) (pos @ [Idx i]) (Suc depth)) @
     walk_items (Suc i) vs l pos depth"

section \<open>Anthropic\<close>

lemma map_of_size: "map_of kvs k = Some (JArr c) \<Longrightarrow> size_list size c < size_list (size_prod (\<lambda>x. 0) size) kvs"
  by (drule map_of_SomeD, drule size_list_estimation' [where f = "size_prod (\<lambda>x. 0) size", OF _ order_refl]) simp

function walk_blocks :: "nat \<Rightarrow> json list \<Rightarrow> string \<Rightarrow> path \<Rightarrow> textField list"
  and walk_block :: "(string \<times> json) list \<Rightarrow> string \<Rightarrow> path \<Rightarrow> textField list" where
  "walk_blocks j [] l pos = []"
| "walk_blocks j (b # bs) l pos =
     (case b of JObj bm \<Rightarrow> walk_block bm (idx_label l j) (pos @ [Idx j]) | _ \<Rightarrow> []) @
     walk_blocks (Suc j) bs l pos"
| "walk_block bm l pos =
     (case as_str (map_of bm ''type'') of
        None \<Rightarrow> []
      | Some t \<Rightarrow>
          if t = ''text'' then stringField bm ''text'' (l @ ''.text'') pos
          else if t = ''tool_result'' then
            (case map_of bm ''content'' of
               Some (JStr c) \<Rightarrow>
                 [\<lparr>fld_path = l @ ''.content'', fld_at = pos @ [Key ''content''], fld_text = c\<rparr>]
             | Some (JArr c) \<Rightarrow> walk_blocks 0 c (l @ ''.content'') (pos @ [Key ''content''])
             | _ \<Rightarrow> [])
          else if t = ''tool_use'' then
            (case map_of bm ''input'' of
               Some (JObj inp) \<Rightarrow> walkJSONStrings (JObj inp) (l @ ''.input'') (pos @ [Key ''input'']) 0
             | _ \<Rightarrow> [])
          else if t = ''document'' then
            (case map_of bm ''source'' of
               Some (JObj src) \<Rightarrow>
                 if map_of src ''type'' = Some (JStr ''text'')
                 then stringField src ''data'' (l @ ''.source.data'') (pos @ [Key ''source''])
                 else []
             | _ \<Rightarrow> []) @
            stringField bm ''title'' (l @ ''.title'') pos @
            stringField bm ''context'' (l @ ''.context'') pos
          else [])"
  by pat_completeness auto
termination
  by (relation "measure (\<lambda>x. case x of Inl (j, bs, l, pos) \<Rightarrow> size_list size bs
                           | Inr (bm, l, pos) \<Rightarrow> size_list (size_prod (\<lambda>x. 0) size) bm)")
    (auto dest: map_of_size)

declare walk_block.simps [simp del]

definition walkContentBlocks :: "json list \<Rightarrow> string \<Rightarrow> path \<Rightarrow> textField list" where
  "walkContentBlocks blocks l pos = walk_blocks 0 blocks l pos"

definition content_fields ::
    "(json list \<Rightarrow> string \<Rightarrow> path \<Rightarrow> textField list) \<Rightarrow> json option \<Rightarrow> string \<Rightarrow> path \<Rightarrow> textField list" where
  "content_fields walk_parts c l pos =
     (case c of
        Some (JStr s) \<Rightarrow> [\<lparr>fld_path = l, fld_at = pos, fld_text = s\<rparr>]
      | Some (JArr bs) \<Rightarrow> walk_parts bs l pos
      | _ \<Rightarrow> [])"

text \<open>\<open>for i, x := range xs\<close> over the objects of an array field; a missing field is an empty loop.\<close>

definition each_obj ::
    "(string \<times> json) list \<Rightarrow> string \<Rightarrow> (nat \<Rightarrow> (string \<times> json) list \<Rightarrow> textField list) \<Rightarrow> textField list" where
  "each_obj doc key body =
     (case as_arr (map_of doc key) of
        None \<Rightarrow> []
      | Some vs \<Rightarrow>
          concat (map (\<lambda>i. case as_obj (Some (vs ! i)) of None \<Rightarrow> [] | Some m \<Rightarrow> body i m) [0..<length vs]))"

definition walkAnthropicBody :: "(string \<times> json) list \<Rightarrow> textField list" where
  "walkAnthropicBody doc =
     content_fields walkContentBlocks (map_of doc ''system'') ''system'' [Key ''system''] @
     each_obj doc ''messages'' (\<lambda>i mm.
       content_fields walkContentBlocks (map_of mm ''content'') (idx_label ''messages'' i @ ''.content'')
         [Key ''messages'', Idx i, Key ''content'']) @
     each_obj doc ''tools'' (\<lambda>i tm.
       stringField tm ''description'' (idx_label ''tools'' i @ ''.description'') [Key ''tools'', Idx i])"

section \<open>OpenAI\<close>

fun walk_parts_from :: "nat \<Rightarrow> json list \<Rightarrow> string \<Rightarrow> path \<Rightarrow> textField list" where
  "walk_parts_from j [] l pos = []"
| "walk_parts_from j (p # ps) l pos =
     (case p of
        JObj pm \<Rightarrow>
          if map_of pm ''type'' = Some (JStr ''text'')
          then stringField pm ''text'' (idx_label l j @ ''.text'') (pos @ [Idx j]) else []
      | _ \<Rightarrow> []) @
     walk_parts_from (Suc j) ps l pos"

definition walkOpenAIParts :: "json list \<Rightarrow> string \<Rightarrow> path \<Rightarrow> textField list" where
  "walkOpenAIParts parts l pos = walk_parts_from 0 parts l pos"

definition function_field ::
    "(string \<times> json) list \<Rightarrow> string \<Rightarrow> string \<Rightarrow> string \<Rightarrow> path \<Rightarrow> textField list" where
  "function_field m fkey key l pos =
     (case as_obj (map_of m fkey) of
        None \<Rightarrow> []
      | Some fn \<Rightarrow> stringField fn key l (pos @ [Key fkey]))"

definition walk_openai_message :: "nat \<Rightarrow> (string \<times> json) list \<Rightarrow> textField list" where
  "walk_openai_message i mm =
     (let l = idx_label ''messages'' i; pos = [Key ''messages'', Idx i] in
      content_fields walkOpenAIParts (map_of mm ''content'') (l @ ''.content'') (pos @ [Key ''content'']) @
      stringField mm ''name'' (l @ ''.name'') pos @
      each_obj mm ''tool_calls'' (\<lambda>j tcm.
        function_field tcm ''function'' ''arguments''
          (idx_label (l @ ''.tool_calls'') j @ ''.function.arguments'') (pos @ [Key ''tool_calls'', Idx j])) @
      function_field mm ''function_call'' ''arguments'' (l @ ''.function_call.arguments'') pos)"

definition walkOpenAIBody :: "(string \<times> json) list \<Rightarrow> textField list" where
  "walkOpenAIBody doc =
     each_obj doc ''messages'' walk_openai_message @
     each_obj doc ''tools'' (\<lambda>i tm.
       function_field tm ''function'' ''description''
         (idx_label ''tools'' i @ ''.function.description'') [Key ''tools'', Idx i])"

section \<open>The positions the doc comments name\<close>

text \<open>
  A string leaf of caller-shaped JSON is scanned up to \<open>maxWalkDepth + 1\<close> steps down. The
  positions inside one content block, of either shape of a tool result, and of the two bodies:
\<close>

definition scanned_leaf :: "path \<Rightarrow> bool" where
  "scanned_leaf p \<longleftrightarrow> p \<noteq> [] \<and> length p \<le> Suc maxWalkDepth"

definition has_type :: "(string \<times> json) list \<Rightarrow> string \<Rightarrow> bool" where
  "has_type bm t \<longleftrightarrow> map_of bm ''type'' = Some (JStr t)"

inductive block_pos :: "(string \<times> json) list \<Rightarrow> path \<Rightarrow> bool" where
  text_block: "has_type bm ''text'' \<Longrightarrow> block_pos bm [Key ''text'']"
| result_string: "has_type bm ''tool_result'' \<Longrightarrow> block_pos bm [Key ''content'']"
| result_blocks: "has_type bm ''tool_result'' \<Longrightarrow> map_of bm ''content'' = Some (JArr c) \<Longrightarrow>
    i < length c \<Longrightarrow> c ! i = JObj bm' \<Longrightarrow> block_pos bm' p \<Longrightarrow>
    block_pos bm (Key ''content'' # Idx i # p)"
| tool_input: "has_type bm ''tool_use'' \<Longrightarrow> map_of bm ''input'' = Some (JObj inp) \<Longrightarrow>
    scanned_leaf p \<Longrightarrow> block_pos bm (Key ''input'' # p)"
| document_source: "has_type bm ''document'' \<Longrightarrow> map_of bm ''source'' = Some (JObj src) \<Longrightarrow>
    has_type src ''text'' \<Longrightarrow> block_pos bm [Key ''source'', Key ''data'']"
| document_title: "has_type bm ''document'' \<Longrightarrow> block_pos bm [Key ''title'']"
| document_context: "has_type bm ''document'' \<Longrightarrow> block_pos bm [Key ''context'']"

definition content_pos :: "((string \<times> json) list \<Rightarrow> path \<Rightarrow> bool) \<Rightarrow> json \<Rightarrow> path \<Rightarrow> bool" where
  "content_pos part c p \<longleftrightarrow>
     p = [] \<or> (\<exists>bs i bm q. c = JArr bs \<and> i < length bs \<and> bs ! i = JObj bm \<and> p = Idx i # q \<and> part bm q)"

definition array_pos :: "(string \<times> json) list \<Rightarrow> string \<Rightarrow> ((string \<times> json) list \<Rightarrow> path \<Rightarrow> bool) \<Rightarrow> path \<Rightarrow> bool" where
  "array_pos doc key elem p \<longleftrightarrow>
     (\<exists>vs i m q. map_of doc key = Some (JArr vs) \<and> i < length vs \<and> vs ! i = JObj m \<and>
        p = Key key # Idx i # q \<and> elem m q)"

definition member_pos :: "(string \<times> json) list \<Rightarrow> string \<Rightarrow> (json \<Rightarrow> path \<Rightarrow> bool) \<Rightarrow> path \<Rightarrow> bool" where
  "member_pos m key value p \<longleftrightarrow> (\<exists>v q. map_of m key = Some v \<and> p = Key key # q \<and> value v q)"

definition anthropic_pos :: "(string \<times> json) list \<Rightarrow> path \<Rightarrow> bool" where
  "anthropic_pos doc p \<longleftrightarrow>
     member_pos doc ''system'' (content_pos block_pos) p \<or>
     array_pos doc ''messages'' (\<lambda>mm. member_pos mm ''content'' (content_pos block_pos)) p \<or>
     array_pos doc ''tools'' (\<lambda>tm q. q = [Key ''description'']) p"

definition openai_part_pos :: "(string \<times> json) list \<Rightarrow> path \<Rightarrow> bool" where
  "openai_part_pos pm p \<longleftrightarrow> has_type pm ''text'' \<and> p = [Key ''text'']"

definition openai_message_pos :: "(string \<times> json) list \<Rightarrow> path \<Rightarrow> bool" where
  "openai_message_pos mm p \<longleftrightarrow>
     member_pos mm ''content'' (content_pos openai_part_pos) p \<or>
     p = [Key ''name''] \<or>
     array_pos mm ''tool_calls'' (\<lambda>tcm q. q = [Key ''function'', Key ''arguments'']) p \<or>
     p = [Key ''function_call'', Key ''arguments'']"

definition openai_pos :: "(string \<times> json) list \<Rightarrow> path \<Rightarrow> bool" where
  "openai_pos doc p \<longleftrightarrow>
     array_pos doc ''messages'' openai_message_pos p \<or>
     array_pos doc ''tools'' (\<lambda>tm q. q = [Key ''function'', Key ''description'']) p"

text \<open>The strings of a document at the positions a predicate selects, below a prefix.\<close>

definition strings_at :: "path \<Rightarrow> json \<Rightarrow> (path \<Rightarrow> bool) \<Rightarrow> (path \<times> string) set" where
  "strings_at pre v P = {(pre @ p, s) | p s. P p \<and> jget v p = Some (JStr s)}"

section \<open>A walker yields exactly the strings at its positions\<close>

lemma strings_at_or: "strings_at pre v (\<lambda>p. P p \<or> Q p) = strings_at pre v P \<union> strings_at pre v Q"
  by (auto simp: strings_at_def)

lemma jget_Key [simp]: "jget (JObj m) (Key k # p) = (case map_of m k of None \<Rightarrow> None | Some w \<Rightarrow> jget w p)"
  by simp

lemma locs_stringField:
  "locs (stringField obj key l pos) = strings_at pos (JObj obj) (\<lambda>p. p = [Key key])"
  by (auto simp: stringField_def strings_at_def split: option.splits)

text \<open>The strings below one child of a container at depth \<open>d\<close> that the bound admits.\<close>

definition child_strings :: "path \<Rightarrow> step \<Rightarrow> json \<Rightarrow> nat \<Rightarrow> (path \<times> string) set" where
  "child_strings pos st v d =
     {(pos @ st # p, s) | p s. jget v p = Some (JStr s) \<and> d + length p \<le> maxWalkDepth}"

lemma child_strings_str: "d \<le> maxWalkDepth \<Longrightarrow> child_strings pos st (JStr s) d = {(pos @ [st], s)}"
proof -
  have "jget (JStr s) p = Some (JStr t) \<longleftrightarrow> p = [] \<and> t = s" for p t
    by (cases p) auto
  then show "d \<le> maxWalkDepth \<Longrightarrow> ?thesis" by (auto simp: child_strings_def)
qed

lemma child_strings_other:
  assumes "\<forall>s. v \<noteq> JStr s"
  shows "child_strings pos st v d =
    strings_at (pos @ [st]) v (\<lambda>p. p \<noteq> [] \<and> Suc d + length p \<le> Suc maxWalkDepth)"
proof -
  have "jget v p = Some (JStr s) \<Longrightarrow> p \<noteq> []" for p s using assms by (cases p) auto
  then show ?thesis by (auto simp: child_strings_def strings_at_def)
qed

lemma strings_at_members:
  assumes "distinct (map fst kvs)"
  shows "strings_at pos (JObj kvs) (\<lambda>p. p \<noteq> [] \<and> d + length p \<le> Suc maxWalkDepth) =
    (\<Union>(k, v) \<in> set kvs. child_strings pos (Key k) v d)"
proof -
  have one: "jget (JObj kvs) p = Some (JStr s) \<and> p \<noteq> [] \<longleftrightarrow>
      (\<exists>k v q. p = Key k # q \<and> (k, v) \<in> set kvs \<and> jget v q = Some (JStr s))" for p s
  proof (cases p)
    case (Cons st q)
    show ?thesis
    proof (cases st)
      case (Key k)
      have "(case map_of kvs k of None \<Rightarrow> None | Some w \<Rightarrow> jget w q) = Some (JStr s) \<longleftrightarrow>
          (\<exists>v. (k, v) \<in> set kvs \<and> jget v q = Some (JStr s))"
        by (simp add: map_of_eq_Some_iff [OF assms, symmetric] split: option.split)
      with Key Cons show ?thesis by simp
    qed (use Cons in simp)
  qed simp
  have "strings_at pos (JObj kvs) (\<lambda>p. p \<noteq> [] \<and> d + length p \<le> Suc maxWalkDepth) =
      {(pos @ p, s) | p s. (jget (JObj kvs) p = Some (JStr s) \<and> p \<noteq> []) \<and> d + length p \<le> Suc maxWalkDepth}"
    unfolding strings_at_def by blast
  also have "\<dots> = (\<Union>(k, v) \<in> set kvs. child_strings pos (Key k) v d)"
    unfolding one child_strings_def by auto
  finally show ?thesis .
qed

lemma strings_at_items:
  "strings_at pos (JArr vs) (\<lambda>p. p \<noteq> [] \<and> d + length p \<le> Suc maxWalkDepth) =
    (\<Union>k \<in> {..<length vs}. child_strings pos (Idx k) (vs ! k) d)"
proof -
  have one: "jget (JArr vs) p = Some (JStr s) \<and> p \<noteq> [] \<longleftrightarrow>
      (\<exists>k q. p = Idx k # q \<and> k < length vs \<and> jget (vs ! k) q = Some (JStr s))" for p s
  proof (cases p)
    case (Cons st q)
    then show ?thesis by (cases st) auto
  qed simp
  have "strings_at pos (JArr vs) (\<lambda>p. p \<noteq> [] \<and> d + length p \<le> Suc maxWalkDepth) =
      {(pos @ p, s) | p s. (jget (JArr vs) p = Some (JStr s) \<and> p \<noteq> []) \<and> d + length p \<le> Suc maxWalkDepth}"
    unfolding strings_at_def by blast
  also have "\<dots> = (\<Union>k \<in> {..<length vs}. child_strings pos (Idx k) (vs ! k) d)"
    unfolding one child_strings_def by auto
  finally show ?thesis .
qed

lemma UN_shift: "(\<Union>k \<in> {..<Suc n}. f k) = f 0 \<union> (\<Union>k \<in> {..<n}. f (Suc k))"
  by (auto simp: lessThan_Suc_eq_insert_0)

lemma walkJSON_locs:
  "wf_json v \<Longrightarrow> (\<forall>s. v \<noteq> JStr s) \<Longrightarrow>
     locs (walkJSONStrings v l pos d) =
       strings_at pos v (\<lambda>p. p \<noteq> [] \<and> d + length p \<le> Suc maxWalkDepth)"
  and "wf_json (JObj kvs) \<Longrightarrow> d' \<le> maxWalkDepth \<Longrightarrow>
     locs (walk_members kvs l' pos' d') = (\<Union>(k, v) \<in> set kvs. child_strings pos' (Key k) v d')"
  and "wf_json (JArr vs) \<Longrightarrow> d'' \<le> maxWalkDepth \<Longrightarrow>
     locs (walk_items i vs l'' pos'' d'') =
       (\<Union>k \<in> {..<length vs}. child_strings pos'' (Idx (i + k)) (vs ! k) d'')"
proof (induction v l pos d and kvs l' pos' d' and i vs l'' pos'' d''
    rule: walkJSONStrings_walk_members_walk_items.induct)
  case (1 kvs l pos depth)
  have deep: "strings_at pos v (\<lambda>p. p \<noteq> [] \<and> depth + length p \<le> Suc maxWalkDepth) = {}"
    if "depth > maxWalkDepth" for v
    using that by (auto simp: strings_at_def neq_Nil_conv)
  show ?case
  proof (cases "depth > maxWalkDepth")
    case True
    with deep show ?thesis by simp
  next
    case False
    with 1 show ?thesis by (simp add: strings_at_members)
  qed
next
  case (2 vs l pos depth)
  have deep: "strings_at pos v (\<lambda>p. p \<noteq> [] \<and> depth + length p \<le> Suc maxWalkDepth) = {}"
    if "depth > maxWalkDepth" for v
    using that by (auto simp: strings_at_def neq_Nil_conv)
  show ?case
  proof (cases "depth > maxWalkDepth")
    case True
    with deep show ?thesis by simp
  next
    case False
    with 2 show ?thesis by (simp add: strings_at_items)
  qed
next
  case (5 k v kvs l pos depth)
  have wf: "wf_json v" "wf_json (JObj kvs)" using "5.prems" by auto
  have "locs (case v of JStr s \<Rightarrow> [\<lparr>fld_path = l @ ''.'' @ k, fld_at = pos @ [Key k], fld_text = s\<rparr>]
      | _ \<Rightarrow> walkJSONStrings v (l @ ''.'' @ k) (pos @ [Key k]) (Suc depth)) = child_strings pos (Key k) v depth"
    using 5 wf by (cases v) (simp_all add: child_strings_str child_strings_other)
  then show ?case using 5 wf by simp
next
  case (7 i v vs l pos depth)
  have wf: "wf_json v" "wf_json (JArr vs)" using "7.prems" by auto
  have "locs (case v of JStr s \<Rightarrow> [\<lparr>fld_path = idx_label l i, fld_at = pos @ [Idx i], fld_text = s\<rparr>]
      | _ \<Rightarrow> walkJSONStrings v (idx_label l i) (pos @ [Idx i]) (Suc depth)) = child_strings pos (Idx i) v depth"
    using 7 wf by (cases v) (simp_all add: child_strings_str child_strings_other)
  then show ?case using 7 wf by (simp add: UN_shift)
qed (auto simp: strings_at_def neq_Nil_conv)

text \<open>One element of an array, when it is an object.\<close>

definition elem_strings ::
    "((string \<times> json) list \<Rightarrow> path \<Rightarrow> bool) \<Rightarrow> path \<Rightarrow> json \<Rightarrow> (path \<times> string) set" where
  "elem_strings part pos v = (case v of JObj m \<Rightarrow> strings_at pos v (part m) | _ \<Rightarrow> {})"

inductive_simps block_pos_simps: "block_pos bm p"

lemma has_type_unique: "has_type bm t \<Longrightarrow> has_type bm u \<longleftrightarrow> u = t"
  by (auto simp: has_type_def)

lemma elem_strings_array:
  "(\<Union>k \<in> {..<length vs}. elem_strings part (pos @ [Idx k]) (vs ! k)) =
     strings_at pos (JArr vs) (\<lambda>p. \<exists>i m q. i < length vs \<and> vs ! i = JObj m \<and> p = Idx i # q \<and> part m q)"
  by (force simp: elem_strings_def strings_at_def split: json.splits)

lemma strings_at_member:
  "map_of m k = Some v \<Longrightarrow>
     strings_at pos (JObj m) (\<lambda>p. \<exists>q. p = Key k # q \<and> P q) = strings_at (pos @ [Key k]) v P"
  by (fastforce simp: strings_at_def)

lemma strings_at_cong: "(\<And>p. jget v p \<noteq> None \<Longrightarrow> P p = Q p) \<Longrightarrow> strings_at pos v P = strings_at pos v Q"
  by (fastforce simp: strings_at_def)

lemma strings_at_content:
  "locs (content_fields walk_parts c l pos) = (case c of None \<Rightarrow> {} | Some v \<Rightarrow> strings_at pos v (content_pos part v))"
  if parts: "\<And>bs. c = Some (JArr bs) \<Longrightarrow>
    locs (walk_parts bs l pos) = (\<Union>k \<in> {..<length bs}. elem_strings part (pos @ [Idx k]) (bs ! k))"
proof (cases c)
  case None
  then show ?thesis by (simp add: content_fields_def)
next
  case (Some v)
  show ?thesis
  proof (cases v)
    case (JStr s)
    have "jget (JStr s) p = Some (JStr t) \<longleftrightarrow> p = [] \<and> t = s" for p t by (cases p) auto
    with Some JStr show ?thesis by (auto simp: content_fields_def strings_at_def content_pos_def)
  next
    case (JArr bs)
    then have "strings_at pos v (content_pos part v) =
        strings_at pos (JArr bs) (\<lambda>p. \<exists>i m q. i < length bs \<and> bs ! i = JObj m \<and> p = Idx i # q \<and> part m q)"
      by (fastforce simp: strings_at_def content_pos_def)
    with Some JArr parts show ?thesis by (simp add: content_fields_def elem_strings_array)
  next
    case (JObj kvs)
    with Some show ?thesis by (auto simp: content_fields_def strings_at_def content_pos_def)
  qed (use Some in \<open>auto simp: content_fields_def strings_at_def content_pos_def\<close>)
qed

lemma walk_blocks_locs:
  "wf_json (JArr bs) \<Longrightarrow>
     locs (walk_blocks j bs l pos) = (\<Union>k \<in> {..<length bs}. elem_strings block_pos (pos @ [Idx (j + k)]) (bs ! k))"
  and "wf_json (JObj bm) \<Longrightarrow> locs (walk_block bm l' pos') = strings_at pos' (JObj bm) (block_pos bm)"
proof (induction j bs l pos and bm l' pos' rule: walk_blocks_walk_block.induct)
  case (1 j l pos)
  then show ?case by simp
next
  case (2 j b bs l pos)
  have wf: "wf_json b" "wf_json (JArr bs)" using "2.prems" by auto
  have "locs (case b of JObj bm \<Rightarrow> walk_block bm (idx_label l j) (pos @ [Idx j]) | _ \<Rightarrow> []) =
      elem_strings block_pos (pos @ [Idx j]) b"
    using 2 wf by (cases b) (simp_all add: elem_strings_def)
  with 2 wf show ?case by (simp add: UN_shift)
next
  case (3 bm l pos)
  have wf: "wf_json v" if "map_of bm k = Some v" for k v
    using "3.prems" that by (auto dest!: map_of_SomeD)
  consider (none) "as_str (map_of bm ''type'') = None"
    | (textb) "has_type bm ''text''" | (result) "has_type bm ''tool_result''"
    | (tool) "has_type bm ''tool_use''" | (document) "has_type bm ''document''"
    | (other) t where "has_type bm t"
        "t \<notin> {''text'', ''tool_result'', ''tool_use'', ''document''}"
    by (cases "as_str (map_of bm ''type'')") (auto simp: has_type_def)
  then show ?case
  proof cases
    case none
    then have "\<not> has_type bm t" for t by (auto simp: has_type_def)
    then have "\<not> block_pos bm p" for p by (subst block_pos_simps) simp
    with none show ?thesis by (simp add: walk_block.simps strings_at_def)
  next
    case textb
    have "block_pos bm p \<longleftrightarrow> p = [Key ''text'']" for p
      by (subst block_pos_simps) (simp add: has_type_unique [OF textb])
    then have "block_pos bm = (\<lambda>p. p = [Key ''text''])" by (simp add: fun_eq_iff)
    with textb show ?thesis by (simp add: walk_block.simps locs_stringField has_type_def)
  next
    case result
    have t: "as_str (map_of bm ''type'') = Some ''tool_result''" using result by (simp add: has_type_def)
    have pos_iff: "block_pos bm p \<longleftrightarrow> p = [Key ''content''] \<or>
        (\<exists>c i bm' q. map_of bm ''content'' = Some (JArr c) \<and> i < length c \<and> c ! i = JObj bm' \<and>
           p = Key ''content'' # Idx i # q \<and> block_pos bm' q)" for p
      by (subst block_pos_simps) (auto simp: has_type_unique [OF result])
    have "strings_at pos (JObj bm) (block_pos bm) =
        (case map_of bm ''content'' of None \<Rightarrow> {} | Some v \<Rightarrow> strings_at (pos @ [Key ''content'']) v (content_pos block_pos v))"
    proof (cases "map_of bm ''content''")
      case None
      then show ?thesis by (auto simp: strings_at_def pos_iff)
    next
      case (Some v)
      have "block_pos bm = (\<lambda>p. \<exists>q. p = Key ''content'' # q \<and> content_pos block_pos v q)"
        unfolding fun_eq_iff pos_iff content_pos_def Some by auto
      with Some show ?thesis by (simp add: strings_at_member)
    qed
    also have "\<dots> = locs (content_fields (walk_blocks 0) (map_of bm ''content'') (l @ ''.content'') (pos @ [Key ''content'']))"
    proof (rule strings_at_content [symmetric])
      fix bs assume c: "map_of bm ''content'' = Some (JArr bs)"
      show "locs (walk_blocks 0 bs (l @ ''.content'') (pos @ [Key ''content''])) =
          (\<Union>k \<in> {..<length bs}. elem_strings block_pos ((pos @ [Key ''content'']) @ [Idx k]) (bs ! k))"
        using "3.IH" [OF t _ _ c refl] wf [OF c] by simp
    qed
    finally show ?thesis using t by (simp add: walk_block.simps content_fields_def)
  next
    case tool
    have pos_iff: "block_pos bm p \<longleftrightarrow>
        (\<exists>inp. map_of bm ''input'' = Some (JObj inp) \<and> (\<exists>q. p = Key ''input'' # q \<and> scanned_leaf q))" for p
      by (subst block_pos_simps) (auto simp: has_type_unique [OF tool])
    have t: "as_str (map_of bm ''type'') = Some ''tool_use''" using tool by (simp add: has_type_def)
    show ?thesis
    proof (cases "\<exists>inp. map_of bm ''input'' = Some (JObj inp)")
      case True
      then obtain inp where inp: "map_of bm ''input'' = Some (JObj inp)" by blast
      have "block_pos bm = (\<lambda>p. \<exists>q. p = Key ''input'' # q \<and> scanned_leaf q)"
        unfolding fun_eq_iff pos_iff inp by auto
      then have "strings_at pos (JObj bm) (block_pos bm) =
          strings_at (pos @ [Key ''input'']) (JObj inp) scanned_leaf"
        using inp by (simp add: strings_at_member)
      moreover have "locs (walkJSONStrings (JObj inp) (l @ ''.input'') (pos @ [Key ''input'']) 0) =
          strings_at (pos @ [Key ''input'']) (JObj inp) scanned_leaf"
        using walkJSON_locs(1) [OF wf [OF inp], of "l @ ''.input''" "pos @ [Key ''input'']" 0]
        by (simp add: scanned_leaf_def [abs_def] del: walkJSONStrings.simps)
      ultimately show ?thesis using t inp
        by (simp add: walk_block.simps del: walkJSONStrings.simps)
    next
      case False
      then have "strings_at pos (JObj bm) (block_pos bm) = {}" by (simp add: strings_at_def pos_iff)
      with False t show ?thesis by (auto simp: walk_block.simps split: option.splits json.splits)
    qed
  next
    case document
    have pos_iff: "block_pos bm p \<longleftrightarrow>
        (\<exists>src. map_of bm ''source'' = Some (JObj src) \<and> has_type src ''text'' \<and> p = [Key ''source'', Key ''data'']) \<or>
        p = [Key ''title''] \<or> p = [Key ''context'']" for p
      by (subst block_pos_simps) (auto simp: has_type_unique [OF document])
    have "block_pos bm = (\<lambda>p.
        (\<exists>src. map_of bm ''source'' = Some (JObj src) \<and> has_type src ''text'' \<and> p = [Key ''source'', Key ''data'']) \<or>
        p = [Key ''title''] \<or> p = [Key ''context''])"
      by (simp add: fun_eq_iff pos_iff)
    then have split: "strings_at pos (JObj bm) (block_pos bm) =
        strings_at pos (JObj bm) (\<lambda>p. \<exists>src. map_of bm ''source'' = Some (JObj src) \<and> has_type src ''text'' \<and>
          p = [Key ''source'', Key ''data'']) \<union>
        (strings_at pos (JObj bm) (\<lambda>p. p = [Key ''title'']) \<union> strings_at pos (JObj bm) (\<lambda>p. p = [Key ''context'']))"
      by (simp add: strings_at_or)
    have "locs (case map_of bm ''source'' of
               Some (JObj src) \<Rightarrow>
                 if map_of src ''type'' = Some (JStr ''text'')
                 then stringField src ''data'' (l @ ''.source.data'') (pos @ [Key ''source''])
                 else []
             | _ \<Rightarrow> []) =
        strings_at pos (JObj bm) (\<lambda>p. \<exists>src. map_of bm ''source'' = Some (JObj src) \<and> has_type src ''text'' \<and>
          p = [Key ''source'', Key ''data''])"
      by (auto simp: locs_stringField has_type_def strings_at_def split: option.splits json.splits)
    moreover have "as_str (map_of bm ''type'') = Some ''document''" using document by (simp add: has_type_def)
    ultimately show ?thesis by (simp add: walk_block.simps split locs_stringField)
  next
    case other
    have "\<not> block_pos bm p" for p
      by (subst block_pos_simps) (use other(2) in \<open>auto simp: has_type_unique [OF other(1)]\<close>)
    with other show ?thesis by (simp add: walk_block.simps strings_at_def has_type_def)
  qed
qed

lemma each_obj_locs:
  assumes "\<And>vs i m. map_of doc key = Some (JArr vs) \<Longrightarrow> i < length vs \<Longrightarrow> vs ! i = JObj m \<Longrightarrow>
    locs (body i m) = strings_at (pos @ [Key key, Idx i]) (JObj m) (elem m)"
  shows "locs (each_obj doc key body) = strings_at pos (JObj doc) (array_pos doc key elem)"
proof (cases "\<exists>vs. map_of doc key = Some (JArr vs)")
  case True
  then obtain vs where vs: "map_of doc key = Some (JArr vs)" by blast
  have "locs (case as_obj (Some (vs ! i)) of None \<Rightarrow> [] | Some m \<Rightarrow> body i m) =
      elem_strings elem ((pos @ [Key key]) @ [Idx i]) (vs ! i)" if "i < length vs" for i
    using assms [OF vs that] by (cases "vs ! i") (simp_all add: elem_strings_def)
  then have "locs (each_obj doc key body) =
      (\<Union>k \<in> {..<length vs}. elem_strings elem ((pos @ [Key key]) @ [Idx k]) (vs ! k))"
    using vs by (auto simp: each_obj_def atLeast0LessThan)
  also have "\<dots> = strings_at (pos @ [Key key]) (JArr vs)
      (\<lambda>p. \<exists>i m q. i < length vs \<and> vs ! i = JObj m \<and> p = Idx i # q \<and> elem m q)"
    by (rule elem_strings_array)
  also have "\<dots> = strings_at pos (JObj doc) (\<lambda>p. \<exists>q. p = Key key # q \<and>
      (\<exists>i m q'. i < length vs \<and> vs ! i = JObj m \<and> q = Idx i # q' \<and> elem m q'))"
    using vs by (simp add: strings_at_member)
  also have "\<dots> = strings_at pos (JObj doc) (array_pos doc key elem)"
    unfolding array_pos_def vs by (rule strings_at_cong) blast
  finally show ?thesis .
next
  case False
  then have "as_arr (map_of doc key) = None" by (cases "as_arr (map_of doc key)") auto
  with False show ?thesis by (simp add: each_obj_def strings_at_def array_pos_def)
qed

lemma member_content_locs:
  assumes "\<And>bs. map_of m key = Some (JArr bs) \<Longrightarrow>
    locs (walk_parts bs l (pos @ [Key key])) =
      (\<Union>k \<in> {..<length bs}. elem_strings part ((pos @ [Key key]) @ [Idx k]) (bs ! k))"
  shows "locs (content_fields walk_parts (map_of m key) l (pos @ [Key key])) =
    strings_at pos (JObj m) (member_pos m key (content_pos part))"
proof -
  have "locs (content_fields walk_parts (map_of m key) l (pos @ [Key key])) =
      (case map_of m key of None \<Rightarrow> {} | Some v \<Rightarrow> strings_at (pos @ [Key key]) v (content_pos part v))"
    using assms by (rule strings_at_content)
  also have "\<dots> = strings_at pos (JObj m) (member_pos m key (content_pos part))"
  proof (cases "map_of m key")
    case None
    then show ?thesis by (simp add: strings_at_def member_pos_def)
  next
    case (Some v)
    have "member_pos m key (content_pos part) = (\<lambda>p. \<exists>q. p = Key key # q \<and> content_pos part v q)"
      using Some by (auto simp: fun_eq_iff member_pos_def)
    with Some show ?thesis by (simp add: strings_at_member)
  qed
  finally show ?thesis .
qed

lemma wf_member: "wf_json (JObj m) \<Longrightarrow> map_of m k = Some v \<Longrightarrow> wf_json v"
  by (auto dest!: map_of_SomeD)

lemma anthropic_content_locs:
  assumes "wf_json (JObj m)"
  shows "locs (content_fields walkContentBlocks (map_of m key) l (pos @ [Key key])) =
    strings_at pos (JObj m) (member_pos m key (content_pos block_pos))"
proof (rule member_content_locs)
  fix bs assume "map_of m key = Some (JArr bs)"
  with assms have "wf_json (JArr bs)" by (rule wf_member)
  from walk_blocks_locs(1) [OF this, of 0 l "pos @ [Key key]"]
  show "locs (walkContentBlocks bs l (pos @ [Key key])) =
      (\<Union>k \<in> {..<length bs}. elem_strings block_pos ((pos @ [Key key]) @ [Idx k]) (bs ! k))"
    by (simp add: walkContentBlocks_def)
qed

lemma walkAnthropicBody_locs:
  assumes "wf_json (JObj doc)"
  shows "locs (walkAnthropicBody doc) = strings_at [] (JObj doc) (anthropic_pos doc)"
proof -
  have msgs: "locs (each_obj doc ''messages'' (\<lambda>i mm.
      content_fields walkContentBlocks (map_of mm ''content'') (idx_label ''messages'' i @ ''.content'')
        [Key ''messages'', Idx i, Key ''content''])) =
    strings_at [] (JObj doc) (array_pos doc ''messages'' (\<lambda>mm. member_pos mm ''content'' (content_pos block_pos)))"
  proof (rule each_obj_locs)
    fix vs i m assume vs: "map_of doc ''messages'' = Some (JArr vs)" "i < length vs" "vs ! i = JObj m"
    have "wf_json (vs ! i)" using wf_member [OF assms vs(1)] vs(2) by simp
    then have "wf_json (JObj m)" by (simp only: vs(3))
    from anthropic_content_locs [OF this, of "''content''" "idx_label ''messages'' i @ ''.content''" "[Key ''messages'', Idx i]"]
    show "locs (content_fields walkContentBlocks (map_of m ''content'') (idx_label ''messages'' i @ ''.content'')
        [Key ''messages'', Idx i, Key ''content'']) =
      strings_at ([] @ [Key ''messages'', Idx i]) (JObj m) (member_pos m ''content'' (content_pos block_pos))"
      by simp
  qed
  have tools: "locs (each_obj doc ''tools'' (\<lambda>i tm.
      stringField tm ''description'' (idx_label ''tools'' i @ ''.description'') [Key ''tools'', Idx i])) =
    strings_at [] (JObj doc) (array_pos doc ''tools'' (\<lambda>tm q. q = [Key ''description'']))"
    by (rule each_obj_locs) (simp add: locs_stringField)
  show ?thesis
    using anthropic_content_locs [OF assms, of "''system''" "''system''" "[]"] msgs tools
    by (simp add: walkAnthropicBody_def strings_at_or anthropic_pos_def [abs_def])
qed

lemma function_field_locs:
  "locs (function_field m fkey key l pos) = strings_at pos (JObj m) (\<lambda>p. p = [Key fkey, Key key])"
proof (cases "as_obj (map_of m fkey)")
  case None
  then have "jget (JObj m) [Key fkey, Key key] = None"
    by (cases "map_of m fkey"; cases "the (map_of m fkey)") auto
  with None show ?thesis by (auto simp: function_field_def strings_at_def)
next
  case (Some fn)
  then show ?thesis by (auto simp: function_field_def locs_stringField strings_at_def)
qed

lemma walk_parts_from_locs:
  "locs (walk_parts_from j ps l pos) = (\<Union>k \<in> {..<length ps}. elem_strings openai_part_pos (pos @ [Idx (j + k)]) (ps ! k))"
proof (induction j ps l pos rule: walk_parts_from.induct)
  case (1 j l pos)
  then show ?case by simp
next
  case (2 j p ps l pos)
  have "strings_at q (JObj m) (openai_part_pos m) =
      (if has_type m ''text'' then strings_at q (JObj m) (\<lambda>p. p = [Key ''text'']) else {})" for q m
    by (auto simp: strings_at_def openai_part_pos_def)
  then have "locs (case p of
        JObj pm \<Rightarrow>
          if map_of pm ''type'' = Some (JStr ''text'')
          then stringField pm ''text'' (idx_label l j @ ''.text'') (pos @ [Idx j]) else []
      | _ \<Rightarrow> []) = elem_strings openai_part_pos (pos @ [Idx j]) p"
    by (cases p) (simp_all add: elem_strings_def locs_stringField has_type_def)
  with 2 show ?case by (simp add: UN_shift)
qed

lemma walk_openai_message_locs:
  "locs (walk_openai_message i mm) = strings_at [Key ''messages'', Idx i] (JObj mm) (openai_message_pos mm)"
proof -
  let ?l = "idx_label ''messages'' i" and ?pos = "[Key ''messages'', Idx i]"
  have content: "locs (content_fields walkOpenAIParts (map_of mm ''content'') (?l @ ''.content'') (?pos @ [Key ''content''])) =
      strings_at ?pos (JObj mm) (member_pos mm ''content'' (content_pos openai_part_pos))"
    by (rule member_content_locs) (simp add: walkOpenAIParts_def walk_parts_from_locs)
  have calls: "locs (each_obj mm ''tool_calls'' (\<lambda>j tcm.
        function_field tcm ''function'' ''arguments''
          (idx_label (?l @ ''.tool_calls'') j @ ''.function.arguments'') (?pos @ [Key ''tool_calls'', Idx j]))) =
      strings_at ?pos (JObj mm) (array_pos mm ''tool_calls'' (\<lambda>tcm q. q = [Key ''function'', Key ''arguments'']))"
    by (rule each_obj_locs) (simp add: function_field_locs)
  show ?thesis
    using content calls
    by (simp add: walk_openai_message_def Let_def openai_message_pos_def [abs_def] strings_at_or
        locs_stringField function_field_locs)
qed

lemma walkOpenAIBody_locs:
  "locs (walkOpenAIBody doc) = strings_at [] (JObj doc) (openai_pos doc)"
proof -
  have msgs: "locs (each_obj doc ''messages'' walk_openai_message) =
      strings_at [] (JObj doc) (array_pos doc ''messages'' openai_message_pos)"
    by (rule each_obj_locs) (simp add: walk_openai_message_locs)
  have tools: "locs (each_obj doc ''tools'' (\<lambda>i tm.
       function_field tm ''function'' ''description''
         (idx_label ''tools'' i @ ''.function.description'') [Key ''tools'', Idx i])) =
      strings_at [] (JObj doc) (array_pos doc ''tools'' (\<lambda>tm q. q = [Key ''function'', Key ''description'']))"
    by (rule each_obj_locs) (simp add: function_field_locs)
  show ?thesis using msgs tools
    by (simp add: walkOpenAIBody_def openai_pos_def [abs_def] strings_at_or)
qed

section \<open>Rewriting the fields of a body\<close>

text \<open>
  What the proxy relies on from a walker: each field holds a string of the document at its
  position. The setters, run one after another, then rewrite exactly those positions.
\<close>

locale body_walker =
  fixes walk :: "(string \<times> json) list \<Rightarrow> textField list"
  assumes walk_sound: "wf_json (JObj doc) \<Longrightarrow> f \<in> set (walk doc) \<Longrightarrow>
    jget (JObj doc) (fld_at f) = Some (JStr (fld_text f))"
begin

lemma rewrite_fields:
  assumes "wf_json (JObj doc)"
  shows "foldl (\<lambda>d f. jput d (fld_at f) (JStr (g (fld_text f)))) (JObj doc) (filter P (walk doc)) =
    jmap (\<lambda>p s. if p \<in> fld_at ` set (filter P (walk doc)) then g s else s) (JObj doc)"
proof -
  let ?fs = "filter P (walk doc)"
  let ?ps = "map (\<lambda>f. (fld_at f, fld_text f)) ?fs"
  have "foldl (\<lambda>d f. jput d (fld_at f) (JStr (g (fld_text f)))) d fs =
      foldl (\<lambda>d (p, s). jput d p (JStr (g s))) d (map (\<lambda>f. (fld_at f, fld_text f)) fs)" for d fs
    by (induction fs arbitrary: d) auto
  then have "foldl (\<lambda>d f. jput d (fld_at f) (JStr (g (fld_text f)))) (JObj doc) ?fs =
      foldl (\<lambda>d (p, s). jput d p (JStr (g s))) (JObj doc) ?ps" .
  also have "\<dots> = jmap (\<lambda>p s. if p \<in> fst ` set ?ps then g s else s) (JObj doc)"
    by (rule foldl_jput_jmap [OF assms]) (use assms walk_sound in auto)
  also have "fst ` set ?ps = fld_at ` set ?fs" by force
  finally show ?thesis .
qed

text \<open>Where \<open>g\<close> is the identity on the fields left out, it does not matter that they were.\<close>

lemma rewrite_all:
  assumes wf: "wf_json (JObj doc)" and same: "\<And>f. f \<in> set (walk doc) \<Longrightarrow> \<not> P f \<Longrightarrow> g (fld_text f) = fld_text f"
  shows "foldl (\<lambda>d f. jput d (fld_at f) (JStr (g (fld_text f)))) (JObj doc) (filter P (walk doc)) =
    jmap (\<lambda>p s. if p \<in> fld_at ` set (walk doc) then g s else s) (JObj doc)"
  unfolding rewrite_fields [OF wf]
proof (rule jmap_cong [OF _ wf])
  fix p s assume p: "jget (JObj doc) p = Some (JStr s)"
  show "(if p \<in> fld_at ` set (filter P (walk doc)) then g s else s) =
      (if p \<in> fld_at ` set (walk doc) then g s else s)"
  proof (cases "p \<in> fld_at ` set (walk doc) \<and> p \<notin> fld_at ` set (filter P (walk doc))")
    case True
    then obtain f where f: "f \<in> set (walk doc)" "p = fld_at f" "\<not> P f" by auto
    with walk_sound [OF wf f(1)] p same [OF f(1,3)] show ?thesis by auto
  next
    case False
    then show ?thesis by auto
  qed
qed

end

lemma locs_sound:
  assumes "locs fs = strings_at [] v P" and "f \<in> set fs"
  shows "jget v (fld_at f) = Some (JStr (fld_text f))"
proof -
  have "(fld_at f, fld_text f) \<in> locs fs" using assms(2) by (auto simp: locs_def)
  with assms(1) show ?thesis by (auto simp: strings_at_def)
qed

interpretation anthropic: body_walker walkAnthropicBody
  by unfold_locales (rule locs_sound [OF walkAnthropicBody_locs])

interpretation openai: body_walker walkOpenAIBody
  by unfold_locales (rule locs_sound [OF walkOpenAIBody_locs])

end
