(* ===== verification/Stream_Relay.thy ===== *)
theory Stream_Relay
  imports Go_Strings
begin

text \<open>
  The response relay of \<open>internal/gateway/stream.go\<close>: \<open>copyStreamWith\<close> passes an SSE body on
  read by read and tees it through a usage scanner, whose \<open>sseLineReader\<close> reassembles lines from
  arbitrary chunks and whose \<open>tokenTally\<close> keeps the high-water mark of the counts. Decoding an
  event's JSON is a parameter of the scanners. Also \<open>relayWithUsage\<close> of \<open>proxy.go\<close>, the
  non-streaming relay.

  The lemmas show that the lines seen do not depend on how the bytes were chunked as long as no
  line exceeds the cap, what happens past the cap, that the tally is the maximum over the
  events, and that the caller receives the body's bytes unchanged.
\<close>

definition maxSSELineBytes :: nat where
  "maxSSELineBytes = 2 ^ 20"

abbreviation NL :: char where "NL \<equiv> CHR 0x0A"
abbreviation CR :: char where "CR \<equiv> CHR 0x0D"

section \<open>Lines from chunks\<close>

text \<open>
  One \<open>feed\<close>: the partial line and the rest of the chunk, to the lines handed to \<open>scan\<close> and the
  new partial line.
\<close>

function (sequential) feed_lines :: "string \<Rightarrow> string \<Rightarrow> string list \<times> string" where
  "feed_lines part rest =
     (case cut NL rest of
        Some (line, rest') \<Rightarrow>
          (let (ls, part') = feed_lines [] rest' in ((part @ line) # ls, part'))
      | None \<Rightarrow>
          if rest = [] then ([], part)
          else if length part + length rest > maxSSELineBytes then ([], [])
          else ([], part @ rest))"
  by pat_completeness auto
termination
  by (relation "measure (\<lambda>(part, rest). length rest)") (auto dest!: cut_Some)

declare feed_lines.simps [simp del]

definition flush_lines :: "string \<Rightarrow> string list" where
  "flush_lines part = (if part = [] then [] else [part])"

text \<open>All the lines of a stream fed chunk by chunk and flushed at its end.\<close>

fun stream_lines :: "string \<Rightarrow> string list \<Rightarrow> string list" where
  "stream_lines part [] = flush_lines part"
| "stream_lines part (c # cs) = (let (ls, part') = feed_lines part c in ls @ stream_lines part' cs)"

section \<open>SSE data lines\<close>

definition sseData :: "string \<Rightarrow> string option" where
  "sseData line =
     (let line = trim_suffix (trim_space line) [CR] in
      if \<not> has_prefix line ''data:'' then None
      else let payload = trim_space (drop 5 line) in
        if payload = [] \<or> hd payload \<noteq> CHR ''{'' then None else Some payload)"

section \<open>Usage scanners\<close>

record tokenTally =
  tokensIn :: int
  tokensOut :: int

definition zero_tally :: tokenTally where
  "zero_tally = \<lparr>tokensIn = 0, tokensOut = 0\<rparr>"

definition tally_take :: "int \<Rightarrow> int \<Rightarrow> tokenTally \<Rightarrow> tokenTally" where
  "tally_take i out t =
     (let t1 = (if i > tokensIn t then t\<lparr>tokensIn := i\<rparr> else t)
      in if out > tokensOut t1 then t1\<lparr>tokensOut := out\<rparr> else t1)"

record anthropicEvent =
  ev_type :: string
  ev_message_usage :: "int \<times> int"
  ev_usage :: "int \<times> int"

definition anthropic_scanLine :: "(string \<Rightarrow> anthropicEvent option) \<Rightarrow> string \<Rightarrow> tokenTally \<Rightarrow> tokenTally" where
  "anthropic_scanLine unmarshal line t =
     (case sseData line of
        None \<Rightarrow> t
      | Some payload \<Rightarrow>
          (case unmarshal payload of
             None \<Rightarrow> t
           | Some ev \<Rightarrow>
               if ev_type ev = ''message_start''
               then tally_take (fst (ev_message_usage ev)) (snd (ev_message_usage ev)) t
               else if ev_type ev = ''message_delta''
               then tally_take (fst (ev_usage ev)) (snd (ev_usage ev)) t
               else t))"

text \<open>The decoded chunk: unparseable, without usage, or with the two counts.\<close>

definition openai_scanLine :: "(string \<Rightarrow> (int \<times> int) option option) \<Rightarrow> string \<Rightarrow> tokenTally \<Rightarrow> tokenTally" where
  "openai_scanLine unmarshal line t =
     (case sseData line of
        None \<Rightarrow> t
      | Some payload \<Rightarrow>
          (case unmarshal payload of
             None \<Rightarrow> t
           | Some None \<Rightarrow> t
           | Some (Some (i, out)) \<Rightarrow> tally_take i out t))"

record scanner =
  partial :: string
  tally :: tokenTally

definition new_scanner :: scanner where
  "new_scanner = \<lparr>partial = [], tally = zero_tally\<rparr>"

definition scanner_feed :: "(string \<Rightarrow> tokenTally \<Rightarrow> tokenTally) \<Rightarrow> string \<Rightarrow> scanner \<Rightarrow> scanner" where
  "scanner_feed scan chunk s =
     (let (ls, part') = feed_lines (partial s) chunk
      in \<lparr>partial = part', tally = fold scan ls (tally s)\<rparr>)"

definition scanner_flush :: "(string \<Rightarrow> tokenTally \<Rightarrow> tokenTally) \<Rightarrow> scanner \<Rightarrow> scanner" where
  "scanner_flush scan s = \<lparr>partial = [], tally = fold scan (flush_lines (partial s)) (tally s)\<rparr>"

section \<open>The relay\<close>

text \<open>
  A body is what successive \<open>Read\<close> calls return: data, and with the last read the end of the
  stream (\<open>None\<close>) or an error. The writer answers a write after \<open>written\<close> bytes with \<open>None\<close>
  (all of it written) or the number of bytes that went out before an error.
\<close>

datatype body = Chunk string body | Final string "string option"

fun body_bytes :: "body \<Rightarrow> string" where
  "body_bytes (Chunk c b) = c @ body_bytes b"
| "body_bytes (Final c e) = c"

fun body_chunks :: "body \<Rightarrow> string list" where
  "body_chunks (Chunk c b) = c # body_chunks b"
| "body_chunks (Final c e) = [c]"

fun body_error :: "body \<Rightarrow> string option" where
  "body_error (Chunk c b) = body_error b"
| "body_error (Final c e) = e"

type_synonym writer = "string \<Rightarrow> string \<Rightarrow> nat option"

record relayed =
  written :: string
  usage :: tokenTally
  relay_error :: "string option"

text \<open>One read's worth: write the data, if any, then feed it to the scanner.\<close>

definition relay_chunk ::
    "writer \<Rightarrow> (string \<Rightarrow> tokenTally \<Rightarrow> tokenTally) \<Rightarrow> string \<Rightarrow> string \<Rightarrow> scanner \<Rightarrow> string + (string \<times> scanner)" where
  "relay_chunk w scan c sent s =
     (if c = [] then Inr (sent, s)
      else case w sent c of
             Some n \<Rightarrow> Inl (sent @ take n c)
           | None \<Rightarrow> Inr (sent @ c, scanner_feed scan c s))"

fun copy_loop ::
    "writer \<Rightarrow> (string \<Rightarrow> tokenTally \<Rightarrow> tokenTally) \<Rightarrow> body \<Rightarrow> string \<Rightarrow> scanner \<Rightarrow> relayed" where
  "copy_loop w scan (Chunk c b) sent s =
     (case relay_chunk w scan c sent s of
        Inl sent' \<Rightarrow> \<lparr>written = sent', usage = tally s, relay_error = Some ''write''\<rparr>
      | Inr (sent', s') \<Rightarrow> copy_loop w scan b sent' s')"
| "copy_loop w scan (Final c e) sent s =
     (case relay_chunk w scan c sent s of
        Inl sent' \<Rightarrow> \<lparr>written = sent', usage = tally s, relay_error = Some ''write''\<rparr>
      | Inr (sent', s') \<Rightarrow>
          (case e of
             None \<Rightarrow> \<lparr>written = sent', usage = tally (scanner_flush scan s'), relay_error = None\<rparr>
           | Some err \<Rightarrow> \<lparr>written = sent', usage = tally s', relay_error = Some err\<rparr>))"

definition copyStreamWith ::
    "writer \<Rightarrow> (string \<Rightarrow> tokenTally \<Rightarrow> tokenTally) \<Rightarrow> body \<Rightarrow> relayed" where
  "copyStreamWith w scan b = copy_loop w scan b [] new_scanner"

text \<open>
  \<open>relayWithUsage\<close>: a read error inside the first four megabytes is returned before anything
  is written; past them the rest is copied without parsing.
\<close>

definition relay_limit :: nat where
  "relay_limit = 4 * 2 ^ 20"

definition relayWithUsage :: "writer \<Rightarrow> (string \<Rightarrow> int \<times> int) \<Rightarrow> body \<Rightarrow> relayed" where
  "relayWithUsage w extract b =
     (let bytes = body_bytes b; buf = take relay_limit bytes; rest = drop relay_limit bytes in
      if length bytes < relay_limit \<and> body_error b \<noteq> None
      then \<lparr>written = [], usage = zero_tally, relay_error = body_error b\<rparr>
      else case w [] buf of
        Some n \<Rightarrow> \<lparr>written = take n buf, usage = zero_tally, relay_error = Some ''write''\<rparr>
      | None \<Rightarrow>
          (case (if rest = [] then None else w buf rest) of
             Some n \<Rightarrow> \<lparr>written = buf @ take n rest, usage = zero_tally, relay_error = Some ''write''\<rparr>
           | None \<Rightarrow>
               if body_error b \<noteq> None
               then \<lparr>written = bytes, usage = zero_tally, relay_error = body_error b\<rparr>
               else (case extract buf of
                       (i, out) \<Rightarrow>
                         \<lparr>written = bytes, usage = \<lparr>tokensIn = i, tokensOut = out\<rparr>, relay_error = None\<rparr>)))"

section \<open>Chunking does not matter\<close>

text \<open>
  The reference: the segments between newlines, the last one only when it is not empty.
\<close>

definition lines_of :: "string \<Rightarrow> string list" where
  "lines_of s = butlast (split_on NL s) @ flush_lines (last (split_on NL s))"

definition short_lines :: "string \<Rightarrow> bool" where
  "short_lines s \<longleftrightarrow> (\<forall>l \<in> set (split_on NL s). length l \<le> maxSSELineBytes)"

lemma cut_split_on: "cut c s = Some (a, b) \<Longrightarrow> split_on c s = a # split_on c b"
  using cut_Some [of c s a b] by (auto simp: split_on_append_sep split_on_single)

lemma cut_None: "cut c s = None \<longleftrightarrow> c \<notin> set s"
  by (simp add: cut_def)

lemma feed_lines_split:
  assumes "NL \<notin> set part" and "short_lines (part @ chunk)"
  shows "feed_lines part chunk = (butlast (split_on NL (part @ chunk)), last (split_on NL (part @ chunk)))"
  using assms
proof (induction part chunk rule: feed_lines.induct)
  case (1 part rest)
  show ?case
  proof (cases "cut NL rest")
    case None
    then have "NL \<notin> set (part @ rest)" using 1 by (simp add: cut_None)
    then have "split_on NL (part @ rest) = [part @ rest]" by (rule split_on_single)
    with None 1 show ?thesis
      by (simp add: feed_lines.simps [of part rest] short_lines_def)
  next
    case (Some lr)
    obtain line rest' where lr: "lr = (line, rest')" by (cases lr)
    have rest: "rest = line @ NL # rest'" "NL \<notin> set line" using Some lr cut_Some by blast+
    have split: "split_on NL (part @ rest) = (part @ line) # split_on NL rest'"
      using 1 rest split_on_append_sep [of NL "part @ line" rest'] by (simp add: split_on_single)
    then have "short_lines rest'" using "1.prems" by (simp add: short_lines_def)
    with "1.IH" [OF Some [unfolded lr] refl] have "feed_lines [] rest' = (butlast (split_on NL rest'), last (split_on NL rest'))"
      by (simp add: lr)
    with Some lr split show ?thesis by (simp add: feed_lines.simps [of part rest])
  qed
qed

lemma last_split_on_free: "c \<notin> set (last (split_on c s))"
  using split_on_no_sep [of "last (split_on c s)" c s] by simp

lemma split_on_feed:
  "split_on c (s @ t) = butlast (split_on c s) @ split_on c (last (split_on c s) @ t)"
proof -
  have "split_on c (last (split_on c s) @ t) = (last (split_on c s) @ hd (split_on c t)) # tl (split_on c t)"
    using last_split_on_free [of c s] by (simp add: split_on_append split_on_single)
  then show ?thesis by (simp add: split_on_append [of c s])
qed

lemma stream_lines_split:
  assumes "NL \<notin> set part" and "short_lines (part @ concat cs)"
  shows "stream_lines part cs = lines_of (part @ concat cs)"
  using assms
proof (induction cs arbitrary: part)
  case Nil
  then show ?case by (simp add: lines_of_def split_on_single)
next
  case (Cons c cs)
  let ?pc = "part @ c"
  have whole: "split_on NL (?pc @ concat cs) =
      butlast (split_on NL ?pc) @ split_on NL (last (split_on NL ?pc) @ concat cs)"
    by (rule split_on_feed)
  have "short_lines (last (split_on NL ?pc) @ concat cs)"
    using Cons.prems(2) whole by (simp add: short_lines_def)
  then have IH: "stream_lines (last (split_on NL ?pc)) cs = lines_of (last (split_on NL ?pc) @ concat cs)"
    using Cons.IH last_split_on_free by blast
  have "short_lines ?pc"
  proof -
    obtain h where h: "hd (split_on NL (last (split_on NL ?pc) @ concat cs)) = last (split_on NL ?pc) @ h"
      using last_split_on_free [of NL ?pc]
      by (simp add: split_on_append [of NL "last (split_on NL ?pc)"] split_on_single)
    have "last (split_on NL ?pc) @ h \<in> set (split_on NL (?pc @ concat cs))"
      unfolding whole h [symmetric] by simp
    then have "length (last (split_on NL ?pc)) \<le> maxSSELineBytes"
      using Cons.prems(2) by (fastforce simp: short_lines_def)
    moreover have "set (butlast (split_on NL ?pc)) \<subseteq> set (split_on NL (?pc @ concat cs))"
      unfolding whole by auto
    moreover have "set (split_on NL ?pc) = insert (last (split_on NL ?pc)) (set (butlast (split_on NL ?pc)))"
      by (metis append_butlast_last_id list.simps(15) rotate1.simps(2) set_rotate1 split_on_not_Nil)
    ultimately show ?thesis using Cons.prems(2) by (auto simp: short_lines_def)
  qed
  with Cons.prems(1) have "feed_lines part c = (butlast (split_on NL ?pc), last (split_on NL ?pc))"
    by (rule feed_lines_split)
  then have "stream_lines part (c # cs) =
      butlast (split_on NL ?pc) @ lines_of (last (split_on NL ?pc) @ concat cs)"
    by (simp add: IH)
  also have "\<dots> = lines_of (part @ concat (c # cs))"
    using whole by (simp add: lines_of_def butlast_append)
  finally show ?case .
qed

text \<open>Past the cap: the fragment is dropped, and what follows up to the newline is a line of its own.\<close>

lemma feed_lines_oversized:
  assumes "NL \<notin> set frag" and "length part + length frag > maxSSELineBytes" and "frag \<noteq> []"
  shows "feed_lines part frag = ([], [])"
  using assms by (simp add: feed_lines.simps [of part frag] cut_None [THEN iffD2])

section \<open>The tally\<close>

text \<open>
  What the relay relies on from a scanner: a line either carries a pair of counts, which the
  tally takes, or leaves it alone. The totals are then the maxima over the lines.
\<close>

definition max_counts :: "(string \<Rightarrow> (int \<times> int) option) \<Rightarrow> string list \<Rightarrow> tokenTally" where
  "max_counts counts ls =
     \<lparr>tokensIn = Max (set (0 # map fst (List.map_filter counts ls))),
      tokensOut = Max (set (0 # map snd (List.map_filter counts ls)))\<rparr>"

lemma Max_step: "finite A \<Longrightarrow> Max (insert (max a b) A) = Max (insert a (insert (b::int) A))"
  by (cases "A = {}") (simp_all add: max.assoc max.commute max.left_commute)

locale usage_scan =
  fixes scan :: "string \<Rightarrow> tokenTally \<Rightarrow> tokenTally"
    and counts :: "string \<Rightarrow> (int \<times> int) option"
  assumes scan_counts: "scan line t = (case counts line of None \<Rightarrow> t | Some (i, out) \<Rightarrow> tally_take i out t)"
begin

lemma scan_max:
  "tokensIn (scan line t) = (case counts line of None \<Rightarrow> tokensIn t | Some io \<Rightarrow> max (tokensIn t) (fst io))"
  "tokensOut (scan line t) = (case counts line of None \<Rightarrow> tokensOut t | Some io \<Rightarrow> max (tokensOut t) (snd io))"
  by (auto simp: scan_counts tally_take_def Let_def max_def split: option.splits)

lemma fold_scan_max:
  "tokensIn (fold scan ls t) = Max (set (tokensIn t # map fst (List.map_filter counts ls)))"
  "tokensOut (fold scan ls t) = Max (set (tokensOut t # map snd (List.map_filter counts ls)))"
  by (induction ls arbitrary: t) (auto simp: map_filter_simps scan_max Max_step split: option.splits)

lemma fold_scan: "fold scan ls zero_tally = max_counts counts ls"
  by (rule tokenTally.equality) (simp_all add: fold_scan_max max_counts_def zero_tally_def)

text \<open>The relay with a writer that takes everything.\<close>

lemma copy_loop_ok:
  assumes "\<And>sent c. w sent c = None"
  shows "written (copy_loop w scan b sent s) = sent @ body_bytes b"
    and "relay_error (copy_loop w scan b sent s) = body_error b"
    and "body_error b = None \<Longrightarrow>
      usage (copy_loop w scan b sent s) = fold scan (stream_lines (partial s) (body_chunks b)) (tally s)"
proof (induction b arbitrary: sent s)
  case (Chunk c b)
  {
    case 1
    show ?case using Chunk(1) by (cases "c = []") (simp_all add: relay_chunk_def assms)
  next
    case 2
    show ?case using Chunk(2) by (cases "c = []") (simp_all add: relay_chunk_def assms)
  next
    case 3
    then show ?case using Chunk(3)
      by (cases "c = []")
        (auto simp: relay_chunk_def assms scanner_feed_def feed_lines.simps [of _ "[]"] cut_def split: prod.splits)
  }
next
  case (Final c e)
  {
    case 1
    show ?case by (cases "c = []"; cases e) (simp_all add: relay_chunk_def assms)
  next
    case 2
    show ?case by (cases "c = []"; cases e) (simp_all add: relay_chunk_def assms)
  next
    case 3
    then show ?case
      by (cases "c = []")
        (auto simp: relay_chunk_def assms scanner_feed_def scanner_flush_def feed_lines.simps [of _ "[]"]
          cut_def split: prod.splits)
  }
qed

lemma body_chunks_bytes: "concat (body_chunks b) = body_bytes b"
  by (induction b) auto

lemma copyStreamWith_ok:
  assumes "\<And>sent c. w sent c = None" and "body_error b = None" and "short_lines (body_bytes b)"
  shows "copyStreamWith w scan b =
    \<lparr>written = body_bytes b, usage = max_counts counts (lines_of (body_bytes b)), relay_error = None\<rparr>"
proof -
  have "stream_lines [] (body_chunks b) = lines_of (body_bytes b)"
    using stream_lines_split [of "[]" "body_chunks b"] assms(3) by (simp add: body_chunks_bytes)
  then show ?thesis
    using copy_loop_ok [OF assms(1), where b = b and sent = "[]" and s = new_scanner] assms(2)
    by (intro relayed.equality) (simp_all add: copyStreamWith_def new_scanner_def fold_scan)
qed

end

text \<open>Whatever the writer does, the caller receives a prefix of the body.\<close>

lemma copy_loop_prefix: "prefix (written (copy_loop w scan b sent s)) (sent @ body_bytes b)"
proof (induction b arbitrary: sent s)
  case (Chunk c b)
  show ?case
  proof (cases "relay_chunk w scan c sent s")
    case (Inl sent')
    then obtain n where "sent' = sent @ take n c" by (auto simp: relay_chunk_def split: if_splits option.splits)
    with Inl show ?thesis by (auto intro: prefix_order.trans [OF take_is_prefix] simp: same_prefix_prefix)
  next
    case (Inr r)
    then obtain s' where "r = (sent @ c, s')" by (auto simp: relay_chunk_def split: if_splits option.splits)
    with Inr Chunk [of "sent @ c" s'] show ?thesis by simp
  qed
next
  case (Final c e)
  show ?case
  proof (cases "relay_chunk w scan c sent s")
    case (Inl sent')
    then obtain n where "sent' = sent @ take n c" by (auto simp: relay_chunk_def split: if_splits option.splits)
    with Inl show ?thesis by (simp add: take_is_prefix)
  next
    case (Inr r)
    then obtain s' where "r = (sent @ c, s')" by (auto simp: relay_chunk_def split: if_splits option.splits)
    with Inr show ?thesis by (simp split: option.splits)
  qed
qed

lemma relayWithUsage_ok:
  assumes "\<And>sent c. w sent c = None" and "body_error b = None"
  shows "relayWithUsage w extract b =
    \<lparr>written = body_bytes b,
     usage = \<lparr>tokensIn = fst (extract (take relay_limit (body_bytes b))),
              tokensOut = snd (extract (take relay_limit (body_bytes b)))\<rparr>,
     relay_error = None\<rparr>"
  using assms by (simp add: relayWithUsage_def Let_def split: prod.splits)

section \<open>The two dialects\<close>

definition anthropic_counts :: "(string \<Rightarrow> anthropicEvent option) \<Rightarrow> string \<Rightarrow> (int \<times> int) option" where
  "anthropic_counts unmarshal line =
     do {
       payload \<leftarrow> sseData line;
       ev \<leftarrow> unmarshal payload;
       if ev_type ev = ''message_start'' then Some (ev_message_usage ev)
       else if ev_type ev = ''message_delta'' then Some (ev_usage ev)
       else None
     }"

definition openai_counts :: "(string \<Rightarrow> (int \<times> int) option option) \<Rightarrow> string \<Rightarrow> (int \<times> int) option" where
  "openai_counts unmarshal line =
     do {
       payload \<leftarrow> sseData line;
       usage \<leftarrow> unmarshal payload;
       usage
     }"

interpretation anthropic_usage: usage_scan "anthropic_scanLine unmarshal" "anthropic_counts unmarshal"
  by unfold_locales
    (auto simp: anthropic_scanLine_def anthropic_counts_def split: option.splits prod.splits)

interpretation openai_usage: usage_scan "openai_scanLine unmarshal" "openai_counts unmarshal"
  by unfold_locales (auto simp: openai_scanLine_def openai_counts_def split: option.splits)

end
