(* ===== verification/Reports.thy ===== *)
theory Reports
  imports Policy_Model
begin

text \<open>
  Per-request reports: the contract and its bounds (\<open>internal/model/gateway.go\<close>), the gateway's
  report ring and log summary (\<open>internal/gateway/audit.go\<close>), the metrics windows
  (\<open>internal/gateway/metrics.go\<close>) and the upward pushes (\<open>internal/gateway/spine_emit.go\<close>).
  The answer of the control plane to a POST is an argument.
\<close>

section \<open>The report and its bounds\<close>

record GatewayRedaction =
  red_Path :: string
  red_Type :: string
  red_Start :: int
  red_End :: int
  red_Detector :: string
  red_Confidence :: float64

record Report =
  rr_RequestID :: string
  rr_Route :: string
  rr_Action :: string
  rr_Model :: string
  rr_AppID :: string
  rr_KeyID :: string
  rr_Subject :: string
  rr_Baseline :: string
  rr_Redactions :: "GatewayRedaction list"
  rr_DetectorErrors :: "string list"
  rr_FailModeTripped :: bool
  rr_Stream :: bool
  rr_UpstreamStatus :: nat
  rr_GatewayStatus :: nat
  rr_Error :: string
  rr_TokensIn :: int
  rr_TokensOut :: int
  rr_LatencyMS :: int
  rr_AddedLatencyMS :: int
  rr_At :: time

definition maxReportIDLen :: nat where "maxReportIDLen = 128"
definition maxReportModelLen :: nat where "maxReportModelLen = 256"
definition maxReportLabelLen :: nat where "maxReportLabelLen = 64"
definition maxReportSubjectLen :: nat where "maxReportSubjectLen = 200"
definition maxReportDetectorErrs :: nat where "maxReportDetectorErrs = 5"
definition maxReportDetectorErr :: nat where "maxReportDetectorErr = 300"
definition maxReportRedactions :: nat where "maxReportRedactions = 500"
definition maxReportPathLen :: nat where "maxReportPathLen = 200"

definition truncate_to :: "nat \<Rightarrow> 'a list \<Rightarrow> 'a list" where
  "truncate_to n s = (if length s > n then take n s else s)"

definition Clamp :: "Report \<Rightarrow> Report" where
  "Clamp r = r
     \<lparr>rr_RequestID := truncate_to maxReportIDLen (rr_RequestID r),
      rr_Model := truncate_to maxReportModelLen (rr_Model r),
      rr_Route := truncate_to maxReportLabelLen (rr_Route r),
      rr_AppID := truncate_to maxReportLabelLen (rr_AppID r),
      rr_KeyID := truncate_to maxReportLabelLen (rr_KeyID r),
      rr_Baseline := truncate_to maxReportLabelLen (rr_Baseline r),
      rr_Subject := truncate_to maxReportSubjectLen (rr_Subject r),
      rr_Error := truncate_to maxReportLabelLen (rr_Error r),
      rr_DetectorErrors :=
        map (truncate_to maxReportDetectorErr) (truncate_to maxReportDetectorErrs (rr_DetectorErrors r)),
      rr_Redactions :=
        map (\<lambda>d. d\<lparr>red_Path := truncate_to maxReportPathLen (red_Path d)\<rparr>)
          (truncate_to maxReportRedactions (rr_Redactions r))\<rparr>"

definition clamped :: "Report \<Rightarrow> bool" where
  "clamped r \<longleftrightarrow>
     length (rr_RequestID r) \<le> maxReportIDLen \<and> length (rr_Model r) \<le> maxReportModelLen \<and>
     length (rr_Route r) \<le> maxReportLabelLen \<and> length (rr_AppID r) \<le> maxReportLabelLen \<and>
     length (rr_KeyID r) \<le> maxReportLabelLen \<and> length (rr_Baseline r) \<le> maxReportLabelLen \<and>
     length (rr_Subject r) \<le> maxReportSubjectLen \<and> length (rr_Error r) \<le> maxReportLabelLen \<and>
     length (rr_DetectorErrors r) \<le> maxReportDetectorErrs \<and>
     (\<forall>e \<in> set (rr_DetectorErrors r). length e \<le> maxReportDetectorErr) \<and>
     length (rr_Redactions r) \<le> maxReportRedactions \<and>
     (\<forall>d \<in> set (rr_Redactions r). length (red_Path d) \<le> maxReportPathLen)"

lemma truncate_to_take: "truncate_to n s = take n s"
  by (simp add: truncate_to_def)

lemma clamped_Clamp: "clamped (Clamp r)"
  by (auto simp: clamped_def Clamp_def truncate_to_take)

lemma Clamp_clamped: "clamped r \<Longrightarrow> Clamp r = r"
  by (auto simp: clamped_def Clamp_def truncate_to_take intro!: Report.equality map_idI)

text \<open>Clamping only truncates: every field is a prefix of what it was, the decisions are untouched.\<close>

lemma Clamp_prefix:
  "prefix (rr_RequestID (Clamp r)) (rr_RequestID r)" "prefix (rr_Model (Clamp r)) (rr_Model r)"
  "prefix (map red_Type (rr_Redactions (Clamp r))) (map red_Type (rr_Redactions r))"
  "rr_Action (Clamp r) = rr_Action r" "rr_UpstreamStatus (Clamp r) = rr_UpstreamStatus r"
  "rr_GatewayStatus (Clamp r) = rr_GatewayStatus r" "rr_FailModeTripped (Clamp r) = rr_FailModeTripped r"
  by (simp_all add: Clamp_def truncate_to_take take_is_prefix comp_def take_map [symmetric])

section \<open>The report ring\<close>

definition auditRingMax :: nat where "auditRingMax = 5000"

definition ring_add :: "Report \<Rightarrow> Report list \<Rightarrow> Report list" where
  "ring_add r buf =
     (let buf = buf @ [r]
      in if length buf > auditRingMax then drop (length buf - auditRingMax) buf else buf)"

definition ring_drain :: "Report list \<Rightarrow> Report list \<times> Report list" where
  "ring_drain buf = (buf, [])"

definition ring_requeue :: "Report list \<Rightarrow> Report list \<Rightarrow> Report list" where
  "ring_requeue reports buf =
     (let buf = reports @ buf in if length buf > auditRingMax then take auditRingMax buf else buf)"

interpretation report_ring: bounded_ring auditRingMax ring_add
  by unfold_locales (simp_all add: auditRingMax_def ring_add_def Let_def)

lemma ring_requeue_take: "ring_requeue reports buf = take auditRingMax (reports @ buf)"
  by (simp add: ring_requeue_def Let_def)

section \<open>The log summary\<close>

definition times_sign :: string where "times_sign = [chr 0xC3, chr 0x97]"

definition count_types :: "string list \<Rightarrow> (string \<times> nat) list" where
  "count_types ts =
     foldl (\<lambda>m t. AList.update t (case map_of m t of None \<Rightarrow> 1 | Some n \<Rightarrow> n + 1) m) [] ts"

definition typeSummary :: "GatewayRedaction list \<Rightarrow> string" where
  "typeSummary reds =
     (if reds = [] then []
      else let counts = count_types (map red_Type reds);
               ks = sort_strings (map fst counts)
           in join '', '' (map (\<lambda>k. k @ times_sign @ itoa (the (map_of counts k))) ks))"

lemma count_types_of: "map_of (count_types ts) t = (if t \<in> set ts then Some (count_list ts t) else None)"
proof (induction ts rule: rev_induct)
  case Nil
  then show ?case by (simp add: count_types_def)
next
  case (snoc u ts)
  have "map_of (count_types (ts @ [u])) t =
      (if t = u then Some (case map_of (count_types ts) u of None \<Rightarrow> 1 | Some n \<Rightarrow> n + 1)
       else map_of (count_types ts) t)"
    by (simp add: count_types_def update_conv')
  then show ?case using snoc by (auto simp: count_list_append)
qed

section \<open>Metrics windows\<close>

definition latReservoirMax :: nat where "latReservoirMax = 4096"

record metrics =
  m_requests :: int
  m_blocked :: int
  m_masked :: int
  m_detectOnly :: int
  m_failTrips :: int
  m_errors :: int
  m_authFailures :: int
  m_redactionsByType :: "(string \<times> int) list"
  m_tokensIn :: int
  m_tokensOut :: int
  m_addedLat :: "float64 list"
  m_totalLat :: "float64 list"

definition newMetrics :: metrics where
  "newMetrics =
     \<lparr>m_requests = 0, m_blocked = 0, m_masked = 0, m_detectOnly = 0, m_failTrips = 0, m_errors = 0,
      m_authFailures = 0, m_redactionsByType = [], m_tokensIn = 0, m_tokensOut = 0, m_addedLat = [],
      m_totalLat = []\<rparr>"

definition bump :: "string \<Rightarrow> (string \<times> int) list \<Rightarrow> (string \<times> int) list" where
  "bump k m = AList.update k ((case map_of m k of None \<Rightarrow> 0 | Some n \<Rightarrow> n) + 1) m"

definition observe :: "Report \<Rightarrow> int \<Rightarrow> int \<Rightarrow> metrics \<Rightarrow> metrics" where
  "observe a tokensIn tokensOut m = m
     \<lparr>m_requests := m_requests m + 1,
      m_blocked := m_blocked m + (if rr_Action a = ActionBlock then 1 else 0),
      m_masked := m_masked m + (if rr_Action a = ActionMask then 1 else 0),
      m_detectOnly := m_detectOnly m + (if rr_Action a = ActionDetect then 1 else 0),
      m_failTrips := m_failTrips m + (if rr_FailModeTripped a then 1 else 0),
      m_errors := m_errors m + (if rr_Error a \<noteq> [] then 1 else 0),
      m_redactionsByType := fold (\<lambda>r. bump (red_Type r)) (rr_Redactions a) (m_redactionsByType m),
      m_tokensIn := wrap64 (m_tokensIn m + tokensIn),
      m_tokensOut := wrap64 (m_tokensOut m + tokensOut),
      m_addedLat := (if length (m_addedLat m) < latReservoirMax
                     then m_addedLat m @ [of_int (rr_AddedLatencyMS a)] else m_addedLat m),
      m_totalLat := (if length (m_totalLat m) < latReservoirMax
                     then m_totalLat m @ [of_int (rr_LatencyMS a)] else m_totalLat m)\<rparr>"

definition m_authFailure :: "metrics \<Rightarrow> metrics" where
  "m_authFailure m = m\<lparr>m_authFailures := m_authFailures m + 1\<rparr>"

definition pct_index :: "float64 \<Rightarrow> nat \<Rightarrow> nat" where
  "pct_index q n = nat \<lfloor>q * of_nat (n - 1)\<rfloor>"

definition percentile :: "float64 list \<Rightarrow> float64 \<Rightarrow> float64" where
  "percentile xs q =
     (if xs = [] then 0
      else sort_slice (\<lambda>a b. a < b) xs ! pct_index q (length xs))"

record metricsSnapshot =
  ms_Requests :: int
  ms_Blocked :: int
  ms_Masked :: int
  ms_DetectOnly :: int
  ms_FailTrips :: int
  ms_Errors :: int
  ms_AuthFailures :: int
  ms_RedactionsByType :: "(string \<times> int) list"
  ms_TokensIn :: int
  ms_TokensOut :: int
  ms_AddedP50 :: float64
  ms_AddedP95 :: float64
  ms_AddedP99 :: float64
  ms_TotalP50 :: float64
  ms_TotalP95 :: float64
  ms_TotalP99 :: float64

definition m_drain :: "metrics \<Rightarrow> metricsSnapshot \<times> metrics" where
  "m_drain m =
     (\<lparr>ms_Requests = m_requests m, ms_Blocked = m_blocked m, ms_Masked = m_masked m,
       ms_DetectOnly = m_detectOnly m, ms_FailTrips = m_failTrips m, ms_Errors = m_errors m,
       ms_AuthFailures = m_authFailures m, ms_RedactionsByType = m_redactionsByType m,
       ms_TokensIn = m_tokensIn m, ms_TokensOut = m_tokensOut m,
       ms_AddedP50 = percentile (m_addedLat m) (1/2), ms_AddedP95 = percentile (m_addedLat m) (95/100),
       ms_AddedP99 = percentile (m_addedLat m) (99/100), ms_TotalP50 = percentile (m_totalLat m) (1/2),
       ms_TotalP95 = percentile (m_totalLat m) (95/100), ms_TotalP99 = percentile (m_totalLat m) (99/100)\<rparr>,
      newMetrics)"

text \<open>One window per route.\<close>

type_synonym route_metrics = "(string \<times> metrics) list"

definition window :: "string \<Rightarrow> route_metrics \<Rightarrow> metrics" where
  "window route rm = (case map_of rm route of None \<Rightarrow> newMetrics | Some m \<Rightarrow> m)"

definition rm_observe :: "Report \<Rightarrow> int \<Rightarrow> int \<Rightarrow> route_metrics \<Rightarrow> route_metrics" where
  "rm_observe a i out rm = AList.update (rr_Route a) (observe a i out (window (rr_Route a) rm)) rm"

definition rm_authFailure :: "string \<Rightarrow> route_metrics \<Rightarrow> route_metrics" where
  "rm_authFailure route rm = AList.update route (m_authFailure (window route rm)) rm"

definition rm_drain :: "route_metrics \<Rightarrow> (string \<times> metricsSnapshot) list \<times> route_metrics" where
  "rm_drain rm =
     (filter (\<lambda>(route, snap). ms_Requests snap > 0 \<or> ms_AuthFailures snap > 0)
        (map (\<lambda>(route, m). (route, fst (m_drain m))) rm),
      map (\<lambda>(route, m). (route, snd (m_drain m))) rm)"

section \<open>Recording\<close>

text \<open>\<open>record\<close>: clamp, attach the counts, then feed the ring and the metrics.\<close>

definition record_report ::
    "Report \<Rightarrow> int \<Rightarrow> int \<Rightarrow> Report list \<Rightarrow> route_metrics \<Rightarrow> Report list \<times> route_metrics" where
  "record_report a tokensIn tokensOut ring rm =
     (let a = (Clamp a)\<lparr>rr_TokensIn := tokensIn, rr_TokensOut := tokensOut\<rparr>
      in (ring_add a ring, rm_observe a tokensIn tokensOut rm))"

section \<open>Pushing reports\<close>

datatype http_answer = Answer nat | NoAnswer

datatype post_answer = Accepted | Status nat | Unreachable

definition unacceptable :: "nat \<Rightarrow> bool" where
  "unacceptable code \<longleftrightarrow> code = 400 \<or> code = 413"

text \<open>
  \<open>postJSON\<close> as the callers see it: below 300 is success. \<open>push_chunks\<close> is the loop over chunks
  of a thousand, to what was accepted, what was dropped as unacceptable, and what to requeue.
\<close>

definition post_result :: "http_answer \<Rightarrow> post_answer" where
  "post_result r = (case r of Answer code \<Rightarrow> if code \<ge> 300 then Status code else Accepted | NoAnswer \<Rightarrow> Unreachable)"

function push_chunks ::
    "(Report list \<Rightarrow> http_answer) \<Rightarrow> Report list \<Rightarrow> Report list \<times> Report list \<times> Report list" where
  "push_chunks post reports =
     (if reports = [] then ([], [], [])
      else let chunk = take 1000 reports; rest = drop 1000 reports
           in case post_result (post chunk) of
                Accepted \<Rightarrow> (case push_chunks post rest of (ok, lost, kept) \<Rightarrow> (chunk @ ok, lost, kept))
              | Status code \<Rightarrow>
                  if unacceptable code
                  then (case push_chunks post rest of (ok, lost, kept) \<Rightarrow> (ok, chunk @ lost, kept))
                  else ([], [], reports)
              | Unreachable \<Rightarrow> ([], [], reports))"
  by pat_completeness auto
termination by (relation "measure (\<lambda>(post, reports). length reports)") auto

declare push_chunks.simps [simp del]

text \<open>
  \<open>pushReports\<close> holds the ring's lock only while it drains and while it requeues. In between the
  posts run and the request handlers go on recording: \<open>meanwhile\<close> is what they make of the ring.
\<close>

definition pushReports ::
    "(Report list \<Rightarrow> http_answer) \<Rightarrow> (Report list \<Rightarrow> Report list) \<Rightarrow> Report list \<Rightarrow> Report list \<times> Report list \<times> Report list" where
  "pushReports post meanwhile ring =
     (case ring_drain ring of
        (reports, buf) \<Rightarrow>
          if reports = [] then ([], [], meanwhile buf)
          else (case push_chunks post reports of
                  (ok, lost, kept) \<Rightarrow> (ok, lost, if kept = [] then meanwhile buf else ring_requeue kept (meanwhile buf))))"

lemma push_chunks_Nil [simp]: "push_chunks post [] = ([], [], [])"
  by (simp add: push_chunks.simps)

lemma push_chunks_step:
  "reports \<noteq> [] \<Longrightarrow> push_chunks post reports =
     (case post_result (post (take 1000 reports)) of
        Accepted \<Rightarrow> (case push_chunks post (drop 1000 reports) of (ok, lost, kept) \<Rightarrow> (take 1000 reports @ ok, lost, kept))
      | Status code \<Rightarrow>
          if unacceptable code
          then (case push_chunks post (drop 1000 reports) of (ok, lost, kept) \<Rightarrow> (ok, take 1000 reports @ lost, kept))
          else ([], [], reports)
      | Unreachable \<Rightarrow> ([], [], reports))"
  by (subst push_chunks.simps) (simp add: Let_def)

text \<open>
  Induction along the loop: a chunk is accepted, dropped, or stops the push with the rest kept.
\<close>

lemma push_chunks_cases [consumes 1, case_names Nil accept drop stop]:
  assumes "push_chunks post reports = (ok, lost, kept)"
  obtains "reports = []" "ok = []" "lost = []" "kept = []"
  | ok' where "reports \<noteq> []" "post_result (post (take 1000 reports)) = Accepted"
      "push_chunks post (drop 1000 reports) = (ok', lost, kept)" "ok = take 1000 reports @ ok'"
  | lost' code where "reports \<noteq> []" "post_result (post (take 1000 reports)) = Status code" "unacceptable code"
      "push_chunks post (drop 1000 reports) = (ok, lost', kept)" "lost = take 1000 reports @ lost'"
  | "reports \<noteq> []" "ok = []" "lost = []" "kept = reports"
proof (cases "reports = []")
  case True
  with assms that(1) show ?thesis by simp
next
  case False
  obtain o' l' k' where chunks: "push_chunks post (drop 1000 reports) = (o', l', k')"
    by (cases "push_chunks post (drop 1000 reports)")
  note step = assms [unfolded push_chunks_step [OF False] chunks]
  show ?thesis
  proof (cases "post_result (post (take 1000 reports))")
    case Accepted
    with step have "ok = take 1000 reports @ o'" "lost = l'" "kept = k'" by simp_all
    with that(2) [OF False Accepted] chunks show ?thesis by blast
  next
    case (Status code)
    show ?thesis
    proof (cases "unacceptable code")
      case True
      with step Status have "ok = o'" "lost = take 1000 reports @ l'" "kept = k'" by simp_all
      with that(3) [OF False Status True] chunks show ?thesis by blast
    next
      case no: False
      with step Status that(4) [OF False] show ?thesis by simp
    qed
  next
    case Unreachable
    with step that(4) [OF False] show ?thesis by simp
  qed
qed

lemma push_chunks_mset:
  "push_chunks post reports = (ok, lost, kept) \<Longrightarrow>
     mset ok + mset lost + mset kept = mset reports \<and> suffix kept reports"
proof (induction "length reports" arbitrary: reports ok lost kept rule: less_induct)
  case less
  have split: "mset (take 1000 reports) + mset (drop 1000 reports) = mset reports"
    by (metis append_take_drop_id mset_append)
  have suf: "suffix xs (drop 1000 reports) \<Longrightarrow> suffix xs reports" for xs
    using suffix_drop suffix_order.trans by blast
  from less.prems show ?case
  proof (cases rule: push_chunks_cases)
    case (accept ok')
    with less.hyps [of "drop 1000 reports"] suf [of kept] show ?thesis by (auto simp: split [symmetric] ac_simps)
  next
    case (drop lost' code)
    with less.hyps [of "drop 1000 reports"] suf [of kept] show ?thesis by (auto simp: split [symmetric] ac_simps)
  qed auto
qed

lemma push_chunks_refused:
  "push_chunks post reports = (ok, lost, kept) \<Longrightarrow>
     \<exists>refused. lost = concat refused \<and> (\<forall>chunk \<in> set refused. post chunk = Answer 400 \<or> post chunk = Answer 413) \<and>
       (refused = [] \<longrightarrow> reports = ok @ kept)"
proof (induction "length reports" arbitrary: reports ok lost kept rule: less_induct)
  case less
  have shorter: "length (drop 1000 reports) < length reports" if "reports \<noteq> []" using that by simp
  from less.prems show ?case
  proof (cases rule: push_chunks_cases)
    case (accept ok')
    from less.hyps [OF shorter [OF accept(1)] accept(3)] obtain refused where
      "lost = concat refused" "\<forall>chunk \<in> set refused. post chunk = Answer 400 \<or> post chunk = Answer 413"
      "refused = [] \<longrightarrow> drop 1000 reports = ok' @ kept" by blast
    with accept(4) show ?thesis by (metis append_assoc append_take_drop_id)
  next
    case (drop lost' code)
    from less.hyps [OF shorter [OF drop(1)] drop(4)] obtain refused where
      "lost' = concat refused" "\<forall>chunk \<in> set refused. post chunk = Answer 400 \<or> post chunk = Answer 413" by blast
    moreover have "post (take 1000 reports) = Answer 400 \<or> post (take 1000 reports) = Answer 413"
      using drop(2,3) by (auto simp: post_result_def unacceptable_def split: http_answer.splits if_splits)
    ultimately show ?thesis using drop(5) by (intro exI [of _ "take 1000 reports # refused"]) simp
  qed (rule exI [of _ "[]"], simp)+
qed

text \<open>
  What a push leaves of the reports it drained and of those recorded meanwhile: the unsent ones stay
  at the front, and whatever the ring has no room for is taken from the newest.
\<close>

lemma pushReports_ring:
  assumes "pushReports post (fold ring_add during) ring = (ok, lost, ring')" and "length ring \<le> auditRingMax"
  obtains kept where "push_chunks post ring = (ok, lost, kept)" and "length kept \<le> auditRingMax"
    and "ring' = (let newer = drop (length during - auditRingMax) during in take auditRingMax (kept @ newer))"
proof -
  obtain o' l' k' where pc: "push_chunks post ring = (o', l', k')" by (cases "push_chunks post ring")
  have kept: "length k' \<le> auditRingMax"
    using push_chunks_mset [OF pc] assms(2) by (auto dest: suffix_length_le)
  have newer: "fold ring_add during [] = drop (length during - auditRingMax) during"
    using report_ring.fold_push_keeps_newest [of "[]" during] by simp
  have "ring' = take auditRingMax (k' @ fold ring_add during []) \<and> ok = o' \<and> lost = l'"
    using assms(1) pc by (auto simp: pushReports_def ring_drain_def ring_requeue_take newer split: if_splits)
  with that [of k'] pc kept show thesis by (simp add: newer Let_def)
qed

section \<open>What the metrics say\<close>

text \<open>The counters of a window, as counts over the reports it observed.\<close>

definition window_of :: "(Report \<times> int \<times> int) list \<Rightarrow> metrics" where
  "window_of obs = fold (\<lambda>(a, i, out). observe a i out) obs newMetrics"

definition count_if :: "('a \<Rightarrow> bool) \<Rightarrow> 'a list \<Rightarrow> int" where
  "count_if P xs = int (length (filter P xs))"

lemma window_of_counts:
  "m_requests (window_of obs) = int (length obs)"
  "m_blocked (window_of obs) = count_if (\<lambda>(a, _). rr_Action a = ActionBlock) obs"
  "m_masked (window_of obs) = count_if (\<lambda>(a, _). rr_Action a = ActionMask) obs"
  "m_detectOnly (window_of obs) = count_if (\<lambda>(a, _). rr_Action a = ActionDetect) obs"
  "m_failTrips (window_of obs) = count_if (\<lambda>(a, _). rr_FailModeTripped a) obs"
  "m_errors (window_of obs) = count_if (\<lambda>(a, _). rr_Error a \<noteq> []) obs"
  "m_authFailures (window_of obs) = 0"
  by (induction obs rule: rev_induct)
    (simp_all add: window_of_def newMetrics_def observe_def count_if_def case_prod_unfold)

lemma window_of_lat:
  "length (m_addedLat (window_of obs)) \<le> latReservoirMax" "length (m_totalLat (window_of obs)) \<le> latReservoirMax"
  by (induction obs rule: rev_induct)
    (simp_all add: window_of_def newMetrics_def observe_def case_prod_unfold)

lemma bump_of: "map_of (bump k m) t = (if t = k then Some ((case map_of m k of None \<Rightarrow> 0 | Some n \<Rightarrow> n) + 1) else map_of m t)"
  by (simp add: bump_def update_conv')

lemma fold_bump:
  "(case map_of (fold (\<lambda>r. bump (red_Type r)) reds m) t of None \<Rightarrow> 0 | Some n \<Rightarrow> n) =
     (case map_of m t of None \<Rightarrow> 0 | Some n \<Rightarrow> n) + count_if (\<lambda>r. red_Type r = t) reds"
  by (induction reds arbitrary: m) (auto simp: bump_of count_if_def)

lemma window_of_types:
  "(case map_of (m_redactionsByType (window_of obs)) t of None \<Rightarrow> 0 | Some n \<Rightarrow> n) =
     count_if (\<lambda>r. red_Type r = t) (concat (map (\<lambda>(a, _). rr_Redactions a) obs))"
proof (induction obs rule: rev_induct)
  case Nil
  then show ?case by (simp add: window_of_def newMetrics_def count_if_def)
next
  case (snoc x obs)
  obtain a i out where x: "x = (a, i, out)" by (cases x)
  have "m_redactionsByType (window_of (obs @ [x])) =
      fold (\<lambda>r. bump (red_Type r)) (rr_Redactions a) (m_redactionsByType (window_of obs))"
    by (simp add: window_of_def observe_def x)
  with snoc show ?case by (simp add: fold_bump x) (simp add: count_if_def)
qed

interpretation rat_order: key_less "\<lambda>x::float64. x"
  by unfold_locales

lemma percentile_index:
  assumes "0 \<le> q" and "q \<le> 1" and "xs \<noteq> []"
  shows "pct_index q (length xs) < length xs"
proof -
  have "q * of_nat (length xs - 1) \<le> of_nat (length xs - 1)"
    using assms by (simp add: mult_left_le_one_le)
  then have "\<lfloor>q * of_nat (length xs - 1)\<rfloor> \<le> int (length xs - 1)"
    by (metis floor_mono floor_of_nat)
  then have "pct_index q (length xs) \<le> length xs - 1" unfolding pct_index_def by linarith
  with assms(3) show ?thesis by (cases xs) auto
qed

lemma percentile_in:
  assumes "0 \<le> q" and "q \<le> 1" and "xs \<noteq> []"
  shows "percentile xs q \<in> set xs"
proof -
  have "sort_slice (\<lambda>a b. a < b) xs ! pct_index q (length xs) \<in> set (sort_slice (\<lambda>a b. a < b) xs)"
    using percentile_index [OF assms] by (intro nth_mem) simp
  with assms(3) show ?thesis by (simp add: percentile_def)
qed

lemma percentile_mono:
  assumes "0 \<le> p" and "p \<le> q" and "q \<le> 1"
  shows "percentile xs p \<le> percentile xs q"
proof (cases "xs = []")
  case False
  have "p * of_nat (length xs - 1) \<le> q * of_nat (length xs - 1)"
    using assms by (intro mult_right_mono) auto
  then have "pct_index p (length xs) \<le> pct_index q (length xs)"
    unfolding pct_index_def by (intro nat_mono floor_mono)
  then show ?thesis
    using False assms percentile_index [of q xs] rat_order.sorted_by_key [of xs]
    by (auto simp: percentile_def intro!: sorted_nth_mono)
qed (simp add: percentile_def)

end
