(* ===== verification/Proxy.thy ===== *)
theory Proxy
  imports Gateway_Server Walkers Stream_Relay Reports
begin

text \<open>
  The request pipeline of \<open>internal/gateway/proxy.go\<close> and the middleware around it
  (\<open>server.go\<close>): authenticate, read, detect, mask or refuse, swap the credential, forward,
  relay, and record one report. The JSON codec, URL handling, the upstream exchange, the
  response writer and the clock are arguments, collected in \<open>http_world\<close>; \<open>None\<close> is a panic,
  which the recover middleware turns into a 500.
\<close>

section \<open>Headers\<close>

type_synonym headers = "(string \<times> string list) list"

definition token_byte :: "char \<Rightarrow> bool" where
  "token_byte c \<longleftrightarrow> ascii_alnum c \<or> c \<in> set ''!#$%&*+-.^_|~'' \<or> byte c = 39 \<or> byte c = 96"

definition ascii_upper :: "char \<Rightarrow> char" where
  "ascii_upper c = (if 97 \<le> byte c \<and> byte c \<le> 122 then chr (byte c - 32) else c)"

fun canon_from :: "bool \<Rightarrow> string \<Rightarrow> string" where
  "canon_from up [] = []"
| "canon_from up (c # cs) =
     (if up then ascii_upper c else ascii_lower c) # canon_from (c = CHR ''-'') cs"

definition CanonicalHeaderKey :: "string \<Rightarrow> string" where
  "CanonicalHeaderKey k = (if list_all token_byte k then canon_from True k else k)"

definition hdr_get :: "headers \<Rightarrow> string \<Rightarrow> string" where
  "hdr_get h k = (case map_of h (CanonicalHeaderKey k) of Some (v # _) \<Rightarrow> v | _ \<Rightarrow> [])"

definition hdr_set :: "headers \<Rightarrow> string \<Rightarrow> string \<Rightarrow> headers" where
  "hdr_set h k v = AList.update (CanonicalHeaderKey k) [v] h"

definition hdr_add :: "string \<Rightarrow> string \<Rightarrow> headers \<Rightarrow> headers" where
  "hdr_add k v h =
     (let ck = CanonicalHeaderKey k
      in AList.update ck ((case map_of h ck of None \<Rightarrow> [] | Some vs \<Rightarrow> vs) @ [v]) h)"

definition hopByHop :: "string list" where
  "hopByHop =
     [''Connection'', ''Keep-Alive'', ''Proxy-Authenticate'', ''Proxy-Authorization'', ''Te'', ''Trailer'',
      ''Transfer-Encoding'', ''Upgrade'']"

definition clientAuthHeaders :: "string list" where
  "clientAuthHeaders = [''Authorization'', ''X-Api-Key'']"

definition forwarded :: "string \<Rightarrow> bool" where
  "forwarded k \<longleftrightarrow>
     (let ck = CanonicalHeaderKey k
      in \<not> (ck \<in> set hopByHop \<or> ck \<in> set clientAuthHeaders \<or> ck = ''Host''))"

definition copyHeaders :: "headers \<Rightarrow> headers \<Rightarrow> headers" where
  "copyHeaders dst src =
     fold (\<lambda>(k, vs) h. if forwarded k then fold (hdr_add k) vs h else h) src dst"

definition setUpstreamCredential :: "Upstream \<Rightarrow> string \<Rightarrow> string \<Rightarrow> headers \<Rightarrow> headers" where
  "setUpstreamCredential up defaultAuth cred h =
     (let auth = (if Auth up = [] then defaultAuth else Auth up)
      in if auth = AuthBearer then hdr_set h ''Authorization'' (''Bearer '' @ cred)
         else hdr_set h ''x-api-key'' cred)"

section \<open>The world of a request\<close>

record upstream_request =
  ur_target :: string
  ur_headers :: headers
  ur_body :: string

record upstream_response =
  us_status :: nat
  us_headers :: headers
  us_body :: body

record http_world =
  hw_parseURL :: "string \<Rightarrow> URL option"
  hw_urlString :: "URL \<Rightarrow> string"
  hw_newRequestOK :: "string \<Rightarrow> bool"
  hw_unmarshal :: "string \<Rightarrow> json option"
  hw_peekModel :: "string \<Rightarrow> string option"
  hw_marshal :: "json \<Rightarrow> string option"
  hw_anthropicUsage :: "string \<Rightarrow> (int \<times> int) option"
  hw_openaiUsage :: "string \<Rightarrow> (int \<times> int) option"
  hw_anthropicEvent :: "string \<Rightarrow> anthropicEvent option"
  hw_openaiChunk :: "string \<Rightarrow> (int \<times> int) option option"
  hw_send :: "upstream_request \<Rightarrow> upstream_response option"
  hw_getenv :: "string \<Rightarrow> string"
  hw_quote :: "string \<Rightarrow> string"

section \<open>Dialects\<close>

record dialect =
  d_route :: string
  d_path :: string
  d_walk :: "(string \<times> json) list \<Rightarrow> textField list"
  d_jsonUsage :: "string \<Rightarrow> int \<times> int"
  d_scan :: "string \<Rightarrow> tokenTally \<Rightarrow> tokenTally"
  d_writeErr :: "string \<Rightarrow> string \<Rightarrow> string"
  d_defaultAuth :: string

definition jsonUsage :: "(string \<Rightarrow> (int \<times> int) option) \<Rightarrow> string \<Rightarrow> int \<times> int" where
  "jsonUsage parse buf = (case parse buf of None \<Rightarrow> (0, 0) | Some io \<Rightarrow> io)"

definition writeVendorError :: "(string \<Rightarrow> string) \<Rightarrow> string \<Rightarrow> string \<Rightarrow> string" where
  "writeVendorError quote errType msg =
     ''{\"type\":\"error\",\"error\":{\"type\":'' @ quote errType @ '',\"message\":'' @ quote msg @ ''}}'' @ [NL]"

definition writeOpenAIError :: "(string \<Rightarrow> string) \<Rightarrow> string \<Rightarrow> string \<Rightarrow> string" where
  "writeOpenAIError quote errType msg =
     ''{\"error\":{\"message\":'' @ quote msg @ '',\"type\":'' @ quote errType @ '',\"param\":null,\"code\":null}}'' @ [NL]"

definition anthropicDialect :: "http_world \<Rightarrow> dialect" where
  "anthropicDialect hw =
     \<lparr>d_route = ''anthropic'', d_path = ''/v1/messages'', d_walk = walkAnthropicBody,
      d_jsonUsage = jsonUsage (hw_anthropicUsage hw), d_scan = anthropic_scanLine (hw_anthropicEvent hw),
      d_writeErr = writeVendorError (hw_quote hw), d_defaultAuth = AuthAPIKey\<rparr>"

definition openAIDialect :: "http_world \<Rightarrow> dialect" where
  "openAIDialect hw =
     \<lparr>d_route = ''openai'', d_path = ''/chat/completions'', d_walk = walkOpenAIBody,
      d_jsonUsage = jsonUsage (hw_openaiUsage hw), d_scan = openai_scanLine (hw_openaiChunk hw),
      d_writeErr = writeOpenAIError (hw_quote hw), d_defaultAuth = AuthBearer\<rparr>"

text \<open>The upstream URL: the dialect's path joined onto the path of the base URL.\<close>

definition upstreamTarget :: "http_world \<Rightarrow> string \<Rightarrow> string \<Rightarrow> string option" where
  "upstreamTarget hw baseURL path =
     map_option (\<lambda>u. hw_urlString hw (u\<lparr>url_Path := trim_suffix (url_Path u) ''/'' @ path\<rparr>)) (hw_parseURL hw baseURL)"

section \<open>The pipeline\<close>

record request =
  rq_headers :: headers
  rq_body :: string
  rq_readError :: bool

datatype response =
    Refused nat string
  | Relayed nat headers string "string option"

text \<open>What one request leaves behind: its report with the token counts, the answer, what went upstream.\<close>

record handled =
  h_report :: Report
  h_tokens :: tokenTally
  h_response :: response
  h_sent :: "upstream_request option"

definition read_body :: "Config \<Rightarrow> request \<Rightarrow> string option" where
  "read_body cfg r =
     (if rq_readError r \<or> int (length (rq_body r)) > MaxBodyBytes cfg then None else Some (rq_body r))"

definition decode_doc :: "http_world \<Rightarrow> string \<Rightarrow> (string \<times> json) list option" where
  "decode_doc hw body =
     (case hw_unmarshal hw body of Some (JObj kvs) \<Rightarrow> Some kvs | Some JNull \<Rightarrow> Some [] | _ \<Rightarrow> None)"

definition redaction_of :: "string \<Rightarrow> Span \<Rightarrow> GatewayRedaction" where
  "redaction_of path sp =
     \<lparr>red_Path = path, red_Type = Type sp, red_Start = Start sp, red_End = End sp,
      red_Detector = Detector sp, red_Confidence = Confidence sp\<rparr>"

text \<open>The loop over the fields: the document as rewritten so far, redactions, detector errors, and whether it changed.\<close>

fun scan_fields ::
    "(string \<Rightarrow> (Span list \<times> string list) option) \<Rightarrow> bool \<Rightarrow> textField list \<Rightarrow> json \<Rightarrow>
     (json \<times> GatewayRedaction list \<times> string list \<times> bool) option" where
  "scan_fields run masking [] doc = Some (doc, [], [], False)"
| "scan_fields run masking (f # fs) doc =
     do {
       (spans, errs) \<leftarrow> run (fld_text f);
       let rewrite = (spans \<noteq> [] \<and> masking);
       let doc' = (if rewrite then jput doc (fld_at f) (JStr (Mask (fld_text f) spans)) else doc);
       (doc'', reds, es, mut) \<leftarrow> scan_fields run masking fs doc';
       Some (doc'', map (redaction_of (fld_path f)) spans @ reds, errs @ es, rewrite \<or> mut)
     }"

definition ms_since :: "time \<Rightarrow> time \<Rightarrow> int" where
  "ms_since a b = (b - a) div 1000000"

text \<open>The exits before forwarding, and what goes on.\<close>

datatype verdict =
    Refuse Report nat string string string
  | Pass Report string

definition peekModel :: "http_world \<Rightarrow> string \<Rightarrow> string" where
  "peekModel hw body = (case hw_peekModel hw body of None \<Rightarrow> [] | Some m \<Rightarrow> m)"

definition filter_body ::
    "http_world \<Rightarrow> (nat \<Rightarrow> time) \<Rightarrow> (string \<Rightarrow> (Span list \<times> string list) option) \<Rightarrow> Config \<Rightarrow>
     dialect \<Rightarrow> string \<Rightarrow> Report \<Rightarrow> string \<Rightarrow> verdict option" where
  "filter_body hw clk run cfg d action aud body =
     (if action = actionPass then Some (Pass (aud\<lparr>rr_Model := peekModel hw body\<rparr>) body)
      else case decode_doc hw body of
        None \<Rightarrow> Some (Refuse aud 400 ''invalid_json'' ''invalid_request_error'' ''body is not valid JSON'')
      | Some doc \<Rightarrow>
          (let aud = (case map_of doc ''model'' of Some (JStr m) \<Rightarrow> aud\<lparr>rr_Model := m\<rparr> | _ \<Rightarrow> aud) in
           do {
             (doc', reds, errs, mutated) \<leftarrow> scan_fields run (action = ActionMask) (d_walk d doc) (JObj doc);
             let aud = aud\<lparr>rr_Redactions := reds, rr_DetectorErrors := errs, rr_FailModeTripped := (errs \<noteq> []),
                           rr_AddedLatencyMS := ms_since (clk 2) (clk 3)\<rparr>;
             Some
              (if errs \<noteq> [] \<and> FailMode cfg = ''closed'' then
                 Refuse (aud\<lparr>rr_Action := ActionBlock\<rparr>) 503 [] ''api_error''
                   ''detector unavailable and GATEWAY_FAIL_MODE=closed''
               else if reds = [] then Pass aud body
               else if action = ActionBlock then
                 Refuse (aud\<lparr>rr_Action := ActionBlock\<rparr>) 400 [] ''invalid_request_error''
                   (''request blocked by gateway policy: detected '' @ typeSummary reds)
               else if action = ActionMask then
                 (let aud = aud\<lparr>rr_Action := ActionMask\<rparr> in
                  if \<not> mutated then Pass aud body
                  else case hw_marshal hw doc' of
                         None \<Rightarrow> Refuse aud 500 ''rewrite_failed'' ''api_error'' ''rewrite failed''
                       | Some rewritten \<Rightarrow> Pass aud rewritten)
               else if action = ActionDetect then Pass (aud\<lparr>rr_Action := ActionDetect\<rparr>) body
               else Pass aud body)
           }))"

text \<open>An exit where the gateway writes the response itself.\<close>

definition answer ::
    "(nat \<Rightarrow> time) \<Rightarrow> dialect \<Rightarrow> upstream_request option \<Rightarrow> Report \<Rightarrow> nat \<Rightarrow> string \<Rightarrow> string \<Rightarrow> string \<Rightarrow> handled" where
  "answer clk d sent aud status code errType msg =
     \<lparr>h_report = aud\<lparr>rr_GatewayStatus := status, rr_Error := code, rr_LatencyMS := ms_since (clk 0) (clk 4)\<rparr>,
      h_tokens = zero_tally, h_response = Refused status (d_writeErr d errType msg), h_sent = sent\<rparr>"

definition relay_headers :: "headers \<Rightarrow> headers \<Rightarrow> headers" where
  "relay_headers own resp =
     fold (\<lambda>(k, vs) h. if CanonicalHeaderKey k \<in> set hopByHop then h else fold (hdr_add k) vs h) resp own"

definition relay_response ::
    "(nat \<Rightarrow> time) \<Rightarrow> writer \<Rightarrow> dialect \<Rightarrow> headers \<Rightarrow> upstream_request \<Rightarrow> upstream_response \<Rightarrow> Report \<Rightarrow> handled" where
  "relay_response clk wr d own sent resp aud =
     (let stream = has_prefix (hdr_get (us_headers resp) ''Content-Type'') ''text/event-stream'';
          out = (if stream then copyStreamWith wr (d_scan d) (us_body resp)
                 else relayWithUsage wr (d_jsonUsage d) (us_body resp))
      in \<lparr>h_report = aud\<lparr>rr_UpstreamStatus := us_status resp, rr_Stream := stream,
                         rr_LatencyMS := ms_since (clk 0) (clk 4)\<rparr>,
          h_tokens = usage out,
          h_response = Relayed (us_status resp) (relay_headers own (us_headers resp)) (written out) (relay_error out),
          h_sent = Some sent\<rparr>)"

definition forward ::
    "http_world \<Rightarrow> (nat \<Rightarrow> time) \<Rightarrow> writer \<Rightarrow> dialect \<Rightarrow> Upstream \<Rightarrow> request \<Rightarrow> Report \<Rightarrow> string \<Rightarrow> handled" where
  "forward hw clk wr d up r aud outBody =
     (case Resolve (hw_getenv hw) (CredentialRef up) of
        Inl _ \<Rightarrow> answer clk d None aud 502 ''credential_unavailable'' ''api_error'' ''upstream credential unavailable''
      | Inr cred \<Rightarrow>
          (case upstreamTarget hw (BaseURL up) (d_path d) of
             None \<Rightarrow> answer clk d None aud 502 ''upstream_url_unusable'' ''api_error'' ''upstream base URL unusable''
           | Some target \<Rightarrow>
               if \<not> hw_newRequestOK hw target
               then answer clk d None aud 502 ''request_build_failed'' ''api_error'' ''building upstream request failed''
               else let req = \<lparr>ur_target = target,
                               ur_headers = setUpstreamCredential up (d_defaultAuth d) cred
                                 (copyHeaders [] (rq_headers r)),
                               ur_body = outBody\<rparr>
                 in case hw_send hw req of
                      None \<Rightarrow> answer clk d (Some req) aud 502 ''upstream_unreachable'' ''api_error'' ''upstream unreachable''
                    | Some resp \<Rightarrow>
                        relay_response clk wr d
                          [(''X-Gateway-Request-Id'', [hdr_get (rq_headers r) ''X-Gateway-Request-Id''])] req resp aud))"

definition base_report :: "(nat \<Rightarrow> time) \<Rightarrow> dialect \<Rightarrow> principal \<Rightarrow> string \<Rightarrow> request \<Rightarrow> Report" where
  "base_report clk d p baseline r =
     \<lparr>rr_RequestID = hdr_get (rq_headers r) ''X-Gateway-Request-Id'', rr_Route = d_route d,
      rr_Action = actionPass, rr_Model = [], rr_AppID = p_AppID p, rr_KeyID = p_KeyID p,
      rr_Subject = p_Subject p, rr_Baseline = baseline, rr_Redactions = [], rr_DetectorErrors = [],
      rr_FailModeTripped = False, rr_Stream = False, rr_UpstreamStatus = 0, rr_GatewayStatus = 0,
      rr_Error = [], rr_TokensIn = 0, rr_TokensOut = 0, rr_LatencyMS = 0, rr_AddedLatencyMS = 0, rr_At = clk 1\<rparr>"

definition proxyRequest ::
    "world \<Rightarrow> http_world \<Rightarrow> (nat \<Rightarrow> time) \<Rightarrow> writer \<Rightarrow> gateway \<Rightarrow> dialect \<Rightarrow> principal \<Rightarrow> request \<Rightarrow> handled option" where
  "proxyRequest w hw clk wr gw d p r =
     (case actionFor gw p of
        (action, baseline) \<Rightarrow>
          (let aud = base_report clk d p baseline r in
           case map_of (Upstreams (gw_cfg gw)) (d_route d) of
             None \<Rightarrow> Some (answer clk d None aud 502 ''no_upstream'' ''api_error''
                       (''no upstream configured for route '' @ d_route d))
           | Some up \<Rightarrow>
               (case read_body (gw_cfg gw) r of
                  None \<Rightarrow> Some (answer clk d None aud 413 ''body_unreadable'' ''invalid_request_error''
                            ''body too large or unreadable'')
                | Some body \<Rightarrow>
                    do {
                      v \<leftarrow> filter_body hw clk (Chain_Run (ulow w) (gw_chain w gw)) (gw_cfg gw) d action aud body;
                      Some (case v of
                              Refuse aud status code errType msg \<Rightarrow> answer clk d None aud status code errType msg
                            | Pass aud outBody \<Rightarrow> forward hw clk wr d up r aud outBody)
                    })))"

section \<open>The routes\<close>

definition validRequestID :: "string \<Rightarrow> bool" where
  "validRequestID i \<longleftrightarrow>
     \<not> (i = [] \<or> length i > 128) \<and> list_all (\<lambda>c. \<not> (byte c < 0x21 \<or> byte c > 0x7e)) i"

definition newRequestID :: "string \<Rightarrow> string" where
  "newRequestID rand = ''gw-'' @ hex_encode rand"

definition requestID :: "string \<Rightarrow> request \<Rightarrow> request" where
  "requestID rand r =
     (if validRequestID (hdr_get (rq_headers r) ''X-Gateway-Request-Id'') then r
      else r\<lparr>rq_headers := hdr_set (rq_headers r) ''X-Gateway-Request-Id'' (newRequestID rand)\<rparr>)"

definition presented_key :: "request \<Rightarrow> string" where
  "presented_key r =
     (let key = hdr_get (rq_headers r) ''x-api-key''
      in if key = [] then trim_prefix (hdr_get (rq_headers r) ''Authorization'') ''Bearer '' else key)"

text \<open>The sinks a request writes to.\<close>

record sinks =
  audits :: "Report list"
  route_windows :: route_metrics

definition serve ::
    "world \<Rightarrow> http_world \<Rightarrow> (nat \<Rightarrow> time) \<Rightarrow> writer \<Rightarrow> string \<Rightarrow> gateway \<Rightarrow> dialect \<Rightarrow> request \<Rightarrow> sinks \<Rightarrow>
     response \<times> upstream_request option \<times> sinks" where
  "serve w hw clk wr rand gw d r0 sk =
     (let r = requestID rand r0 in
      case authenticate w (clk 0) gw (presented_key r) (d_route d) of
        None \<Rightarrow>
          (Refused 401 (d_writeErr d ''authentication_error'' ''invalid gateway key''), None,
           sk\<lparr>route_windows := rm_authFailure (d_route d) (route_windows sk)\<rparr>)
      | Some p \<Rightarrow>
          (case proxyRequest w hw clk wr gw d p r of
             None \<Rightarrow> (Refused 500 (''{\"error\":\"internal\"}'' @ [NL]), None, sk)
           | Some h \<Rightarrow>
               (case record_report (h_report h) (tokensIn (h_tokens h)) (tokensOut (h_tokens h))
                       (audits sk) (route_windows sk) of
                  (ring, rm) \<Rightarrow> (h_response h, h_sent h, sk\<lparr>audits := ring, route_windows := rm\<rparr>))))"

section \<open>The scan in closed form\<close>

definition run_spans :: "(string \<Rightarrow> (Span list \<times> string list) option) \<Rightarrow> string \<Rightarrow> Span list" where
  "run_spans run t = (case run t of None \<Rightarrow> [] | Some (spans, _) \<Rightarrow> spans)"

definition run_errs :: "(string \<Rightarrow> (Span list \<times> string list) option) \<Rightarrow> string \<Rightarrow> string list" where
  "run_errs run t = (case run t of None \<Rightarrow> [] | Some (_, errs) \<Rightarrow> errs)"

definition all_redactions ::
    "(string \<Rightarrow> (Span list \<times> string list) option) \<Rightarrow> textField list \<Rightarrow> GatewayRedaction list" where
  "all_redactions run fs = concat (map (\<lambda>f. map (redaction_of (fld_path f)) (run_spans run (fld_text f))) fs)"

definition all_errors :: "(string \<Rightarrow> (Span list \<times> string list) option) \<Rightarrow> textField list \<Rightarrow> string list" where
  "all_errors run fs = concat (map (\<lambda>f. run_errs run (fld_text f)) fs)"

definition mask_doc ::
    "(string \<Rightarrow> (Span list \<times> string list) option) \<Rightarrow> ((string \<times> json) list \<Rightarrow> textField list) \<Rightarrow>
     (string \<times> json) list \<Rightarrow> json" where
  "mask_doc run walk doc =
     jmap (\<lambda>p s. if p \<in> fld_at ` set (walk doc) then Mask s (run_spans run s) else s) (JObj doc)"

lemma all_redactions_Nil: "all_redactions run fs = [] \<longleftrightarrow> (\<forall>f \<in> set fs. run_spans run (fld_text f) = [])"
  by (simp add: all_redactions_def)

lemma scan_fields_closed:
  assumes "\<And>t. run t \<noteq> None"
  shows "scan_fields run masking fs doc =
    Some (if masking
          then foldl (\<lambda>d f. jput d (fld_at f) (JStr (Mask (fld_text f) (run_spans run (fld_text f))))) doc
                 (filter (\<lambda>f. run_spans run (fld_text f) \<noteq> []) fs)
          else doc,
          all_redactions run fs, all_errors run fs, masking \<and> all_redactions run fs \<noteq> [])"
proof (induction fs arbitrary: doc)
  case Nil
  then show ?case by (simp add: all_redactions_def all_errors_def)
next
  case (Cons f fs)
  obtain spans errs where "run (fld_text f) = Some (spans, errs)" using assms by fastforce
  with Cons show ?case
    by (auto simp: Let_def run_spans_def run_errs_def all_redactions_def all_errors_def)
qed

lemma Mask_Nil [simp]: "Mask t [] = t"
  by (simp add: Mask_def)

lemma scan_walk:
  assumes "\<And>t. run t \<noteq> None" and "body_walker walk" and "wf_json (JObj doc)"
  shows "scan_fields run masking (walk doc) (JObj doc) =
    Some (if masking then mask_doc run walk doc else JObj doc, all_redactions run (walk doc),
          all_errors run (walk doc), masking \<and> all_redactions run (walk doc) \<noteq> [])"
  using body_walker.rewrite_all [OF assms(2,3), where P = "\<lambda>f. run_spans run (fld_text f) \<noteq> []"
      and g = "\<lambda>t. Mask t (run_spans run t)"]
  by (simp add: scan_fields_closed [OF assms(1)] mask_doc_def)

section \<open>What the pipeline relies on\<close>

definition dialect_of :: "http_world \<Rightarrow> dialect \<Rightarrow> bool" where
  "dialect_of hw d \<longleftrightarrow> d = anthropicDialect hw \<or> d = openAIDialect hw"

definition decoder_ok :: "http_world \<Rightarrow> bool" where
  "decoder_ok hw \<longleftrightarrow> (\<forall>body v. hw_unmarshal hw body = Some v \<longrightarrow> wf_json v)"

lemma dialect_walker: "dialect_of hw d \<Longrightarrow> body_walker (d_walk d)"
  using anthropic.body_walker_axioms openai.body_walker_axioms
  by (auto simp: dialect_of_def anthropicDialect_def openAIDialect_def)

lemma decode_doc_wf: "decoder_ok hw \<Longrightarrow> decode_doc hw body = Some doc \<Longrightarrow> wf_json (JObj doc)"
  by (fastforce simp: decoder_ok_def decode_doc_def split: option.splits json.splits)

lemma chain_total: "chain_ok c \<Longrightarrow> Chain_Run u c t \<noteq> None"
  by (simp add: Chain_Run_closed)

lemma filter_body_total:
  assumes "chain_ok (gw_chain w gw)"
  shows "\<exists>v. filter_body hw clk (Chain_Run (ulow w) (gw_chain w gw)) cfg d action aud body = Some v"
  using scan_fields_closed [where run = "Chain_Run (ulow w) (gw_chain w gw)", OF chain_total [OF assms]]
  by (auto simp: filter_body_def Let_def split: option.splits)

lemma proxyRequest_total:
  assumes "chain_ok (gw_chain w gw)"
  shows "\<exists>h. proxyRequest w hw clk wr gw d p r = Some h"
  using filter_body_total [OF assms]
  by (auto simp: proxyRequest_def Let_def split: prod.splits option.splits) (metis bind.bind_lunit option.distinct(1))

section \<open>What goes upstream\<close>

lemma action_distinct [simp]:
  "ActionMask \<noteq> ActionBlock" "ActionBlock \<noteq> ActionMask" "ActionDetect \<noteq> ActionMask" "ActionDetect \<noteq> ActionBlock"
  "ActionMask \<noteq> ActionDetect" "ActionBlock \<noteq> ActionDetect" "actionPass \<noteq> ActionMask"
  "actionPass \<noteq> ActionBlock" "actionPass \<noteq> ActionDetect" "ActionMask \<noteq> actionPass"
  "ActionBlock \<noteq> actionPass" "ActionDetect \<noteq> actionPass"
  by (simp_all add: action_defs)

lemma filter_body_Pass:
  assumes pass: "filter_body hw clk run cfg d action aud body = Some (Pass aud' out)"
    and run: "\<And>t. run t \<noteq> None" and d: "dialect_of hw d" and dec: "decoder_ok hw"
    and act: "action \<noteq> actionPass"
  shows "\<exists>doc. decode_doc hw body = Some doc \<and>
    (all_errors run (d_walk d doc) = [] \<or> FailMode cfg \<noteq> ''closed'') \<and>
    (action = ActionBlock \<longrightarrow> all_redactions run (d_walk d doc) = []) \<and>
    (action \<noteq> ActionMask \<or> all_redactions run (d_walk d doc) = [] \<longrightarrow> out = body) \<and>
    (action = ActionMask \<and> all_redactions run (d_walk d doc) \<noteq> [] \<longrightarrow>
       hw_marshal hw (mask_doc run (d_walk d) doc) = Some out) \<and>
    rr_Redactions aud' = all_redactions run (d_walk d doc) \<and>
    rr_UpstreamStatus aud' = rr_UpstreamStatus aud \<and> rr_GatewayStatus aud' = rr_GatewayStatus aud \<and>
    rr_Error aud' = rr_Error aud"
proof -
  obtain doc where doc: "decode_doc hw body = Some doc"
    using pass act by (auto simp: filter_body_def split: option.splits)
  note scan = scan_walk [OF run dialect_walker [OF d] decode_doc_wf [OF dec doc]]
  show ?thesis
    using pass act doc
    by (auto simp: filter_body_def Let_def scan split: option.splits if_splits json.splits)
qed

lemma filter_body_Refuse:
  assumes "filter_body hw clk run cfg d action aud body = Some (Refuse aud' status code errType msg)"
  shows "rr_UpstreamStatus aud' = rr_UpstreamStatus aud \<and> status \<in> {400, 500, 503}"
  using assms
  by (auto simp: filter_body_def Let_def split: option.splits if_splits json.splits Option.bind_splits prod.splits)

lemma filter_body_statuses:
  assumes "filter_body hw clk run cfg d action aud body = Some (Pass aud' out)"
  shows "rr_UpstreamStatus aud' = rr_UpstreamStatus aud \<and> rr_GatewayStatus aud' = rr_GatewayStatus aud"
  using assms
  by (auto simp: filter_body_def Let_def split: option.splits if_splits json.splits Option.bind_splits prod.splits)

lemma answer_simps [simp]:
  "h_sent (answer clk d sent aud status code errType msg) = sent"
  "rr_GatewayStatus (h_report (answer clk d sent aud status code errType msg)) = status"
  "rr_UpstreamStatus (h_report (answer clk d sent aud status code errType msg)) = rr_UpstreamStatus aud"
  "h_response (answer clk d sent aud status code errType msg) = Refused status (d_writeErr d errType msg)"
  by (simp_all add: answer_def)

lemma relay_response_simps [simp]:
  "h_sent (relay_response clk wr d own req resp aud) = Some req"
  "rr_UpstreamStatus (h_report (relay_response clk wr d own req resp aud)) = us_status resp"
  "rr_GatewayStatus (h_report (relay_response clk wr d own req resp aud)) = rr_GatewayStatus aud"
  by (simp_all add: relay_response_def Let_def)

lemma forward_sent:
  assumes "h_sent (forward hw clk wr d up r aud out) = Some req"
  shows "ur_body req = out" and "\<exists>cred. Resolve (hw_getenv hw) (CredentialRef up) = Inr cred \<and>
    ur_headers req = setUpstreamCredential up (d_defaultAuth d) cred (copyHeaders [] (rq_headers r))"
  using assms by (auto simp: forward_def Let_def split: sum.splits option.splits if_splits)

text \<open>Exactly one of the two statuses is set, provided an upstream answers with a status.\<close>

definition one_status :: "Report \<Rightarrow> bool" where
  "one_status r \<longleftrightarrow> (rr_UpstreamStatus r \<noteq> 0) \<noteq> (rr_GatewayStatus r \<noteq> 0)"

definition upstream_answers :: "http_world \<Rightarrow> bool" where
  "upstream_answers hw \<longleftrightarrow> (\<forall>req resp. hw_send hw req = Some resp \<longrightarrow> us_status resp \<noteq> 0)"

lemma forward_one_status:
  assumes "upstream_answers hw" and "rr_UpstreamStatus aud = 0" and "rr_GatewayStatus aud = 0"
  shows "one_status (h_report (forward hw clk wr d up r aud out))"
  using assms
  by (auto simp: forward_def one_status_def upstream_answers_def Let_def split: sum.splits option.splits)

lemma proxyRequest_one_status:
  assumes "upstream_answers hw" and "proxyRequest w hw clk wr gw d p r = Some h"
  shows "one_status (h_report h)"
proof -
  obtain action baseline where a: "actionFor gw p = (action, baseline)" by (cases "actionFor gw p")
  let ?aud = "base_report clk d p baseline r"
  have z: "rr_UpstreamStatus ?aud = 0" "rr_GatewayStatus ?aud = 0" by (simp_all add: base_report_def)
  show ?thesis
  proof (cases "map_of (Upstreams (gw_cfg gw)) (d_route d)")
    case None
    with assms(2) a z show ?thesis by (auto simp: proxyRequest_def one_status_def)
  next
    case (Some up)
    show ?thesis
    proof (cases "read_body (gw_cfg gw) r")
      case None
      with assms(2) a z Some show ?thesis by (auto simp: proxyRequest_def one_status_def)
    next
      case body: (Some body)
      then obtain v where v: "filter_body hw clk (Chain_Run (ulow w) (gw_chain w gw)) (gw_cfg gw) d action ?aud body = Some v"
        and h: "h = (case v of Refuse aud status code errType msg \<Rightarrow> answer clk d None aud status code errType msg
                       | Pass aud outBody \<Rightarrow> forward hw clk wr d up r aud outBody)"
        using assms(2) a Some by (auto simp: proxyRequest_def Let_def split: Option.bind_splits)
      show ?thesis
      proof (cases v)
        case (Refuse aud status code errType msg)
        with filter_body_Refuse [OF v [unfolded Refuse]] h z show ?thesis by (auto simp: one_status_def)
      next
        case (Pass aud out)
        with filter_body_statuses [OF v [unfolded Pass]] h z show ?thesis
          by (simp add: forward_one_status [OF assms(1)])
      qed
    qed
  qed
qed

text \<open>
  The body that reaches the vendor, in one predicate: never under a tripped fail-closed mode,
  never with a finding under block, rewritten at every scanned position under mask, and byte for
  byte the caller's otherwise.
\<close>

definition sent_ok ::
    "http_world \<Rightarrow> (string \<Rightarrow> (Span list \<times> string list) option) \<Rightarrow> Config \<Rightarrow> dialect \<Rightarrow> string \<Rightarrow> string \<Rightarrow> string \<Rightarrow> bool" where
  "sent_ok hw run cfg d action body sent \<longleftrightarrow>
     (\<exists>doc. decode_doc hw body = Some doc \<and>
        (all_errors run (d_walk d doc) = [] \<or> FailMode cfg \<noteq> ''closed'') \<and>
        (action = ActionBlock \<longrightarrow> all_redactions run (d_walk d doc) = []) \<and>
        (if action = ActionMask \<and> all_redactions run (d_walk d doc) \<noteq> []
         then hw_marshal hw (mask_doc run (d_walk d) doc) = Some sent
         else sent = body))"

lemma proxyRequest_sent:
  assumes chain: "chain_ok (gw_chain w gw)" and d: "dialect_of hw d" and dec: "decoder_ok hw"
    and act: "fst (actionFor gw p) \<noteq> actionPass"
    and run: "proxyRequest w hw clk wr gw d p r = Some h" and sent: "h_sent h = Some req"
  shows "sent_ok hw (Chain_Run (ulow w) (gw_chain w gw)) (gw_cfg gw) d (fst (actionFor gw p)) (rq_body r) (ur_body req)"
    and "\<exists>up cred. map_of (Upstreams (gw_cfg gw)) (d_route d) = Some up \<and>
      Resolve (hw_getenv hw) (CredentialRef up) = Inr cred \<and>
      ur_headers req = setUpstreamCredential up (d_defaultAuth d) cred (copyHeaders [] (rq_headers r))"
proof -
  obtain action baseline where a: "actionFor gw p = (action, baseline)" by (cases "actionFor gw p")
  let ?aud = "base_report clk d p baseline r" and ?run = "Chain_Run (ulow w) (gw_chain w gw)"
  obtain up body v where up: "map_of (Upstreams (gw_cfg gw)) (d_route d) = Some up"
    and body: "read_body (gw_cfg gw) r = Some body"
    and v: "filter_body hw clk ?run (gw_cfg gw) d action ?aud body = Some v"
    and h: "h = (case v of Refuse aud status code errType msg \<Rightarrow> answer clk d None aud status code errType msg
                   | Pass aud outBody \<Rightarrow> forward hw clk wr d up r aud outBody)"
    using run sent a by (auto simp: proxyRequest_def Let_def split: option.splits Option.bind_splits)
  then obtain aud out where pass: "v = Pass aud out" using sent by (cases v) auto
  with h sent have fwd: "h_sent (forward hw clk wr d up r aud out) = Some req" by simp
  have "body = rq_body r" using body by (simp add: read_body_def split: if_splits)
  with filter_body_Pass [OF v [unfolded pass] chain_total [OF chain] d dec] act a forward_sent(1) [OF fwd]
  show "sent_ok hw ?run (gw_cfg gw) d (fst (actionFor gw p)) (rq_body r) (ur_body req)"
    by (auto simp: sent_ok_def)
  show "\<exists>up cred. map_of (Upstreams (gw_cfg gw)) (d_route d) = Some up \<and>
      Resolve (hw_getenv hw) (CredentialRef up) = Inr cred \<and>
      ur_headers req = setUpstreamCredential up (d_defaultAuth d) cred (copyHeaders [] (rq_headers r))"
    using up forward_sent(2) [OF fwd] by blast
qed

section \<open>The caller's credentials stay behind\<close>

lemma hdr_add_other: "CanonicalHeaderKey k \<noteq> ck \<Longrightarrow> map_of (hdr_add k v h) ck = map_of h ck"
  by (simp add: hdr_add_def Let_def update_conv')

lemma fold_hdr_add_other: "CanonicalHeaderKey k \<noteq> ck \<Longrightarrow> map_of (fold (hdr_add k) vs h) ck = map_of h ck"
  by (induction vs arbitrary: h) (simp_all add: hdr_add_other)

lemma copyHeaders_dropped:
  "ck \<in> set hopByHop \<union> set clientAuthHeaders \<union> {''Host''} \<Longrightarrow> map_of (copyHeaders dst src) ck = map_of dst ck"
proof (induction src arbitrary: dst)
  case Nil
  then show ?case by (simp add: copyHeaders_def)
next
  case (Cons kvs src)
  obtain k vs where kvs: "kvs = (k, vs)" by (cases kvs)
  have "forwarded k \<Longrightarrow> CanonicalHeaderKey k \<noteq> ck" using Cons.prems by (auto simp: forwarded_def Let_def)
  then have "map_of (if forwarded k then fold (hdr_add k) vs dst else dst) ck = map_of dst ck"
    by (simp add: fold_hdr_add_other)
  with Cons show ?case by (simp add: copyHeaders_def kvs)
qed

lemma canonical_auth:
  "CanonicalHeaderKey ''Authorization'' = ''Authorization''" "CanonicalHeaderKey ''x-api-key'' = ''X-Api-Key''"
  by code_simp+

lemma sent_credentials:
  assumes "hs = setUpstreamCredential up defaultAuth cred (copyHeaders [] src)"
  shows "map_of hs ''Authorization'' =
      (if (if Auth up = [] then defaultAuth else Auth up) = AuthBearer then Some [''Bearer '' @ cred] else None)"
    and "map_of hs ''X-Api-Key'' =
      (if (if Auth up = [] then defaultAuth else Auth up) = AuthBearer then None else Some [cred])"
    and "ck \<in> set hopByHop \<Longrightarrow> map_of hs ck = None"
  using copyHeaders_dropped [of _ "[]" src]
  by (auto simp: assms setUpstreamCredential_def hdr_set_def update_conv' canonical_auth clientAuthHeaders_def
      hopByHop_def Let_def)

section \<open>Request ids\<close>

lemma newRequestID_valid: "length rand = 8 \<Longrightarrow> validRequestID (newRequestID rand)"
proof -
  assume len: "length rand = 8"
  have "\<not> (byte c < 0x21 \<or> byte c > 0x7e)" if "c \<in> set (hex_encode rand)" for c
    using hex_encode_hex [OF that] by (auto simp: is_hex_digit_def is_digit_def)
  with len show ?thesis by (auto simp: validRequestID_def newRequestID_def list_all_iff)
qed

lemma requestID_valid:
  "length rand = 8 \<Longrightarrow> validRequestID (hdr_get (rq_headers (requestID rand r)) ''X-Gateway-Request-Id'')"
  by (auto simp: requestID_def hdr_get_def hdr_set_def update_conv' newRequestID_valid)

end
