(* ===== verification/Gateway_Run.thy ===== *)
theory Gateway_Run
  imports Proxy
begin

text \<open>
  The gateways a process can be: one booted from a loaded configuration, then any number of pulls
  with whatever the control plane answered. The invariant below is what the request path relies on.
\<close>

section \<open>Reachable gateways\<close>

inductive gw_reach :: "world \<Rightarrow> parsers \<Rightarrow> (string \<Rightarrow> string) \<Rightarrow> gateway \<Rightarrow> bool" for w ps getenv where
  boot: "Load ps getenv = Inr cfg \<Longrightarrow> New getenv cfg = Inr gw \<Longrightarrow> gw_reach w ps getenv gw"
| pull: "gw_reach w ps getenv gw \<Longrightarrow> gw_reach w ps getenv (snd (pullOnce w policy bls pack snap gw))"

definition gw_ok :: "parsers \<Rightarrow> gateway \<Rightarrow> bool" where
  "gw_ok ps gw \<longleftrightarrow>
     config_ok ps (gw_cfg gw) \<and> dets_ok (dets gw) \<and> clientKeys gw \<noteq> [] \<and>
     (\<forall>v. policyAction gw = Some v \<longrightarrow> v \<in> {ActionMask, ActionBlock, ActionDetect})"

lemma New_fields:
  assumes "New getenv cfg = Inr gw"
  shows "gw_cfg gw = cfg" and "clientKeys gw \<noteq> []" and "policyAction gw = None"
    and "\<forall>k \<in> set (clientKeys gw). k \<noteq> []"
  using assms by (auto simp: New_def Let_def nonblank_fields_def split: sum.splits if_splits)

lemma pullPatterns_simps [simp]:
  "gw_cfg (snd (pullPatterns w pack gw)) = gw_cfg gw"
  "clientKeys (snd (pullPatterns w pack gw)) = clientKeys gw"
  "policyAction (snd (pullPatterns w pack gw)) = policyAction gw"
  by (simp_all add: pullPatterns_def Let_def split: sum.splits option.splits prod.splits)

lemma pullKeys_simps [simp]:
  "gw_cfg (snd (pullKeys snap gw)) = gw_cfg gw"
  "clientKeys (snd (pullKeys snap gw)) = clientKeys gw"
  "policyAction (snd (pullKeys snap gw)) = policyAction gw"
  by (simp_all add: pullKeys_def split: sum.splits)

lemma pullPolicy_simps [simp]:
  "gw_cfg (snd (pullPolicy policy bls gw)) = gw_cfg gw"
  "clientKeys (snd (pullPolicy policy bls gw)) = clientKeys gw"
  by (simp_all add: pullPolicy_def Let_def split: sum.splits option.splits prod.splits)

lemma pullOnce_simps:
  "gw_cfg (snd (pullOnce w policy bls pack snap gw)) = gw_cfg gw"
  "clientKeys (snd (pullOnce w policy bls pack snap gw)) = clientKeys gw"
  "policyAction (snd (pullOnce w policy bls pack snap gw)) = policyAction (snd (pullPolicy policy bls gw))"
  by (simp_all add: pullOnce_def Let_def case_prod_unfold)

lemma gw_ok_pull:
  assumes "compile_ok (compile w)" and "gw_ok ps gw"
  shows "gw_ok ps (snd (pullOnce w policy bls pack snap gw))"
  using assms pullOnce_dets_ok [OF assms(1)] pullPolicy_action [of gw policy bls]
  by (simp add: gw_ok_def pullOnce_simps)

lemma gw_reach_ok:
  assumes "compile_ok (compile w)"
  shows "gw_reach w ps getenv gw \<Longrightarrow> gw_ok ps gw"
proof (induction rule: gw_reach.induct)
  case (boot cfg gw)
  then show ?case
    using Load_config_ok [OF boot(1)] New_fields [OF boot(2)] New_dets_ok [OF boot(2)] by (simp add: gw_ok_def)
next
  case (pull gw policy bls pack snap)
  then show ?case using gw_ok_pull [OF assms] by blast
qed

text \<open>Under the invariant the chain is total and the pass action is unreachable.\<close>

lemma gw_ok_chain: "gw_ok ps gw \<Longrightarrow> chain_ok (gw_chain w gw)"
  by (simp add: gw_ok_def gw_chain_ok)

lemma gw_ok_action: "gw_ok ps gw \<Longrightarrow> fst (actionFor gw p) \<in> {ActionMask, ActionBlock, ActionDetect}"
  by (rule actionFor_range) (simp_all add: gw_ok_def config_ok_def)

lemma gw_ok_not_pass: "gw_ok ps gw \<Longrightarrow> fst (actionFor gw p) \<noteq> actionPass"
  using gw_ok_action [of ps gw p] by (auto simp: action_defs)

section \<open>One request\<close>

lemma requestID_body [simp]: "rq_body (requestID rand r) = rq_body r" "rq_readError (requestID rand r) = rq_readError r"
  by (simp_all add: requestID_def)

text \<open>An answered request either was not authenticated, or went through the pipeline and was recorded once.\<close>

lemma serve_cases [consumes 2, case_names unauthenticated handled]:
  assumes "chain_ok (gw_chain w gw)" and "serve w hw clk wr rand gw d r sk = (resp, sent, sk')"
  obtains
      "authenticate w (clk 0) gw (presented_key (requestID rand r)) (d_route d) = None"
      "resp = Refused 401 (d_writeErr d ''authentication_error'' ''invalid gateway key'')" "sent = None"
      "sk' = sk\<lparr>route_windows := rm_authFailure (d_route d) (route_windows sk)\<rparr>"
  | p h where
      "authenticate w (clk 0) gw (presented_key (requestID rand r)) (d_route d) = Some p"
      "proxyRequest w hw clk wr gw d p (requestID rand r) = Some h"
      "resp = h_response h" "sent = h_sent h"
      "audits sk' = ring_add ((Clamp (h_report h))\<lparr>rr_TokensIn := tokensIn (h_tokens h),
         rr_TokensOut := tokensOut (h_tokens h)\<rparr>) (audits sk)"
proof (cases "authenticate w (clk 0) gw (presented_key (requestID rand r)) (d_route d)")
  case None
  with assms(2) that(1) show ?thesis by (auto simp: serve_def Let_def)
next
  case (Some p)
  obtain h where h: "proxyRequest w hw clk wr gw d p (requestID rand r) = Some h"
    using proxyRequest_total [OF assms(1)] by blast
  with Some assms(2) that(2) [OF Some h] show ?thesis
    by (auto simp: serve_def record_report_def Let_def)
qed

section \<open>Who a report is about\<close>

text \<open>The attribution fields of a report, which no step of the pipeline changes.\<close>

definition attribution :: "Report \<Rightarrow> string \<times> string \<times> string \<times> string \<times> string \<times> string" where
  "attribution r = (rr_RequestID r, rr_Route r, rr_AppID r, rr_KeyID r, rr_Subject r, rr_Baseline r)"

lemma attribution_simps [simp]:
  "attribution (aud\<lparr>rr_Model := m\<rparr>) = attribution aud"
  "attribution (aud\<lparr>rr_Action := a\<rparr>) = attribution aud"
  "attribution (aud\<lparr>rr_Redactions := rs\<rparr>) = attribution aud"
  "attribution (aud\<lparr>rr_DetectorErrors := es\<rparr>) = attribution aud"
  "attribution (aud\<lparr>rr_FailModeTripped := b\<rparr>) = attribution aud"
  "attribution (aud\<lparr>rr_Stream := b\<rparr>) = attribution aud"
  "attribution (aud\<lparr>rr_UpstreamStatus := n\<rparr>) = attribution aud"
  "attribution (aud\<lparr>rr_GatewayStatus := n\<rparr>) = attribution aud"
  "attribution (aud\<lparr>rr_Error := e\<rparr>) = attribution aud"
  "attribution (aud\<lparr>rr_LatencyMS := ms\<rparr>) = attribution aud"
  "attribution (aud\<lparr>rr_AddedLatencyMS := ms\<rparr>) = attribution aud"
  by (simp_all add: attribution_def)

lemma attribution_answer [simp]: "attribution (h_report (answer clk d sent aud status code ty msg)) = attribution aud"
  by (simp add: answer_def)

lemma attribution_forward [simp]: "attribution (h_report (forward hw clk wr d up r aud out)) = attribution aud"
  by (simp add: forward_def Let_def relay_response_def split: sum.split option.split)

lemma attribution_model [simp]:
  "attribution (case mv of Some (JStr m) \<Rightarrow> aud\<lparr>rr_Model := m\<rparr> | _ \<Rightarrow> aud) = attribution aud"
  by (simp split: option.split json.split)

lemma attribution_filter:
  assumes "filter_body hw clk run cfg d action aud body = Some v"
  shows "attribution (case v of Refuse a _ _ _ _ \<Rightarrow> a | Pass a _ \<Rightarrow> a) = attribution aud"
proof (cases "action = actionPass")
  case True
  with assms show ?thesis by (auto simp: filter_body_def)
next
  case False
  show ?thesis
  proof (cases "decode_doc hw body")
    case None
    with assms False show ?thesis by (auto simp: filter_body_def)
  next
    case (Some doc)
    obtain doc' reds errs mut where
      scan: "scan_fields run (action = ActionMask) (d_walk d doc) (JObj doc) = Some (doc', reds, errs, mut)"
      using assms False Some by (auto simp: filter_body_def Let_def split: Option.bind_splits)
    define a where "a = (case map_of doc ''model'' of Some (JStr m) \<Rightarrow> aud\<lparr>rr_Model := m\<rparr> | _ \<Rightarrow> aud)"
    have "attribution a = attribution aud" by (simp only: a_def attribution_model)
    with assms False Some scan show ?thesis
      by (auto simp: filter_body_def a_def [symmetric] Let_def split: if_split_asm option.split_asm)
  qed
qed

lemma proxyRequest_attribution:
  assumes "proxyRequest w hw clk wr gw d p r = Some h"
  shows "attribution (h_report h) =
    (hdr_get (rq_headers r) ''X-Gateway-Request-Id'', d_route d, p_AppID p, p_KeyID p, p_Subject p, snd (actionFor gw p))"
proof -
  obtain action baseline where a: "actionFor gw p = (action, baseline)" by (cases "actionFor gw p")
  have base: "attribution (base_report clk d p baseline r) =
      (hdr_get (rq_headers r) ''X-Gateway-Request-Id'', d_route d, p_AppID p, p_KeyID p, p_Subject p, baseline)"
    by (simp add: attribution_def base_report_def)
  have "attribution (h_report h) = attribution (base_report clk d p baseline r)"
    using assms attribution_filter
    by (fastforce simp: proxyRequest_def a Let_def split: option.splits Option.bind_splits verdict.splits)
  with a base show ?thesis by simp
qed

section \<open>Which strings are rewritten\<close>

text \<open>Masking the walked fields rewrites exactly the strings at the positions the walker covers.\<close>

lemma mask_doc_positions:
  assumes "wf_json (JObj doc)" and "locs (walk doc) = strings_at [] (JObj doc) P"
  shows "mask_doc run walk doc = jmap (\<lambda>p s. if P p then Mask s (run_spans run s) else s) (JObj doc)"
  unfolding mask_doc_def
proof (rule jmap_cong [OF _ assms(1)])
  fix p s assume "jget (JObj doc) p = Some (JStr s)"
  then have "(p, s) \<in> strings_at [] (JObj doc) P \<longleftrightarrow> P p" by (simp add: strings_at_def)
  moreover have "p \<in> fld_at ` set (walk doc) \<longleftrightarrow> (\<exists>s. (p, s) \<in> locs (walk doc))"
    by (auto simp: locs_def image_iff)
  moreover have "(p, s') \<in> strings_at [] (JObj doc) P \<Longrightarrow> s' = s" for s'
    using \<open>jget (JObj doc) p = Some (JStr s)\<close> by (simp add: strings_at_def)
  ultimately show "(if p \<in> fld_at ` set (walk doc) then Mask s (run_spans run s) else s) =
      (if P p then Mask s (run_spans run s) else s)"
    using assms(2) by auto
qed

end
