(* ===== verification/Demo.thy ===== *)
theory Demo
  imports Gateway_Run
begin

text \<open>
  One concrete gateway, booted from a concrete environment, and one request through it. The
  properties are applied to it.
\<close>

definition demo_env :: "string \<Rightarrow> string" where
  "demo_env k =
     (if k = ''GATEWAY_UPSTREAMS'' then ''{}'' else if k = ''GATEWAY_CLIENT_KEYS'' then ''k1''
      else if k = ''ANT'' then ''s3'' else [])"

definition demo_ps :: parsers where
  "demo_ps =
     \<lparr>parseURL = (\<lambda>s. Some \<lparr>url_Scheme = ''http'', url_Host = ''h'', url_Hostname = ''h'', url_User = None,
                          url_Path = [], url_RawQuery = []\<rparr>),
      parseQuery = (\<lambda>_. Some []), parseDuration = (\<lambda>_. None),
      decodeJSON = (\<lambda>_. Inr (JObj [(''anthropic'', JObj [(''base_url'', JStr ''http://h''), (''credential_ref'', JStr ''env:ANT'')])])),
      decodeUpstreams = (\<lambda>_. Inr [(''anthropic'', \<lparr>BaseURL = ''http://h'', CredentialRef = ''env:ANT'', Auth = []\<rparr>)]),
      lowerUnicode = (\<lambda>s. s)\<rparr>"

definition demo_cfg :: Config where
  "demo_cfg =
     \<lparr>ListenAddr = ''127.0.0.1:8125'', AdvertiseURL = ''http://127.0.0.1:8125'', AllowedHosts = [''h''],
      Upstreams = [(''anthropic'', \<lparr>BaseURL = ''http://h'', CredentialRef = ''env:ANT'', Auth = []\<rparr>)],
      ClientKeysRef = ''env:GATEWAY_CLIENT_KEYS'', ControlPlaneKeyRef = ''env:GATEWAY_CONTROL_PLANE_KEY'',
      cfg_Detectors = [''regex''], PresidioURL = ''http://127.0.0.1:8126'', DetectorTimeout = 800000000,
      RedactAction = ''mask'', FailMode = ''closed'', ControlPlaneURL = ''http://127.0.0.1:8122'',
      ObsPushInterval = 5000000000, PolicyPullInterval = 15000000000, MaxBodyBytes = 10485760\<rparr>"

definition demo_gw :: gateway where
  "demo_gw =
     \<lparr>gw_cfg = demo_cfg, clientKeys = [''k1''], spineKey = [], dets = [DRegex builtinRecognizers], chain_allow = None,
      policyAction = None, policyBaseline = None, zdrAttested = False, packVersion = 0, baselines = None, gw_keys = None\<rparr>"

lemma demo_detectors: "parse_detectors ''regex'' = Inr [''regex'']"
  by (simp add: parse_detectors_def nonblank_fields_def trim_space_printable)

lemma demo_hosts: "nonblank_fields [] = []"
  by (simp add: nonblank_fields_def)

lemma demo_refs: "IsSecretRef ''env:GATEWAY_CLIENT_KEYS''" "IsSecretRef ''env:GATEWAY_CONTROL_PLANE_KEY''"
  by (simp_all add: IsSecretRef_def has_prefix_def cut_def re_space_def)

lemma demo_upstreams: "parseUpstreams demo_ps ''{}'' =
    Inr [(''anthropic'', \<lparr>BaseURL = ''http://h'', CredentialRef = ''env:ANT'', Auth = []\<rparr>)]"
proof -
  have "\<not> embeddedSecret ''http://h''"
    by (simp add: embeddedSecret_def LooksLikeRawSecret_def raw_prefixes_def has_prefix_def)
  moreover have "\<not> embeddedSecret []" by (simp add: embeddedSecret_def)
  moreover have "\<not> LooksLikeRawSecret ''env:ANT''" "IsSecretRef ''env:ANT''"
    by (simp_all add: LooksLikeRawSecret_def raw_prefixes_def has_prefix_def IsSecretRef_def cut_def re_space_def)
  moreover have "\<not> HasPlaintextSecretKey (\<lambda>s. s) [(''base_url'', JStr ''http://h''), (''credential_ref'', JStr ''env:ANT'')]"
    by code_simp
  ultimately show ?thesis
    by (simp add: parseUpstreams_def demo_ps_def trim_space_printable loose_routes_def check_upstream_def decodedQuery_def del: HasPlaintextSecretKey.simps)
qed

lemma demo_load: "Load demo_ps demo_env = Inr demo_cfg"
  by (simp add: Load_def Let_def andThen_def require_def env_or_def demo_env_def envMillis_def envDuration_def envInt64_def
      demo_upstreams demo_detectors demo_refs demo_hosts absolute_def)
    (simp add: demo_ps_def demo_cfg_def)

lemma demo_new: "New demo_env demo_cfg = Inr demo_gw"
proof -
  have "Resolve demo_env ''env:GATEWAY_CLIENT_KEYS'' = Inr ''k1''"
    "\<exists>e. Resolve demo_env ''env:GATEWAY_CONTROL_PLANE_KEY'' = Inl e"
    "nonblank_fields ''k1'' = [''k1'']"
    by (simp_all add: Resolve_def cut_def demo_env_def nonblank_fields_def trim_space_printable)
  then show ?thesis
    by (auto simp: New_def demo_cfg_def demo_gw_def Let_def new_detectors_def has_prefix_def)
qed

definition demo_world :: world where
  "demo_world =
     \<lparr>sha256 = (\<lambda>s. s), ulow = (\<lambda>s. s), compile = (\<lambda>_. Inl ''no''), analyze = (\<lambda>_. Inl ''no''),
      decode_results = (\<lambda>_. Inl ''no'')\<rparr>"

lemma demo_compile: "compile_ok (compile demo_world)"
  by (simp add: compile_ok_def demo_world_def)

lemma demo_reach: "gw_reach demo_world demo_ps demo_env demo_gw"
  by (rule gw_reach.boot [OF demo_load demo_new])

definition demo_doc :: "(string \<times> json) list" where
  "demo_doc = [(''messages'', JArr [JObj [(''role'', JStr ''user''), (''content'', JStr ''ssn 123-45-6789'')]])]"

definition demo_hw :: http_world where
  "demo_hw =
     \<lparr>hw_parseURL = (\<lambda>s. Some \<lparr>url_Scheme = ''http'', url_Host = ''h'', url_Hostname = ''h'', url_User = None,
                            url_Path = [], url_RawQuery = []\<rparr>),
      hw_urlString = (\<lambda>u. url_Scheme u @ ''://'' @ url_Host u @ url_Path u),
      hw_newRequestOK = (\<lambda>_. True),
      hw_unmarshal = (\<lambda>b. if b = ''B'' then Some (JObj demo_doc) else None),
      hw_peekModel = (\<lambda>_. None),
      hw_marshal = (\<lambda>v. case jget v [Key ''messages'', Idx 0, Key ''content''] of Some (JStr s) \<Rightarrow> Some s | _ \<Rightarrow> None),
      hw_anthropicUsage = (\<lambda>_. Some (7, 9)), hw_openaiUsage = (\<lambda>_. None),
      hw_anthropicEvent = (\<lambda>_. None), hw_openaiChunk = (\<lambda>_. None),
      hw_send = (\<lambda>_. Some \<lparr>us_status = 200, us_headers = [], us_body = Final ''ok'' None\<rparr>),
      hw_getenv = demo_env, hw_quote = (\<lambda>s. s)\<rparr>"

lemma demo_decoder: "decoder_ok demo_hw"
  by (simp add: decoder_ok_def demo_hw_def demo_doc_def)

lemma demo_upstream_answers: "upstream_answers demo_hw"
  by (simp add: upstream_answers_def demo_hw_def)

definition demo_request :: request where
  "demo_request = \<lparr>rq_headers = [(''X-Api-Key'', [''k1''])], rq_body = ''B'', rq_readError = False\<rparr>"

definition demo_sinks :: sinks where
  "demo_sinks = \<lparr>audits = [], route_windows = []\<rparr>"

definition demo_span :: Span where
  "demo_span = \<lparr>Start = 4, End = 15, Type = ''SSN'', Confidence = 9/10, Detector = ''regex''\<rparr>"

lemma demo_spans: "Chain_Run (ulow demo_world) (gw_chain demo_world demo_gw) ''ssn 123-45-6789'' =
    Some ([demo_span], [])"
  by code_simp

lemma demo_fields: "walkAnthropicBody demo_doc =
    [\<lparr>fld_path = ''messages[0].content'', fld_at = [Key ''messages'', Idx 0, Key ''content''],
      fld_text = ''ssn 123-45-6789''\<rparr>]"
  by code_simp

lemma demo_mask: "Mask ''ssn 123-45-6789'' [demo_span] = ''ssn [SSN]''"
  by (simp add: Mask_def mask_one_def demo_span_def)

lemma demo_auth: "authenticate demo_world 0 demo_gw (presented_key (requestID ''abcdefgh'' demo_request)) ''anthropic'' = Some envPrincipal"
  by code_simp

lemma demo_filter:
  "filter_body demo_hw int (Chain_Run (ulow demo_world) (gw_chain demo_world demo_gw)) (gw_cfg demo_gw)
     (anthropicDialect demo_hw) ''mask'' aud ''B'' =
   Some (Pass (aud\<lparr>rr_Redactions := [redaction_of ''messages[0].content'' demo_span],
      rr_DetectorErrors := [], rr_FailModeTripped := False, rr_AddedLatencyMS := 0, rr_Action := ''mask''\<rparr>) ''ssn [SSN]'')"
proof -
  have doc: "decode_doc demo_hw ''B'' = Some demo_doc" by (simp add: decode_doc_def demo_hw_def)
  have model: "map_of demo_doc ''model'' = None" by (simp add: demo_doc_def)
  have m: "hw_marshal demo_hw (jput (JObj demo_doc) [Key ''messages'', Idx 0, Key ''content''] (JStr ''ssn [SSN]'')) = Some ''ssn [SSN]''"
    by code_simp
  show ?thesis
    by (simp add: filter_body_def doc model demo_fields demo_spans demo_mask m anthropicDialect_def
        action_defs Let_def ms_since_def del: jput.simps)
qed

definition demo_sent :: upstream_request where
  "demo_sent =
     \<lparr>ur_target = ''http://h/v1/messages'',
      ur_headers = [(''X-Gateway-Request-Id'', [''gw-6162636465666768'']), (''X-Api-Key'', [''s3''])],
      ur_body = ''ssn [SSN]''\<rparr>"

lemma demo_forward:
  "h_sent (forward demo_hw int (\<lambda>_ _. None) (anthropicDialect demo_hw) \<lparr>BaseURL = ''http://h'', CredentialRef = ''env:ANT'', Auth = []\<rparr>
     (requestID ''abcdefgh'' demo_request) aud ''ssn [SSN]'') = Some demo_sent"
proof -
  have "Resolve demo_env ''env:ANT'' = Inr ''s3''"
    "upstreamTarget demo_hw ''http://h'' ''/v1/messages'' = Some ''http://h/v1/messages''"
    "setUpstreamCredential \<lparr>BaseURL = ''http://h'', CredentialRef = ''env:ANT'', Auth = []\<rparr> AuthAPIKey ''s3''
       (copyHeaders [] (rq_headers (requestID ''abcdefgh'' demo_request))) = ur_headers demo_sent"
    by code_simp+
  then show ?thesis
    by (simp add: forward_def demo_hw_def demo_sent_def anthropicDialect_def Let_def)
qed

lemma demo_serve:
  "\<exists>resp sk'. serve demo_world demo_hw int (\<lambda>_ _. None) ''abcdefgh'' demo_gw (anthropicDialect demo_hw)
     demo_request demo_sinks = (resp, Some demo_sent, sk')"
proof -
  have action: "actionFor demo_gw envPrincipal = (''mask'', [])"
    by (subst actionFor_pinned) (simp_all add: demo_gw_def demo_cfg_def)
  have cfg: "map_of (Upstreams (gw_cfg demo_gw)) ''anthropic'' = Some \<lparr>BaseURL = ''http://h'', CredentialRef = ''env:ANT'', Auth = []\<rparr>"
    "read_body (gw_cfg demo_gw) (requestID ''abcdefgh'' demo_request) = Some ''B''"
    by (simp_all add: demo_gw_def demo_cfg_def read_body_def demo_request_def)
  have route: "d_route (anthropicDialect demo_hw) = ''anthropic''" by (simp add: anthropicDialect_def)
  show ?thesis
    by (simp add: serve_def Let_def demo_auth route proxyRequest_def action cfg demo_filter demo_forward split: prod.splits)
qed

section \<open>A key store\<close>

lemma demo_mint: "NewAPIKeySecret ''abc'' ''xyz'' = (''616263'', ''gwk_616263_eHl6'')" "b64url ''xyz'' = ''eHl6''"
  by (simp_all add: NewAPIKeySecret_def b64_char_def hex_encode_def hex_digit_def KeyPrefix_def Let_def char_of_def
      bit_Suc_0_iff)

lemma demo_parse: "ParseAPIKey ''gwk_616263_eHl6'' = Some (''616263'', ''eHl6'')"
  by (simp add: ParseAPIKey_def numeral_3_eq_3 cut_def KeyPrefix_def)

lemma demo_pattern: "appIDPattern ''app''"
  by (simp add: appIDPattern_def lower_alnum_def is_digit_def)

definition demo_fs :: key_fs where
  "demo_fs = \<lparr>marshal = (\<lambda>_. Inr ''F''), write_err = None, rename_err = None\<rparr>"

definition demo_app :: App where
  "demo_app = \<lparr>app_ID = ''app'', app_Name = [], app_Baseline = [], app_Disabled = False, app_CreatedAt = 0\<rparr>"

definition demo_store :: keystore where
  "demo_store = snd (CreateApp demo_fs int demo_app new_keystore)"

definition demo_issue :: "(store_error + (APIKey \<times> string)) \<times> keystore" where
  "demo_issue = IssueKey demo_fs int (\<lambda>s. s) ''abc'' ''xyz'' ''app'' [] [] [] None demo_store"

lemma demo_store_step: "(kstep (\<lambda>_. True))\<^sup>*\<^sup>* new_keystore demo_store"
  unfolding demo_store_def by (intro r_into_rtranclp kstep.create) simp

lemma demo_store_inv: "keystore_inv demo_store"
  by (simp add: demo_store_def CreateApp_inv keystore_inv_new)

lemma demo_issued: "\<exists>k. demo_issue = (Inr (k, ''gwk_616263_eHl6''), snd demo_issue) \<and> key_ID k = ''616263''"
  by (simp add: demo_issue_def IssueKey_def Let_def demo_store_def CreateApp_def demo_app_def maxAppNameLen_def
      new_keystore_def demo_mint demo_parse demo_pattern)

definition demo_policy_gw :: gateway where
  "demo_policy_gw = demo_gw\<lparr>gw_cfg := demo_cfg\<lparr>RedactAction := ''per_policy''\<rparr>\<rparr>"

definition demo_bad_pack :: PatternPack where
  "demo_bad_pack =
     \<lparr>pack_Version = 7, pack_UpdatedAt = 0,
      pack_Rules = [\<lparr>rule_ID = ''r'', rule_Type = ''X'', rule_Kind = ''allow_list'', rule_Regex = [], rule_DenyList = [],
                     rule_AllowList = [''ok''], rule_Threshold = 0, rule_Context = [], rule_Confidence = 0,
                     rule_Rationale = [], rule_AddedAt = 0\<rparr>,
                    \<lparr>rule_ID = ''s'', rule_Type = ''Y'', rule_Kind = ''regex'', rule_Regex = ''('', rule_DenyList = [],
                     rule_AllowList = [], rule_Threshold = 0, rule_Context = [], rule_Confidence = 0,
                     rule_Rationale = [], rule_AddedAt = 0\<rparr>]\<rparr>"

section \<open>A chain of the in-process engine alone\<close>

text \<open>A chain with the in-process engine alone, for concrete runs.\<close>

definition demo_chain :: Chain where
  "demo_chain = \<lparr>Detectors = [regex_engine builtinRecognizers], allow = None\<rparr>"

lemma demo_chain_ok: "chain_ok demo_chain"
  by (simp add: demo_chain_def chain_ok_def regex_engine_ok builtins_ok)

lemma demo_run: "Chain_Run (\<lambda>s. s) demo_chain ''ssn 123-45-6789 ok'' =
  Some ([\<lparr>Start = 4, End = 15, Type = ''SSN'', Confidence = 9/10, Detector = ''regex''\<rparr>], [])"
  by code_simp

end
