(* ===== verification/Gateway_Properties.thy ===== *)
theory Gateway_Properties
  imports Demo
begin

text \<open>
  What holds of the gateway: the filtered request path, the engines, the relay of answers, the keys
  and what an instance reports. Each property is checked on the demonstration instance of \<open>Demo\<close>.
\<close>

section \<open>The request path\<close>

text \<open>
  C1: What reaches a vendor is filtered. On any gateway that booted from a loaded configuration and
  then pulled anything, if serving a request sent a body upstream, then the caller authenticated
  and the body is the one the caller's action allows: nothing with a finding under block, nothing
  after a detector error with fail mode closed, under mask the document with the spans of every
  scanned string masked, and otherwise the caller's own bytes.
\<close>

theorem sent_body_filtered:
  assumes "compile_ok (compile w)" and "gw_reach w ps getenv gw" and "dialect_of hw d" and "decoder_ok hw"
    and "serve w hw clk wr rand gw d r sk = (resp, Some req, sk')"
  shows "\<exists>p. authenticate w (clk 0) gw (presented_key (requestID rand r)) (d_route d) = Some p \<and>
    sent_ok hw (Chain_Run (ulow w) (gw_chain w gw)) (gw_cfg gw) d (fst (actionFor gw p)) (rq_body r) (ur_body req)"
proof -
  have ok: "gw_ok ps gw" using gw_reach_ok assms(1,2) by blast
  note chain = gw_ok_chain [OF ok]
  from chain assms(5) show ?thesis
  proof (cases rule: serve_cases)
    case (handled p h)
    then show ?thesis
      using proxyRequest_sent(1) [OF chain assms(3,4) gw_ok_not_pass [OF ok] handled(2)] by fastforce
  qed simp
qed

theorem sent_body_filtered_witness:
  "\<exists>p. authenticate demo_world 0 demo_gw (presented_key (requestID ''abcdefgh'' demo_request)) ''anthropic'' = Some p \<and>
     sent_ok demo_hw (Chain_Run (ulow demo_world) (gw_chain demo_world demo_gw)) (gw_cfg demo_gw)
       (anthropicDialect demo_hw) (fst (actionFor demo_gw p)) ''B'' ''ssn [SSN]''"
proof -
  obtain resp sk' where run: "serve demo_world demo_hw int (\<lambda>_ _. None) ''abcdefgh'' demo_gw (anthropicDialect demo_hw)
      demo_request demo_sinks = (resp, Some demo_sent, sk')"
    using demo_serve by blast
  have "dialect_of demo_hw (anthropicDialect demo_hw)" by (simp add: dialect_of_def)
  from sent_body_filtered [OF demo_compile demo_reach this demo_decoder run] show ?thesis
    by (simp add: anthropicDialect_def demo_request_def demo_sent_def)
qed

text \<open>
  C2: Under mask the scan of an Anthropic body never fails and rewrites exactly the strings at the
  documented positions (system, message content down to tool results and tool inputs, tool
  descriptions): each has its detected spans masked, the document keeps its shape, every other
  value stays. Tool inputs are scanned as deep as the walker goes, to 33 steps; the
  positions leave deeper leaves out, and they go upstream as they came.
\<close>

theorem anthropic_mask_exact:
  assumes "wf_json (JObj doc)" and "\<And>t. run t \<noteq> None"
  shows "\<exists>reds errs. scan_fields run True (walkAnthropicBody doc) (JObj doc) =
    Some (jmap (\<lambda>p s. if anthropic_pos doc p then Mask s (run_spans run s) else s) (JObj doc), reds, errs, reds \<noteq> [])"
  unfolding scan_walk [OF assms(2) anthropic.body_walker_axioms assms(1)]
    mask_doc_positions [where walk = walkAnthropicBody and doc = doc and P = "anthropic_pos doc", OF assms(1) walkAnthropicBody_locs [OF assms(1)]]
  by simp

theorem anthropic_mask_exact_witness:
  "\<exists>reds errs. scan_fields (\<lambda>t. Some ([], [])) True (walkAnthropicBody demo_doc) (JObj demo_doc) =
    Some (jmap (\<lambda>p s. if anthropic_pos demo_doc p then Mask s [] else s) (JObj demo_doc), reds, errs, reds \<noteq> [])"
proof -
  have none: "run_spans (\<lambda>t. Some ([], [])) s = []" for s by (simp add: run_spans_def)
  have "wf_json (JObj demo_doc)" by (simp add: demo_doc_def)
  from anthropic_mask_exact [OF this, of "\<lambda>t. Some ([], [])"] show ?thesis unfolding none by simp
qed



text \<open>
  C6: The caller's credentials never leave. Whatever headers the caller sent, a request that goes
  upstream carries exactly one credential, the upstream's own resolved from the environment, in
  the header its configuration or dialect names, and no hop-by-hop header.
\<close>

theorem caller_credentials_stay:
  assumes "compile_ok (compile w)" and "gw_reach w ps getenv gw" and "dialect_of hw d" and "decoder_ok hw"
    and "serve w hw clk wr rand gw d r sk = (resp, Some req, sk')"
  shows "\<exists>up name. map_of (Upstreams (gw_cfg gw)) (d_route d) = Some up \<and>
    CredentialRef up = ''env:'' @ name \<and> hw_getenv hw name \<noteq> [] \<and>
    (let bearer = ((if Auth up = [] then d_defaultAuth d else Auth up) = AuthBearer) in
     map_of (ur_headers req) ''Authorization'' = (if bearer then Some [''Bearer '' @ hw_getenv hw name] else None) \<and>
     map_of (ur_headers req) ''X-Api-Key'' = (if bearer then None else Some [hw_getenv hw name])) \<and>
    (\<forall>ck \<in> set hopByHop. map_of (ur_headers req) ck = None)"
proof -
  have ok: "gw_ok ps gw" using gw_reach_ok assms(1,2) by blast
  note chain = gw_ok_chain [OF ok]
  from chain assms(5) show ?thesis
  proof (cases rule: serve_cases)
    case (handled p h)
    obtain up cred where up: "map_of (Upstreams (gw_cfg gw)) (d_route d) = Some up"
        "Resolve (hw_getenv hw) (CredentialRef up) = Inr cred"
      and hs: "ur_headers req = setUpstreamCredential up (d_defaultAuth d) cred (copyHeaders [] (rq_headers (requestID rand r)))"
      using proxyRequest_sent(2) [OF chain assms(3,4) gw_ok_not_pass [OF ok] handled(2) handled(4) [symmetric]] by blast
    with sent_credentials [OF hs] show ?thesis
      unfolding Resolve_env Let_def by auto
  qed simp
qed

theorem caller_credentials_stay_witness:
  "map_of (ur_headers demo_sent) ''X-Api-Key'' = Some [''s3''] \<and> map_of (ur_headers demo_sent) ''Authorization'' = None"
proof -
  obtain resp sk' where run: "serve demo_world demo_hw int (\<lambda>_ _. None) ''abcdefgh'' demo_gw (anthropicDialect demo_hw)
      demo_request demo_sinks = (resp, Some demo_sent, sk')"
    using demo_serve by blast
  have "dialect_of demo_hw (anthropicDialect demo_hw)" by (simp add: dialect_of_def)
  from caller_credentials_stay [OF demo_compile demo_reach this demo_decoder run] show ?thesis
    by (auto simp: anthropicDialect_def demo_gw_def demo_cfg_def demo_hw_def demo_env_def AuthAPIKey_def AuthBearer_def)
qed

text \<open>
  C7: Every request is accounted for, and none panics. An unauthenticated one is answered 401,
  sends nothing and leaves the report ring alone; an authenticated one leaves exactly one report,
  bounded by the clamp, which names the caller's own app, key and route.
\<close>

theorem every_request_recorded:
  assumes "compile_ok (compile w)" and "gw_reach w ps getenv gw" and "upstream_answers hw"
    and "serve w hw clk wr rand gw d r sk = (resp, sent, sk')"
  shows "case authenticate w (clk 0) gw (presented_key (requestID rand r)) (d_route d) of
      None \<Rightarrow> (\<exists>msg. resp = Refused 401 msg) \<and> sent = None \<and> audits sk' = audits sk
    | Some p \<Rightarrow> \<exists>rep i out. audits sk' = ring_add ((Clamp rep)\<lparr>rr_TokensIn := i, rr_TokensOut := out\<rparr>) (audits sk) \<and>
        one_status rep \<and>
        attribution rep = (hdr_get (rq_headers (requestID rand r)) ''X-Gateway-Request-Id'', d_route d,
          p_AppID p, p_KeyID p, p_Subject p, snd (actionFor gw p))"
proof -
  have "chain_ok (gw_chain w gw)" using gw_reach_ok gw_ok_chain assms(1,2) by blast
  from this assms(4) show ?thesis
  proof (cases rule: serve_cases)
    case (handled p h)
    then show ?thesis
      using proxyRequest_one_status [OF assms(3) handled(2)] proxyRequest_attribution [OF handled(2)] by auto
  qed simp
qed

theorem every_request_recorded_witness:
  "\<exists>resp sk' rep. serve demo_world demo_hw int (\<lambda>_ _. None) ''abcdefgh'' demo_gw (anthropicDialect demo_hw)
      demo_request demo_sinks = (resp, Some demo_sent, sk') \<and> audits sk' = [rep] \<and> rr_AppID rep = ''env''"
proof -
  obtain resp sk' where run: "serve demo_world demo_hw int (\<lambda>_ _. None) ''abcdefgh'' demo_gw (anthropicDialect demo_hw)
      demo_request demo_sinks = (resp, Some demo_sent, sk')"
    using demo_serve by blast
  have "d_route (anthropicDialect demo_hw) = ''anthropic''" by (simp add: anthropicDialect_def)
  with every_request_recorded [OF demo_compile demo_reach demo_upstream_answers run]
  obtain rep i out where "audits sk' = ring_add ((Clamp rep)\<lparr>rr_TokensIn := i, rr_TokensOut := out\<rparr>) []"
      "attribution rep = (hdr_get (rq_headers (requestID ''abcdefgh'' demo_request)) ''X-Gateway-Request-Id'', ''anthropic'',
         ''env'', ''env'', [], snd (actionFor demo_gw envPrincipal))"
    by (auto simp: demo_auth envPrincipal_def demo_sinks_def)
  with run show ?thesis
    by (auto simp: ring_add_def auditRingMax_def attribution_def Clamp_def truncate_to_take maxReportLabelLen_def)
qed

text \<open>
  The correlation id is always one line of at most 128 printable characters: the caller's own
  when it is that, and otherwise a fresh one.
\<close>

theorem request_id_bounded:
  assumes "length rand = 8"
  shows "let i = hdr_get (rq_headers (requestID rand r)) ''X-Gateway-Request-Id'';
             own = hdr_get (rq_headers r) ''X-Gateway-Request-Id''
         in validRequestID i \<and> (if validRequestID own then i = own else i = newRequestID rand)"
  using requestID_valid [OF assms, of r]
  by (auto simp: requestID_def hdr_get_def hdr_set_def update_conv' Let_def)

theorem request_id_bounded_witness:
  "hdr_get (rq_headers (requestID ''abcdefgh'' demo_request)) ''X-Gateway-Request-Id'' = ''gw-6162636465666768''"
proof -
  have "\<not> validRequestID (hdr_get (rq_headers demo_request) ''X-Gateway-Request-Id'')"
    "newRequestID ''abcdefgh'' = ''gw-6162636465666768''"
    by code_simp+
  with request_id_bounded [of "''abcdefgh''" demo_request] show ?thesis by (simp add: Let_def)
qed

section \<open>Detection and masking\<close>

text \<open>
  C4: A run of the detector chain never panics and returns disjoint spans inside the text; a byte
  is covered by them exactly when some engine reported a span over it that passed the guard of
  its type and is not an allow-listed term.
\<close>

theorem chain_reports_exactly:
  assumes "chain_ok c"
  shows "\<exists>spans. Chain_Run low c text = Some (spans, engine_errs text (Detectors c)) \<and>
    disjoint_spans spans \<and> (\<forall>sp \<in> set spans. span_in text sp) \<and>
    (\<forall>p. covered spans p \<longleftrightarrow>
       (\<exists>sp \<in> set (engine_spans text (Detectors c)). covers sp p \<and> keep_span low c text sp = Some True))"
proof -
  let ?kept = "filter (\<lambda>sp. keep_span low c text sp = Some True) (engine_spans text (Detectors c))"
  have run: "Chain_Run low c text = Some (Merge ?kept, engine_errs text (Detectors c))"
    by (rule Chain_Run_closed [OF assms])
  have "covered (Merge ?kept) p \<longleftrightarrow>
      (\<exists>sp \<in> set (engine_spans text (Detectors c)). covers sp p \<and> keep_span low c text sp = Some True)" for p
    unfolding Merge_covered by (auto simp: covered_def)
  with run Chain_Run_disjoint [OF assms run] Chain_Run_span_in [OF assms run] show ?thesis by blast
qed

theorem chain_reports_exactly_witness:
  "\<exists>spans. Chain_Run (\<lambda>s. s) demo_chain ''ssn 123-45-6789 ok'' =
     Some (spans, engine_errs ''ssn 123-45-6789 ok'' (Detectors demo_chain)) \<and> covered spans 4"
proof -
  obtain spans where run: "Chain_Run (\<lambda>s. s) demo_chain ''ssn 123-45-6789 ok'' =
      Some (spans, engine_errs ''ssn 123-45-6789 ok'' (Detectors demo_chain))"
    using chain_reports_exactly [OF demo_chain_ok] by blast
  with demo_run have "covered spans 4" by (simp add: covers_def)
  with run show ?thesis by blast
qed

text \<open>
  C5: Masking by the spans a chain run reports reveals nothing of what they cover: the masked
  text is the gaps and the placeholders, and any other text of the same length that agrees
  outside the spans masks to the same bytes.
\<close>

theorem masked_text_hides:
  assumes "chain_ok c" and "Chain_Run low c t1 = Some (spans, errs)"
    and "length t2 = length t1"
    and "\<And>i. i < length t1 \<Longrightarrow> \<not> covered spans (int i) \<Longrightarrow> t2 ! i = t1 ! i"
  shows "Mask t1 spans = mask_ref t1 0 (filter nonempty spans) \<and> Mask t2 spans = Mask t1 spans"
proof
  note disj = Chain_Run_disjoint [OF assms(1,2)] and inside = Chain_Run_span_in [OF assms(1,2)]
  show "Mask t1 spans = mask_ref t1 0 (filter nonempty spans)"
    by (rule Mask_ref [OF disj inside])
  show "Mask t2 spans = Mask t1 spans"
    by (rule Mask_noninterference) (use assms(3,4) disj inside in \<open>auto simp: span_in_def\<close>)
qed

theorem masked_text_hides_witness:
  "Mask ''ssn 000-00-0000 ok'' [\<lparr>Start = 4, End = 15, Type = ''SSN'', Confidence = 9/10, Detector = ''regex''\<rparr>] =
   Mask ''ssn 123-45-6789 ok'' [\<lparr>Start = 4, End = 15, Type = ''SSN'', Confidence = 9/10, Detector = ''regex''\<rparr>]"
proof -
  have "i < 18 \<Longrightarrow> \<not> (4 \<le> int i \<and> int i < 15) \<Longrightarrow>
      ''ssn 000-00-0000 ok'' ! i = ''ssn 123-45-6789 ok'' ! i" for i
    by (auto simp: less_Suc_eq numeral_eq_Suc)
  then show ?thesis
    using masked_text_hides [OF demo_chain_ok demo_run, of "''ssn 000-00-0000 ok''"]
    by (simp add: covers_def)
qed

text \<open>
  C19: After a pattern pack is installed in the chain, a term its allow list rules out for a type
  is never reported under that type by any engine, and nothing else is suppressed: every span
  the run keeps or loses is decided by its guard and by the pack's own terms.
\<close>

theorem allow_list_exact:
  assumes "span_in text sp"
  shows "keep_span low (Chain_SetPatternPack low rules c) text sp = Some True \<longleftrightarrow>
    (case typeGuards (Type sp) of None \<Rightarrow> True | Some guard \<Rightarrow> guard text (Start sp) (End sp) = Some True) \<and>
    \<not> (\<exists>r \<in> set rules. rule_Kind r = ''allow_list'' \<and> rule_Type r = Type sp \<and>
         to_lower low (take (nat (End sp) - nat (Start sp)) (drop (nat (Start sp)) text))
           \<in> to_lower low ` set (rule_AllowList r))"
proof -
  have sp: "0 \<le> Start sp" "Start sp \<le> End sp" "End sp \<le> int (length text)"
    using assms by (auto simp: span_in_def)
  have total: "\<exists>b. (case typeGuards (Type sp) of None \<Rightarrow> Some True | Some guard \<Rightarrow> guard text (Start sp) (End sp)) = Some b"
    using typeGuards_total [OF _ assms] by (cases "typeGuards (Type sp)") auto
  then obtain b where "(case typeGuards (Type sp) of None \<Rightarrow> Some True | Some guard \<Rightarrow> guard text (Start sp) (End sp)) = Some b" ..
  with sp show ?thesis
    by (cases b) (auto simp: keep_span_def allowed_SetPatternPack split: option.splits)
qed

theorem allow_list_exact_witness:
  "keep_span (\<lambda>s. s) (Chain_SetPatternPack (\<lambda>s. s)
     [\<lparr>rule_ID = ''r1'', rule_Type = ''PERSON_NAME'', rule_Kind = ''allow_list'', rule_Regex = [],
       rule_DenyList = [], rule_AllowList = [''Claude''], rule_Threshold = 0, rule_Context = [],
       rule_Confidence = 0\<rparr>] demo_chain) ''hi claude''
     \<lparr>Start = 3, End = 9, Type = ''PERSON_NAME'', Confidence = 8/10, Detector = ''presidio''\<rparr> \<noteq> Some True"
proof -
  have "span_in ''hi claude'' \<lparr>Start = 3, End = 9, Type = ''PERSON_NAME'', Confidence = 8/10, Detector = ''presidio''\<rparr>"
    by (simp add: span_in_def)
  note allow_list_exact [OF this]
  moreover have "to_lower (\<lambda>s. s) (take 6 (drop 3 ''hi claude'')) = ''claude''" by code_simp
  moreover have "to_lower (\<lambda>s. s) ''Claude'' = ''claude''" by code_simp
  ultimately show ?thesis by (simp add: typeGuards_def)
qed

text \<open>
  C20: Whatever pattern pack was last accepted or refused, the in-process engine never panics: on
  every text it returns disjoint spans inside the text, and covers a byte exactly when some
  recognizer's search hit covers it and passes that recognizer's validator.
\<close>

theorem regex_engine_exact:
  assumes "compile_ok cmp" and "list_all recognizer_ok compiled"
    and "Regex_SetPatternPack cmp rules compiled = (err, recs)"
  shows "\<exists>spans. Regex_Detect recs text = Some spans \<and> disjoint_spans spans \<and>
    (\<forall>sp \<in> set spans. span_in text sp) \<and>
    (\<forall>p. covered spans p \<longleftrightarrow>
       (\<exists>rec \<in> set recs. \<exists>(s, e) \<in> set (rec_re rec text). s \<le> p \<and> p < e \<and>
          (case rec_validate rec of None \<Rightarrow> True | Some validate \<Rightarrow> validate text s e = Some True)))"
proof -
  have ok: "list_all recognizer_ok recs"
    using SetPatternPack_ok [OF assms(1,2), of rules] assms(3) by simp
  then show ?thesis by (rule Regex_Detect_covers)
qed

theorem regex_engine_exact_witness:
  "\<exists>spans. Regex_Detect builtinRecognizers ''call +14155550100'' = Some spans \<and> disjoint_spans spans"
  using regex_engine_exact [of "\<lambda>_. Inl []" builtinRecognizers "[]" None builtinRecognizers "''call +14155550100''"]
    builtins_ok
  by (auto simp: compile_ok_def Regex_SetPatternPack_def)

section \<open>The engines\<close>

text \<open>
  C21: The analyzer engine never panics on whatever the analyzer answers, and every span it lets
  through lies inside the text, covers at least one byte, names a type, and scores at least the
  gate of its type: the least positive threshold the pack has for that type, else the default.
\<close>

theorem presidio_spans_sound:
  "\<exists>res. Presidio_Detect post decode (Presidio_SetPatternPack rules) text = Some res \<and>
     (\<forall>spans. res = Inr spans \<longrightarrow> (\<forall>sp \<in> set spans.
        span_in text sp \<and> nonempty sp \<and> Type sp \<noteq> [] \<and>
        (case least_opt (rule_thresholds rules (Type sp)) of Some g \<Rightarrow> g | None \<Rightarrow> PresidioDefaultScoreGate)
          \<le> Confidence sp))"
proof (cases rule: Presidio_Detect_cases [of post decode "Presidio_SetPatternPack rules" "text"])
  case (2 rs spans)
  then show ?thesis
    using result_spans_nonempty [OF 2(2)] result_spans_gate [OF 2(2)] by (auto simp: pack_gate_def SetPatternPack_gate)
qed simp

theorem presidio_spans_sound_witness:
  "span_in ''hi Bob'' \<lparr>Start = 3, End = 6, Type = ''PERSON_NAME'', Confidence = 9/10, Detector = ''presidio''\<rparr> \<and>
   PresidioDefaultScoreGate \<le> 9/10"
proof -
  have run: "Presidio_Detect (\<lambda>_. Inr (200, []))
      (\<lambda>_. Inr [\<lparr>EntityType = ''PERSON'', res_Start = 3, res_End = 6, Score = 9/10\<rparr>]) (Presidio_SetPatternPack []) ''hi Bob'' =
    Some (Inr [\<lparr>Start = 3, End = 6, Type = ''PERSON_NAME'', Confidence = 9/10, Detector = ''presidio''\<rparr>])"
    by code_simp
  show ?thesis
    using presidio_spans_sound [of "\<lambda>_. Inr (200, [])"
        "\<lambda>_. Inr [\<lparr>EntityType = ''PERSON'', res_Start = 3, res_End = 6, Score = 9/10\<rparr>]" "[]" "''hi Bob''"]
    unfolding run by (simp add: rule_thresholds_def)
qed

text \<open>
  C22: The card check catches every single-digit error: if the digits of one slice pass, a slice
  whose digits differ from them in exactly one place does not.
\<close>

theorem luhn_single_error_rejected:
  assumes "0 \<le> i" and "i \<le> j" and "j \<le> int (length t1)" and "0 \<le> k" and "k \<le> l" and "l \<le> int (length t2)"
    and "luhnValid t1 i j = Some True"
    and "luhn_digits (slice t1 i j) = a @ x # b" and "luhn_digits (slice t2 k l) = a @ y # b" and "x \<noteq> y"
  shows "luhnValid t2 k l = Some False"
proof -
  have digit: "z < 10" if "z \<in> set (luhn_digits s)" for z s
    using that by (auto simp: luhn_digits_def is_digit_def digit_val_def)
  have "x < 10" "y < 10"
    using digit [of x "slice t1 i j"] digit [of y "slice t2 k l"] assms(8,9) by auto
  moreover have "luhn_ok (a @ x # b)"
    using assms(7) luhnValid_ok [OF assms(1-3)] assms(8) by simp
  ultimately have "\<not> luhn_ok (a @ y # b)" using luhn_change_digit assms(10) by blast
  with luhnValid_ok [OF assms(4-6)] assms(9) show ?thesis by simp
qed

theorem luhn_single_error_rejected_witness:
  "luhnValid ''4111111111111112'' 0 16 = Some False"
proof -
  have "luhnValid ''4111111111111111'' 0 16 = Some True"
    "luhn_digits (slice ''4111111111111111'' 0 16) = [4,1,1,1,1,1,1,1,1,1,1,1,1,1,1] @ 1 # []"
    "luhn_digits (slice ''4111111111111112'' 0 16) = [4,1,1,1,1,1,1,1,1,1,1,1,1,1,1] @ 2 # []"
    by code_simp+
  from luhn_single_error_rejected [OF _ _ _ _ _ _ this] show ?thesis by simp
qed

text \<open>
  C23: The bank account check is the ISO 13616 one: on a slice of at least 15 digits and capital
  letters it accepts exactly when the number obtained by moving the first four characters to the
  end and writing each letter as its value from 10 to 35 leaves 1 modulo 97.
\<close>

theorem iban_check_is_mod97:
  assumes "0 \<le> i" and "i \<le> j" and "j \<le> int (length text)"
    and "list_all iban_char (slice text i j)" and "15 \<le> length (slice text i j)"
  shows "ibanMod97 text i j =
    Some (dec_value (iban_expand (drop 4 (slice text i j) @ take 4 (slice text i j))) mod 97 = 1)"
  by (rule ibanMod97_value [OF assms])

theorem iban_check_is_mod97_witness:
  "ibanMod97 ''GB82WEST12345698765432'' 0 22 = Some (dec_value ''3214282912345698765432161182'' mod 97 = 1)"
proof -
  have "list_all iban_char (slice ''GB82WEST12345698765432'' 0 22)"
    "iban_expand (drop 4 (slice ''GB82WEST12345698765432'' 0 22) @ take 4 (slice ''GB82WEST12345698765432'' 0 22)) =
       ''3214282912345698765432161182''"
    "length (slice ''GB82WEST12345698765432'' 0 22) = 22"
    by code_simp+
  then show ?thesis using iban_check_is_mod97 [of 0 22 "''GB82WEST12345698765432''"] by simp
qed

section \<open>The response relay\<close>

text \<open>
  C13: The token counts of a relayed event stream do not depend on how the network cut it: with a
  caller that keeps reading and no line over the cap, both dialects deliver every byte and report
  the maxima of the counts on the lines of the whole body, however it was chunked.
\<close>

theorem streamed_usage_chunk_free:
  assumes "\<And>sent c. w sent c = None" and "body_error b = None" and "short_lines (body_bytes b)"
  shows "copyStreamWith w (anthropic_scanLine ev) b =
      \<lparr>written = body_bytes b, usage = max_counts (anthropic_counts ev) (lines_of (body_bytes b)), relay_error = None\<rparr> \<and>
    copyStreamWith w (openai_scanLine ch) b =
      \<lparr>written = body_bytes b, usage = max_counts (openai_counts ch) (lines_of (body_bytes b)), relay_error = None\<rparr>"
  using anthropic_usage.copyStreamWith_ok [where w = w, OF assms] openai_usage.copyStreamWith_ok [where w = w, OF assms] by blast

theorem streamed_usage_chunk_free_witness:
  "copyStreamWith (\<lambda>_ _. None) (openai_scanLine (\<lambda>_. Some (Some (3, 5)))) (Chunk ''da'' (Final ''ta: {}'' None)) =
   \<lparr>written = ''data: {}'', usage = \<lparr>tokensIn = 3, tokensOut = 5\<rparr>, relay_error = None\<rparr>"
proof -
  have "short_lines ''data: {}''" by (simp add: short_lines_def maxSSELineBytes_def)
  moreover have "max_counts (openai_counts (\<lambda>_. Some (Some (3, 5)))) (lines_of ''data: {}'') = \<lparr>tokensIn = 3, tokensOut = 5\<rparr>"
  proof -
    have "lines_of ''data: {}'' = [''data: {}'']" "openai_counts (\<lambda>_. Some (Some (3, 5))) ''data: {}'' = Some (3, 5)"
      by code_simp+
    then show ?thesis by (simp add: max_counts_def map_filter_simps)
  qed
  ultimately show ?thesis
    using streamed_usage_chunk_free [of "\<lambda>_ _. None" "Chunk ''da'' (Final ''ta: {}'' None)" _ "\<lambda>_. Some (Some (3, 5))"]
    by simp
qed

text \<open>
  Whatever the caller's connection does, and however the upstream ends, what the caller
  received is a prefix of what the upstream sent: nothing is reordered, repeated or invented.
\<close>

theorem relay_is_prefix:
  "prefix (written (copyStreamWith w scan b)) (body_bytes b) \<and> prefix (written (relayWithUsage w extract b)) (body_bytes b)"
proof
  show "prefix (written (copyStreamWith w scan b)) (body_bytes b)"
    using copy_loop_prefix [of w scan b "[]" new_scanner] by (simp add: copyStreamWith_def)
  show "prefix (written (relayWithUsage w extract b)) (body_bytes b)"
    by (auto simp: relayWithUsage_def Let_def take_is_prefix take_add [symmetric] split: option.splits prod.splits)
qed

text \<open>
  Past the line cap the scanner does not resynchronise at the next newline: once a fragment has
  overflowed the buffer, the bytes that follow it up to that newline are scanned as a line of
  their own, the tail of the very event that was dropped.
\<close>

theorem oversized_tail_is_scanned:
  assumes "NL \<notin> set frag" and "frag \<noteq> []" and "length part + length frag > maxSSELineBytes" and "NL \<notin> set tail"
  shows "stream_lines part (frag # (tail @ [NL]) # cs) = tail # stream_lines [] cs"
proof -
  have "feed_lines [] (tail @ [NL]) = ([tail], [])"
    using assms(4) by (simp add: feed_lines.simps [of "[]"] cut_append cut_None [THEN iffD2])
  with feed_lines_oversized [OF assms(1,3,2)] show ?thesis by simp
qed

theorem oversized_tail_is_scanned_witness:
  "stream_lines (replicate maxSSELineBytes (CHR ''x'')) [''d'', ''data: {}'' @ [NL]] = [''data: {}'']"
  using oversized_tail_is_scanned [of "''d''" "replicate maxSSELineBytes (CHR ''x'')" "''data: {}''" "[]"]
  by (simp add: flush_lines_def del: stream_lines.simps(2))

section \<open>Keys\<close>

text \<open>
  Minting and parsing a key are inverse: the plaintext of a fresh key parses to its own id and
  secret, and whatever parses is that plaintext, so no two id and secret pairs share one.
\<close>

theorem key_format_roundtrip:
  assumes "idb \<noteq> []" and "secb \<noteq> []"
  shows "ParseAPIKey (snd (NewAPIKeySecret idb secb)) = Some (fst (NewAPIKeySecret idb secb), b64url secb) \<and>
    (\<forall>presented kid secret. ParseAPIKey presented = Some (kid, secret) \<longrightarrow>
       presented = KeyPrefix @ ''_'' @ kid @ ''_'' @ secret)"
  using ParseAPIKey_New [OF assms] ParseAPIKey_Some(1) by blast

theorem key_format_roundtrip_witness:
  "ParseAPIKey ''gwk_616263_eHl6'' = Some (''616263'', ''eHl6'')"
  using key_format_roundtrip [of "''abc''" "''xyz''"] by (simp add: demo_mint del: b64url.simps)

text \<open>
  C11: The key store keeps its invariant through every sequence of operations from an empty store:
  ids are unique and well formed, names, subjects, labels and route lists are bounded, every key
  belongs to an app that exists. And the version a gateway compares tells the truth: between any
  two moments it is the same exactly when the store is the same, it never goes back, and a single
  operation either leaves the whole store alone or advances it by one.
\<close>

theorem keystore_invariant:
  assumes "(kstep F)\<^sup>*\<^sup>* new_keystore s" and "(kstep F)\<^sup>*\<^sup>* s s'"
  shows "keystore_inv s' \<and> keysVersion s \<le> keysVersion s' \<and> (keysVersion s' = keysVersion s \<longleftrightarrow> s' = s) \<and>
    (\<forall>s''. kstep F s' s'' \<longrightarrow> s'' = s' \<or> keysVersion s'' = keysVersion s' + 1)"
  using ksteps_inv [OF assms(2) ksteps_inv [OF assms(1) keystore_inv_new]] ksteps_version [OF assms(2)] kstep_version
  by (metis less_irrefl order_less_le order_refl)

theorem keystore_invariant_witness: "keystore_inv demo_store \<and> keysVersion new_keystore < keysVersion demo_store"
proof -
  have "keysVersion demo_store \<noteq> keysVersion new_keystore"
    by (simp add: demo_store_def CreateApp_def demo_app_def demo_pattern Let_def maxAppNameLen_def) (simp add: new_keystore_def)
  with keystore_invariant [OF rtranclp.rtrancl_refl demo_store_step] show ?thesis by auto
qed

text \<open>
  C8: A restart loses nothing that was acknowledged as persisted. After any operations on a store
  whose last write succeeded, a boot that reads the committed file answers every lookup of an app
  or a key as the store did, at the same version, and the store it leaves is again one to start from. The
  start is a durable store: a first boot without a file gives one, and so does every restart. What the
  JSON encoder wrote the decoder is assumed to read back, as it does for text in UTF-8.
\<close>

theorem restart_restores_keystore:
  assumes "(kstep (codec_ok unmarshal))\<^sup>*\<^sup>* s0 s" and "keystore_inv s0" and "durable unmarshal s0"
    and "keyFile s" and "KeystorePersistError s = None"
    and "EnableKeystorePersistence None unmarshal (Inr (disk s)) new_keystore = (err, s')"
  shows "err = None \<and> map_of (apps s') = map_of (apps s) \<and> map_of (keys s') = map_of (keys s) \<and>
    keySnapshot s' = keySnapshot s \<and> durable unmarshal s' \<and> keystore_inv s'"
proof -
  have inv: "keystore_inv s" using ksteps_inv [OF assms(1,2)] .
  have "keyfile_load unmarshal (Inr (disk s)) = Inr (keySnapshot s)"
    using ksteps_durable [OF assms(1,3)] assms(4,5) by (simp add: durable_def KeystorePersistError_def)
  from boot_restores [OF inv this assms(6)] show ?thesis by blast
qed

text \<open>A first boot, then an app is created and written to the file with an encoder that knows its snapshot.\<close>

definition demo_first_boot :: keystore where
  "demo_first_boot = snd (EnableKeystorePersistence None (\<lambda>_. Inl ''no'') (Inr None) new_keystore)"

definition demo_snapshot :: KeySnapshot where
  "demo_snapshot = keySnapshot (snd (CreateApp demo_fs int demo_app demo_first_boot))"

definition demo_codec :: key_fs where
  "demo_codec = demo_fs\<lparr>marshal := \<lambda>snap. if snap = demo_snapshot then Inr ''F'' else Inl ''no''\<rparr>"

definition demo_committed :: keystore where
  "demo_committed = snd (CreateApp demo_codec int demo_app demo_first_boot)"

lemma demo_committed_disk:
  "disk demo_committed = Some ''F''" "keyFile demo_committed" "keysPersistErr demo_committed = None" "keySnapshot demo_committed = demo_snapshot"
  "map_of (apps demo_committed) ''app'' = Some (demo_app\<lparr>app_Name := ''app''\<rparr>)"
  by (simp_all add: demo_committed_def demo_codec_def demo_snapshot_def demo_first_boot_def demo_fs_def CreateApp_def demo_app_def
      demo_pattern maxAppNameLen_def bumpKeys_def keyfile_save_def keySnapshot_def Let_def
      EnableKeystorePersistence_def keyfile_load_def new_keystore_def)

theorem restart_restores_keystore_witness:
  "map_of (apps (snd (EnableKeystorePersistence None (\<lambda>_. Inr demo_snapshot) (Inr (disk demo_committed)) new_keystore))) ''app'' =
     Some (demo_app\<lparr>app_Name := ''app''\<rparr>)"
proof -
  have boot: "EnableKeystorePersistence None (\<lambda>_. Inr demo_snapshot) (Inr None) new_keystore = (None, demo_first_boot)"
    by (simp add: demo_first_boot_def EnableKeystorePersistence_def keyfile_load_def)
  have "codec_ok (\<lambda>_. Inr demo_snapshot) demo_codec" by (simp add: codec_ok_def demo_codec_def)
  then have "(kstep (codec_ok (\<lambda>_. Inr demo_snapshot)))\<^sup>*\<^sup>* demo_first_boot demo_committed"
    unfolding demo_committed_def by (intro r_into_rtranclp kstep.create)
  from restart_restores_keystore [OF this first_boot(2,3) [OF boot] demo_committed_disk(2) _ prod.collapse [symmetric]]
  show ?thesis by (simp add: KeystorePersistError_def demo_committed_disk)
qed

text \<open>
  C9: A key that was issued authenticates at a gateway that has pulled the store's snapshot exactly
  as its record says: as its own app, id and subject when the app is enabled, the key unexpired
  and the route among its routes (or its routes empty), and not at all otherwise.
\<close>

theorem issued_key_works:
  assumes "IssueKey fs clk (sha256 w) idb secb aid sub lab rts ex s = (Inr (k, plaintext), s')"
    and "idb \<noteq> []" and "secb \<noteq> []" and "keystore_inv s"
    and "gw_keys gw = Some (newKeySnapshot (keySnapshot s'))"
  shows "authenticate w now gw plaintext route =
    (case map_of (apps s) aid of
       None \<Rightarrow> None
     | Some app \<Rightarrow>
         if app_Disabled app \<or> (\<exists>t. ex = Some t \<and> t \<le> now) \<or> (rts \<noteq> [] \<and> route \<notin> set rts) then None
         else Some \<lparr>p_AppID = aid, p_KeyID = key_ID k, p_Subject = sub, p_Baseline = app_Baseline app\<rparr>)"
  by (rule issued_key_authenticates [OF assms(1-4)]) (simp add: pulled_from_def assms(5))

theorem issued_key_works_witness:
  "\<exists>p. authenticate demo_world 5 (demo_gw\<lparr>gw_keys := Some (newKeySnapshot (keySnapshot (snd demo_issue)))\<rparr>)
     ''gwk_616263_eHl6'' ''openai'' = Some p \<and> p_AppID p = ''app''"
proof -
  obtain k where k: "demo_issue = (Inr (k, ''gwk_616263_eHl6''), snd demo_issue)" using demo_issued by blast
  obtain a where a: "map_of (apps demo_store) ''app'' = Some a" "\<not> app_Disabled a"
    by (auto simp: demo_store_def CreateApp_def demo_app_def demo_pattern Let_def maxAppNameLen_def new_keystore_def)
  have run: "IssueKey demo_fs int (sha256 demo_world) ''abc'' ''xyz'' ''app'' [] [] [] None demo_store =
      (Inr (k, ''gwk_616263_eHl6''), snd demo_issue)"
    using k by (simp add: demo_issue_def demo_world_def)
  from issued_key_works [OF run _ _ demo_store_inv] a show ?thesis by simp
qed

text \<open>
  C10: Revocation is final. Once a key is revoked, after any further operations that do not mint
  its id again, no gateway that has pulled the store lets any secret with that key id in, on any
  route, at any time.
\<close>

theorem revoked_key_stays_out:
  assumes "RevokeKey fs clk kid s = (Inr k, s1)" and "keystore_inv s" and "(kstep_fresh kid)\<^sup>*\<^sup>* s1 s2"
    and "gw_keys gw = Some (newKeySnapshot (keySnapshot s2))" and "ParseAPIKey presented = Some (kid, secret)"
  shows "authenticate w now gw presented route = None"
proof -
  have "revoked s1 kid" using RevokeKey_ok [OF assms(1)] by (auto simp: revoked_def)
  moreover have "keystore_inv s1" using RevokeKey_inv [OF assms(2), of fs clk kid] assms(1) by simp
  ultimately have "revoked s2 kid" "keystore_inv s2" using kstep_fresh_path [OF assms(3)] by blast+
  then show ?thesis by (rule revoked_key_refused) (simp_all add: pulled_from_def assms(4,5))
qed

theorem revoked_key_stays_out_witness:
  "authenticate demo_world 5 (demo_gw\<lparr>gw_keys := Some (newKeySnapshot (keySnapshot
      (snd (RevokeKey demo_fs int ''616263'' (snd demo_issue)))))\<rparr>) ''gwk_616263_eHl6'' ''openai'' = None"
proof -
  obtain k where k: "demo_issue = (Inr (k, ''gwk_616263_eHl6''), snd demo_issue)" "key_ID k = ''616263''"
    using demo_issued by blast
  have run: "IssueKey demo_fs int (\<lambda>s. s) ''abc'' ''xyz'' ''app'' [] [] [] None demo_store =
      (Inr (k, ''gwk_616263_eHl6''), snd demo_issue)" using k by (simp add: demo_issue_def)
  have in_store: "map_of (keys (snd demo_issue)) ''616263'' = Some k" "key_RevokedAt k = None"
    using IssueKey_ok(9,10) [OF run] k(2) by simp_all
  have inv: "keystore_inv (snd demo_issue)"
    using IssueKey_inv [OF demo_store_inv] by (simp add: demo_issue_def)
  obtain k' s1 where rev: "RevokeKey demo_fs int ''616263'' (snd demo_issue) = (Inr k', s1)"
    using in_store by (simp add: RevokeKey_def Let_def)
  from revoked_key_stays_out [OF rev inv rtranclp.rtrancl_refl _ demo_parse] rev show ?thesis by simp
qed

text \<open>
  C14: Nobody gets in without a credential. At a gateway that pulled the snapshot of a store, after
  whatever operations, a caller is let in exactly in two cases. It presents one of the gateway's own
  client keys that does not have the form of a minted key, and is the environment principal. Or it presents
  the prefix, an id and a secret, the store holds a key with that id, the digest of that secret, no
  revocation, no expiry that has passed and no route list without the route, whose app exists and is enabled; it
  is then that key's app, id and subject, under the app's baseline.
\<close>

theorem authentication_sound:
  assumes "(kstep F)\<^sup>*\<^sup>* new_keystore s" and "gw_keys gw = Some (newKeySnapshot (keySnapshot s))"
  shows "authenticate w now gw presented route = Some p \<longleftrightarrow>
    (presented \<noteq> [] \<and> presented \<in> set (clientKeys gw) \<and> p = envPrincipal \<and>
      \<not> (\<exists>kid secret. presented = ''gwk_'' @ kid @ ''_'' @ secret \<and> kid \<noteq> [] \<and> CHR ''_'' \<notin> set kid \<and> secret \<noteq> [])) \<or>
    (\<exists>kid secret k app. presented = ''gwk_'' @ kid @ ''_'' @ secret \<and> kid \<noteq> [] \<and> CHR ''_'' \<notin> set kid \<and> secret \<noteq> [] \<and>
      map_of (keys s) kid = Some k \<and> key_Digest k = hex_encode (sha256 w secret) \<and> key_RevokedAt k = None \<and>
      (\<forall>t. key_ExpiresAt k = Some t \<longrightarrow> now < t) \<and> (key_Routes k = [] \<or> route \<in> set (key_Routes k)) \<and>
      map_of (apps s) (key_AppID k) = Some app \<and> \<not> app_Disabled app \<and>
      p = \<lparr>p_AppID = key_AppID k, p_KeyID = kid, p_Subject = key_Subject k, p_Baseline = app_Baseline app\<rparr>)"
proof -
  have inv: "keystore_inv s" using ksteps_inv [OF assms(1) keystore_inv_new] .
  have form: "ParseAPIKey presented = Some (kid, secret) \<longleftrightarrow>
      presented = ''gwk_'' @ kid @ ''_'' @ secret \<and> kid \<noteq> [] \<and> CHR ''_'' \<notin> set kid \<and> secret \<noteq> []" for kid secret
    by (auto simp: ParseAPIKey_iff KeyPrefix_def)
  show ?thesis
  proof (cases "ParseAPIKey presented")
    case None
    then have "\<not> (\<exists>kid secret. presented = ''gwk_'' @ kid @ ''_'' @ secret \<and> kid \<noteq> [] \<and> CHR ''_'' \<notin> set kid \<and> secret \<noteq> [])"
      unfolding form [symmetric] by simp
    with None show ?thesis unfolding authenticate_Some by auto
  next
    case (Some ks)
    obtain kid secret where parse: "ParseAPIKey presented = Some (kid, secret)" using Some by (cases ks) auto
    have "authenticate w now gw presented route = Some p \<longleftrightarrow>
        (\<exists>k app. map_of (keys s) kid = Some k \<and> key_Digest k = hex_encode (sha256 w secret) \<and> key_RevokedAt k = None \<and>
          (\<forall>t. key_ExpiresAt k = Some t \<longrightarrow> now < t) \<and> (key_Routes k = [] \<or> route \<in> set (key_Routes k)) \<and>
          map_of (apps s) (key_AppID k) = Some app \<and> \<not> app_Disabled app \<and>
          p = \<lparr>p_AppID = key_AppID k, p_KeyID = kid, p_Subject = key_Subject k, p_Baseline = app_Baseline app\<rparr>)"
      unfolding authenticate_pulled [OF assms(2) [folded pulled_from_def] inv parse]
      using keystore_lookup_ids [OF inv] active_spelled routes_spelled by (auto simp: DigestSecret_def)
    moreover have uniq: "presented = ''gwk_'' @ kid' @ ''_'' @ secret' \<and> kid' \<noteq> [] \<and> CHR ''_'' \<notin> set kid' \<and> secret' \<noteq> [] \<and> R \<longleftrightarrow>
        kid' = kid \<and> secret' = secret \<and> R" for kid' secret' R
      using form [of kid' secret'] form [of kid secret] parse by auto
    ultimately show ?thesis using uniq [where R = True] by (simp only: uniq simp_thms) blast
  qed
qed

theorem authentication_sound_witness:
  "authenticate demo_world 5 (demo_gw\<lparr>gw_keys := Some (newKeySnapshot (keySnapshot (snd demo_issue)))\<rparr>)
     ''gwk_616263_eHl6'' ''openai'' =
   Some \<lparr>p_AppID = ''app'', p_KeyID = ''616263'', p_Subject = [], p_Baseline = []\<rparr>"
proof -
  have steps: "(kstep (\<lambda>_. True))\<^sup>*\<^sup>* new_keystore (snd demo_issue)"
    using demo_store_step unfolding demo_issue_def by (rule rtranclp.rtrancl_into_rtrancl) (intro kstep.issue, simp)
  obtain k where k: "IssueKey demo_fs int (\<lambda>s. s) ''abc'' ''xyz'' ''app'' [] [] [] None demo_store = (Inr (k, ''gwk_616263_eHl6''), snd demo_issue)"
    "key_ID k = ''616263''"
    using demo_issued by (auto simp: demo_issue_def)
  note ok = IssueKey_ok [OF k(1)]
  have app: "map_of (apps (snd demo_issue)) ''app'' = Some (demo_app\<lparr>app_Name := ''app''\<rparr>)"
    unfolding ok(11) [simplified] by (simp add: demo_store_def CreateApp_def demo_app_def demo_pattern Let_def maxAppNameLen_def new_keystore_def)
  have "\<exists>kid secret k app. ''gwk_616263_eHl6'' = ''gwk_'' @ kid @ ''_'' @ secret \<and> kid \<noteq> [] \<and> CHR ''_'' \<notin> set kid \<and> secret \<noteq> [] \<and>
      map_of (keys (snd demo_issue)) kid = Some k \<and> key_Digest k = hex_encode (sha256 demo_world secret) \<and> key_RevokedAt k = None \<and>
      (\<forall>t. key_ExpiresAt k = Some t \<longrightarrow> 5 < t) \<and> (key_Routes k = [] \<or> ''openai'' \<in> set (key_Routes k)) \<and>
      map_of (apps (snd demo_issue)) (key_AppID k) = Some app \<and> \<not> app_Disabled app \<and>
      \<lparr>p_AppID = ''app'', p_KeyID = ''616263'', p_Subject = [], p_Baseline = []\<rparr> =
        \<lparr>p_AppID = key_AppID k, p_KeyID = kid, p_Subject = key_Subject k, p_Baseline = app_Baseline app\<rparr>"
    by (rule exI [of _ "''616263''"], rule exI [of _ "''eHl6''"], rule exI [of _ k], rule exI [of _ "demo_app\<lparr>app_Name := ''app''\<rparr>"])
      (use ok k(2) app in \<open>simp add: demo_mint(2) demo_world_def DigestSecret_def demo_app_def hex_encode_no_sep del: b64url.simps\<close>)
  then show ?thesis
    using authentication_sound [where gw = "demo_gw\<lparr>gw_keys := Some (newKeySnapshot (keySnapshot (snd demo_issue)))\<rparr>", OF steps]
    by simp
qed

section \<open>Policy\<close>

text \<open>
  C12: The coverage claim is honest: when the global action enforces and every app with a baseline
  of its own resolves to an enforcing action, then every caller the gateway lets in, on any route
  at any time, runs under mask or block.
\<close>

theorem coverage_claim_honest:
  assumes "enforces (fst (actionFor gw no_principal))" and "allAppsEnforce gw"
    and "authenticate w now gw presented route = Some p"
  shows "enforces (fst (actionFor gw p))"
  by (rule allAppsEnforce_callers [OF assms])

theorem coverage_claim_honest_witness: "enforces (fst (actionFor demo_gw envPrincipal))"
proof -
  have "enforces (fst (actionFor demo_gw no_principal))"
    by (subst actionFor_pinned) (simp_all add: demo_gw_def demo_cfg_def enforces_def ActionMask_def)
  moreover have "allAppsEnforce demo_gw" by (simp add: allAppsEnforce_def demo_gw_def)
  ultimately show ?thesis by (rule coverage_claim_honest [OF _ _ demo_auth])
qed

text \<open>
  C15: A successful policy pull puts the applied baseline in force: every caller without a baseline
  of its own then runs under that baseline's action, computed with the attestation the policy
  carries, and a gateway whose action is pinned by configuration is untouched.
\<close>

theorem pulled_policy_in_force:
  assumes "pullPolicy (Inr (Some (baseline, vendors))) (Inr bs) gw = (None, gw')" and "baseline \<noteq> []"
  shows "if RedactAction (gw_cfg gw) = ''per_policy''
    then \<exists>b. b \<in> set bs \<and> bl_ID b = baseline \<and>
      (\<forall>p. p_Baseline p = [] \<longrightarrow> actionFor gw' p = (GatewayAction b (attested_in vendors), baseline))
    else gw' = gw \<and> (\<forall>p. actionFor gw p = (RedactAction (gw_cfg gw), []))"
proof (cases "RedactAction (gw_cfg gw) = ''per_policy''")
  case True
  let ?byID = "foldl (\<lambda>m b. AList.update (bl_ID b) b m) [] bs"
  obtain b where b: "map_of ?byID baseline = Some b"
    and gw': "gw' = gw\<lparr>baselines := Some ?byID, zdrAttested := attested_in vendors,
        policyAction := Some (GatewayAction b (attested_in vendors)), policyBaseline := Some baseline\<rparr>"
    using assms True by (auto simp: pullPolicy_def Let_def split: option.splits)
  have "b \<in> set bs \<and> bl_ID b = baseline"
    using b
  proof (induction bs rule: rev_induct)
    case (snoc x xs)
    then show ?case by (auto simp: update_conv' split: if_splits)
  qed simp
  moreover have "actionFor gw' p = (GatewayAction b (attested_in vendors), baseline)" if "p_Baseline p = []" for p
    using that True by (simp add: gw' actionFor_def resolveAction_def Let_def)
  ultimately show ?thesis using True by auto
next
  case False
  with assms(1) actionFor_pinned [OF False] show ?thesis by (auto simp: pullPolicy_def)
qed

theorem pulled_policy_in_force_witness:
  "\<exists>b. b \<in> set Baselines \<and> bl_ID b = ''healthcare'' \<and>
    actionFor (snd (pullPolicy (Inr (Some (''healthcare'', []))) (Inr Baselines) demo_policy_gw)) envPrincipal =
      (GatewayAction b False, ''healthcare'')"
proof -
  have "fst (pullPolicy (Inr (Some (''healthcare'', []))) (Inr Baselines) demo_policy_gw) = None" by code_simp
  then have "pullPolicy (Inr (Some (''healthcare'', []))) (Inr Baselines) demo_policy_gw =
      (None, snd (pullPolicy (Inr (Some (''healthcare'', []))) (Inr Baselines) demo_policy_gw))"
    by (metis prod.collapse)
  from pulled_policy_in_force [OF this] show ?thesis
    by (auto simp: demo_policy_gw_def envPrincipal_def attested_in_def)
qed

text \<open>
  Attestation is the only thing that lifts the gate of a protected-health baseline, and it
  lifts it to masking, never further: a baseline blocks exactly when it demands attestation and
  has none, lets traffic through unmasked exactly when redaction is off, attested or not.
\<close>

theorem attestation_lifts_block_to_mask:
  "(GatewayAction b z = ActionBlock \<longleftrightarrow> RequiresZDRAttestation b \<and> \<not> z) \<and>
   (GatewayAction b z = ActionDetect \<longleftrightarrow> bl_PIIRedaction b = ''off'') \<and>
   GatewayAction b True = (if GatewayAction b False = ActionBlock then ActionMask else GatewayAction b False)"
  using GatewayAction_block GatewayAction_detect GatewayAction_attest by blast

text \<open>
  C16: On a gateway that runs the in-process engine, a pattern pack of another version with a regex rule
  the engine cannot compile, wherever in the pack the rule is, is rejected as a whole: the pull is an error and changes nothing but the version the pack was seen
  at. No recognizer, threshold or allow-list term of it is installed, and the same pack is not tried again.
\<close>

theorem bad_pack_installs_nothing:
  assumes "r \<in> set (pack_Rules pack)" and "rule_Kind r = [] \<or> rule_Kind r = ''regex''" and "compile w (rule_Regex r) = Inl e"
    and "DRegex recs \<in> set (dets gw)" and "pack_Version pack \<noteq> packVersion gw"
  shows "\<exists>err. pullPatterns w (Inr pack) gw = (Some err, gw\<lparr>packVersion := pack_Version pack\<rparr>) \<and>
    gw_chain w (gw\<lparr>packVersion := pack_Version pack\<rparr>) = gw_chain w gw \<and>
    pullPatterns w (Inr pack) (gw\<lparr>packVersion := pack_Version pack\<rparr>) = (None, gw\<lparr>packVersion := pack_Version pack\<rparr>)"
proof -
  obtain err where "pullPatterns w (Inr pack) gw = (Some err, snd (pullPatterns w (Inr pack) gw))"
    using bad_rule_rejected [where w = w, OF assms] by (metis prod.collapse)
  from this pullPatterns_rejected [OF this] show ?thesis by (auto simp: gw_chain_def)
qed

theorem bad_pack_installs_nothing_witness:
  "chain_allow (snd (pullPatterns demo_world (Inr demo_bad_pack) demo_gw)) = None \<and>
   dets (snd (pullPatterns demo_world (Inr demo_bad_pack) demo_gw)) = [DRegex builtinRecognizers]"
proof -
  have bad: "pack_Rules demo_bad_pack ! 1 \<in> set (pack_Rules demo_bad_pack)" "rule_Kind (pack_Rules demo_bad_pack ! 1) = ''regex''"
    "compile demo_world (rule_Regex (pack_Rules demo_bad_pack ! 1)) = Inl ''no''" "DRegex builtinRecognizers \<in> set (dets demo_gw)"
    "pack_Version demo_bad_pack \<noteq> packVersion demo_gw"
    by (simp_all add: demo_bad_pack_def demo_world_def demo_gw_def)
  from bad_pack_installs_nothing [OF bad(1) disjI2 [OF bad(2)] bad(3-5)] show ?thesis by (auto simp: demo_gw_def)
qed

section \<open>Boot\<close>

text \<open>
  C17: A gateway only starts on a safe configuration: every upstream has an absolute URL without
  user info or an embedded credential and a reference for its secret, both key references are
  references, the detectors, action and fail mode are known ones, and the intervals and the body
  limit are positive.
\<close>

theorem loaded_config_safe:
  assumes "Load ps getenv = Inr cfg"
  shows "config_ok ps cfg \<and> ListenAddr cfg \<noteq> [] \<and> absolute (parseURL ps (AdvertiseURL cfg))"
proof -
  have "ListenAddr cfg \<noteq> [] \<and> absolute (parseURL ps (AdvertiseURL cfg))"
    using assms unfolding Load_def Let_def andThen_Inr require_Inr sum.inject
    by (elim exE conjE, hypsubst) (simp add: env_or_def)
  with Load_config_ok [OF assms] show ?thesis by blast
qed

theorem loaded_config_safe_witness: "config_ok demo_ps demo_cfg"
  using loaded_config_safe [OF demo_load] by blast

section \<open>Reports and metrics\<close>

text \<open>
  Clamping a report bounds every field, is idempotent, only ever truncates, and leaves the
  decision, the statuses and the fail-mode flag alone.
\<close>

theorem clamp_bounds_and_truncates:
  "clamped (Clamp r) \<and> Clamp (Clamp r) = Clamp r \<and>
   prefix (rr_RequestID (Clamp r)) (rr_RequestID r) \<and> prefix (rr_Model (Clamp r)) (rr_Model r) \<and>
   prefix (map red_Type (rr_Redactions (Clamp r))) (map red_Type (rr_Redactions r)) \<and>
   rr_Action (Clamp r) = rr_Action r \<and> rr_UpstreamStatus (Clamp r) = rr_UpstreamStatus r \<and>
   rr_GatewayStatus (Clamp r) = rr_GatewayStatus r \<and> rr_FailModeTripped (Clamp r) = rr_FailModeTripped r"
  using clamped_Clamp [of r] Clamp_clamped [OF clamped_Clamp, of r] Clamp_prefix [of r] by simp




















text \<open>
  A reported percentile is one of the observed latencies, never past the end of the sample, and
  a higher quantile never reports less.
\<close>

theorem percentile_of_sample:
  assumes "0 \<le> p" and "p \<le> q" and "q \<le> 1" and "xs \<noteq> []"
  shows "percentile xs q \<in> set xs \<and> percentile xs p \<le> percentile xs q"
  using percentile_in [of q xs] percentile_mono [OF assms(1-3), of xs] assms by simp

theorem percentile_of_sample_witness: "percentile [3, 1, 2] (1/2) \<le> percentile [3, 1, 2] 1"
  using percentile_of_sample [of "1/2" 1 "[3, 1, 2]"] by simp

end
