(* ===== verification/Control_Model.thy ===== *)
theory Control_Model
  imports Reports Keystore
begin

text \<open>
  The data of the control plane (\<open>internal/model/model.go\<close>, \<open>internal/model/contract.go\<close> and the
  heartbeat and capture records of \<open>internal/model/gateway.go\<close>). The string types of the Go
  package (\<open>Mode\<close>, \<open>Disposition\<close>, \<open>Plane\<close>, \<open>Enforcement\<close>) are strings with the same named
  values. What a control-plane call reads from outside, the clock and sixteen random bytes, is a
  \<open>reading\<close>; a call that reads several times takes a sequence of them.
\<close>

type_synonym reading = "time \<times> string"

section \<open>Named values\<close>

definition ObservationContract :: string where "ObservationContract = ''ops-observation-batch/v1''"

definition ModeDisabled :: string where "ModeDisabled = ''disabled''"
definition ModeSynthetic :: string where "ModeSynthetic = ''synthetic''"
definition ModeProxy :: string where "ModeProxy = ''proxy''"

definition DispVendorNative :: string where "DispVendorNative = ''vendor_native''"
definition DispEnvManaged :: string where "DispEnvManaged = ''env_managed''"
definition DispProxyEnforced :: string where "DispProxyEnforced = ''proxy_enforced''"
definition DispMonitorOnly :: string where "DispMonitorOnly = ''monitor_only''"
definition DispUnverified :: string where "DispUnverified = ''unverified''"
definition DispUnsupported :: string where "DispUnsupported = ''unsupported''"

definition PlaneDeveloperWorkflow :: string where "PlaneDeveloperWorkflow = ''developer_workflow''"
definition PlaneDataPolicy :: string where "PlaneDataPolicy = ''data_policy''"
definition PlaneBudget :: string where "PlaneBudget = ''budget''"
definition PlaneObservability :: string where "PlaneObservability = ''observability''"

definition EnforcementServerSide :: string where "EnforcementServerSide = ''server_side''"
definition EnforcementMDMLocked :: string where "EnforcementMDMLocked = ''mdm_locked''"
definition EnforcementSeedOnly :: string where "EnforcementSeedOnly = ''seed_only''"

lemmas mode_defs = ModeDisabled_def ModeSynthetic_def ModeProxy_def
lemmas disposition_defs = DispVendorNative_def DispEnvManaged_def DispProxyEnforced_def
  DispMonitorOnly_def DispUnverified_def DispUnsupported_def
lemmas plane_defs = PlaneDeveloperWorkflow_def PlaneDataPolicy_def PlaneBudget_def PlaneObservability_def
lemmas enforcement_defs = EnforcementServerSide_def EnforcementMDMLocked_def EnforcementSeedOnly_def

lemma dispositions_distinct:
  "distinct [DispVendorNative, DispEnvManaged, DispProxyEnforced, DispMonitorOnly, DispUnverified, DispUnsupported]"
  by (simp add: disposition_defs)

section \<open>Records\<close>

record Capability =
  cap_Key :: string
  cap_Name :: string
  cap_Plane :: string
  cap_Disposition :: string
  cap_Enforcement :: string
  cap_Mechanism :: string
  cap_Endpoint :: string
  cap_DocumentationURL :: string
  cap_Retryable :: bool
  cap_Note :: string

record Status =
  sta_State :: string
  sta_Message :: string
  sta_CheckedAt :: time

record Adapter =
  ad_ID :: string
  ad_Vendor :: string
  ad_DisplayName :: string
  ad_Family :: string
  ad_APIVersion :: string
  ad_Tier :: int
  ad_Mode :: string
  ad_Enabled :: bool
  ad_Emit :: bool
  ad_BasePath :: string
  ad_UpstreamURL :: string
  ad_EndpointConfig :: "(string \<times> string) list"
  ad_Scenario :: string
  ad_BAASigned :: bool
  ad_Capabilities :: "Capability list"
  ad_Status :: Status
  ad_UpdatedAt :: time

record AdapterPatch =
  pt_Enabled :: "bool option"
  pt_Emit :: "bool option"
  pt_Mode :: "string option"
  pt_Scenario :: "string option"
  pt_UpstreamURL :: "string option"
  pt_EndpointConfig :: "(string \<times> string) list option"

record Signal =
  sg_Disposition :: string
  sg_Code :: string
  sg_Message :: string
  sg_Retryable :: bool

record ManagedArtifact =
  art_Platform :: string
  art_Identifier :: string
  art_Artifact :: "(string \<times> json) list"
  art_Enforcement :: string
  art_DistributionURL :: string
  art_RenderedAt :: time

record EnvState =
  es_Platform :: string
  es_Identifier :: string
  es_ActualSettings :: "(string \<times> json) list"
  es_Source :: string
  es_DriftDetected :: bool
  es_DriftMessage :: string
  es_ReadAt :: time

record ObservationRecord =
  ob_ID :: int
  ob_ReceivedAt :: time
  ob_Contract :: string
  ob_ConnectorType :: string
  ob_ConnectorInstance :: string
  ob_Complete :: bool
  ob_ObservationCount :: int
  ob_ErrorCount :: int
  ob_Body :: "(string \<times> json) list"

record CallRecord =
  cl_ID :: int
  cl_AdapterID :: string
  cl_Method :: string
  cl_Path :: string
  cl_Query :: "(string \<times> string list) list"
  cl_Headers :: "(string \<times> string list) list"
  cl_Scenario :: string
  cl_StatusCode :: int
  cl_DurationMS :: int
  cl_RecordedAt :: time

record AuditEvent =
  ae_ID :: string
  ae_Timestamp :: time
  ae_Actor :: string
  ae_Action :: string
  ae_Resource :: string
  ae_Plane :: string
  ae_Vendor :: string
  ae_ControlSurface :: string
  ae_Before :: "(string \<times> json) list option"
  ae_After :: "(string \<times> json) list option"
  ae_RequestID :: string

record ActivityEvent =
  av_ID :: int
  av_Source :: string
  av_Message :: string
  av_Detail :: string
  av_CreatedAt :: time

record Credential =
  cr_ID :: string
  cr_Name :: string
  cr_Provider :: string
  cr_Type :: string
  cr_SecretRef :: string
  cr_Metadata :: "(string \<times> string) list"
  cr_Status :: Status
  cr_CreatedAt :: time
  cr_UpdatedAt :: time

record DriftRecord =
  dr_ID :: int
  dr_Vendor :: string
  dr_Capability :: string
  dr_Plane :: string
  dr_Surface :: string
  dr_Declared :: string
  dr_Actual :: string
  dr_Severity :: string
  dr_Message :: string
  dr_DetectedAt :: time

record CoverageRow =
  cv_Vendor :: string
  cv_Capability :: string
  cv_Plane :: string
  cv_Disposition :: string
  cv_Enforcement :: string
  cv_Outcome :: string
  cv_Signal :: Signal

record CoverageReport =
  rep_Baseline :: string
  rep_AppliedAt :: time
  rep_Rows :: "CoverageRow list"
  rep_Summary :: "(string \<times> int) list"

record EnforcementReport =
  er_GatewayID :: string
  er_BaseURL :: string
  er_Action :: string
  er_Detectors :: "string list"
  er_Vendors :: "(string \<times> string list) list"
  er_At :: time

record InferenceCapture =
  ic_ID :: int
  ic_AdapterID :: string
  ic_GatewayRequestID :: string
  ic_Path :: string
  ic_Body :: string
  ic_Truncated :: bool
  ic_AuthFingerprint :: string
  ic_Stream :: bool
  ic_ReceivedAt :: time

text \<open>Heartbeat interval and the window after which a heartbeat is no longer believed, in nanoseconds.\<close>

definition second :: int where "second = 1000000000"

definition GatewayHeartbeatInterval :: int where "GatewayHeartbeatInterval = 15 * second"
definition GatewayStaleAfter :: int where "GatewayStaleAfter = 3 * GatewayHeartbeatInterval"

section \<open>Random identifiers\<close>

text \<open>
  \<open>NewUUID\<close> on sixteen random bytes: the version and variant bits are forced, then the five groups
  are written in hexadecimal.
\<close>

definition force_bits :: "nat \<Rightarrow> nat \<Rightarrow> char \<Rightarrow> char" where
  "force_bits keep bits c = chr (byte c mod keep + bits)"

definition NewUUID :: "string \<Rightarrow> string" where
  "NewUUID rnd =
     (let b = rnd[6 := force_bits 16 64 (rnd ! 6), 8 := force_bits 64 128 (rnd ! 8)]
      in hex_encode (take 4 b) @ ''-'' @ hex_encode (take 2 (drop 4 b)) @ ''-'' @
         hex_encode (take 2 (drop 6 b)) @ ''-'' @ hex_encode (take 2 (drop 8 b)) @ ''-'' @
         hex_encode (take 6 (drop 10 b)))"

section \<open>Timestamps as text\<close>

text \<open>
  \<open>Format\<close> of a UTC time. Go's zero time, the first day of year 1, is time 0 here, so the number of
  whole days since then determines the proleptic Gregorian date: 400, 100, 4 and 1 years have
  146097, 36524, 1461 and 365 days.
\<close>

definition leap :: "nat \<Rightarrow> bool" where
  "leap y \<longleftrightarrow> y mod 4 = 0 \<and> (y mod 100 \<noteq> 0 \<or> y mod 400 = 0)"

definition month_days :: "nat \<Rightarrow> nat list" where
  "month_days y = [31, if leap y then 29 else 28, 31, 30, 31, 30, 31, 31, 30, 31, 30, 31]"

fun month_of :: "nat \<Rightarrow> nat list \<Rightarrow> nat \<Rightarrow> nat \<times> nat" where
  "month_of m [] d = (m, d + 1)"
| "month_of m (n # ns) d = (if d < n then (m, d + 1) else month_of (Suc m) ns (d - n))"

definition civil :: "nat \<Rightarrow> nat \<times> nat \<times> nat" where
  "civil days =
     (let r400 = days mod 146097; c = min 3 (r400 div 36524); r100 = r400 - c * 36524;
          r4 = r100 mod 1461; q = min 3 (r4 div 365);
          y = 400 * (days div 146097) + 100 * c + 4 * (r100 div 1461) + q + 1
      in case month_of 1 (month_days y) (r4 - q * 365) of (m, d) \<Rightarrow> (y, m, d))"

definition date_time :: "time \<Rightarrow> string" where
  "date_time t =
     (let secs = nat (t div second); s = secs mod 86400 in
      case civil (secs div 86400) of (y, m, d) \<Rightarrow>
        pad_zero 4 y @ ''-'' @ pad_zero 2 m @ ''-'' @ pad_zero 2 d @ ''T'' @
        pad_zero 2 (s div 3600) @ '':'' @ pad_zero 2 (s div 60 mod 60) @ '':'' @ pad_zero 2 (s mod 60))"

definition rfc3339 :: "time \<Rightarrow> string" where
  "rfc3339 t = date_time t @ ''Z''"

definition rfc3339_millis :: "time \<Rightarrow> string" where
  "rfc3339_millis t = date_time t @ ''.'' @ pad_zero 3 (nat (t div 1000000 mod 1000)) @ ''Z''"

section \<open>The observation contract\<close>

definition BuildBatch :: "string \<Rightarrow> Adapter \<Rightarrow> time \<Rightarrow> int \<Rightarrow> json list \<Rightarrow> json list \<Rightarrow> (string \<times> json) list" where
  "BuildBatch rnd adapter ts win observations errors =
    [(''contract'', JStr ObservationContract),
     (''batch_id'', JStr (NewUUID rnd)),
     (''connector'', JObj
       [(''type'', JStr ''ai-vendor''),
        (''instance'', JStr (ad_ID adapter)),
        (''api_version'', JStr (ad_APIVersion adapter))]),
     (''collected_at'', JStr (rfc3339 ts)),
     (''window'', JObj
       [(''from'', JStr (rfc3339 (ts - win))),
        (''to'', JStr (rfc3339 ts))]),
     (''cursor'', JObj [(''input'', JNull), (''output'', JNull)]),
     (''complete'', JBool (errors = [])),
     (''observations'', JArr observations),
     (''errors'', JArr errors)]"

definition Obs ::
    "string \<Rightarrow> string \<Rightarrow> json \<Rightarrow> string \<Rightarrow> string \<Rightarrow> string \<Rightarrow> string \<Rightarrow> string \<Rightarrow> string \<Rightarrow>
     (string \<times> json) list \<Rightarrow> string \<Rightarrow> string \<Rightarrow> json" where
  "Obs kind name value unit status severity plane vendor surface extraDims fixture sourceURL =
     (let dims = [(''plane'', JStr plane), (''vendor'', JStr vendor), (''control_surface'', JStr surface)];
          dims = foldl (\<lambda>m (k, v). AList.update k v m) dims extraDims
      in JObj
        [(''kind'', JStr kind),
         (''signal'', JObj
           [(''name'', JStr name), (''value'', value), (''unit'', JStr unit),
            (''status'', JStr status), (''severity'', JStr severity)]),
         (''dimensions'', JObj dims),
         (''provenance'', JObj [(''fixture'', JStr fixture), (''source_url'', JStr sourceURL)])])"

text \<open>A UUID has the shape and the version and variant digits of RFC 4122.\<close>

lemma length_NewUUID: "length rnd = 16 \<Longrightarrow> length (NewUUID rnd) = 36"
  by (simp add: NewUUID_def Let_def)

lemma civil_examples:
  "civil 0 = (1, 1, 1)" "civil 719162 = (1970, 1, 1)" "civil 146096 = (400, 12, 31)"
  "civil 738944 = (2024, 2, 29)"
  by (simp_all add: civil_def month_days_def leap_def Let_def)

end
