(* ===== verification/Catalog.thy ===== *)
theory Catalog
  imports Control_Model
begin

text \<open>
  The vendor catalog (\<open>internal/catalog\<close>): what each governed vendor surface exposes, with the
  disposition of every control, the metrics the emitter walks and the cost drill-downs each vendor
  really supports. The tables are the literals of \<open>vendors.go\<close> and \<open>cost_facets.go\<close>, entry by
  entry; characters outside ASCII are their UTF-8 bytes.
\<close>

section \<open>Records and constructors\<close>

record MetricDef =
  md_Key :: string
  md_Name :: string
  md_Unit :: string
  md_Plane :: string
  md_Surface :: string
  md_Kind :: string
  md_Baseline :: float64
  md_Min :: float64
  md_Max :: float64
  md_Step :: float64
  md_Green :: float64
  md_Amber :: float64
  md_Polarity :: string
  md_Decimals :: int
  md_Model :: string
  md_SourceURL :: string

record FacetMember =
  fm_Key :: string
  fm_Label :: string
  fm_Weight :: float64

record CostFacet =
  cf_Dimension :: string
  cf_Label :: string
  cf_Supported :: bool
  cf_RealParam :: string
  cf_Endpoint :: string
  cf_ResponseField :: string
  cf_Reason :: string
  cf_Members :: "FacetMember list"

text \<open>An environment platform is the pair of its name and its enforcement tier.\<close>

record Definition =
  df_ID :: string
  df_Vendor :: string
  df_DisplayName :: string
  df_Family :: string
  df_APIVersion :: string
  df_Tier :: int
  df_BAASigned :: bool
  df_Capabilities :: "Capability list"
  df_Metrics :: "MetricDef list"
  df_EnvPlatforms :: "(string \<times> string) list"
  df_CostFacets :: "CostFacet list"

definition cap :: "string \<Rightarrow> string \<Rightarrow> string \<Rightarrow> string \<Rightarrow> string \<Rightarrow> string \<Rightarrow> Capability" where
  "cap key name plane disp mech endpoint =
     \<lparr>cap_Key = key, cap_Name = name, cap_Plane = plane, cap_Disposition = disp, cap_Enforcement = [],
      cap_Mechanism = mech, cap_Endpoint = endpoint, cap_DocumentationURL = [], cap_Retryable = False,
      cap_Note = []\<rparr>"

definition capEnv :: "string \<Rightarrow> string \<Rightarrow> string \<Rightarrow> string \<Rightarrow> string \<Rightarrow> string \<Rightarrow> Capability" where
  "capEnv key name plane enf mech endpoint =
     \<lparr>cap_Key = key, cap_Name = name, cap_Plane = plane, cap_Disposition = DispEnvManaged,
      cap_Enforcement = enf, cap_Mechanism = mech, cap_Endpoint = endpoint, cap_DocumentationURL = [],
      cap_Retryable = False, cap_Note = []\<rparr>"

definition with_note :: "Capability \<Rightarrow> string \<Rightarrow> Capability" where
  "with_note c n = c\<lparr>cap_Note := n\<rparr>"

definition agenticEnvCaps :: "Capability list" where
  "agenticEnvCaps =
     [capEnv ''mcp_allow_deny'' ''MCP Server Allow/Deny'' PlaneDeveloperWorkflow EnforcementMDMLocked
        ''Claude Code managed-settings.json'' [],
      capEnv ''shared_hooks'' ''Shared Hooks (pre-commit/test/scan)'' PlaneDeveloperWorkflow EnforcementMDMLocked
        ''managed-settings.json hooks'' [],
      capEnv ''code_review_gate'' ''Agentic Code-Review Gate'' PlaneDeveloperWorkflow EnforcementServerSide
        ''GitHub branch protection + required status checks'' [],
      capEnv ''cron_controls'' ''Scheduled-Job Controls'' PlaneDeveloperWorkflow EnforcementSeedOnly
        ''environment managed config'' []]"

definition budgetMetrics :: "string \<Rightarrow> string \<Rightarrow> MetricDef list" where
  "budgetMetrics vendor src =
     [\<lparr>md_Key = ''tokens_in'', md_Name = ''Input Tokens'', md_Unit = ''tokens'', md_Plane = PlaneBudget,
       md_Surface = DispVendorNative, md_Kind = ''metric'', md_Baseline = 142000, md_Min = 60000, md_Max = 240000,
       md_Step = 9000, md_Green = 200000, md_Amber = 230000, md_Polarity = ''lower'', md_Decimals = 0,
       md_Model = [], md_SourceURL = src\<rparr>,
      \<lparr>md_Key = ''tokens_out'', md_Name = ''Output Tokens'', md_Unit = ''tokens'', md_Plane = PlaneBudget,
       md_Surface = DispVendorNative, md_Kind = ''metric'', md_Baseline = 58000, md_Min = 20000, md_Max = 120000,
       md_Step = 5000, md_Green = 95000, md_Amber = 110000, md_Polarity = ''lower'', md_Decimals = 0,
       md_Model = [], md_SourceURL = src\<rparr>,
      \<lparr>md_Key = ''cost_usd'', md_Name = ''Spend (rolling)'', md_Unit = ''usd'', md_Plane = PlaneBudget,
       md_Surface = DispVendorNative, md_Kind = ''metric'', md_Baseline = 1180, md_Min = 400, md_Max = 2600,
       md_Step = 90, md_Green = 2000, md_Amber = 2400, md_Polarity = ''lower'', md_Decimals = 2,
       md_Model = [], md_SourceURL = src\<rparr>,
      \<lparr>md_Key = ''cap_utilization'', md_Name = ''Org Cap Utilization'', md_Unit = ''%'', md_Plane = PlaneBudget,
       md_Surface = DispMonitorOnly, md_Kind = ''metric'', md_Baseline = 47, md_Min = 20, md_Max = 99,
       md_Step = 3, md_Green = 80, md_Amber = 92, md_Polarity = ''lower'', md_Decimals = 1,
       md_Model = [], md_SourceURL = src\<rparr>,
      \<lparr>md_Key = ''p95_latency'', md_Name = ''Admin API P95'', md_Unit = ''ms'', md_Plane = PlaneObservability,
       md_Surface = DispVendorNative, md_Kind = ''metric'', md_Baseline = 220, md_Min = 110, md_Max = 900,
       md_Step = 40, md_Green = 400, md_Amber = 700, md_Polarity = ''lower'', md_Decimals = 0,
       md_Model = [], md_SourceURL = src\<rparr>]"

definition stateMetric :: "string \<Rightarrow> string \<Rightarrow> string \<Rightarrow> string \<Rightarrow> MetricDef" where
  "stateMetric key name plane surface =
     \<lparr>md_Key = key, md_Name = name, md_Unit = ''bool'', md_Plane = plane, md_Surface = surface,
      md_Kind = ''state'', md_Baseline = 1, md_Min = 1, md_Max = 1, md_Step = 0, md_Green = 1, md_Amber = 0,
      md_Polarity = ''higher'', md_Decimals = 0, md_Model = [], md_SourceURL = []\<rparr>"

section \<open>Vendors\<close>

definition openAI_caps :: "Capability list" where
  "openAI_caps =
    [cap ''user_management'' ''User / Invite Management'' PlaneDeveloperWorkflow DispVendorNative ''Admin API'' ''/admin/organization/users'',
     cap ''project_management'' ''Project Management'' PlaneDeveloperWorkflow DispVendorNative ''Admin API'' ''/admin/organization/projects'',
     cap ''model_access'' ''Per-Project Model Access'' PlaneDeveloperWorkflow DispVendorNative ''model_permissions allow/deny'' ''/admin/organization/projects/{id}/model_permissions'',
     cap ''spend_alerts'' ''Spend Alerts (soft)'' PlaneBudget DispVendorNative ''thresholds in cents'' ''/admin/organization/projects/{id}/spend_alerts'',
     cap ''rate_limits'' ''Per-Project Rate Limits'' PlaneBudget DispVendorNative (''set per-model '' @ [CHR 0xE2, CHR 0x89, CHR 0xA4] @ '' org'') ''/admin/organization/projects/{id}/rate_limits'',
     cap ''usage_metering'' ''Usage & Cost Metering'' PlaneBudget DispVendorNative ''daily granularity, USD'' ''/v1/organization/usage'',
     cap ''audit_logs'' ''Audit Logs (51 event types)'' PlaneObservability DispVendorNative ''cursor-paginated, Enterprise'' ''/admin/organization/audit_logs'',
     with_note (cap ''hard_spend_cap'' ''Hard Spend Cap'' PlaneBudget DispProxyEnforced ''org budget no longer hard-stops (2026)'' []) ''optional gateway required; else monitor_only'',
     cap ''zdr'' ''Zero Data Retention'' PlaneDataPolicy DispMonitorOnly ''Enterprise-negotiated; store=false'' [],
     cap ''training_opt_out'' ''Training Opt-Out'' PlaneDataPolicy DispVendorNative ''contractual default (API)'' [],
     cap ''data_residency'' ''Data Residency (10 regions)'' PlaneDataPolicy DispVendorNative ''project region, immutable'' [],
     cap ''content_safety'' ''Org Content-Safety Policy'' PlaneDataPolicy DispProxyEnforced ''no org-level safety API'' [],
     cap ''request_logs'' ''Request/Response Content Logs'' PlaneObservability DispMonitorOnly ''not customer-retrievable via API'' []]
    @ agenticEnvCaps"

definition openAI_metrics :: "MetricDef list" where
  "openAI_metrics =
    budgetMetrics ''openai'' ''https://api.openai.com/v1/organization/usage''
    @ [stateMetric ''training_opt_out'' ''Training Opt-Out'' PlaneDataPolicy DispVendorNative,
    stateMetric ''model_access'' ''Model Access Policy'' PlaneDeveloperWorkflow DispVendorNative,
    stateMetric ''mcp_allow'' ''MCP Allow-List'' PlaneDeveloperWorkflow DispEnvManaged]"

definition openAI :: Definition where
  "openAI =
    \<lparr>df_ID = ''openai'', df_Vendor = ''OpenAI'', df_DisplayName = ''OpenAI'', df_Family = ''api-platform'',
     df_APIVersion = ''2026-03-10'', df_Tier = 1, df_BAASigned = True,
     df_Capabilities = openAI_caps, df_Metrics = openAI_metrics,
     df_EnvPlatforms = [(''claude_code'', EnforcementMDMLocked), (''github'', EnforcementServerSide)], df_CostFacets = []\<rparr>"

definition anthropic_caps :: "Capability list" where
  "anthropic_caps =
    [cap ''user_management'' ''User / Invite Management'' PlaneDeveloperWorkflow DispVendorNative ''Admin API; 5 org roles'' ''/v1/organizations/users'',
     cap ''workspace_management'' ''Workspace Management'' PlaneDeveloperWorkflow DispVendorNative ''max 100; archive irreversible'' ''/v1/organizations/workspaces'',
     cap ''workspace_members'' ''Workspace Member Management'' PlaneDeveloperWorkflow DispVendorNative ''Admin API'' ''/v1/organizations/workspaces/{id}/members'',
     cap ''rate_limits'' ''Rate Limits (read-only)'' PlaneDeveloperWorkflow DispVendorNative ''changes require Console'' ''/v1/organizations/workspaces/{id}/rate_limits'',
     cap ''inference_geo'' ''Inference Geo Controls'' PlaneDataPolicy DispVendorNative ''us 1.1x; Opus/Sonnet 4.6+'' ''/v1/messages'',
     cap ''usage_metering'' ''Usage Report'' PlaneBudget DispVendorNative ''filter: key/workspace/model/geo'' ''/v1/organizations/usage_report/messages'',
     cap ''cost_report'' ''Cost Report'' PlaneBudget DispVendorNative ''USD, daily, by workspace'' ''/v1/organizations/cost_report'',
     cap ''compliance_activities'' ''Compliance Activity Feed'' PlaneObservability DispVendorNative ''30+ events, 180-day'' ''/v1/compliance/activities'',
     cap ''compliance_content'' ''Chat/File/Project Retrieval'' PlaneObservability DispVendorNative ''actual content (Enterprise)'' ''/v1/compliance/chats'',
     with_note (cap ''model_access'' ''Per-Workspace Model Access'' PlaneDeveloperWorkflow DispProxyEnforced ''no workspace model-permission API'' []) ''biggest gap vs OpenAI; env_managed for agentic'',
     cap ''workspace_spend_limit'' ''Workspace Spend Limits'' PlaneBudget DispMonitorOnly ''Console-only; no SET endpoint'' [],
     cap ''hard_spend_cap'' ''Hard Spend Cap'' PlaneBudget DispProxyEnforced ''no hard-cutoff API'' [],
     cap ''spend_alerting'' ''Spend Alerting'' PlaneBudget DispUnverified ''no confirmed creation API'' [],
     cap ''training_opt_out'' ''Training Opt-Out'' PlaneDataPolicy DispVendorNative ''contractual default ON'' [],
     cap ''zdr'' ''Zero Data Retention'' PlaneDataPolicy DispMonitorOnly ''eligible orgs; not self-serve'' [],
     cap ''retention'' ''API Log Retention (7-day)'' PlaneDataPolicy DispMonitorOnly ''30-day via DPA only'' [],
     cap ''content_safety'' ''Org Content-Safety Policy'' PlaneDataPolicy DispProxyEnforced ''system prompt only'' [],
     with_note (cap ''pii_redaction'' ''PII/PHI Redaction (inline)'' PlaneDataPolicy DispProxyEnforced ''inline gateway detector; mask/block pre-forward'' ''/v1/messages'') ''realized by the air-traffic-gateway data plane'']
    @ agenticEnvCaps"

definition anthropic_metrics :: "MetricDef list" where
  "anthropic_metrics =
    budgetMetrics ''anthropic'' ''https://api.anthropic.com/v1/organizations/usage_report/messages''
    @ [stateMetric ''training_opt_out'' ''Training Opt-Out'' PlaneDataPolicy DispVendorNative,
    stateMetric ''inference_geo'' ''Inference Geo'' PlaneDataPolicy DispVendorNative,
    stateMetric ''mcp_allow'' ''MCP Allow-List'' PlaneDeveloperWorkflow DispEnvManaged,
    stateMetric ''compliance_feed'' ''Compliance Feed'' PlaneObservability DispVendorNative]"

definition anthropic :: Definition where
  "anthropic =
    \<lparr>df_ID = ''anthropic'', df_Vendor = ''Anthropic'', df_DisplayName = ''Anthropic'', df_Family = ''api-platform'',
     df_APIVersion = ''2026-04-01'', df_Tier = 1, df_BAASigned = True,
     df_Capabilities = anthropic_caps, df_Metrics = anthropic_metrics,
     df_EnvPlatforms = [(''claude_code'', EnforcementMDMLocked), (''github'', EnforcementServerSide)], df_CostFacets = []\<rparr>"

definition bedrock_caps :: "Capability list" where
  "bedrock_caps =
    [cap ''model_access'' ''Model Access (IAM/SCP)'' PlaneDeveloperWorkflow DispVendorNative ''model-access page retired 2026'' [],
     cap ''abac'' ''Tag-Based Policies (ABAC)'' PlaneDeveloperWorkflow DispVendorNative ''IAM conditions'' [],
     cap ''agentcore_policy'' ''AgentCore Tool Policy'' PlaneDeveloperWorkflow DispVendorNative ''default-deny, compiled to Cedar'' [],
     cap ''guardrails'' ''Bedrock Guardrails'' PlaneDataPolicy DispVendorNative ''content filters + PII REDACT/ANONYMIZE/BLOCK'' [],
     cap ''org_guardrails'' ''Cross-Account Guardrails'' PlaneDataPolicy DispVendorNative ''BEDROCK_POLICY via Organizations'' ''DescribeEffectivePolicy'',
     cap ''invocation_logging'' ''Request/Response Logging'' PlaneDataPolicy DispVendorNative ''S3 + CloudWatch; identity.arn'' ''PutModelInvocationLoggingConfiguration'',
     cap ''audit_logs'' ''CloudTrail Audit'' PlaneObservability DispVendorNative ''all admin + data events'' [],
     cap ''usage_metering'' ''CloudWatch Usage Metrics'' PlaneBudget DispVendorNative ''aws/bedrock namespace'' [],
     cap ''cost_attribution'' ''Per-Principal Cost Attribution'' PlaneBudget DispVendorNative ''CUR 2.0 / Cost Explorer'' [],
     cap ''soft_alerts'' ''AWS Budgets Alerts'' PlaneBudget DispVendorNative ''tag-filtered SNS/email'' [],
     with_note (cap ''hard_spend_cap'' ''Hard Spend Cap'' PlaneBudget DispProxyEnforced ''no native cap; AWS prescribes proxy'' []) ''API-GW/Lambda+DynamoDB proxy; else monitor_only'',
     cap ''training_opt_out'' ''Training Opt-Out'' PlaneDataPolicy DispVendorNative ''contractual default'' [],
     cap ''data_residency'' ''Data Residency'' PlaneDataPolicy DispVendorNative ''region-scoped, VPC endpoints, CMEK'' []]
    @ agenticEnvCaps"

definition bedrock_metrics :: "MetricDef list" where
  "bedrock_metrics =
    budgetMetrics ''bedrock'' ''https://monitoring.amazonaws.com/aws/bedrock''
    @ [stateMetric ''guardrails'' ''Guardrails Active'' PlaneDataPolicy DispVendorNative,
    stateMetric ''org_guardrails'' ''Org Guardrail Policy'' PlaneDataPolicy DispVendorNative,
    stateMetric ''invocation_logging'' ''Invocation Logging'' PlaneDataPolicy DispVendorNative]"

definition bedrock :: Definition where
  "bedrock =
    \<lparr>df_ID = ''bedrock'', df_Vendor = ''AWS Bedrock'', df_DisplayName = ''AWS Bedrock'', df_Family = ''hyperscaler'',
     df_APIVersion = ''2023-09-30'', df_Tier = 1, df_BAASigned = True,
     df_Capabilities = bedrock_caps, df_Metrics = bedrock_metrics,
     df_EnvPlatforms = [(''github'', EnforcementServerSide)], df_CostFacets = []\<rparr>"

definition azureOpenAI_caps :: "Capability list" where
  "azureOpenAI_caps =
    [cap ''rbac'' ''Model Access (RBAC)'' PlaneDeveloperWorkflow DispVendorNative ''4 built-in roles via ARM'' [],
     cap ''deployment_management'' ''Deployment + PTU'' PlaneDeveloperWorkflow DispVendorNative ''ProvisionedManaged SKU'' [],
     cap ''content_filters'' ''Content Filters'' PlaneDataPolicy DispVendorNative (''per-deployment, 4 categories '' @ [CHR 0xC3, CHR 0x97] @ '' thresholds'') [],
     cap ''usage_quota'' ''TPM Quota / Usage'' PlaneBudget DispVendorNative ''Usages API currentValue/limit'' ''/locations/{loc}/usages'',
     cap ''request_logging'' ''Request/Response Logging'' PlaneDataPolicy DispVendorNative ''Diagnostic RequestResponseLog; off by default'' [],
     cap ''usage_metering'' ''Token Metrics'' PlaneObservability DispVendorNative ''TokensProcessed; x-ratelimit-* headers'' [],
     cap ''cost_budgets'' ''Cost Management Budgets'' PlaneBudget DispVendorNative ''action groups; no native OAI cap'' [],
     cap ''training_opt_out'' ''Training Opt-Out'' PlaneDataPolicy DispVendorNative ''Azure DPA / OST'' [],
     cap ''data_residency'' ''Data Residency'' PlaneDataPolicy DispVendorNative ''region + Azure Policy'' [],
     with_note (cap ''per_user_routing'' ''Per-User Model Routing'' PlaneDeveloperWorkflow DispProxyEnforced ''RBAC controls mgmt, not runtime model'' []) ''gateway required'',
     cap ''pii_redaction'' ''PII Redaction'' PlaneDataPolicy DispProxyEnforced ''separate AI Content Safety / proxy'' [],
     cap ''audit_logs'' ''Activity Log Audit'' PlaneObservability DispVendorNative ''control-plane operations'' [],
     cap ''agentic_logs'' ''Agentic Action Logs'' PlaneObservability DispUnverified ''Foundry tracing exists; enterprise API unconfirmed'' []]
    @ agenticEnvCaps"

definition azureOpenAI_metrics :: "MetricDef list" where
  "azureOpenAI_metrics =
    budgetMetrics ''azure_openai'' ''https://management.azure.com/.../usages''
    @ [stateMetric ''content_filters'' ''Content Filters'' PlaneDataPolicy DispVendorNative,
    stateMetric ''request_logging'' ''Request Logging'' PlaneDataPolicy DispVendorNative,
    stateMetric ''training_opt_out'' ''Training Opt-Out'' PlaneDataPolicy DispVendorNative]"

definition azureOpenAI :: Definition where
  "azureOpenAI =
    \<lparr>df_ID = ''azure_openai'', df_Vendor = ''Azure OpenAI'', df_DisplayName = ''Azure OpenAI Service'', df_Family = ''hyperscaler'',
     df_APIVersion = ''2024-10-01'', df_Tier = 1, df_BAASigned = True,
     df_Capabilities = azureOpenAI_caps, df_Metrics = azureOpenAI_metrics,
     df_EnvPlatforms = [(''vs_code'', EnforcementMDMLocked), (''github'', EnforcementServerSide)], df_CostFacets = []\<rparr>"

definition vertex_caps :: "Capability list" where
  "vertex_caps =
    [cap ''iam_roles'' ''Model Access (IAM)'' PlaneDeveloperWorkflow DispVendorNative ''aiplatform.* roles + ABAC'' [],
     cap ''agent_engine'' ''Agent Engine Deployment'' PlaneDeveloperWorkflow DispVendorNative ''VPC-SC compliant'' [],
     cap ''tool_governance'' ''Tool Governance (API Registry)'' PlaneDeveloperWorkflow DispVendorNative ''org allow/deny for agent tools'' [],
     cap ''model_armor'' ''Model Armor Safety'' PlaneDataPolicy DispVendorNative ''prompt/response + injection screening (GA 2026)'' [],
     cap ''zdr'' ''Zero Data Retention'' PlaneDataPolicy DispVendorNative ''store=false self-serve'' [],
     with_note (cap ''data_access_logs'' ''Data Access Audit Logs'' PlaneObservability DispVendorNative (''DISABLED by default '' @ [CHR 0xE2, CHR 0x80, CHR 0x94] @ '' common misconfig'') []) ''admins must enable Data Read logs'',
     cap ''spend_caps'' ''Project Hard Spend Caps'' PlaneBudget DispVendorNative (''Next '' @ [CHR 0x27] @ ''26; pauses traffic'') [],
     cap ''soft_alerts'' ''Cloud Billing Budgets'' PlaneBudget DispVendorNative ''Pub/Sub or email'' [],
     cap ''usage_metering'' ''Cloud Monitoring AI Metrics'' PlaneBudget DispVendorNative ''token/latency/error per model'' [],
     cap ''cost_metering'' ''Billing Export (BigQuery)'' PlaneBudget DispVendorNative ''per-label attribution'' [],
     cap ''audit_logs'' ''Cloud Audit Logs'' PlaneObservability DispVendorNative ''Admin always-on'' [],
     with_note (cap ''per_user_caps'' ''Per-User Token Caps'' PlaneBudget DispProxyEnforced ''Spend Caps project-level only'' []) ''gateway required'',
     cap ''training_opt_out'' ''Training Opt-Out'' PlaneDataPolicy DispVendorNative ''contractual'' []]
    @ agenticEnvCaps"

definition vertex_metrics :: "MetricDef list" where
  "vertex_metrics =
    budgetMetrics ''vertex'' ''https://monitoring.googleapis.com/v3/projects''
    @ [stateMetric ''model_armor'' ''Model Armor'' PlaneDataPolicy DispVendorNative,
    stateMetric ''data_access_logs'' ''Data Access Logs'' PlaneObservability DispVendorNative,
    stateMetric ''zdr'' ''Zero Data Retention'' PlaneDataPolicy DispVendorNative]"

definition vertex :: Definition where
  "vertex =
    \<lparr>df_ID = ''vertex'', df_Vendor = ''Google Vertex'', df_DisplayName = ''Google Vertex AI / Gemini'', df_Family = ''hyperscaler'',
     df_APIVersion = ''v1'', df_Tier = 1, df_BAASigned = True,
     df_Capabilities = vertex_caps, df_Metrics = vertex_metrics,
     df_EnvPlatforms = [(''github'', EnforcementServerSide)], df_CostFacets = []\<rparr>"

definition githubCopilot_caps :: "Capability list" where
  "githubCopilot_caps =
    [cap ''seat_management'' ''Seat Management'' PlaneDeveloperWorkflow DispVendorNative ''assign/revoke'' ''/enterprises/{e}/copilot/billing/seats'',
     cap ''content_exclusion'' ''Content Exclusions'' PlaneDeveloperWorkflow DispVendorNative ''file/repo glob patterns'' ''/enterprises/{e}/copilot/content_exclusion'',
     cap ''usage_billing'' ''AI Credit Usage Billing'' PlaneBudget DispVendorNative ''1 credit = $0.01'' ''/enterprises/{e}/billing/usage'',
     cap ''metrics'' ''Copilot Metrics'' PlaneBudget DispVendorNative ''28-day rolling, 1-yr history'' ''/enterprises/{e}/copilot/metrics'',
     cap ''audit_logs'' ''Audit Log + Agent Control Plane'' PlaneObservability DispVendorNative ''actor_is_agent, agent_session.task (GA Feb 2026)'' [],
     with_note (cap ''feature_policy'' ''Feature/Model/MCP Policy'' PlaneDeveloperWorkflow DispMonitorOnly ''AI Controls tab; portal-only'' []) ''no documented REST API for toggles'',
     capEnv ''code_review_gate'' ''Agentic Code-Review Gate'' PlaneDeveloperWorkflow EnforcementServerSide ''GitHub branch protection + required status checks'' [],
     cap ''training_opt_out'' ''Training Opt-Out'' PlaneDataPolicy DispVendorNative ''Business/Enterprise default'' [],
     cap ''public_code_filter'' ''Public Code Filter'' PlaneDataPolicy DispVendorNative ''duplicate detection policy'' [],
     cap ''hard_spend_cap'' ''Hard Spend Cap / Rate Limit'' PlaneBudget DispProxyEnforced ''no native cap on AI credit spend'' [],
     cap ''content_logs'' ''Prompt/Response Content'' PlaneObservability DispMonitorOnly ''audit metadata only'' [],
     cap ''data_residency'' ''Data Residency'' PlaneDataPolicy DispUnverified ''Copilot-specific residency unclear'' []]
    @ [capEnv ''mcp_allow_deny'' ''MCP Server Registry'' PlaneDeveloperWorkflow EnforcementServerSide ''Copilot MCP registry-only allowlist'' [],
    capEnv ''shared_hooks'' ''Shared Hooks'' PlaneDeveloperWorkflow EnforcementMDMLocked ''managed config'' []]"

definition githubCopilot_metrics :: "MetricDef list" where
  "githubCopilot_metrics =
    budgetMetrics ''github_copilot'' ''https://api.github.com/enterprises/acme/copilot/metrics''
    @ [stateMetric ''content_exclusion'' ''Content Exclusions'' PlaneDeveloperWorkflow DispVendorNative,
    stateMetric ''code_review_gate'' ''Code-Review Gate'' PlaneDeveloperWorkflow DispEnvManaged,
    stateMetric ''agent_audit'' ''Agent Control Plane Audit'' PlaneObservability DispVendorNative]"

definition githubCopilot :: Definition where
  "githubCopilot =
    \<lparr>df_ID = ''github_copilot'', df_Vendor = ''GitHub Copilot'', df_DisplayName = ''GitHub Copilot'', df_Family = ''coding-assistant'',
     df_APIVersion = ''2026-03-10'', df_Tier = 1, df_BAASigned = False,
     df_Capabilities = githubCopilot_caps, df_Metrics = githubCopilot_metrics,
     df_EnvPlatforms = [(''github'', EnforcementServerSide), (''vs_code'', EnforcementMDMLocked)], df_CostFacets = []\<rparr>"

definition m365Copilot_caps :: "Capability list" where
  "m365Copilot_caps =
    [cap ''license_assignment'' ''License Assignment'' PlaneDeveloperWorkflow DispVendorNative ''Graph group-based licensing'' ''/groups/{id}/assignLicense'',
     cap ''usage_reports'' ''Usage / Adoption Reports'' PlaneBudget DispVendorNative ''Graph Reports API'' ''/reports/microsoft365CopilotUsageUserDetail'',
     cap ''unified_audit'' ''Purview Unified Audit Log'' PlaneObservability DispVendorNative ''AIAppInteraction, AgentId; 180-day'' [],
     cap ''dlp_ai'' ''DLP for AI Interactions'' PlaneDataPolicy DispVendorNative ''Purview endpoint DLP'' [],
     cap ''sensitivity_labels'' ''Sensitivity Label Enforcement'' PlaneDataPolicy DispVendorNative ''automatic'' [],
     cap ''data_residency'' ''Advanced Data Residency'' PlaneDataPolicy DispVendorNative ''ADR + Multi-Geo'' [],
     cap ''training_opt_out'' ''Training Opt-Out'' PlaneDataPolicy DispVendorNative ''Microsoft Product Terms'' [],
     cap ''spend_cap'' ''Token-Level Spend Cap'' PlaneBudget DispMonitorOnly ''license-priced; no budgeting'' [],
     cap ''app_toggle'' ''Per-App Copilot Toggle'' PlaneDeveloperWorkflow DispMonitorOnly ''Admin Center; portal-only'' [],
     cap ''mcp_controls'' ''MCP Integration Controls'' PlaneDeveloperWorkflow DispUnverified ''no org-level MCP policy API'' []]"

definition m365Copilot_metrics :: "MetricDef list" where
  "m365Copilot_metrics =
    budgetMetrics ''m365_copilot'' ''https://graph.microsoft.com/v1.0/reports''
    @ [stateMetric ''dlp_ai'' ''DLP for AI'' PlaneDataPolicy DispVendorNative,
    stateMetric ''unified_audit'' ''Unified Audit'' PlaneObservability DispVendorNative]"

definition m365Copilot :: Definition where
  "m365Copilot =
    \<lparr>df_ID = ''m365_copilot'', df_Vendor = ''Microsoft 365 Copilot'', df_DisplayName = ''Microsoft 365 Copilot'', df_Family = ''productivity'',
     df_APIVersion = ''v1.0'', df_Tier = 2, df_BAASigned = True,
     df_Capabilities = m365Copilot_caps, df_Metrics = m365Copilot_metrics,
     df_EnvPlatforms = [], df_CostFacets = []\<rparr>"

definition mistral_caps :: "Capability list" where
  "mistral_caps =
    [cap ''workspaces'' ''Organizations + Workspaces'' PlaneDeveloperWorkflow DispVendorNative ''Admin API (Preview)'' ''/beta/admin/workspaces'',
     cap ''user_management'' ''User Management + Invites'' PlaneDeveloperWorkflow DispVendorNative ''Admin API'' ''/beta/admin/users'',
     cap ''api_keys'' ''API Key Management'' PlaneDeveloperWorkflow DispVendorNative ''workspace-scoped'' ''/beta/admin/api-keys'',
     cap ''mcp_connectors'' ''Per-Workspace MCP Connectors'' PlaneDeveloperWorkflow DispVendorNative ''rare native MCP control'' [],
     cap ''billing'' ''Billing API'' PlaneBudget DispVendorNative ''Preview'' ''/beta/admin/billing'',
     cap ''analytics'' ''Usage / Analytics API'' PlaneBudget DispVendorNative ''Preview'' ''/beta/admin/analytics'',
     cap ''spend_limits'' ''Per-Workspace Spend Limits'' PlaneBudget DispVendorNative ''Admin Panel + billing endpoint'' [],
     cap ''training_opt_out'' ''Training Opt-Out'' PlaneDataPolicy DispVendorNative ''Teams/Enterprise default'' [],
     cap ''retention'' ''Chat Retention Policy'' PlaneDataPolicy DispVendorNative ''30-90d / 180d / 1yr'' [],
     with_note (cap ''model_access'' ''Per-Workspace Model Access'' PlaneDeveloperWorkflow DispProxyEnforced ''no model-level allow/deny'' []) ''confirmed negative'',
     cap ''audit_logs'' ''Audit Logs (panel)'' PlaneObservability DispMonitorOnly ''no export / retrieval API'' []]"

definition mistral_metrics :: "MetricDef list" where
  "mistral_metrics =
    budgetMetrics ''mistral'' ''https://api.mistral.ai/beta/admin/analytics''
    @ [stateMetric ''mcp_connectors'' ''MCP Connectors'' PlaneDeveloperWorkflow DispVendorNative,
    stateMetric ''training_opt_out'' ''Training Opt-Out'' PlaneDataPolicy DispVendorNative]"

definition mistral :: Definition where
  "mistral =
    \<lparr>df_ID = ''mistral'', df_Vendor = ''Mistral AI'', df_DisplayName = ''Mistral AI'', df_Family = ''api-platform'',
     df_APIVersion = ''beta-admin'', df_Tier = 2, df_BAASigned = False,
     df_Capabilities = mistral_caps, df_Metrics = mistral_metrics,
     df_EnvPlatforms = [], df_CostFacets = []\<rparr>"

definition databricks_caps :: "Capability list" where
  "databricks_caps =
    [cap ''model_policies'' ''Foundation Model Access Policies'' PlaneDeveloperWorkflow DispVendorNative ''by provider/country/approval/tags'' [],
     cap ''service_policies'' ''Contextual Service Policies'' PlaneDeveloperWorkflow DispVendorNative ''allow/deny/approve agentic actions (Beta)'' [],
     cap ''mcp_governance'' ''MCP Service Governance'' PlaneDeveloperWorkflow DispVendorNative ''Unity Catalog managed integrations'' [],
     cap ''pii_injection'' ''PII + Injection Detection'' PlaneDataPolicy DispVendorNative ''policy enforcement layer'' [],
     cap ''hard_spend_cap'' ''Hard Spend Caps w/ Auto-Stop'' PlaneBudget DispVendorNative ''Data+AI Summit 2026'' [],
     cap ''tracing'' ''Unified Tracing (model + MCP)'' PlaneObservability DispVendorNative ''end-to-end agent traces'' []]"

definition databricks_metrics :: "MetricDef list" where
  "databricks_metrics =
    budgetMetrics ''databricks'' ''https://accounts.cloud.databricks.com/api''
    @ [stateMetric ''mcp_governance'' ''MCP Governance'' PlaneDeveloperWorkflow DispVendorNative,
    stateMetric ''hard_spend_cap'' ''Hard Spend Cap'' PlaneBudget DispVendorNative]"

definition databricks :: Definition where
  "databricks =
    \<lparr>df_ID = ''databricks'', df_Vendor = ''Databricks'', df_DisplayName = ''Databricks Unity AI Gateway'', df_Family = ''hyperscaler'',
     df_APIVersion = ''2.0'', df_Tier = 2, df_BAASigned = True,
     df_Capabilities = databricks_caps, df_Metrics = databricks_metrics,
     df_EnvPlatforms = [], df_CostFacets = []\<rparr>"

definition perplexity_caps :: "Capability list" where
  "perplexity_caps =
    [cap ''webhook_audit'' ''Real-Time Webhook Audit Log'' PlaneObservability DispVendorNative ''HTTP POST; SIEM-ready; 50+ seats'' [],
     cap ''agentic_audit'' ''Agentic Action / Connector Audit'' PlaneObservability DispVendorNative ''step visibility'' [],
     cap ''sso'' ''SSO / SAML 2.0'' PlaneDeveloperWorkflow DispVendorNative ''Okta, Azure AD, Google'' [],
     cap ''scim'' ''SCIM Provisioning'' PlaneDeveloperWorkflow DispVendorNative ''directory sync'' [],
     cap ''training_opt_out'' ''No Training on Enterprise Data'' PlaneDataPolicy DispVendorNative ''default'' []]"

definition perplexity_metrics :: "MetricDef list" where
  "perplexity_metrics =
    budgetMetrics ''perplexity'' ''https://api.perplexity.ai/enterprise''
    @ [stateMetric ''webhook_audit'' ''Webhook Audit'' PlaneObservability DispVendorNative]"

definition perplexity :: Definition where
  "perplexity =
    \<lparr>df_ID = ''perplexity'', df_Vendor = ''Perplexity'', df_DisplayName = ''Perplexity Enterprise Pro'', df_Family = ''api-platform'',
     df_APIVersion = ''enterprise'', df_Tier = 2, df_BAASigned = False,
     df_Capabilities = perplexity_caps, df_Metrics = perplexity_metrics,
     df_EnvPlatforms = [], df_CostFacets = []\<rparr>"

definition cohere_caps :: "Capability list" where
  "cohere_caps =
    [cap ''training_opt_out'' ''Training Opt-Out'' PlaneDataPolicy DispMonitorOnly ''Dashboard: Data Controls'' [],
     cap ''retention'' ''30-Day Log Retention'' PlaneDataPolicy DispVendorNative ''policy-enforced auto-delete'' [],
     cap ''spend_limit'' ''Monthly Spending Limit'' PlaneBudget DispMonitorOnly ''Dashboard: Billing'' [],
     cap ''zdr'' ''Zero Data Retention'' PlaneDataPolicy DispMonitorOnly ''Enterprise; email support'' [],
     with_note (cap ''per_key_cap'' ''Per-Key Spend Cap'' PlaneBudget DispProxyEnforced ''org-level only'' []) ''no per-key limits'']"

definition cohere_metrics :: "MetricDef list" where
  "cohere_metrics =
    budgetMetrics ''cohere'' ''https://api.cohere.com/v1''
    @ [stateMetric ''training_opt_out'' ''Training Opt-Out'' PlaneDataPolicy DispMonitorOnly]"

definition cohere :: Definition where
  "cohere =
    \<lparr>df_ID = ''cohere'', df_Vendor = ''Cohere'', df_DisplayName = ''Cohere'', df_Family = ''api-platform'',
     df_APIVersion = ''v1'', df_Tier = 2, df_BAASigned = False,
     df_Capabilities = cohere_caps, df_Metrics = cohere_metrics,
     df_EnvPlatforms = [], df_CostFacets = []\<rparr>"

definition together_caps :: "Capability list" where
  "together_caps =
    [cap ''scoped_keys'' ''Project-Scoped API Keys'' PlaneDeveloperWorkflow DispVendorNative (''key in project A '' @ [CHR 0xE2, CHR 0x86, CHR 0x92] @ '' project A only'') [],
     cap ''key_expiry'' ''Key Expiration Dates'' PlaneDeveloperWorkflow DispVendorNative ''settable per-key'' [],
     cap ''zdr'' ''Zero Data Retention'' PlaneDataPolicy DispVendorNative ''self-serve toggle'' [],
     cap ''training_opt_out'' ''Training Opt-Out'' PlaneDataPolicy DispVendorNative ''opt-in, off by default'' [],
     cap ''cost_attribution'' ''Cost by api_key_id'' PlaneBudget DispVendorNative ''returned on inference'' [],
     cap ''org_limits'' ''Org-Level Usage Limits'' PlaneBudget DispVendorNative ''apply at org level'' [],
     with_note (cap ''per_key_cap'' ''Per-Key Spend Cap'' PlaneBudget DispProxyEnforced (''can'' @ [CHR 0x27] @ ''t cap/rate-limit individual keys'') []) ''explicit negative'',
     cap ''audit_logs'' ''Audit Logs'' PlaneObservability DispMonitorOnly ''not documented'' []]"

definition together_metrics :: "MetricDef list" where
  "together_metrics =
    budgetMetrics ''together'' ''https://api.together.xyz/v1''
    @ [stateMetric ''zdr'' ''Zero Data Retention'' PlaneDataPolicy DispVendorNative]"

definition together :: Definition where
  "together =
    \<lparr>df_ID = ''together'', df_Vendor = ''Together AI'', df_DisplayName = ''Together AI'', df_Family = ''api-platform'',
     df_APIVersion = ''v1'', df_Tier = 2, df_BAASigned = False,
     df_Capabilities = together_caps, df_Metrics = together_metrics,
     df_EnvPlatforms = [], df_CostFacets = []\<rparr>"

definition groq_caps :: "Capability list" where
  "groq_caps =
    [cap ''spend_cap'' ''Monthly Org Spend Cap'' PlaneBudget DispMonitorOnly ''Dashboard UI only'' [],
     cap ''alert_thresholds'' ''Alert Thresholds (50/75/90%)'' PlaneBudget DispMonitorOnly ''UI only'' [],
     cap ''rate_limits'' ''Org-Level Rate Limits'' PlaneBudget DispVendorNative ''shared across keys'' [],
     cap ''training_opt_out'' ''Training Opt-Out'' PlaneDataPolicy DispUnverified ''not documented'' []]"

definition groq_metrics :: "MetricDef list" where
  "groq_metrics =
    budgetMetrics ''groq'' ''https://api.groq.com/openai/v1''"

definition groq :: Definition where
  "groq =
    \<lparr>df_ID = ''groq'', df_Vendor = ''Groq'', df_DisplayName = ''Groq'', df_Family = ''api-platform'',
     df_APIVersion = ''v1'', df_Tier = 3, df_BAASigned = False,
     df_Capabilities = groq_caps, df_Metrics = groq_metrics,
     df_EnvPlatforms = [], df_CostFacets = []\<rparr>"

definition xai_caps :: "Capability list" where
  "xai_caps =
    [cap ''team_management'' ''Team Management'' PlaneDeveloperWorkflow DispVendorNative ''Grok Business'' [],
     cap ''sso'' ''SSO/SAML + SCIM'' PlaneDeveloperWorkflow DispVendorNative ''Enterprise tier'' [],
     cap ''training_opt_out'' ''No Training on Business Data'' PlaneDataPolicy DispVendorNative ''Business/Enterprise default'' [],
     cap ''rate_limits'' ''Custom Rate Limits'' PlaneBudget DispVendorNative ''Enterprise negotiated'' [],
     cap ''audit_logs'' ''Audit Logging'' PlaneObservability DispUnverified ''programmatic API unconfirmed'' []]"

definition xai_metrics :: "MetricDef list" where
  "xai_metrics =
    budgetMetrics ''xai'' ''https://api.x.ai/v1''"

definition xai :: Definition where
  "xai =
    \<lparr>df_ID = ''xai'', df_Vendor = ''xAI'', df_DisplayName = ''xAI Grok'', df_Family = ''api-platform'',
     df_APIVersion = ''v1'', df_Tier = 3, df_BAASigned = False,
     df_Capabilities = xai_caps, df_Metrics = xai_metrics,
     df_EnvPlatforms = [], df_CostFacets = []\<rparr>"

definition amazonQ_caps :: "Capability list" where
  "amazonQ_caps =
    [cap ''identity_center'' ''IAM Identity Center'' PlaneDeveloperWorkflow DispVendorNative ''trusted identity propagation'' [],
     cap ''guardrails'' ''Admin Guardrails'' PlaneDataPolicy DispVendorNative ''configurable'' [],
     cap ''cmek'' ''KMS CMEK'' PlaneDataPolicy DispVendorNative ''customer-managed keys'' [],
     cap ''audit_logs'' ''CloudTrail Audit'' PlaneObservability DispVendorNative ''propagated user identity'' [],
     cap ''spend_cap'' ''Per-Token Cap'' PlaneBudget DispMonitorOnly ''subscription tiers; proxy for per-token'' []]"

definition amazonQ_metrics :: "MetricDef list" where
  "amazonQ_metrics =
    budgetMetrics ''amazon_q'' ''https://docs.aws.amazon.com/amazonq/latest/qbusiness-ug/security-iam.html''"

definition amazonQ :: Definition where
  "amazonQ =
    \<lparr>df_ID = ''amazon_q'', df_Vendor = ''Amazon Q'', df_DisplayName = ''Amazon Q'', df_Family = ''hyperscaler'',
     df_APIVersion = ''2024'', df_Tier = 3, df_BAASigned = True,
     df_Capabilities = amazonQ_caps, df_Metrics = amazonQ_metrics,
     df_EnvPlatforms = [], df_CostFacets = []\<rparr>"

definition watsonx_caps :: "Capability list" where
  "watsonx_caps =
    [cap ''model_config'' ''Provider/Model/Policy Config'' PlaneDeveloperWorkflow DispVendorNative ''watsonx.ai'' [],
     cap ''agent_catalog'' ''Agent Catalog Publishing'' PlaneDeveloperWorkflow DispVendorNative ''watsonx Orchestrate'' [],
     cap ''multi_tenancy'' ''Isolated Tenants'' PlaneDataPolicy DispVendorNative ''watsonx.ai v2.4'' [],
     cap ''governance'' ''GRC Governance Framework'' PlaneObservability DispVendorNative ''watsonx.governance'' [],
     cap ''usage_controls'' ''Usage Controls'' PlaneBudget DispMonitorOnly ''admin UI'' []]"

definition watsonx_metrics :: "MetricDef list" where
  "watsonx_metrics =
    budgetMetrics ''watsonx'' ''https://us-south.ml.cloud.ibm.com''"

definition watsonx :: Definition where
  "watsonx =
    \<lparr>df_ID = ''watsonx'', df_Vendor = ''IBM watsonx'', df_DisplayName = ''IBM watsonx'', df_Family = ''hyperscaler'',
     df_APIVersion = ''2.4'', df_Tier = 3, df_BAASigned = True,
     df_Capabilities = watsonx_caps, df_Metrics = watsonx_metrics,
     df_EnvPlatforms = [], df_CostFacets = []\<rparr>"

section \<open>Cost facets\<close>

definition fm :: "string \<Rightarrow> string \<Rightarrow> float64 \<Rightarrow> FacetMember" where
  "fm key label weight = \<lparr>fm_Key = key, fm_Label = label, fm_Weight = weight\<rparr>"

definition cf :: "string \<Rightarrow> string \<Rightarrow> string \<Rightarrow> string \<Rightarrow> string \<Rightarrow> string \<Rightarrow> FacetMember list \<Rightarrow> CostFacet" where
  "cf dimn label realParam endpoint respField reason members =
     \<lparr>cf_Dimension = dimn, cf_Label = label, cf_Supported = True, cf_RealParam = realParam,
      cf_Endpoint = endpoint, cf_ResponseField = respField, cf_Reason = reason, cf_Members = members\<rparr>"

definition uf :: "string \<Rightarrow> string \<Rightarrow> string \<Rightarrow> CostFacet" where
  "uf dimn label reason =
     \<lparr>cf_Dimension = dimn, cf_Label = label, cf_Supported = False, cf_RealParam = [], cf_Endpoint = [],
      cf_ResponseField = [], cf_Reason = reason, cf_Members = []\<rparr>"

definition facets_openai :: "CostFacet list" where
  "facets_openai =
   [cf ''project'' ''By Project'' ''group_by[]=project_id'' ''/v1/organization/costs'' ''project_id'' ''Primary attribution unit; the only dimension the Costs API breaks USD spend down by, alongside line_item.''
      [fm ''proj_acme'' ''acme-prod'' 70, fm ''proj_lab'' ''acme-research'' 30],
    cf ''model'' ''By Model'' ''group_by[]=model'' ''/v1/organization/usage/completions'' ''model'' ''Usage API only (tokens/requests); model appears in Costs only inside the line_item string.''
      [fm ''gpt-4o'' ''gpt-4o'' 55, fm ''gpt-4o-mini'' ''gpt-4o-mini'' 30, fm ''o3-mini'' ''o3-mini'' 15],
    cf ''user'' ''By User'' ''group_by[]=user_id'' ''/v1/organization/usage/completions'' ''user_id'' ''Usage API only; null for service-account keys, so per-user USD spend is not native.''
      [fm ''user-42'' ''Ada Admin'' 60, fm ''user-7'' ''Sec Eng'' 40],
    cf ''api_key'' ''By API Key'' ''group_by[]=api_key_id'' ''/v1/organization/usage/completions'' ''api_key_id'' ''Groupable on both usage and costs reports, so per-key USD spend is native.''
      [fm ''key_acme_prod_a1b2'' ''acme-prod key'' 65, fm ''key_lab_ci_c3d4'' ''lab-ci key'' 35],
    cf ''sku'' ''By SKU / Line Item'' ''group_by[]=line_item'' ''/v1/organization/costs'' ''line_item'' ''Finest USD-cost breakdown OpenAI exposes; line_item embeds model + token-type as a billing SKU.''
      [fm ''gpt-4o, input'' ''gpt-4o input'' 50, fm ''gpt-4o, output'' ''gpt-4o output'' 30, fm ''gpt-4o-mini, input'' ''gpt-4o-mini input'' 20],
    cf ''service_tier'' ''By Service Tier'' ''group_by[]=service_tier'' ''/v1/organization/usage/completions'' ''service_tier'' ''A genuine Usage group_by enum (default/flex/priority).''
      [fm ''default'' ''default'' 70, fm ''flex'' ''flex'' 20, fm ''priority'' ''priority'' 10],
    uf ''workspace'' ''By Workspace'' (''OpenAI'' @ [CHR 0x27] @ ''s org sub-unit is the project, not a workspace; there is no workspace_id group_by.''),
    uf ''repo'' ''By Repo'' ''The Usage/Costs API has no source-repository concept.'',
    uf ''team'' ''By Team / Tag'' ''group_by accepts only a fixed enum; there is no team or cost-allocation-tag dimension.'',
    uf ''region'' ''By Region'' (''A project'' @ [CHR 0x27] @ ''s data-residency region is immutable metadata, not a group_by dimension.'')]"

definition facets_anthropic :: "CostFacet list" where
  "facets_anthropic =
   [cf ''workspace'' ''By Workspace'' ''group_by[]=workspace_id'' ''/v1/organizations/cost_report'' ''workspace_id'' (''The only dimension groupable on both usage and cost reports; Anthropic'' @ [CHR 0x27] @ ''s primary cost-attribution unit.'')
      [fm ''wrkspc_prod'' ''Production'' 65, fm ''wrkspc_research'' ''Research'' 35],
    cf ''model'' ''By Model'' ''group_by[]=model'' ''/v1/organizations/usage_report/messages'' ''model'' ''Usage report only; the cost report folds model into the free-text description.''
      [fm ''claude-opus-4-6'' ''claude-opus-4-6'' 60, fm ''claude-sonnet-4-6'' ''claude-sonnet-4-6'' 40],
    cf ''api_key'' ''By API Key'' ''group_by[]=api_key_id'' ''/v1/organizations/usage_report/messages'' ''api_key_id'' ''Usage report only; the cost report groups solely by workspace_id and description.''
      [fm ''apikey_01'' ''apikey_01'' 60, fm ''apikey_02'' ''apikey_02'' 40],
    cf ''service_tier'' ''By Service Tier'' ''group_by[]=service_tier'' ''/v1/organizations/usage_report/messages'' ''service_tier'' ''Usage report only; standard vs priority vs batch throughput tiers.''
      [fm ''standard'' ''standard'' 70, fm ''priority'' ''priority'' 20, fm ''batch'' ''batch'' 10],
    cf ''sku'' ''By SKU / Line Item'' ''group_by[]=description'' ''/v1/organizations/cost_report'' ''description'' (''The cost report'' @ [CHR 0x27] @ ''s per-line-item descriptor (model + token-type), the closest real SKU.'')
      [fm ''Claude Opus 4.6 - Input Tokens'' ''Opus 4.6 Input'' 45, fm ''Claude Sonnet 4.6 - Output Tokens'' ''Sonnet 4.6 Output'' 30, fm ''Cache Read'' ''Cache Read'' 25],
    uf ''user'' ''By User'' ''Usage/cost attribute to API keys and workspaces, never to individual user identities.'',
    uf ''project'' ''By Project'' (''The hierarchy is org'' @ [CHR 0xE2, CHR 0x86, CHR 0x92] @ ''workspace'' @ [CHR 0xE2, CHR 0x86, CHR 0x92] @ ''API key; there is no project entity (workspace_id is the equivalent).''),
    uf ''repo'' ''By Repo'' (''Anthropic'' @ [CHR 0x27] @ ''s API platform has no source-repository concept.''),
    uf ''region'' ''By Region'' ''Inference-geo is a runtime control on /v1/messages, not a result-level group_by.'',
    uf ''team'' ''By Team / Tag'' ''No arbitrary tag/team cost-allocation concept beyond workspace on either report.'']"

definition facets_bedrock :: "CostFacet list" where
  "facets_bedrock =
   [cf ''model'' ''By Model'' ''Dimensions:[{Name:ModelId}] (AWS/Bedrock namespace)'' ''CloudWatch GetMetricData'' ''MetricDataResults[].Label'' ''ModelId is first-class in CloudWatch for tokens/invocations, though not a standalone Cost Explorer dimension.''
      [fm ''anthropic.claude-opus-4-6'' ''claude-opus-4-6'' 60, fm ''anthropic.claude-sonnet-4-6'' ''claude-sonnet-4-6'' 40],
    cf ''workspace'' ''By Account'' ''GroupBy:[{Type:DIMENSION,Key:LINKED_ACCOUNT}]'' ''Cost Explorer GetCostAndUsage'' ''Groups[].Keys'' ''The AWS analog of a workspace is an Organizations member account (the native LINKED_ACCOUNT dimension).''
      [fm ''123456789012'' ''acme-prod'' 65, fm ''210987654321'' ''acme-research'' 35],
    cf ''project'' ''By Project'' ''GroupBy:[{Type:TAG,Key:Project}]'' ''Cost Explorer GetCostAndUsage'' ''Groups[].Keys'' ''Via an activated user-defined cost-allocation tag named Project, not a built-in dimension.''
      [fm ''Project$acme-prod'' ''acme-prod'' 70, fm ''Project$acme-research'' ''acme-research'' 30],
    cf ''team'' ''By Team / Tag'' ''GroupBy:[{Type:TAG,Key:Team}]'' ''Cost Explorer GetCostAndUsage'' ''Groups[].Keys'' ''The AWS-prescribed Bedrock cost-attribution mechanism: activated cost-allocation tags / Cost Categories.''
      [fm ''Team$payments'' ''payments'' 55, fm ''Team$research'' ''research'' 30, fm ''CostCenter$ml-platform'' ''ml-platform'' 15],
    cf ''sku'' ''By SKU / Usage Type'' ''GroupBy:[{Type:DIMENSION,Key:USAGE_TYPE}]'' ''Cost Explorer GetCostAndUsage'' ''Groups[].Keys'' ''USAGE_TYPE is the AWS-native SKU and most granular breakdown.''
      [fm ''USE1-InputTokenCount'' ''us-east-1 input'' 50, fm ''USE1-OutputTokenCount'' ''us-east-1 output'' 30, fm ''USE1-CacheReadInputTokenCount'' ''us-east-1 cache-read'' 20],
    cf ''region'' ''By Region'' ''GroupBy:[{Type:DIMENSION,Key:REGION}]'' ''Cost Explorer GetCostAndUsage'' ''Groups[].Keys'' ''Works via console/CLI; REGION is undocumented in the GetCostAndUsage GroupBy list.''
      [fm ''us-east-1'' ''us-east-1'' 60, fm ''us-west-2'' ''us-west-2'' 25, fm ''eu-west-1'' ''eu-west-1'' 15],
    cf ''deployment'' ''By Inference Profile'' ''GroupBy:[{Type:TAG,Key:InferenceProfile}]'' ''Cost Explorer GetCostAndUsage'' ''Groups[].Keys'' ''Closest analog to a deployment is a tagged application inference profile.''
      [fm ''InferenceProfile$acme-prod-claude'' ''acme-prod-claude'' 70, fm ''InferenceProfile$acme-staging-claude'' ''acme-staging-claude'' 30],
    uf ''user'' ''By User'' ''Neither Cost Explorer nor CloudWatch has a per-end-user dimension; identity.arn lives only in invocation logs.'',
    uf ''api_key'' ''By API Key'' (''Cost Explorer has no api_key dimension and CloudWatch metrics aren'' @ [CHR 0x27] @ ''t keyed by API key.''),
    uf ''service_tier'' ''By Service Tier'' (''PURCHASE_TYPE values are reservation options, not Bedrock tiers; can'' @ [CHR 0x27] @ ''t separate on-demand/provisioned/batch.''),
    uf ''repo'' ''By Repo'' ''AWS billing has no source-repository concept.'']"

definition facets_azure_openai :: "CostFacet list" where
  "facets_azure_openai =
   [cf ''model'' ''By Model'' ''grouping=[{type:Dimension,name:Meter}] (cost) / metric dim ModelName (tokens)'' ''Microsoft.CostManagement/query'' ''rows[] @ Meter'' ''Model is derived from the billed Meter for cost; clean token splits are native via the ModelName metric.''
      [fm ''gpt-4o'' ''gpt-4o'' 55, fm ''gpt-4o-mini'' ''gpt-4o-mini'' 30, fm ''o3-mini'' ''o3-mini'' 15],
    cf ''deployment'' ''By Deployment'' ''metric dim ModelDeploymentName'' ''microsoft.insights/metrics'' ''ModelDeploymentName'' ''Per-deployment token usage/quota is first-class via Azure Monitor; USD is billed at the parent account.''
      [fm ''gpt-4o'' ''gpt-4o'' 55, fm ''o3-mini'' ''o3-mini'' 25, fm ''gpt-4o-mini'' ''gpt-4o-mini'' 20],
    cf ''sku'' ''By SKU'' ''grouping=[{type:Dimension,name:Meter}]'' ''Microsoft.CostManagement/query'' ''rows[] @ Meter'' ''The billed SKU/product is a native Cost Management facet (Meter/Product); overlaps service_tier.''
      [fm ''ProvisionedManaged'' ''ProvisionedManaged'' 50, fm ''Standard'' ''Standard'' 30, fm ''GlobalStandard'' ''GlobalStandard'' 20],
    cf ''service_tier'' ''By Service Tier'' ''grouping=[{type:Dimension,name:MeterSubcategory}]'' ''Microsoft.CostManagement/query'' ''rows[] @ MeterSubcategory'' (''Azure'' @ [CHR 0x27] @ ''s tier is the deployment SKU (Standard/GlobalStandard/ProvisionedManaged).'')
      [fm ''ProvisionedManaged'' ''ProvisionedManaged'' 50, fm ''GlobalStandard'' ''GlobalStandard'' 30, fm ''Standard'' ''Standard'' 20],
    cf ''region'' ''By Region'' ''grouping=[{type:Dimension,name:ResourceLocation}]'' ''Microsoft.CostManagement/query'' ''rows[] @ ResourceLocation'' ''ResourceLocation is a standard Cost Management dimension and Region a standard metric dimension.''
      [fm ''eastus'' ''eastus'' 60, fm ''swedencentral'' ''swedencentral'' 25, fm ''westeurope'' ''westeurope'' 15],
    cf ''team'' ''By Team / Tag'' ''grouping=[{type:TagKey,name:team}]'' ''Microsoft.CostManagement/query'' ''TagKey/TagValue columns'' ''Native TagKey grouping is the canonical Azure cost-attribution mechanism; untagged spend lands in a null bucket.''
      [fm ''payments'' ''payments'' 50, fm ''acme-ml'' ''acme-ml'' 30, fm ''prod'' ''prod'' 20],
    uf ''user'' ''By User'' ''Azure OpenAI passes no end-user identity to billing or Azure Monitor metrics.'',
    uf ''api_key'' ''By API Key'' ''Resource keys / Entra tokens are not a billing or metric facet.'',
    uf ''project'' ''By Project'' ''No native Project group-by; a Foundry project is just an Azure resource.'',
    uf ''repo'' ''By Repo'' ''Azure has no repository concept for Azure OpenAI cost or metrics.'']"

definition facets_vertex :: "CostFacet list" where
  "facets_vertex =
   [cf ''model'' ''By Model'' ''groupByFields=resource.label.model_user_id'' ''monitoring.googleapis.com/v3/.../timeSeries'' ''resource.labels.model_user_id'' ''Native token splits via Monitoring; cost-by-model is BigQuery-SKU only.''
      [fm ''gemini-2.5-pro'' ''gemini-2.5-pro'' 60, fm ''gemini-2.5-flash'' ''gemini-2.5-flash'' 40],
    cf ''project'' ''By Project'' ''groupByFields=resource.label.resource_container'' ''monitoring.googleapis.com/v3/.../timeSeries'' ''resource.labels.resource_container'' ''Primary GCP tenancy unit; the real Monitoring label is resource_container.''
      [fm ''acme-prod'' ''acme-prod'' 70, fm ''acme-lab'' ''acme-lab'' 30],
    cf ''region'' ''By Region'' ''groupByFields=resource.label.location'' ''monitoring.googleapis.com/v3/.../timeSeries'' ''resource.labels.location'' ''Supported on both Monitoring and BigQuery billing export.''
      [fm ''us-central1'' ''us-central1'' 60, fm ''us-east4'' ''us-east4'' 25, fm ''europe-west4'' ''europe-west4'' 15],
    cf ''deployment'' ''By Endpoint'' ''groupByFields=resource.label.endpoint_id'' ''monitoring.googleapis.com/v3/.../timeSeries'' ''resource.labels.endpoint_id'' ''Only for models on a dedicated Endpoint; serverless Gemini publisher calls have no endpoint_id.''
      [fm ''7300123456789'' ''acme-prod-endpoint'' 60, fm ''5512098761234'' ''acme-lab-endpoint'' 25, fm ''deployed-gemini-2.5-pro-prod'' ''gemini-2.5-pro prod'' 15],
    cf ''sku'' ''By SKU / Line Item'' ''BigQuery GROUP BY sku.description'' ''BigQuery gcp_billing_export_resource_v1_*'' ''sku.description'' ''Canonical dollar-cost dimension, BigQuery-export-only.''
      [fm ''Gemini 2.5 Pro Input'' ''Gemini 2.5 Pro Input'' 40, fm ''Gemini 2.5 Pro Output'' ''Gemini 2.5 Pro Output'' 30, fm ''Gemini 2.5 Flash Input'' ''Gemini 2.5 Flash Input'' 20, fm ''Vertex AI Provisioned Throughput GSU'' ''Provisioned Throughput GSU'' 10],
    cf ''team'' ''By Team / Tag'' (''BigQuery UNNEST(labels) WHERE key='' @ [CHR 0x27] @ ''team'' @ [CHR 0x27]) ''BigQuery gcp_billing_export_resource_v1_*'' ''labels'' ''First-class GCP label/tag cost attribution, BigQuery-export-only.''
      [fm ''team:payments'' ''payments'' 50, fm ''cost-center:ml-platform'' ''ml-platform'' 30, fm ''env:production'' ''production'' 20],
    uf ''user'' ''By User'' (''No end-user dimension; the only '' @ [CHR 0x27] @ ''who'' @ [CHR 0x27] @ '' is the IAM principal in audit logs, not aggregated cost/tokens.''),
    uf ''workspace'' ''By Workspace'' (''GCP'' @ [CHR 0x27] @ ''s hierarchy is project'' @ [CHR 0xE2, CHR 0x86, CHR 0x92] @ ''folder'' @ [CHR 0xE2, CHR 0x86, CHR 0x92] @ ''org; there is no workspace label.''),
    uf ''api_key'' ''By API Key'' ''Auth is IAM/OAuth; no api_key dimension on Vertex cost/tokens.'',
    uf ''repo'' ''By Repo'' ''No repository concept anywhere in GCP billing or Cloud Monitoring.'']"

definition facets_github_copilot :: "CostFacet list" where
  "facets_github_copilot =
   [cf ''repo'' ''By Repo'' ''aggregate usageItems[] by repositoryName'' ''/enterprises/{e}/settings/billing/usage'' ''repositoryName'' ''The distinctive GitHub dimension; only repo-attributable usage is populated.''
      [fm ''acme/payments'' ''acme/payments'' 50, fm ''acme/web'' ''acme/web'' 30, fm ''acme/infra'' ''acme/infra'' 20],
    cf ''user'' ''By User'' ''seats[] is one row per assignee'' ''/enterprises/{e}/copilot/billing/seats'' ''seats[].assignee.login'' (''Seat-licensed, so per-user cost is the flat seat; premium-request overage isn'' @ [CHR 0x27] @ ''t per-user in REST.'')
      [fm ''dev-one'' ''dev-one'' 55, fm ''ada-admin'' ''ada-admin'' 45],
    cf ''sku'' ''By SKU'' ''aggregate usageItems[] by sku'' ''/enterprises/{e}/settings/billing/usage'' ''sku'' ''The strongest native cost dimension; each line carries quantity (AI Credits) and netAmount (USD).''
      [fm ''copilot_premium_request'' ''Premium Request'' 60, fm ''Copilot Enterprise'' ''Copilot Enterprise'' 25, fm ''Copilot Business'' ''Copilot Business'' 15],
    cf ''model'' ''By Model'' ''Metrics nests models[] under editors[]'' ''/enterprises/{e}/copilot/metrics'' ''editors[].models[].name'' ''Engagement usage only (not dollars); models nest under editors[].''
      [fm ''gpt-4o'' ''gpt-4o'' 40, fm ''claude-sonnet-4-6'' ''claude-sonnet-4-6'' 30, fm ''o3-mini'' ''o3-mini'' 20, fm ''gemini-2.5-pro'' ''gemini-2.5-pro'' 10],
    cf ''language'' ''By Language / Editor'' ''Metrics nests languages[] under code-completions'' ''/enterprises/{e}/copilot/metrics'' ''languages[].name'' ''Engagement counts per language and editor, not cost.''
      [fm ''go'' ''go'' 40, fm ''python'' ''python'' 30, fm ''typescript'' ''typescript'' 20, fm ''vscode'' ''VS Code'' 10],
    cf ''team'' ''By Team / Cost Center'' ''team_slug path segment / cost_center_id filter'' ''/enterprises/{e}/team/{team_slug}/copilot/metrics'' ''team_slug'' ''Teams give a usage breakdown; cost centers a cost-allocation filter (enterprise-only).''
      [fm ''platform'' ''platform'' 45, fm ''payments-squad'' ''payments-squad'' 30, fm ''Data-Science'' ''Data-Science'' 25],
    uf ''project'' ''By Project'' ''No project billing unit; the nearest analog is the cost center under team.'',
    uf ''api_key'' ''By API Key'' ''Copilot is seat-licensed, not API-key metered.'',
    uf ''region'' ''By Region'' ''Neither billing/usage nor metrics breaks down by region.'',
    uf ''service_tier'' ''By Service Tier'' ''No inference service tier; the only tiering is the plan type, surfaced as a SKU.'']"

definition facets_mistral :: "CostFacet list" where
  "facets_mistral =
   [cf ''workspace'' ''By Workspace'' ''workspace_id filter (no server-side group_by)'' ''/v1/admin/usage'' ''workspace_id'' ''Workspace is a filter, not a group_by; billing itself aggregates by fixed service category.''
      [fm ''ws_prod'' ''acme-prod'' 65, fm ''ws_research'' ''acme-research'' 35],
    uf ''model'' ''By Model'' (''Billing breaks down by service category (chat/completion/ocr/'' @ [CHR 0xE2, CHR 0x80, CHR 0xA6] @ ''), not model; no group_by=model exists.''),
    uf ''user'' ''By User'' ''Analytics/billing attribute usage only to workspace; there is no user_id group-by.'',
    uf ''api_key'' ''By API Key'' ''Usage/spend rolls up to the workspace, not the individual key.'',
    uf ''project'' ''By Project'' (''The hierarchy is org'' @ [CHR 0xE2, CHR 0x86, CHR 0x92] @ ''workspace; the workspace is the project-equivalent.''),
    uf ''region'' ''By Region'' ''EU-hosted; data residency is an account attribute, not a usage group-by.'',
    uf ''repo'' ''By Repo'' ''Mistral has no source-control concept.'']"

definition facets_together :: "CostFacet list" where
  "facets_together =
   [cf ''model'' ''By Model'' ''per-response model field (client-side aggregate; no server group_by)'' ''/v1/chat/completions'' ''model'' ''model is a real per-response field but only client-side-aggregable; no server-side usage/cost group_by.''
      [fm ''meta-llama/Llama-3.3-70B-Instruct-Turbo'' ''Llama-3.3-70B'' 45, fm ''Qwen/Qwen2.5-72B-Instruct-Turbo'' ''Qwen2.5-72B'' 25, fm ''deepseek-ai/DeepSeek-V3'' ''DeepSeek-V3'' 20, fm ''mistralai/Mixtral-8x7B-Instruct-v0.1'' ''Mixtral-8x7B'' 10],
    uf ''api_key'' ''By API Key'' ''The live response has no api_key_id field and no usage/cost API groups by key.'',
    uf ''user'' ''By User'' ''Cost is attributed to the bearer key, never to an org user identity.'',
    uf ''project'' ''By Project'' ''Keys scope to projects for access control only; the cost record returns no project_id.'',
    uf ''workspace'' ''By Workspace'' (''No workspace entity in Together'' @ [CHR 0x27] @ ''s billing/usage model.''),
    uf ''repo'' ''By Repo'' ''Raw inference API with no repository concept.'',
    uf ''team'' ''By Team / Tag'' ''Requests carry no user-supplied tag/metadata/cost-center field.'']"

definition facets_m365_copilot :: "CostFacet list" where
  "facets_m365_copilot =
   [cf ''user'' ''By User'' ''report is one row per user'' ''/v1.0/reports/getMicrosoft365CopilotUsageUserDetail'' ''userPrincipalName'' ''Activity/adoption granularity (last-activity dates, engaged flags), not tokens or per-user dollars.''
      [fm ''admin@acme.com'' ''Ada Admin'' 40, fm ''dev-one@acme.com'' ''Dev One'' 35, fm ''sec@acme.com'' ''Sec Eng'' 25],
    cf ''sku'' ''By SKU / License'' ''per-SKU rows'' ''/v1.0/subscribedSkus'' ''skuPartNumber'' ''Truest cost grouping for a license-priced product, though it returns license counts (consumedUnits), not dollars.''
      [fm ''Microsoft_365_Copilot'' ''M365 Copilot'' 70, fm ''Microsoft_365_Copilot_Chat'' ''M365 Copilot Chat'' 30],
    cf ''language'' ''By App'' ''per-app *CopilotLastActivityDate columns'' ''/v1.0/reports/getMicrosoft365CopilotUsageUserDetail'' ''wordCopilotLastActivityDate'' ''Per-app activity (Word/Excel/Teams), encoded as columns not rows, activity-only.''
      [fm ''Word'' ''Word'' 30, fm ''Excel'' ''Excel'' 25, fm ''Teams'' ''Teams'' 20, fm ''Outlook'' ''Outlook'' 15, fm ''PowerPoint'' ''PowerPoint'' 10],
    uf ''model'' ''By Model'' ''M365 Copilot abstracts the underlying foundation model; admins get no per-model usage.'',
    uf ''repo'' ''By Repo'' ''No repository concept in a Word/Excel/Teams productivity assistant.'',
    uf ''project'' ''By Project'' ''No project dimension in M365 Copilot usage/billing.'',
    uf ''team'' ''By Team / Tag'' (''Group-based license assignment exists, but the usage API doesn'' @ [CHR 0x27] @ ''t emit cost grouped by team.'')]"

definition facets_databricks :: "CostFacet list" where
  "facets_databricks =
   [cf ''workspace'' ''By Workspace'' ''GROUP BY workspace_id'' ''system.billing.usage'' ''workspace_id'' ''First-class, always-populated column; numeric IDs map to the workspaces.''
      [fm ''1444828305810485'' ''acme-prod'' 65, fm ''2548219034857123'' ''acme-research'' 35],
    cf ''model'' ''By Model'' ''GROUP BY served_entities.entity_name'' (''system.serving.served_entities '' @ [CHR 0xE2, CHR 0x8B, CHR 0x88] @ '' system.billing.usage'') ''served_entity_name'' (''Indirect '' @ [CHR 0xE2, CHR 0x80, CHR 0x94] @ '' usage has no model column; resolved via the served_entities join.'')
      [fm ''databricks-claude-opus-4-6'' ''claude-opus-4-6'' 45, fm ''databricks-meta-llama-3-3-70b-instruct'' ''llama-3.3-70b'' 35, fm ''gpt-4o'' ''gpt-4o'' 20],
    cf ''user'' ''By User'' ''GROUP BY identity_metadata.run_as'' ''system.billing.usage'' ''run_as'' ''Attributes serverless spend to the user/service principal; classic compute attributes to the cluster.''
      [fm ''admin@acme.com'' ''Ada Admin'' 40, fm ''dev@acme.com'' ''Dev One'' 35, fm ''svc-agent@acme-prod'' ''svc-agent'' 25],
    cf ''team'' ''By Team / Tag'' (''GROUP BY custom_tags['' @ [CHR 0x27] @ ''team'' @ [CHR 0x27] @ '']'') ''system.billing.usage'' ''custom_tags'' ''THE canonical Databricks cost-attribution mechanism (a MAP of user-defined tags).''
      [fm ''payments'' ''payments'' 40, fm ''ml-platform'' ''ml-platform'' 30, fm ''research'' ''research'' 20, fm ''data-eng'' ''data-eng'' 10],
    cf ''sku'' ''By SKU'' ''GROUP BY sku_name'' ''system.billing.usage'' ''sku_name'' ''The primary billing dimension, present on every row.''
      [fm ''PREMIUM_FOUNDATION_MODEL_SERVING'' ''Foundation Model Serving'' 45, fm ''PREMIUM_ALL_PURPOSE_COMPUTE'' ''All-Purpose Compute'' 30, fm ''PREMIUM_JOBS_SERVERLESS_COMPUTE'' ''Jobs Serverless'' 25],
    cf ''deployment'' ''By Endpoint'' ''GROUP BY usage_metadata.endpoint_name'' ''system.billing.usage'' ''endpoint_name'' ''A Databricks AI deployment is a Model Serving endpoint.''
      [fm ''acme-claude-chat'' ''acme-claude-chat'' 50, fm ''acme-rag-llama'' ''acme-rag-llama'' 30, fm ''databricks-claude-opus-4-6'' ''claude-opus-4-6'' 20],
    cf ''service_tier'' ''By Serving Type'' ''GROUP BY product_features.serving_type'' ''system.billing.usage'' ''serving_type'' ''Derived field (PAY_PER_TOKEN vs PROVISIONED_THROUGHPUT).''
      [fm ''PAY_PER_TOKEN'' ''Pay Per Token'' 55, fm ''PROVISIONED_THROUGHPUT'' ''Provisioned Throughput'' 45],
    uf ''repo'' ''By Repo'' ''DBUs are never attributed per git repository in system.billing.usage.'',
    uf ''api_key'' ''By API Key'' ''Auth is PAT/OAuth; there is no api_key column in system.billing.usage.'',
    uf ''region'' ''By Region'' ''No geographic-region column; the only native locality is cloud (AWS/AZURE/GCP).'']"

definition facets_amazon_q :: "CostFacet list" where
  "facets_amazon_q =
   [cf ''user'' ''By User'' ''per-user subscription principal (IAM Identity Center)'' ''Amazon Q ListSubscriptions'' ''subscriptions[].principal'' (''Seat/subscription granularity; Cost Explorer can'' @ [CHR 0x27] @ ''t group token cost by end user.'')
      [fm ''user-42'' ''user-42'' 40, fm ''user-7'' ''user-7'' 35, fm ''admin@acme.com'' ''Ada Admin'' 25],
    cf ''team'' ''By Team / Tag'' ''GroupBy Type=TAG Key=team'' ''Cost Explorer GetCostAndUsage'' ''Groups[].Keys[0]'' ''Cost-allocation tags / Cost Categories are the idiomatic AWS way to attribute Q spend.''
      [fm ''team$payments'' ''payments'' 50, fm ''team$platform'' ''platform'' 30, fm ''cost-center$eng'' ''eng'' 20],
    cf ''service_tier'' ''By Subscription'' ''subscription type via ListSubscriptions'' ''Amazon Q ListSubscriptions'' ''subscriptions[].type'' (''Subscription tier is Q'' @ [CHR 0x27] @ ''s primary pricing axis (Free vs Pro / Lite vs Pro).'')
      [fm ''Q_DEVELOPER_PRO'' ''Q Developer Pro'' 55, fm ''Q_BUSINESS_PRO'' ''Q Business Pro'' 25, fm ''Q_DEVELOPER_FREE'' ''Q Developer Free'' 20],
    cf ''sku'' ''By SKU / Usage Type'' ''GroupBy Type=DIMENSION Key=USAGE_TYPE'' ''Cost Explorer GetCostAndUsage'' ''Groups[].Keys[0]'' ''USAGE_TYPE separates seat subscription vs index capacity vs agentic-request overage.''
      [fm ''USE1-Q-Developer-Pro'' ''Q Developer Pro'' 50, fm ''Q-Business-Index-Capacity-Unit'' ''Q Business Index Capacity'' 30, fm ''USE1-Q-Developer-AgenticRequest'' ''Agentic Request'' 20],
    cf ''region'' ''By Region'' ''GroupBy Type=DIMENSION Key=REGION'' ''Cost Explorer GetCostAndUsage'' ''Groups[].Keys[0]'' ''Standard Cost Explorer dimension; Q spend groups cleanly by region.''
      [fm ''us-east-1'' ''us-east-1'' 60, fm ''us-west-2'' ''us-west-2'' 25, fm ''eu-west-1'' ''eu-west-1'' 15],
    uf ''model'' ''By Model'' (''A managed assistant that abstracts the foundation model; customers aren'' @ [CHR 0x27] @ ''t billed per model.''),
    uf ''repo'' ''By Repo'' ''Cost and activity are never attributed to a repo.'',
    uf ''api_key'' ''By API Key'' ''Authenticates via IAM / Identity Center, not API keys.'']"

definition facets_watsonx :: "CostFacet list" where
  "facets_watsonx =
   [cf ''team'' ''By Resource Group'' ''resource_group_id path segment'' ''billing.cloud.ibm.com/v4/.../resource_groups/{id}/usage'' ''resource_group_name'' (''Resource groups are IBM Cloud'' @ [CHR 0x27] @ ''s cost-center/team boundary with a dedicated endpoint.'')
      [fm ''acme-prod'' ''acme-prod'' 45, fm ''acme-research'' ''acme-research'' 30, fm ''data-science'' ''data-science'' 25],
    cf ''sku'' ''By SKU / Plan'' ''plan_id / resource_id itemization'' ''billing.cloud.ibm.com/v4/.../usage'' ''plan_name'' ''IBM Cloud billing is organized by resource_id + plan (the SKU).''
      [fm ''watsonx.ai Runtime Standard'' ''Runtime Standard'' 50, fm ''watsonx.ai Studio'' ''Studio'' 30, fm ''watsonx.governance'' ''Governance'' 20],
    cf ''region'' ''By Region'' ''region (per-resource field)'' ''billing.cloud.ibm.com/v4/.../usage'' ''region'' ''Each billing resource carries its region and is itemized per region.''
      [fm ''us-south'' ''us-south'' 50, fm ''eu-de'' ''eu-de'' 30, fm ''jp-tok'' ''jp-tok'' 20],
    cf ''deployment'' ''By Service Instance'' ''resource_instance_id CRN path segment'' ''billing.cloud.ibm.com/v4/.../resource_instances/{id}/usage'' ''resource_instance_name'' ''Each provisioned watsonx.ai service instance is an IBM Cloud resource_instance.''
      [fm ''watsonxai-prod'' ''watsonxai-prod'' 60, fm ''watsonxai-dev'' ''watsonxai-dev'' 40],
    uf ''user'' ''By User'' ''Billing attributes to account/group/instance/plan/region, never to the IAM user.'',
    uf ''model'' ''By Model'' ''No aggregate endpoint groups cost or tokens by foundation model.'',
    uf ''api_key'' ''By API Key'' (''Billing doesn'' @ [CHR 0x27] @ ''t attribute cost or tokens by API key or service ID.''),
    uf ''repo'' ''By Repo'' ''watsonx has no source-code-repository concept.'']"

definition facets_perplexity :: "CostFacet list" where
  "facets_perplexity =
   [uf ''user'' ''By User'' ''Seat-based; no usage/cost-reporting API groups spend by user.'',
    uf ''model'' ''By Model'' ''model is echoed per-response but there is no usage/cost-reporting endpoint or group_by.'',
    uf ''api_key'' ''By API Key'' (''No usage/cost-by-key reporting API; the key id isn'' @ [CHR 0x27] @ ''t echoed in responses.''),
    uf ''project'' ''By Project'' ''No project construct and no project-scoped cost/usage endpoint.'',
    uf ''sku'' ''By SKU / Line Item'' ''The inline usage.cost split is per-response metadata, not an aggregated group_by.'']"

definition facets_cohere :: "CostFacet list" where
  "facets_cohere =
   [uf ''user'' ''By User'' ''No usage/cost API exists; usage is org-aggregate dashboard-only.'',
    uf ''model'' ''By Model'' ''Inline meta.billed_units is per-request, not a groupable surface.'',
    uf ''api_key'' ''By API Key'' ''Explicit negative: keys are only typed Trial vs Production with no per-key breakdown.'',
    uf ''sku'' ''By SKU / Line Item'' ''Billing units are distinguished inline but no programmatic API groups by SKU.'']"

definition facets_groq :: "CostFacet list" where
  "facets_groq =
   [uf ''user'' ''By User'' ''Usage is attributed to API keys (console-only), with no programmatic per-user breakdown.'',
    uf ''model'' ''By Model'' ''model is echoed per-response and charted in the console, but there is no group_by=model endpoint.'',
    uf ''api_key'' ''By API Key'' ''Per-key usage is dashboard-only; no public endpoint returns usage grouped by key.'',
    uf ''service_tier'' ''By Service Tier'' ''service_tier exists on the request path only, not as a reporting dimension.'']"

definition facets_xai :: "CostFacet list" where
  "facets_xai =
   [uf ''model'' ''By Model'' ''The console can break down by model, but no usage/cost endpoint accepts group_by=model.'',
    uf ''team'' ''By Team'' ''Teams are the real billing unit but there is no programmatic cost endpoint or group_by=team_id.'',
    uf ''api_key'' ''By API Key'' ''GET /v1/api-key returns key metadata but no spend/usage.'',
    uf ''user'' ''By User'' ''Consumption is attributed to API keys and teams, never to individual members.'']"

definition costFacetsByID :: "(string \<times> CostFacet list) list" where
  "costFacetsByID =
    [(''openai'', facets_openai),
     (''anthropic'', facets_anthropic),
     (''bedrock'', facets_bedrock),
     (''azure_openai'', facets_azure_openai),
     (''vertex'', facets_vertex),
     (''github_copilot'', facets_github_copilot),
     (''mistral'', facets_mistral),
     (''together'', facets_together),
     (''m365_copilot'', facets_m365_copilot),
     (''databricks'', facets_databricks),
     (''amazon_q'', facets_amazon_q),
     (''watsonx'', facets_watsonx),
     (''perplexity'', facets_perplexity),
     (''cohere'', facets_cohere),
     (''groq'', facets_groq),
     (''xai'', facets_xai)]"

definition CostFacetsFor :: "string \<Rightarrow> CostFacet list" where
  "CostFacetsFor i = (case map_of costFacetsByID i of None \<Rightarrow> [] | Some fs \<Rightarrow> fs)"

section \<open>The catalog\<close>

definition All :: "Definition list" where
  "All =
     map (\<lambda>d. d\<lparr>df_CostFacets := CostFacetsFor (df_ID d)\<rparr>)
       [openAI, anthropic, bedrock, azureOpenAI, vertex, githubCopilot,
        m365Copilot, mistral, databricks, perplexity, cohere, together,
        groq, xai, amazonQ, watsonx]"

definition ByID :: "string \<Rightarrow> Definition option" where
  "ByID i = find (\<lambda>d. df_ID d = i) All"

text \<open>What the rest of the program relies on in the tables.\<close>

lemmas vendor_defs = openAI_def anthropic_def bedrock_def azureOpenAI_def vertex_def githubCopilot_def
  m365Copilot_def mistral_def databricks_def perplexity_def cohere_def together_def
  groq_def xai_def amazonQ_def watsonx_def
lemmas caps_defs = openAI_caps_def anthropic_caps_def bedrock_caps_def azureOpenAI_caps_def vertex_caps_def
  githubCopilot_caps_def m365Copilot_caps_def mistral_caps_def databricks_caps_def perplexity_caps_def
  cohere_caps_def together_caps_def groq_caps_def xai_caps_def amazonQ_caps_def
  watsonx_caps_def
lemmas metrics_defs = openAI_metrics_def anthropic_metrics_def bedrock_metrics_def azureOpenAI_metrics_def vertex_metrics_def
  githubCopilot_metrics_def m365Copilot_metrics_def mistral_metrics_def databricks_metrics_def perplexity_metrics_def
  cohere_metrics_def together_metrics_def groq_metrics_def xai_metrics_def amazonQ_metrics_def
  watsonx_metrics_def

lemma All_ids:
  "map df_ID All =
     [''openai'', ''anthropic'', ''bedrock'', ''azure_openai'', ''vertex'', ''github_copilot'',
      ''m365_copilot'', ''mistral'', ''databricks'', ''perplexity'', ''cohere'', ''together'',
      ''groq'', ''xai'', ''amazon_q'', ''watsonx'']"
  by (simp add: All_def vendor_defs)

lemma All_distinct: "distinct (map df_ID All)"
  unfolding All_ids by simp

lemma All_caps:
  "map df_Capabilities All =
     [openAI_caps, anthropic_caps, bedrock_caps, azureOpenAI_caps, vertex_caps,
      githubCopilot_caps, m365Copilot_caps, mistral_caps, databricks_caps, perplexity_caps,
      cohere_caps, together_caps, groq_caps, xai_caps, amazonQ_caps,
      watsonx_caps]"
  by (simp add: All_def vendor_defs)

lemma All_metrics:
  "map df_Metrics All =
     [openAI_metrics, anthropic_metrics, bedrock_metrics, azureOpenAI_metrics, vertex_metrics,
      githubCopilot_metrics, m365Copilot_metrics, mistral_metrics, databricks_metrics, perplexity_metrics,
      cohere_metrics, together_metrics, groq_metrics, xai_metrics, amazonQ_metrics,
      watsonx_metrics]"
  by (simp add: All_def vendor_defs)

text \<open>Every metric starts inside its own bounds, and a state metric cannot move.\<close>

definition metric_ok :: "MetricDef \<Rightarrow> bool" where
  "metric_ok m \<longleftrightarrow>
     0 \<le> md_Min m \<and> md_Min m \<le> md_Baseline m \<and> md_Baseline m \<le> md_Max m"

lemma budgetMetrics_ok [simp]: "list_all metric_ok (budgetMetrics v s)"
  by (simp add: budgetMetrics_def metric_ok_def)

lemma stateMetric_ok [simp]: "metric_ok (stateMetric k n p d)"
  by (simp add: stateMetric_def metric_ok_def)

lemma metrics_ok:
  "list_all metric_ok openAI_metrics" "list_all metric_ok anthropic_metrics" "list_all metric_ok bedrock_metrics"
  "list_all metric_ok azureOpenAI_metrics" "list_all metric_ok vertex_metrics" "list_all metric_ok githubCopilot_metrics"
  "list_all metric_ok m365Copilot_metrics" "list_all metric_ok mistral_metrics" "list_all metric_ok databricks_metrics"
  "list_all metric_ok perplexity_metrics" "list_all metric_ok cohere_metrics" "list_all metric_ok together_metrics"
  "list_all metric_ok groq_metrics" "list_all metric_ok xai_metrics" "list_all metric_ok amazonQ_metrics"
  "list_all metric_ok watsonx_metrics"
  by (simp_all add: metrics_defs)

lemma catalog_metrics_ok: "list_all (list_all metric_ok) (map df_Metrics All)"
  unfolding All_metrics by (simp add: metrics_ok)

text \<open>Every control carries one of the dispositions the policy engine classifies.\<close>

definition known_disposition :: "Capability \<Rightarrow> bool" where
  "known_disposition c \<longleftrightarrow>
     cap_Disposition c \<in> {DispVendorNative, DispEnvManaged, DispProxyEnforced, DispMonitorOnly, DispUnverified}"

lemma known_disposition_simps [simp]:
  "known_disposition (cap k n p DispVendorNative m e)" "known_disposition (cap k n p DispEnvManaged m e)"
  "known_disposition (cap k n p DispProxyEnforced m e)" "known_disposition (cap k n p DispMonitorOnly m e)"
  "known_disposition (cap k n p DispUnverified m e)" "known_disposition (capEnv k n p f m e)"
  "known_disposition (with_note c t) \<longleftrightarrow> known_disposition c"
  by (simp_all add: known_disposition_def cap_def capEnv_def with_note_def)

lemma caps_known:
  "list_all known_disposition openAI_caps" "list_all known_disposition anthropic_caps" "list_all known_disposition bedrock_caps"
  "list_all known_disposition azureOpenAI_caps" "list_all known_disposition vertex_caps" "list_all known_disposition githubCopilot_caps"
  "list_all known_disposition m365Copilot_caps" "list_all known_disposition mistral_caps" "list_all known_disposition databricks_caps"
  "list_all known_disposition perplexity_caps" "list_all known_disposition cohere_caps" "list_all known_disposition together_caps"
  "list_all known_disposition groq_caps" "list_all known_disposition xai_caps" "list_all known_disposition amazonQ_caps"
  "list_all known_disposition watsonx_caps"
  by (simp_all only: caps_defs agenticEnvCaps_def list_all_append list.pred_inject known_disposition_simps simp_thms)

lemma catalog_dispositions: "list_all (list_all known_disposition) (map df_Capabilities All)"
  unfolding All_caps by (simp add: caps_known)

end
