(* ===== verification/Control_Store.thy ===== *)
theory Control_Store
  imports Catalog Gateway_Server
begin

text \<open>
  The in-memory state of the control plane: \<open>internal/store/store.go\<close>, \<open>store/gateway.go\<close> and
  \<open>store/policy_persist.go\<close>. Every method holds the store's mutex for its whole body, so each is one
  atomic function from the state to a result and the next state. Maps that the code ranges over are
  association lists, their order standing for the iteration order Go leaves open. The record
  counters are integers without the 64-bit wrap (2^63 records are out of reach).
\<close>

section \<open>State\<close>

definition ringMax :: nat where "ringMax = 5000"
definition maxGatewayEnforce :: nat where "maxGatewayEnforce = 32"

record Store =
  st_adapters :: "(string \<times> Adapter) list"
  st_order :: "string list"
  st_credentials :: "(string \<times> Credential) list"
  st_calls :: "CallRecord list"
  st_observations :: "ObservationRecord list"
  st_audit :: "AuditEvent list"
  st_activity :: "ActivityEvent list"
  st_drift :: "DriftRecord list"
  st_policy :: "Policy option"
  st_policyFile :: bool
  st_policyDisk :: "string option"
  st_policyPersistErr :: "string option"
  st_inferCaptures :: "InferenceCapture list"
  st_gwReports :: "Report list"
  st_gwEnforce :: "(string \<times> EnforcementReport) list"
  st_patternPack :: PatternPack
  st_packNil :: bool
  st_keystore :: keystore
  st_nextCallID :: int
  st_nextObsID :: int
  st_nextEventID :: int
  st_nextDriftID :: int
  st_nextInferID :: int

definition empty_pattern_pack :: PatternPack where
  "empty_pattern_pack = \<lparr>pack_Version = 0, pack_UpdatedAt = zero_time, pack_Rules = []\<rparr>"

section \<open>Activity\<close>

definition RecordActivity :: "reading \<Rightarrow> string \<Rightarrow> string \<Rightarrow> string \<Rightarrow> Store \<Rightarrow> Store" where
  "RecordActivity r source msg detail s =
     s\<lparr>st_activity := ring_push ringMax
         \<lparr>av_ID = st_nextEventID s, av_Source = source, av_Message = msg, av_Detail = detail,
          av_CreatedAt = fst r\<rparr> (st_activity s),
       st_nextEventID := st_nextEventID s + 1\<rparr>"

definition ListActivity :: "nat \<Rightarrow> Store \<Rightarrow> ActivityEvent list" where
  "ListActivity limit s = ring_newest (\<lambda>_. True) limit (st_activity s)"

section \<open>Adapters\<close>

definition defaultRoster :: "string list" where
  "defaultRoster =
     [''openai'', ''anthropic'', ''bedrock'', ''azure_openai'', ''vertex'', ''github_copilot'']"

definition seed_adapter :: "time \<Rightarrow> Definition \<Rightarrow> Adapter" where
  "seed_adapter now d =
     \<lparr>ad_ID = df_ID d, ad_Vendor = df_Vendor d, ad_DisplayName = df_DisplayName d,
      ad_Family = df_Family d, ad_APIVersion = df_APIVersion d, ad_Tier = df_Tier d,
      ad_Mode = ModeSynthetic, ad_Enabled = (df_ID d \<in> set defaultRoster), ad_Emit = True,
      ad_BasePath = ''/synthetic/'' @ df_ID d, ad_UpstreamURL = [], ad_EndpointConfig = [],
      ad_Scenario = ''healthy'', ad_BAASigned = df_BAASigned d, ad_Capabilities = df_Capabilities d,
      ad_Status = \<lparr>sta_State = ''unknown'', sta_Message = ''Not tested yet'', sta_CheckedAt = now\<rparr>,
      ad_UpdatedAt = now\<rparr>"

definition put_adapter :: "time \<Rightarrow> Store \<Rightarrow> Definition \<Rightarrow> Store" where
  "put_adapter now s d =
     s\<lparr>st_adapters := AList.update (df_ID d) (seed_adapter now d) (st_adapters s),
       st_order := st_order s @ [df_ID d]\<rparr>"

definition empty_store :: Store where
  "empty_store =
     \<lparr>st_adapters = [], st_order = [], st_credentials = [], st_calls = [], st_observations = [],
      st_audit = [], st_activity = [], st_drift = [], st_policy = None, st_policyFile = False,
      st_policyDisk = None, st_policyPersistErr = None, st_inferCaptures = [], st_gwReports = [],
      st_gwEnforce = [], st_patternPack = empty_pattern_pack, st_packNil = True, st_keystore = new_keystore,
      st_nextCallID = 1, st_nextObsID = 1, st_nextEventID = 1, st_nextDriftID = 1, st_nextInferID = 1\<rparr>"

definition seed :: "reading \<Rightarrow> reading \<Rightarrow> Store \<Rightarrow> Store" where
  "seed r r' s = RecordActivity r' ''system'' ''Seeded vendor adapter catalog'' [] (foldl (put_adapter (fst r)) s All)"

definition new_store :: "reading \<Rightarrow> reading \<Rightarrow> Store" where
  "new_store r r' = seed r r' empty_store"

text \<open>An id of the order whose record is missing would read as the zero adapter.\<close>

definition zero_adapter :: Adapter where
  "zero_adapter =
     \<lparr>ad_ID = [], ad_Vendor = [], ad_DisplayName = [], ad_Family = [], ad_APIVersion = [], ad_Tier = 0,
      ad_Mode = [], ad_Enabled = False, ad_Emit = False, ad_BasePath = [], ad_UpstreamURL = [],
      ad_EndpointConfig = [], ad_Scenario = [], ad_BAASigned = False, ad_Capabilities = [],
      ad_Status = \<lparr>sta_State = [], sta_Message = [], sta_CheckedAt = zero_time\<rparr>, ad_UpdatedAt = zero_time\<rparr>"

definition ListAdapters :: "Store \<Rightarrow> Adapter list" where
  "ListAdapters s =
     map (\<lambda>i. case map_of (st_adapters s) i of Some a \<Rightarrow> a | None \<Rightarrow> zero_adapter) (st_order s)"

definition GetAdapter :: "string \<Rightarrow> Store \<Rightarrow> Adapter option" where
  "GetAdapter i s = map_of (st_adapters s) i"

text \<open>The two sentinels \<open>ErrNotFound\<close> and \<open>ErrInvalid\<close>, returned bare here.\<close>

datatype patch_error = PatchNotFound | PatchInvalid

definition set_opt :: "'a option \<Rightarrow> ('a \<Rightarrow> 'b \<Rightarrow> 'b) \<Rightarrow> 'b \<Rightarrow> 'b" where
  "set_opt v f x = (case v of None \<Rightarrow> x | Some y \<Rightarrow> f y x)"

definition patch_fields :: "AdapterPatch \<Rightarrow> Adapter \<Rightarrow> Adapter" where
  "patch_fields p a =
     set_opt (pt_EndpointConfig p) (\<lambda>v a. a\<lparr>ad_EndpointConfig := v\<rparr>)
      (set_opt (pt_UpstreamURL p) (\<lambda>v a. a\<lparr>ad_UpstreamURL := v\<rparr>)
        (set_opt (pt_Scenario p) (\<lambda>v a. a\<lparr>ad_Scenario := v\<rparr>)
          (set_opt (pt_Emit p) (\<lambda>v a. a\<lparr>ad_Emit := v\<rparr>)
            (set_opt (pt_Enabled p) (\<lambda>v a. a\<lparr>ad_Enabled := v\<rparr>)
              (set_opt (pt_Mode p) (\<lambda>v a. a\<lparr>ad_Mode := v\<rparr>) a)))))"

definition PatchAdapter ::
    "reading \<Rightarrow> reading \<Rightarrow> string \<Rightarrow> AdapterPatch \<Rightarrow> Store \<Rightarrow> (patch_error + Adapter) \<times> Store" where
  "PatchAdapter r r' i p s =
     (case map_of (st_adapters s) i of
        None \<Rightarrow> (Inl PatchNotFound, s)
      | Some a \<Rightarrow>
          if (case pt_Mode p of None \<Rightarrow> False
              | Some m \<Rightarrow> m \<noteq> ModeDisabled \<and> m \<noteq> ModeSynthetic \<and> m \<noteq> ModeProxy)
          then (Inl PatchInvalid, s)
          else let a = (patch_fields p a)\<lparr>ad_UpdatedAt := fst r\<rparr>
               in (Inr a, RecordActivity r' ''adapter'' (''Updated adapter '' @ i) []
                            (s\<lparr>st_adapters := AList.update i a (st_adapters s)\<rparr>)))"

definition no_patch :: AdapterPatch where
  "no_patch = \<lparr>pt_Enabled = None, pt_Emit = None, pt_Mode = None, pt_Scenario = None,
               pt_UpstreamURL = None, pt_EndpointConfig = None\<rparr>"

definition SetScenario ::
    "reading \<Rightarrow> reading \<Rightarrow> string \<Rightarrow> string \<Rightarrow> Store \<Rightarrow> (patch_error + Adapter) \<times> Store" where
  "SetScenario r r' i scenario s = PatchAdapter r r' i (no_patch\<lparr>pt_Scenario := Some scenario\<rparr>) s"

definition SetAdapterStatus :: "reading \<Rightarrow> string \<Rightarrow> Status \<Rightarrow> Store \<Rightarrow> Store" where
  "SetAdapterStatus r i st s =
     (case map_of (st_adapters s) i of
        None \<Rightarrow> s
      | Some a \<Rightarrow> s\<lparr>st_adapters := AList.update i (a\<lparr>ad_Status := st, ad_UpdatedAt := fst r\<rparr>) (st_adapters s)\<rparr>)"

section \<open>Calls, observations, audit\<close>

definition RecordCall :: "reading \<Rightarrow> CallRecord \<Rightarrow> Store \<Rightarrow> Store" where
  "RecordCall r c s =
     s\<lparr>st_calls := ring_push ringMax (c\<lparr>cl_ID := st_nextCallID s, cl_RecordedAt := fst r\<rparr>) (st_calls s),
       st_nextCallID := st_nextCallID s + 1\<rparr>"

definition ListCalls :: "string \<Rightarrow> nat \<Rightarrow> Store \<Rightarrow> CallRecord list" where
  "ListCalls i limit s = ring_newest (\<lambda>c. i = [] \<or> cl_AdapterID c = i) limit (st_calls s)"

definition ResetCalls :: "string \<Rightarrow> Store \<Rightarrow> Store" where
  "ResetCalls i s = s\<lparr>st_calls := filter (\<lambda>c. cl_AdapterID c \<noteq> i) (st_calls s)\<rparr>"

definition AddObservation :: "reading \<Rightarrow> ObservationRecord \<Rightarrow> Store \<Rightarrow> ObservationRecord \<times> Store" where
  "AddObservation r ob s =
     (let ob = ob\<lparr>ob_ID := st_nextObsID s,
                  ob_ReceivedAt := (if ob_ReceivedAt ob = zero_time then fst r else ob_ReceivedAt ob)\<rparr>
      in (ob, s\<lparr>st_observations := ring_push ringMax ob (st_observations s),
                st_nextObsID := st_nextObsID s + 1\<rparr>))"

definition ListObservations :: "nat \<Rightarrow> Store \<Rightarrow> ObservationRecord list" where
  "ListObservations limit s = ring_newest (\<lambda>_. True) limit (st_observations s)"

definition AddAudit :: "reading \<Rightarrow> AuditEvent \<Rightarrow> Store \<Rightarrow> Store" where
  "AddAudit r e s =
     (let e = (if ae_ID e = [] then e\<lparr>ae_ID := NewUUID (snd r)\<rparr> else e);
          e = (if ae_Timestamp e = zero_time then e\<lparr>ae_Timestamp := fst r\<rparr> else e)
      in s\<lparr>st_audit := ring_push ringMax e (st_audit s)\<rparr>)"

definition ListAudit :: "nat \<Rightarrow> Store \<Rightarrow> AuditEvent list" where
  "ListAudit limit s = ring_newest (\<lambda>_. True) limit (st_audit s)"

section \<open>Drift\<close>

fun number_drift :: "time \<Rightarrow> int \<Rightarrow> DriftRecord list \<Rightarrow> DriftRecord list" where
  "number_drift now n [] = []"
| "number_drift now n (d # ds) =
     d\<lparr>dr_ID := n, dr_DetectedAt := (if dr_DetectedAt d = zero_time then now else dr_DetectedAt d)\<rparr>
     # number_drift now (n + 1) ds"

definition ReplaceDrift :: "reading \<Rightarrow> DriftRecord list \<Rightarrow> Store \<Rightarrow> Store" where
  "ReplaceDrift r records s =
     s\<lparr>st_drift := number_drift (fst r) (st_nextDriftID s) records,
       st_nextDriftID := st_nextDriftID s + int (length records)\<rparr>"

definition ListDrift :: "Store \<Rightarrow> DriftRecord list" where
  "ListDrift s = sort_slice (\<lambda>x y. dr_Vendor x < dr_Vendor y) (st_drift s)"

section \<open>The applied policy and its file\<close>

record policy_fs =
  pol_marshal :: "Policy \<Rightarrow> string + string"
  pol_write_err :: "string option"
  pol_rename_err :: "string option"

text \<open>\<open>policyFile.save\<close>: the error it returns and the committed content; only the rename commits.\<close>

definition policyfile_save :: "policy_fs \<Rightarrow> Policy \<Rightarrow> string option \<Rightarrow> string option \<times> string option" where
  "policyfile_save fs p committed =
     (case pol_marshal fs p of
        Inl err \<Rightarrow> (Some (''encoding policy: '' @ err), committed)
      | Inr buf \<Rightarrow>
          (case pol_write_err fs of
             Some err \<Rightarrow> (Some (''writing policy: '' @ err), committed)
           | None \<Rightarrow>
               (case pol_rename_err fs of
                  Some err \<Rightarrow> (Some (''committing policy: '' @ err), committed)
                | None \<Rightarrow> (None, Some buf))))"

definition SetPolicy :: "policy_fs \<Rightarrow> reading \<Rightarrow> Policy \<Rightarrow> Store \<Rightarrow> Store" where
  "SetPolicy fs r p s =
     (let p = p\<lparr>pol_AppliedAt := fst r\<rparr>;
          s = s\<lparr>st_policy := Some p\<rparr>
      in if st_policyFile s
         then (case policyfile_save fs p (st_policyDisk s) of
                 (err, committed) \<Rightarrow> s\<lparr>st_policyPersistErr := err, st_policyDisk := committed\<rparr>)
         else s)"

definition GetPolicy :: "Store \<Rightarrow> Policy option" where
  "GetPolicy s = st_policy s"

text \<open>\<open>policyFile.load\<close>: a missing file (\<open>Inr None\<close>) is the first boot, not an error.\<close>

definition policyfile_load ::
    "(string \<Rightarrow> string + Policy) \<Rightarrow> string + string option \<Rightarrow> string + Policy option" where
  "policyfile_load unmarshal content =
     (case content of
        Inl err \<Rightarrow> Inl (''reading policy: '' @ err)
      | Inr None \<Rightarrow> Inr None
      | Inr (Some raw) \<Rightarrow>
          (case unmarshal raw of
             Inl err \<Rightarrow> Inl (''parsing policy.json: '' @ err)
           | Inr p \<Rightarrow> Inr (Some p)))"

definition EnablePolicyPersistence ::
    "(string \<Rightarrow> string + Policy) \<Rightarrow> string option \<Rightarrow> string + string option \<Rightarrow> Store \<Rightarrow> string option \<times> Store" where
  "EnablePolicyPersistence unmarshal mkdir_err content s =
     (case mkdir_err of
        Some err \<Rightarrow> (Some (''policy dir: '' @ err), s)
      | None \<Rightarrow>
          (let s = s\<lparr>st_policyFile := True, st_policyDisk := (case content of Inl _ \<Rightarrow> st_policyDisk s | Inr c \<Rightarrow> c)\<rparr>
           in case policyfile_load unmarshal content of
                Inl err \<Rightarrow> (Some err, s)
              | Inr None \<Rightarrow> (None, s)
              | Inr (Some p) \<Rightarrow> (None, s\<lparr>st_policy := Some p\<rparr>)))"

definition PolicyPersistError :: "Store \<Rightarrow> string option" where
  "PolicyPersistError s = st_policyPersistErr s"

section \<open>Credentials by reference\<close>

definition AddCredential :: "reading \<Rightarrow> Credential \<Rightarrow> Store \<Rightarrow> Credential \<times> Store" where
  "AddCredential r c s =
     (let now = fst r;
          c = (if cr_ID c = [] then c\<lparr>cr_ID := NewUUID (snd r)\<rparr> else c);
          c = c\<lparr>cr_CreatedAt := now, cr_UpdatedAt := now\<rparr>;
          c = (if sta_State (cr_Status c) = []
               then c\<lparr>cr_Status := \<lparr>sta_State = ''unknown'', sta_Message = ''not tested'', sta_CheckedAt = now\<rparr>\<rparr>
               else c)
      in (c, s\<lparr>st_credentials := AList.update (cr_ID c) c (st_credentials s)\<rparr>))"

definition ListCredentials :: "Store \<Rightarrow> Credential list" where
  "ListCredentials s =
     sort_slice (\<lambda>x y. cr_CreatedAt x < cr_CreatedAt y) (map snd (st_credentials s))"

section \<open>Captures and gateway reports\<close>

definition RecordInferenceCapture :: "InferenceCapture \<Rightarrow> Store \<Rightarrow> InferenceCapture \<times> Store" where
  "RecordInferenceCapture c s =
     (let c = c\<lparr>ic_ID := st_nextInferID s\<rparr>
      in (c, s\<lparr>st_inferCaptures := ring_push ringMax c (st_inferCaptures s),
               st_nextInferID := st_nextInferID s + 1\<rparr>))"

definition ListInferenceCaptures :: "string \<Rightarrow> nat \<Rightarrow> Store \<Rightarrow> InferenceCapture list" where
  "ListInferenceCaptures i limit s =
     ring_newest (\<lambda>c. i = [] \<or> ic_AdapterID c = i) limit (st_inferCaptures s)"

definition InferenceCaptureByRequestID :: "string \<Rightarrow> Store \<Rightarrow> InferenceCapture option" where
  "InferenceCaptureByRequestID rid s =
     find (\<lambda>c. ic_GatewayRequestID c = rid) (rev (st_inferCaptures s))"

definition AddGatewayReports :: "Report list \<Rightarrow> Store \<Rightarrow> Store" where
  "AddGatewayReports reports s = s\<lparr>st_gwReports := ring_extend ringMax reports (st_gwReports s)\<rparr>"

definition GatewayReportByRequestID :: "string \<Rightarrow> Store \<Rightarrow> Report option" where
  "GatewayReportByRequestID rid s = find (\<lambda>r. rr_RequestID r = rid) (rev (st_gwReports s))"

definition ListGatewayReports :: "nat \<Rightarrow> Store \<Rightarrow> Report list" where
  "ListGatewayReports limit s = ring_newest (\<lambda>_. True) limit (st_gwReports s)"

section \<open>Enforcement heartbeats\<close>

text \<open>The eviction loop: the id and time of the entry the loop settles on.\<close>

definition older :: "string \<times> time \<Rightarrow> string \<times> EnforcementReport \<Rightarrow> string \<times> time" where
  "older best e =
     (if fst best = [] \<or> er_At (snd e) < snd best then (fst e, er_At (snd e)) else best)"

definition oldest_heartbeat :: "(string \<times> EnforcementReport) list \<Rightarrow> string \<times> time" where
  "oldest_heartbeat m = foldl older ([], zero_time) m"

definition SetGatewayEnforcement :: "reading \<Rightarrow> EnforcementReport \<Rightarrow> Store \<Rightarrow> Store" where
  "SetGatewayEnforcement r rep s =
     (let rep = (if er_At rep = zero_time then rep\<lparr>er_At := fst r\<rparr> else rep);
          m = st_gwEnforce s;
          m = (if map_of m (er_GatewayID rep) = None \<and> length m \<ge> maxGatewayEnforce
               then AList.delete (fst (oldest_heartbeat m)) m else m)
      in s\<lparr>st_gwEnforce := AList.update (er_GatewayID rep) rep m\<rparr>)"

definition listed :: "string \<Rightarrow> string \<Rightarrow> EnforcementReport \<Rightarrow> bool" where
  "listed vendor capability rep \<longleftrightarrow>
     (case map_of (er_Vendors rep) vendor of None \<Rightarrow> False | Some ks \<Rightarrow> capability \<in> set ks)"

fun scan_heartbeats ::
    "time \<Rightarrow> string \<Rightarrow> string \<Rightarrow> string \<Rightarrow> bool \<Rightarrow> (string \<times> EnforcementReport) list \<Rightarrow> string \<times> bool \<times> bool" where
  "scan_heartbeats cutoff v c gid seen [] = (gid, False, seen)"
| "scan_heartbeats cutoff v c gid seen ((i, rep) # m) =
     (if listed v c rep
      then (if cutoff < er_At rep then (i, True, True) else scan_heartbeats cutoff v c i True m)
      else scan_heartbeats cutoff v c gid seen m)"

definition GatewayEnforcement ::
    "time \<Rightarrow> string \<Rightarrow> string \<Rightarrow> int \<Rightarrow> Store \<Rightarrow> string \<times> bool \<times> bool" where
  "GatewayEnforcement now vendor capability staleAfter s =
     scan_heartbeats (now - staleAfter) vendor capability [] False (st_gwEnforce s)"

definition ListGatewayEnforcement :: "Store \<Rightarrow> EnforcementReport list" where
  "ListGatewayEnforcement s = map snd (st_gwEnforce s)"

section \<open>The pattern pack\<close>

text \<open>
  A pack whose \<open>Rules\<close> slice is nil is answered without its update time. Lists do not tell a nil
  slice from an empty one, so the store keeps that bit beside the pack.
\<close>

definition GetPatternPack :: "Store \<Rightarrow> PatternPack" where
  "GetPatternPack s =
     (if st_packNil s
      then \<lparr>pack_Version = pack_Version (st_patternPack s), pack_UpdatedAt = zero_time, pack_Rules = []\<rparr>
      else st_patternPack s)"

definition SetPatternPack :: "bool \<Rightarrow> PatternPack \<Rightarrow> Store \<Rightarrow> Store" where
  "SetPatternPack nil p s = s\<lparr>st_patternPack := p, st_packNil := nil\<rparr>"

section \<open>Rings\<close>

interpretation store_ring: bounded_ring ringMax "ring_push ringMax"
  by unfold_locales (simp_all add: ringMax_def ring_push_alt)

text \<open>Records carry strictly increasing ids, all below the next one to be given out.\<close>

definition numbered :: "('a \<Rightarrow> int) \<Rightarrow> int \<Rightarrow> 'a list \<Rightarrow> bool" where
  "numbered f n xs \<longleftrightarrow> sorted_wrt (<) (map f xs) \<and> (\<forall>x \<in> set xs. f x < n)"

lemma numbered_Nil [simp]: "numbered f n []"
  by (simp add: numbered_def)

lemma numbered_snoc: "numbered f n xs \<Longrightarrow> f x = n \<Longrightarrow> numbered f (n + 1) (xs @ [x])"
  by (auto simp: numbered_def sorted_wrt_append)

lemma numbered_drop: "numbered f n xs \<Longrightarrow> numbered f n (drop k xs)"
  by (auto simp: numbered_def drop_map [symmetric] sorted_wrt_drop dest: in_set_dropD)

lemma numbered_push: "numbered f n xs \<Longrightarrow> f x = n \<Longrightarrow> numbered f (n + 1) (ring_push k x xs)"
  unfolding ring_push_alt by (intro numbered_drop numbered_snoc)

lemma sorted_wrt_map_filter: "sorted_wrt R (map f xs) \<Longrightarrow> sorted_wrt R (map f (filter P xs))"
  by (induction xs) auto

lemma numbered_filter: "numbered f n xs \<Longrightarrow> numbered f n (filter P xs)"
  by (auto simp: numbered_def sorted_wrt_map_filter)

lemma length_number_drift [simp]: "length (number_drift now n ds) = length ds"
  by (induction ds arbitrary: n) auto

lemma number_drift_ids: "map dr_ID (number_drift now n ds) = map (\<lambda>k. n + int k) [0..<length ds]"
proof (induction ds arbitrary: n)
  case (Cons d ds)
  then show ?case by (simp add: map_upt_Suc add.assoc del: upt_Suc)
qed simp

lemma number_drift_numbered: "numbered dr_ID (n + int (length ds)) (number_drift now n ds)"
proof -
  have "sorted_wrt (<) (map dr_ID (number_drift now n ds))"
    by (simp add: number_drift_ids sorted_wrt_map sorted_wrt_iff_nth_less)
  moreover have "x \<in> set (number_drift now n ds) \<Longrightarrow> dr_ID x < n + int (length ds)" for x
  proof -
    assume "x \<in> set (number_drift now n ds)"
    then have "dr_ID x \<in> set (map dr_ID (number_drift now n ds))" by simp
    then show ?thesis unfolding number_drift_ids by auto
  qed
  ultimately show ?thesis by (simp add: numbered_def)
qed

section \<open>The invariant of the store\<close>

definition adapters_inv :: "Store \<Rightarrow> bool" where
  "adapters_inv s \<longleftrightarrow>
     map fst (st_adapters s) = map df_ID All \<and> st_order s = map df_ID All \<and>
     (\<forall>(i, a) \<in> set (st_adapters s). ad_ID a = i \<and> ad_Mode a \<in> {ModeDisabled, ModeSynthetic, ModeProxy})"

definition rings_inv :: "Store \<Rightarrow> bool" where
  "rings_inv s \<longleftrightarrow>
     length (st_calls s) \<le> ringMax \<and> length (st_observations s) \<le> ringMax \<and> length (st_audit s) \<le> ringMax \<and>
     length (st_activity s) \<le> ringMax \<and> length (st_inferCaptures s) \<le> ringMax \<and> length (st_gwReports s) \<le> ringMax"

definition ids_inv :: "Store \<Rightarrow> bool" where
  "ids_inv s \<longleftrightarrow>
     numbered cl_ID (st_nextCallID s) (st_calls s) \<and> numbered ob_ID (st_nextObsID s) (st_observations s) \<and>
     numbered av_ID (st_nextEventID s) (st_activity s) \<and> numbered ic_ID (st_nextInferID s) (st_inferCaptures s) \<and>
     numbered dr_ID (st_nextDriftID s) (st_drift s)"

definition enforce_inv :: "Store \<Rightarrow> bool" where
  "enforce_inv s \<longleftrightarrow>
     distinct (map fst (st_gwEnforce s)) \<and> length (st_gwEnforce s) \<le> maxGatewayEnforce \<and>
     (\<forall>(i, rep) \<in> set (st_gwEnforce s). er_GatewayID rep = i)"

definition credentials_inv :: "Store \<Rightarrow> bool" where
  "credentials_inv s \<longleftrightarrow>
     distinct (map fst (st_credentials s)) \<and> (\<forall>(i, c) \<in> set (st_credentials s). cr_ID c = i)"

definition store_inv :: "Store \<Rightarrow> bool" where
  "store_inv s \<longleftrightarrow>
     adapters_inv s \<and> rings_inv s \<and> ids_inv s \<and> enforce_inv s \<and> credentials_inv s \<and> keystore_inv (st_keystore s)"

lemmas inv_defs = adapters_inv_def rings_inv_def ids_inv_def enforce_inv_def credentials_inv_def

lemma store_inv_activity [simp]: "store_inv s \<Longrightarrow> store_inv (RecordActivity r a b c s)"
  by (simp add: store_inv_def inv_defs RecordActivity_def length_ring_push numbered_push)

text \<open>The boot seeding: one adapter per catalog entry, in catalog order.\<close>

lemma seed_adapters:
  "distinct (map df_ID ds) \<Longrightarrow> (\<forall>d \<in> set ds. df_ID d \<notin> fst ` set (st_adapters s)) \<Longrightarrow>
     foldl (put_adapter now) s ds =
       s\<lparr>st_adapters := st_adapters s @ map (\<lambda>d. (df_ID d, seed_adapter now d)) ds,
         st_order := st_order s @ map df_ID ds\<rparr>"
proof (induction ds arbitrary: s)
  case (Cons d ds)
  have "put_adapter now s d =
      s\<lparr>st_adapters := st_adapters s @ [(df_ID d, seed_adapter now d)], st_order := st_order s @ [df_ID d]\<rparr>"
    using Cons.prems by (simp add: put_adapter_def alist_update_new)
  moreover have "\<forall>x \<in> set ds. df_ID x \<notin> fst ` set (st_adapters s @ [(df_ID d, seed_adapter now d)])"
    using Cons.prems by (auto simp: image_iff)
  ultimately show ?case
    using Cons.IH [of "s\<lparr>st_adapters := st_adapters s @ [(df_ID d, seed_adapter now d)], st_order := st_order s @ [df_ID d]\<rparr>"]
      Cons.prems by simp
qed simp

lemma new_store_inv: "store_inv (new_store r r')"
proof -
  have "store_inv (foldl (put_adapter (fst r)) empty_store All)"
    using All_distinct
    by (auto simp: seed_adapters store_inv_def inv_defs empty_store_def comp_def seed_adapter_def
        keystore_inv_new)
  then show ?thesis by (simp add: new_store_def seed_def)
qed

section \<open>Every operation keeps the invariant\<close>

lemma update_keys_same: "map_of m i = Some x \<Longrightarrow> map fst (AList.update i y m) = map fst m"
  by (induction m) (auto split: if_splits)

lemma length_update_le: "length (AList.update k v m) \<le> Suc (length m)"
  by (induction m) auto

lemma length_update_known: "map_of m k \<noteq> None \<Longrightarrow> length (AList.update k v m) = length m"
  by (induction m) (auto split: if_splits)

lemma length_delete_known: "k \<in> fst ` set m \<Longrightarrow> length (AList.delete k m) < length m"
proof -
  assume "k \<in> fst ` set m"
  then obtain v where "(k, v) \<in> set m" by auto
  then show ?thesis unfolding AList.delete_eq by (rule length_filter_less) simp
qed

lemma distinct_delete [simp]: "distinct (map fst m) \<Longrightarrow> distinct (map fst (AList.delete k m))"
  by (rule AList.distinct_delete)

lemma in_delete: "x \<in> set (AList.delete k m) \<Longrightarrow> x \<in> set m"
  by (auto simp: AList.delete_eq)

text \<open>The eviction loop settles on an entry of the map, the oldest one unless an empty id is in it.\<close>

lemma older_fold_in: "fst (foldl older best m) \<in> insert (fst best) (fst ` set m)"
proof (induction m arbitrary: best)
  case (Cons e m)
  from Cons [of "older best e"] show ?case by (auto simp: older_def split: if_splits)
qed simp

lemma oldest_heartbeat_in: "m \<noteq> [] \<Longrightarrow> fst (oldest_heartbeat m) \<in> fst ` set m"
  using older_fold_in [of "older ([], zero_time) (hd m)" "tl m"]
  by (cases m) (auto simp: oldest_heartbeat_def older_def)

lemma enforce_bound:
  assumes "length (st_gwEnforce s) \<le> maxGatewayEnforce"
  shows "length (st_gwEnforce (SetGatewayEnforcement r rep s)) \<le> maxGatewayEnforce"
proof -
  let ?m = "st_gwEnforce s" and ?k = "er_GatewayID rep"
  let ?m' = "if map_of ?m ?k = None \<and> length ?m \<ge> maxGatewayEnforce
             then AList.delete (fst (oldest_heartbeat ?m)) ?m else ?m"
  let ?v = "if er_At rep = zero_time then rep\<lparr>er_At := fst r\<rparr> else rep"
  have eq: "st_gwEnforce (SetGatewayEnforcement r rep s) = AList.update ?k ?v ?m'"
    by (simp add: SetGatewayEnforcement_def Let_def)
  show ?thesis
  proof (cases "map_of ?m ?k = None")
    case True
    have "length ?m' < maxGatewayEnforce"
    proof (cases "length ?m \<ge> maxGatewayEnforce")
      case full: True
      then have "?m \<noteq> []" by (auto simp: maxGatewayEnforce_def)
      then have "length (AList.delete (fst (oldest_heartbeat ?m)) ?m) < length ?m"
        by (intro length_delete_known oldest_heartbeat_in)
      with True full assms show ?thesis by simp
    qed simp
    then show ?thesis unfolding eq using length_update_le [of ?k ?v ?m'] by linarith
  next
    case False
    then have "?m' = ?m" by auto
    with False assms show ?thesis unfolding eq by (simp add: length_update_known)
  qed
qed

lemma adapters_inv_update:
  assumes "adapters_inv s" and "map_of (st_adapters s) i = Some a"
    and "ad_ID a' = ad_ID a" and "ad_Mode a' \<in> {ModeDisabled, ModeSynthetic, ModeProxy}"
  shows "adapters_inv (s\<lparr>st_adapters := AList.update i a' (st_adapters s)\<rparr>)"
proof -
  have "ad_ID a = i" using assms(1,2) by (auto simp: adapters_inv_def dest: map_of_SomeD)
  with assms show ?thesis
    by (auto simp: adapters_inv_def update_keys_same dest!: alist_update_in)
qed

lemma store_inv_adapters:
  "store_inv s \<Longrightarrow> adapters_inv (s\<lparr>st_adapters := m\<rparr>) \<Longrightarrow> store_inv (s\<lparr>st_adapters := m\<rparr>)"
  by (simp add: store_inv_def rings_inv_def ids_inv_def enforce_inv_def credentials_inv_def)

lemma adapter_mode:
  "store_inv s \<Longrightarrow> map_of (st_adapters s) i = Some a \<Longrightarrow> ad_Mode a \<in> {ModeDisabled, ModeSynthetic, ModeProxy}"
  by (auto simp: store_inv_def adapters_inv_def dest: map_of_SomeD)

lemma patch_fields_simps [simp]:
  "ad_ID (patch_fields p a) = ad_ID a" "ad_Vendor (patch_fields p a) = ad_Vendor a"
  "ad_Capabilities (patch_fields p a) = ad_Capabilities a" "ad_BAASigned (patch_fields p a) = ad_BAASigned a"
  "ad_Mode (patch_fields p a) = (case pt_Mode p of None \<Rightarrow> ad_Mode a | Some m \<Rightarrow> m)"
  "ad_Enabled (patch_fields p a) = (case pt_Enabled p of None \<Rightarrow> ad_Enabled a | Some b \<Rightarrow> b)"
  "ad_Emit (patch_fields p a) = (case pt_Emit p of None \<Rightarrow> ad_Emit a | Some b \<Rightarrow> b)"
  "ad_Scenario (patch_fields p a) = (case pt_Scenario p of None \<Rightarrow> ad_Scenario a | Some b \<Rightarrow> b)"
  by (simp_all add: patch_fields_def set_opt_def split: option.split)

lemma PatchAdapter_inv: "store_inv s \<Longrightarrow> store_inv (snd (PatchAdapter r r' i p s))"
  using adapter_mode [of s i]
  by (auto simp: PatchAdapter_def Let_def intro!: store_inv_activity store_inv_adapters adapters_inv_update
      simp: store_inv_def [of s] split: option.split)

lemma SetAdapterStatus_inv: "store_inv s \<Longrightarrow> store_inv (SetAdapterStatus r i st s)"
  using adapter_mode [of s i]
  by (auto simp: SetAdapterStatus_def intro!: store_inv_adapters adapters_inv_update
      simp: store_inv_def [of s] split: option.split)

lemma RecordCall_inv: "store_inv s \<Longrightarrow> store_inv (RecordCall r c s)"
  by (simp add: store_inv_def inv_defs RecordCall_def length_ring_push numbered_push)

lemma ResetCalls_inv: "store_inv s \<Longrightarrow> store_inv (ResetCalls i s)"
  by (auto simp: store_inv_def inv_defs ResetCalls_def numbered_filter intro: le_trans [OF length_filter_le])

lemma AddObservation_inv: "store_inv s \<Longrightarrow> store_inv (snd (AddObservation r c s))"
  by (simp add: store_inv_def inv_defs AddObservation_def Let_def length_ring_push numbered_push)

lemma AddAudit_inv [simp]: "store_inv s \<Longrightarrow> store_inv (AddAudit r e s)"
  by (simp add: store_inv_def inv_defs AddAudit_def Let_def length_ring_push)

lemma ReplaceDrift_inv: "store_inv s \<Longrightarrow> store_inv (ReplaceDrift r ds s)"
  by (simp add: store_inv_def inv_defs ReplaceDrift_def number_drift_numbered)

lemma SetPolicy_inv: "store_inv s \<Longrightarrow> store_inv (SetPolicy fs r p s)"
  by (simp add: store_inv_def inv_defs SetPolicy_def Let_def split: prod.split)

lemma EnablePolicyPersistence_inv: "store_inv s \<Longrightarrow> store_inv (snd (EnablePolicyPersistence u e c s))"
  by (simp add: store_inv_def inv_defs EnablePolicyPersistence_def Let_def split: option.split sum.split)

lemma AddCredential_inv: "store_inv s \<Longrightarrow> store_inv (snd (AddCredential r c s))"
  by (auto simp: store_inv_def inv_defs AddCredential_def Let_def distinct_update dest!: alist_update_in)

lemma RecordInferenceCapture_inv: "store_inv s \<Longrightarrow> store_inv (snd (RecordInferenceCapture c s))"
  by (simp add: store_inv_def inv_defs RecordInferenceCapture_def Let_def length_ring_push numbered_push)

lemma AddGatewayReports_inv: "store_inv s \<Longrightarrow> store_inv (AddGatewayReports rs s)"
  by (simp add: store_inv_def inv_defs AddGatewayReports_def length_ring_extend)

lemma SetGatewayEnforcement_inv: "store_inv s \<Longrightarrow> store_inv (SetGatewayEnforcement r rep s)"
  using enforce_bound [of s r rep]
  by (auto simp: store_inv_def inv_defs SetGatewayEnforcement_def Let_def distinct_update
      dest!: alist_update_in in_delete split: if_splits)

lemma SetPatternPack_inv: "store_inv s \<Longrightarrow> store_inv (SetPatternPack b p s)"
  by (simp add: store_inv_def inv_defs SetPatternPack_def)

section \<open>Steps and reachable stores\<close>

text \<open>
  Every exported operation that changes the store, with any arguments and readings; the keystore
  operations are the steps of its own relation.
\<close>

inductive store_step :: "Store \<Rightarrow> Store \<Rightarrow> bool" where
  patch: "store_step s (snd (PatchAdapter r r' i p s))"
| status: "store_step s (SetAdapterStatus r i st s)"
| call: "store_step s (RecordCall r c s)"
| reset: "store_step s (ResetCalls i s)"
| observe: "store_step s (snd (AddObservation r ob s))"
| audit: "store_step s (AddAudit r e s)"
| activity: "store_step s (RecordActivity r a b c s)"
| drift: "store_step s (ReplaceDrift r ds s)"
| policy: "store_step s (SetPolicy fs r p s)"
| persistence: "store_step s (snd (EnablePolicyPersistence unmarshal mkdir_err content s))"
| credential: "store_step s (snd (AddCredential r c s))"
| capture: "store_step s (snd (RecordInferenceCapture c s))"
| reports: "store_step s (AddGatewayReports rs s)"
| heartbeat: "store_step s (SetGatewayEnforcement r rep s)"
| pack: "store_step s (SetPatternPack b p s)"
| keystore: "kstep (\<lambda>_. True) (st_keystore s) k \<Longrightarrow> store_step s (s\<lparr>st_keystore := k\<rparr>)"

lemma store_step_inv: "store_step s s' \<Longrightarrow> store_inv s \<Longrightarrow> store_inv s'"
proof (induction rule: store_step.induct)
  case (keystore s k)
  then show ?case using kstep_inv [OF keystore.hyps] by (simp add: store_inv_def inv_defs)
qed (simp_all add: PatchAdapter_inv SetAdapterStatus_inv RecordCall_inv ResetCalls_inv AddObservation_inv
    ReplaceDrift_inv SetPolicy_inv EnablePolicyPersistence_inv AddCredential_inv
    RecordInferenceCapture_inv AddGatewayReports_inv SetGatewayEnforcement_inv SetPatternPack_inv)

lemma store_steps_inv: "store_step\<^sup>*\<^sup>* s s' \<Longrightarrow> store_inv s \<Longrightarrow> store_inv s'"
  by (induction rule: rtranclp_induct) (auto intro: store_step_inv)

section \<open>What the heartbeats say\<close>

lemma scan_heartbeats_fresh:
  "fst (snd (scan_heartbeats cutoff v c gid seen m)) \<longleftrightarrow>
     (\<exists>e \<in> set m. listed v c (snd e) \<and> cutoff < er_At (snd e))"
proof (induction m arbitrary: gid seen)
  case (Cons e m)
  then show ?case by (cases e) auto
qed simp

lemma scan_heartbeats_seen:
  "snd (snd (scan_heartbeats cutoff v c gid seen m)) \<longleftrightarrow> seen \<or> (\<exists>e \<in> set m. listed v c (snd e))"
proof (induction m arbitrary: gid seen)
  case (Cons e m)
  then show ?case by (cases e) auto
qed simp

lemma scan_heartbeats_id:
  "scan_heartbeats cutoff v c gid seen m = (i, True, b) \<Longrightarrow>
     \<exists>rep. (i, rep) \<in> set m \<and> listed v c rep \<and> cutoff < er_At rep"
proof (induction m arbitrary: gid seen)
  case (Cons e m)
  then show ?case by (cases e) (auto split: if_splits)
qed simp

lemma GatewayEnforcement_fresh:
  assumes "GatewayEnforcement now v c stale s = (gid, True, seen)"
  shows "\<exists>rep. (gid, rep) \<in> set (st_gwEnforce s) \<and> listed v c rep \<and> now - stale < er_At rep"
  using assms unfolding GatewayEnforcement_def by (rule scan_heartbeats_id)

text \<open>Without an empty id in the map the eviction loop picks a heartbeat no other is older than.\<close>

lemma older_fold:
  assumes "\<forall>e \<in> set m. fst e \<noteq> []" and "fst best \<noteq> []"
  shows "snd (foldl older best m) \<le> snd best \<and> (\<forall>e \<in> set m. snd (foldl older best m) \<le> er_At (snd e)) \<and>
    (foldl older best m = best \<or> (\<exists>e \<in> set m. foldl older best m = (fst e, er_At (snd e))))"
  using assms
proof (induction m arbitrary: best)
  case (Cons e m)
  show ?case
  proof (cases "er_At (snd e) < snd best")
    case True
    with Cons.prems have "older best e = (fst e, er_At (snd e))" by (simp add: older_def)
    with True Cons.prems Cons.IH [of "older best e"] show ?thesis by auto
  next
    case False
    with Cons.prems have "older best e = best" by (simp add: older_def)
    with False Cons.prems Cons.IH [of best] show ?thesis by auto
  qed
qed simp

lemma oldest_heartbeat_oldest:
  assumes "\<forall>e \<in> set m. fst e \<noteq> []" and "m \<noteq> []"
  shows "\<exists>e \<in> set m. fst (oldest_heartbeat m) = fst e \<and> (\<forall>e' \<in> set m. er_At (snd e) \<le> er_At (snd e'))"
proof -
  obtain e m' where m: "m = e # m'" using assms(2) by (cases m) auto
  let ?r = "foldl older (fst e, er_At (snd e)) m'"
  have r: "oldest_heartbeat m = ?r" by (simp add: oldest_heartbeat_def older_def m)
  have inv: "snd ?r \<le> er_At (snd e) \<and> (\<forall>e \<in> set m'. snd ?r \<le> er_At (snd e)) \<and>
      (?r = (fst e, er_At (snd e)) \<or> (\<exists>e \<in> set m'. ?r = (fst e, er_At (snd e))))"
    using older_fold [of m' "(fst e, er_At (snd e))"] assms(1) m by simp
  then have "\<exists>e0 \<in> set m. ?r = (fst e0, er_At (snd e0))" unfolding m by (metis list.set_intros)
  then obtain e0 where e0: "e0 \<in> set m" "?r = (fst e0, er_At (snd e0))" by blast
  from inv have "\<forall>e' \<in> set m. snd ?r \<le> er_At (snd e')" unfolding m by simp
  with e0 show ?thesis unfolding r by (metis fst_conv snd_conv)
qed

end
