(* ===== verification/Policy_Engine.thy ===== *)
theory Policy_Engine
  imports Control_Store
begin

text \<open>
  Rendering of managed configuration (\<open>internal/envconfig\<close>), the reconcile of a policy against every
  vendor control (\<open>internal/policy/reconcile.go\<close>) and the drift set (\<open>internal/policy/drift.go\<close>). A
  call that reads the clock or random bytes several times takes them from the sequence \<open>env\<close>; a
  position of the sequence may stay unread.
\<close>

section \<open>Managed configuration\<close>

definition nonempty_arr :: "json option \<Rightarrow> json list \<Rightarrow> json list" where
  "nonempty_arr v def = (case as_arr v of Some vs \<Rightarrow> if vs = [] then def else vs | None \<Rightarrow> def)"

definition mcpLists :: "(string \<times> json) list \<Rightarrow> json list \<times> json list" where
  "mcpLists agentic =
     (let dflt_allow = [JStr ''filesystem'', JStr ''git'', JStr ''internal-db-readonly''];
          dflt_deny = [JStr ''*'']
      in case as_obj (map_of agentic ''claude_code'') of
           None \<Rightarrow> (dflt_allow, dflt_deny)
         | Some cc \<Rightarrow>
             (case as_obj (map_of cc ''mcp'') of
                None \<Rightarrow> (dflt_allow, dflt_deny)
              | Some mcp \<Rightarrow>
                  (nonempty_arr (map_of mcp ''allow'') dflt_allow, nonempty_arr (map_of mcp ''deny'') dflt_deny)))"

definition claude_code_artifact :: "(string \<times> json) list \<Rightarrow> (string \<times> json) list" where
  "claude_code_artifact agentic =
     (case mcpLists agentic of (allow_l, deny_l) \<Rightarrow>
       [(''permissions'', JObj
          [(''allow'', JArr [JStr ''Read'', JStr ''Edit'', JStr ''Bash(git diff:*)'']),
           (''deny'', JArr [JStr ''Bash(rm -rf:*)''])]),
        (''allowedMcpServers'', JArr allow_l),
        (''deniedMcpServers'', JArr deny_l),
        (''allowManagedMcpServersOnly'', JBool True),
        (''allowManagedHooksOnly'', JBool True),
        (''allowManagedPermissionRulesOnly'', JBool True),
        (''disableSkillShellExecution'', JBool False),
        (''hooks'', JObj
          [(''PreToolUse'', JArr [JObj
             [(''matcher'', JStr ''Bash''),
              (''hooks'', JArr [JObj [(''type'', JStr ''command''), (''command'', JStr ''secret-scan'')]])]])])])"

definition github_artifact :: "(string \<times> json) list" where
  "github_artifact =
     [(''required_status_checks'', JObj
        [(''strict'', JBool True), (''contexts'', JArr [JStr ''tests'', JStr ''coverage-90''])]),
      (''enforce_admins'', JBool True),
      (''required_pull_request_reviews'', JObj
        [(''required_approving_review_count'', JNum 1), (''require_code_owner_reviews'', JBool True)]),
      (''restrictions'', JNull)]"

definition Render :: "time \<Rightarrow> string \<Rightarrow> string \<Rightarrow> (string \<times> json) list \<Rightarrow> string \<Rightarrow> ManagedArtifact" where
  "Render now platform ident agentic enf =
     (let art = \<lparr>art_Platform = platform, art_Identifier = ident, art_Artifact = [], art_Enforcement = enf,
                 art_DistributionURL = [], art_RenderedAt = now\<rparr>
      in if platform = ''claude_code'' then
           art\<lparr>art_Artifact := claude_code_artifact agentic,
               art_DistributionURL := ''mdm://jamf/profiles/claude-code-managed-settings''\<rparr>
         else if platform = ''github'' then
           art\<lparr>art_Artifact := github_artifact,
               art_DistributionURL := ''https://api.github.com/repos/acme/payments/branches/main/protection''\<rparr>
         else if platform = ''vs_code'' then
           art\<lparr>art_Artifact :=
                 [(''ChatMCP'', JStr ''disabled''), (''ChatAgentMode'', JStr ''restricted''),
                  (''AllowedExtensions'', JArr [JStr ''github.copilot'', JStr ''anthropic.claude-code''])],
               art_DistributionURL := ''intune://policy/vscode-enterprise''\<rparr>
         else if platform = ''cursor'' then
           art\<lparr>art_Artifact := [(''mcp_allow_list'', JArr [JStr ''filesystem'', JStr ''git'']), (''zdr'', JBool True)],
               art_DistributionURL := ''https://cursor.com/admin/api/policy''\<rparr>
         else art)"

definition ReadState :: "time \<Rightarrow> string \<Rightarrow> string \<Rightarrow> ManagedArtifact \<Rightarrow> bool \<Rightarrow> EnvState" where
  "ReadState now platform ident artifact overridden =
     (let st = \<lparr>es_Platform = platform, es_Identifier = ident, es_ActualSettings = art_Artifact artifact,
                es_Source = ''locked'', es_DriftDetected = False, es_DriftMessage = [], es_ReadAt = now\<rparr>
      in if art_Enforcement artifact = EnforcementSeedOnly then
           (let st = st\<lparr>es_Source := ''default''\<rparr>
            in if overridden
               then st\<lparr>es_Source := ''user_override'', es_DriftDetected := True,
                       es_DriftMessage := ''developer overrode seed-only config on an unmanaged device''\<rparr>
               else st)
         else if art_Enforcement artifact = EnforcementMDMLocked then
           (let st = st\<lparr>es_Source := ''locked''\<rparr>
            in if overridden
               then st\<lparr>es_Source := ''user_override'', es_DriftDetected := True,
                       es_DriftMessage := ''device not MDM-enrolled; managed settings not applied''\<rparr>
               else st)
         else st)"

section \<open>Reconcile\<close>

definition classify :: "(string \<Rightarrow> string \<Rightarrow> string \<times> bool) \<Rightarrow> Adapter \<Rightarrow> Capability \<Rightarrow> string \<times> Signal" where
  "classify enforcedBy a c =
     (let d = cap_Disposition c;
          sig = (\<lambda>code msg. \<lparr>sg_Disposition = d, sg_Code = code, sg_Message = msg, sg_Retryable = False\<rparr>)
      in if d = DispVendorNative then
           (''applied_native'', sig ''success'' (''driven via vendor admin API ('' @ cap_Mechanism c @ '')''))
         else if d = DispEnvManaged then
           (''applied_env'', sig ''success'' (''managed config rendered + distributed ('' @ cap_Enforcement c @ '')''))
         else if d = DispProxyEnforced then
           (case enforcedBy (ad_ID a) (cap_Key c) of
              (i, ok) \<Rightarrow>
                if ok then (''applied_proxy'', sig ''success'' (''enforced inline by gateway '' @ i))
                else (''proxy_needed'',
                      sig ''proxy_required'' ''requires the optional gateway (off by default); behaves as monitor_only''))
         else if d = DispMonitorOnly then
           (''monitored'', sig ''success'' ''verified + alerting; no set mechanism'')
         else if d = DispUnverified then
           (''unverified'', sig ''unverified'' ''could not confirm from live vendor docs'')
         else (''unsupported'', sig ''not_supported'' ''vendor does not support this control''))"

record apply_state =
  ap_store :: Store
  ap_rows :: "CoverageRow list"
  ap_summary :: "(string \<times> int) list"
  ap_reads :: nat

definition count_outcome :: "string \<Rightarrow> (string \<times> int) list \<Rightarrow> (string \<times> int) list" where
  "count_outcome outcome m =
     AList.update outcome ((case map_of m outcome of None \<Rightarrow> 0 | Some n \<Rightarrow> n) + 1) m"

definition enforced_by :: "time \<Rightarrow> Store \<Rightarrow> string \<Rightarrow> string \<Rightarrow> string \<times> bool" where
  "enforced_by now s vendor capKey =
     (case GatewayEnforcement now vendor capKey GatewayStaleAfter s of (i, fresh, seen) \<Rightarrow> (i, fresh))"

definition capability_outcome ::
    "Baseline option \<Rightarrow> (string \<Rightarrow> string \<Rightarrow> string \<times> bool) \<Rightarrow> Adapter \<Rightarrow> Capability \<Rightarrow> string \<times> Signal" where
  "capability_outcome base enforcedBy a c =
     (let baaExcluded = (case base of None \<Rightarrow> False | Some b \<Rightarrow> bl_BAAOnly b \<and> \<not> ad_BAASigned a)
      in if baaExcluded
         then (''excluded_no_baa'',
               \<lparr>sg_Disposition = cap_Disposition c, sg_Code = ''not_supported'',
                sg_Message = ''vendor not BAA-signed; excluded by '' @
                  (case base of None \<Rightarrow> [] | Some b \<Rightarrow> bl_Name b) @ '' baseline'',
                sg_Retryable = False\<rparr>)
         else classify enforcedBy a c)"

definition coverage_row :: "Adapter \<Rightarrow> Capability \<Rightarrow> string \<times> Signal \<Rightarrow> CoverageRow" where
  "coverage_row a c os =
     \<lparr>cv_Vendor = ad_ID a, cv_Capability = cap_Key c, cv_Plane = cap_Plane c,
      cv_Disposition = cap_Disposition c, cv_Enforcement = cap_Enforcement c,
      cv_Outcome = fst os, cv_Signal = snd os\<rparr>"

text \<open>One capability of one adapter: its row, the summary and, when applied, an audit event.\<close>

definition apply_capability ::
    "(nat \<Rightarrow> reading) \<Rightarrow> Policy \<Rightarrow> Baseline option \<Rightarrow> Adapter \<Rightarrow> apply_state \<Rightarrow> Capability \<Rightarrow> apply_state" where
  "apply_capability env p base a x c =
     (let n = ap_reads x;
          os = capability_outcome base (enforced_by (fst (env n)) (ap_store x)) a c;
          outcome = fst os;
          row = coverage_row a c os;
          st = (if outcome = ''applied_native'' \<or> outcome = ''applied_env'' \<or> outcome = ''applied_proxy''
                then AddAudit (env (n + 1))
                  \<lparr>ae_ID = [], ae_Timestamp = zero_time, ae_Actor = ''air-traffic:policy-engine'',
                   ae_Action = ''policy.apply.'' @ cap_Key c, ae_Resource = ad_Vendor a, ae_Plane = cap_Plane c,
                   ae_Vendor = ad_ID a, ae_ControlSurface = cap_Disposition c, ae_Before = None,
                   ae_After = Some [(''baseline'', JStr (pol_Baseline p)), (''outcome'', JStr outcome)],
                   ae_RequestID = NewUUID (snd (env (n + 2)))\<rparr> (ap_store x)
                else ap_store x)
      in \<lparr>ap_store = st, ap_rows = ap_rows x @ [row], ap_summary = count_outcome outcome (ap_summary x),
          ap_reads = n + 3\<rparr>)"

definition reconcile :: "(nat \<Rightarrow> reading) \<Rightarrow> Policy \<Rightarrow> Store \<Rightarrow> apply_state" where
  "reconcile env p st =
     foldl (\<lambda>x a. foldl (apply_capability env p (BaselineByID (pol_Baseline p)) a) x (ad_Capabilities a))
       \<lparr>ap_store = st, ap_rows = [], ap_summary = [], ap_reads = 1\<rparr> (ListAdapters st)"

definition Apply ::
    "policy_fs \<Rightarrow> (nat \<Rightarrow> reading) \<Rightarrow> Store \<Rightarrow> Policy \<Rightarrow> CoverageReport \<times> Store \<times> nat" where
  "Apply fs env st p =
     (let x = reconcile env p st; n = ap_reads x;
          rep = \<lparr>rep_Baseline = pol_Baseline p, rep_AppliedAt = fst (env 0), rep_Rows = ap_rows x,
                 rep_Summary = ap_summary x\<rparr>;
          st = SetPolicy fs (env n) (p\<lparr>pol_AppliedAt := rep_AppliedAt rep\<rparr>) (ap_store x);
          st = RecordActivity (env (n + 1)) ''policy'' (''Applied baseline '' @ pol_Baseline p) [] st;
          st = AddAudit (env (n + 2))
                 \<lparr>ae_ID = [], ae_Timestamp = zero_time, ae_Actor = ''air-traffic:admin'',
                  ae_Action = ''baseline.apply'', ae_Resource = ''organization'', ae_Plane = PlaneDataPolicy,
                  ae_Vendor = ''all'', ae_ControlSurface = DispVendorNative, ae_Before = None,
                  ae_After = Some [(''baseline'', JStr (pol_Baseline p)),
                    (''summary'', JObj (map (\<lambda>(k, v). (k, JNum (of_int v))) (rep_Summary rep)))],
                  ae_RequestID = NewUUID (snd (env (n + 3)))\<rparr> st
      in (rep, st, n + 4))"

section \<open>Drift\<close>

definition hash_step :: "int \<Rightarrow> nat \<Rightarrow> int" where
  "hash_step h r = wrap64 (h * 31 + int r)"

definition overrideHeuristic :: "string \<Rightarrow> string \<Rightarrow> bool" where
  "overrideHeuristic adapterID capKey =
     (let h = foldl hash_step 0 (runes (adapterID @ ''|'' @ capKey));
          h = (if h < 0 then wrap64 (- h) else h)
      in go_rem h 5 = 0)"

definition platformFor :: "string \<Rightarrow> string" where
  "platformFor enf =
     (if enf = EnforcementServerSide then ''github''
      else if enf = EnforcementMDMLocked then ''claude_code'' else ''cursor'')"

definition drift_batch :: "time \<Rightarrow> Adapter \<Rightarrow> (string \<times> json) list \<Rightarrow> ObservationRecord" where
  "drift_batch ts a body =
     \<lparr>ob_ID = 0, ob_ReceivedAt = ts, ob_Contract = ObservationContract, ob_ConnectorType = ''ai-vendor'',
      ob_ConnectorInstance = ad_ID a, ob_Complete = True, ob_ObservationCount = 1, ob_ErrorCount = 0,
      ob_Body = body\<rparr>"

definition emitDriftObs ::
    "(nat \<Rightarrow> reading) \<Rightarrow> nat \<Rightarrow> Adapter \<Rightarrow> Capability \<Rightarrow> EnvState \<Rightarrow> time \<Rightarrow> Store \<Rightarrow> Store" where
  "emitDriftObs env n a c state ts st =
     (let obs = Obs ''state'' (cap_Key c @ ''_drift'') (JNum 0) ''bool'' ''amber'' ''warning'' (cap_Plane c)
                  (ad_ID a) (cap_Disposition c)
                  [(''source'', JStr (es_Source state)), (''enforcement'', JStr (cap_Enforcement c))]
                  ''env_managed'' [];
          body = BuildBatch (snd (env n)) a ts (60 * second) [obs] []
      in snd (AddObservation (env (n + 1)) (drift_batch ts a body) st))"

definition emitGatewayDriftObs ::
    "(nat \<Rightarrow> reading) \<Rightarrow> nat \<Rightarrow> Adapter \<Rightarrow> Capability \<Rightarrow> string \<Rightarrow> string \<Rightarrow> time \<Rightarrow> Store \<Rightarrow> Store" where
  "emitGatewayDriftObs env n a c status severity ts st =
     (let obs = Obs ''state'' (cap_Key c @ ''_gateway_drift'') (JNum 0) ''bool'' status severity (cap_Plane c)
                  (ad_ID a) (cap_Disposition c) [(''source'', JStr ''gateway_heartbeat'')] ''gateway'' [];
          body = BuildBatch (snd (env n)) a ts (60 * second) [obs] []
      in snd (AddObservation (env (n + 1)) (drift_batch ts a body) st))"

text \<open>The state of the two drift loops: the records found, the store and the next unread position.\<close>

type_synonym drift_state = "DriftRecord list \<times> Store \<times> nat"

definition drift_record ::
    "time \<Rightarrow> Adapter \<Rightarrow> Capability \<Rightarrow> string \<Rightarrow> string \<Rightarrow> string \<Rightarrow> string \<Rightarrow> DriftRecord" where
  "drift_record ts a c declared actual severity msg =
     \<lparr>dr_ID = 0, dr_Vendor = ad_ID a, dr_Capability = cap_Key c, dr_Plane = cap_Plane c,
      dr_Surface = cap_Disposition c, dr_Declared = declared, dr_Actual = actual, dr_Severity = severity,
      dr_Message = msg, dr_DetectedAt = ts\<rparr>"

definition env_drift :: "(nat \<Rightarrow> reading) \<Rightarrow> time \<Rightarrow> Adapter \<Rightarrow> drift_state \<Rightarrow> Capability \<Rightarrow> drift_state" where
  "env_drift env ts a x c =
     (case x of (records, st, n) \<Rightarrow>
       if cap_Disposition c \<noteq> DispEnvManaged then (records, st, n)
       else let overridden = overrideHeuristic (ad_ID a) (cap_Key c);
                platform = platformFor (cap_Enforcement c);
                art = Render (fst (env n)) platform (ad_ID a) [] (cap_Enforcement c);
                state = ReadState (fst (env (n + 1))) platform (ad_ID a) art overridden
            in if \<not> es_DriftDetected state then (records, st, n + 2)
               else (records @ [drift_record ts a c ''locked'' (es_Source state) ''warning'' (es_DriftMessage state)],
                     emitDriftObs env (n + 2) a c state ts st, n + 4))"

definition gateway_drift ::
    "(nat \<Rightarrow> reading) \<Rightarrow> time \<Rightarrow> bool \<Rightarrow> Adapter \<Rightarrow> drift_state \<Rightarrow> Capability \<Rightarrow> drift_state" where
  "gateway_drift env ts expected a x c =
     (case x of (records, st, n) \<Rightarrow>
       if cap_Disposition c \<noteq> DispProxyEnforced then (records, st, n)
       else (case GatewayEnforcement (fst (env n)) (ad_ID a) (cap_Key c) GatewayStaleAfter st of
         (i, fresh, everSeen) \<Rightarrow>
           if fresh then (records, st, n + 1)
           else if everSeen then
             (records @ [drift_record ts a c ''proxy_enforced'' ''unenforced (gateway stale)'' ''error''
                (''gateway enforcement heartbeat for '' @ cap_Key c @
                 '' went stale; requests are no longer filtered'')],
              emitGatewayDriftObs env (n + 1) a c ''red'' ''error'' ts st, n + 3)
           else if expected \<and> cap_Key c = ''pii_redaction'' then
             (records @ [drift_record ts a c ''proxy_enforced (policy intent)'' ''no gateway reporting'' ''warning''
                ''applied baseline expects PII redaction but no gateway has reported enforcement''],
              emitGatewayDriftObs env (n + 1) a c ''amber'' ''warning'' ts st, n + 3)
           else (records, st, n + 1)))"

definition inactive :: "Adapter \<Rightarrow> bool" where
  "inactive a \<longleftrightarrow> \<not> ad_Enabled a \<or> ad_Mode a = ModeDisabled"

definition over_capabilities ::
    "(Adapter \<Rightarrow> drift_state \<Rightarrow> Capability \<Rightarrow> drift_state) \<Rightarrow> Adapter list \<Rightarrow> drift_state \<Rightarrow> drift_state" where
  "over_capabilities f as x = foldl (\<lambda>x a. if inactive a then x else foldl (f a) x (ad_Capabilities a)) x as"

definition redaction_expected :: "Store \<Rightarrow> bool" where
  "redaction_expected st =
     (case GetPolicy st of None \<Rightarrow> False
      | Some p \<Rightarrow> (case BaselineByID (pol_Baseline p) of None \<Rightarrow> False | Some b \<Rightarrow> bl_PIIRedaction b \<noteq> ''off''))"

definition gatewayDrift :: "(nat \<Rightarrow> reading) \<Rightarrow> time \<Rightarrow> Store \<Rightarrow> nat \<Rightarrow> drift_state" where
  "gatewayDrift env ts st n =
     over_capabilities (gateway_drift env ts (redaction_expected st)) (ListAdapters st) ([], st, n)"

definition RefreshDrift :: "(nat \<Rightarrow> reading) \<Rightarrow> nat \<Rightarrow> time \<Rightarrow> Store \<Rightarrow> Store \<times> nat" where
  "RefreshDrift env n ts st =
     (case over_capabilities (env_drift env ts) (ListAdapters st) ([], st, n) of
        (records, st, n) \<Rightarrow>
          (case gatewayDrift env ts st n of
             (records', st, n) \<Rightarrow> (ReplaceDrift (env n) (records @ records') st, n + 1)))"

section \<open>The coverage report\<close>

text \<open>What one step of the reconcile adds, and what it leaves alone.\<close>

definition baa_excluded :: "Policy \<Rightarrow> Adapter \<Rightarrow> bool" where
  "baa_excluded p a \<longleftrightarrow>
     (case BaselineByID (pol_Baseline p) of None \<Rightarrow> False | Some b \<Rightarrow> bl_BAAOnly b \<and> \<not> ad_BAASigned a)"

definition outcome_of :: "Policy \<Rightarrow> time \<Rightarrow> Store \<Rightarrow> Adapter \<Rightarrow> Capability \<Rightarrow> string" where
  "outcome_of p now st a c =
     (if baa_excluded p a then ''excluded_no_baa'' else fst (classify (enforced_by now st) a c))"

lemma enforced_by_gwEnforce:
  "st_gwEnforce st' = st_gwEnforce st \<Longrightarrow> enforced_by now st' = enforced_by now st"
  by (simp add: enforced_by_def GatewayEnforcement_def fun_eq_iff)

lemma outcome_of_gwEnforce:
  "st_gwEnforce st' = st_gwEnforce st \<Longrightarrow> outcome_of p now st' a c = outcome_of p now st a c"
  by (simp add: outcome_of_def enforced_by_gwEnforce [of st' st])

lemma AddAudit_frame [simp]:
  "st_gwEnforce (AddAudit r e s) = st_gwEnforce s" "st_adapters (AddAudit r e s) = st_adapters s"
  "st_order (AddAudit r e s) = st_order s" "st_policy (AddAudit r e s) = st_policy s"
  "st_policyFile (AddAudit r e s) = st_policyFile s" "st_policyDisk (AddAudit r e s) = st_policyDisk s"
  "st_policyPersistErr (AddAudit r e s) = st_policyPersistErr s"
  by (simp_all add: AddAudit_def Let_def)

lemma RecordActivity_frame [simp]:
  "st_gwEnforce (RecordActivity r a b c s) = st_gwEnforce s" "st_adapters (RecordActivity r a b c s) = st_adapters s"
  "st_order (RecordActivity r a b c s) = st_order s" "st_policy (RecordActivity r a b c s) = st_policy s"
  "st_policyFile (RecordActivity r a b c s) = st_policyFile s"
  "st_policyDisk (RecordActivity r a b c s) = st_policyDisk s"
  "st_policyPersistErr (RecordActivity r a b c s) = st_policyPersistErr s"
  by (simp_all add: RecordActivity_def)

lemma capability_outcome_of:
  "fst (capability_outcome (BaselineByID (pol_Baseline p)) (enforced_by now st) a c) = outcome_of p now st a c"
  by (simp add: capability_outcome_def outcome_of_def baa_excluded_def Let_def)

lemma coverage_row_simps [simp]:
  "cv_Vendor (coverage_row a c os) = ad_ID a" "cv_Capability (coverage_row a c os) = cap_Key c"
  "cv_Disposition (coverage_row a c os) = cap_Disposition c" "cv_Outcome (coverage_row a c os) = fst os"
  by (simp_all add: coverage_row_def)

definition next_row :: "(nat \<Rightarrow> reading) \<Rightarrow> Policy \<Rightarrow> Adapter \<Rightarrow> apply_state \<Rightarrow> Capability \<Rightarrow> CoverageRow" where
  "next_row env p a x c =
     coverage_row a c (capability_outcome (BaselineByID (pol_Baseline p))
       (enforced_by (fst (env (ap_reads x))) (ap_store x)) a c)"

lemma next_row_simps [simp]:
  "cv_Vendor (next_row env p a x c) = ad_ID a" "cv_Capability (next_row env p a x c) = cap_Key c"
  "cv_Disposition (next_row env p a x c) = cap_Disposition c"
  "cv_Outcome (next_row env p a x c) = outcome_of p (fst (env (ap_reads x))) (ap_store x) a c"
  by (simp_all add: next_row_def capability_outcome_of)

lemma apply_capability_rows [simp]:
  "ap_rows (apply_capability env p (BaselineByID (pol_Baseline p)) a x c) = ap_rows x @ [next_row env p a x c]"
  by (simp add: apply_capability_def Let_def next_row_def)

lemma apply_capability_summary [simp]:
  "ap_summary (apply_capability env p (BaselineByID (pol_Baseline p)) a x c) =
     count_outcome (cv_Outcome (next_row env p a x c)) (ap_summary x)"
  by (simp add: apply_capability_def Let_def capability_outcome_of)

lemma apply_capability_store [simp]:
  "st_gwEnforce (ap_store (apply_capability env p base a x c)) = st_gwEnforce (ap_store x)"
  by (simp add: apply_capability_def Let_def)

lemma apply_capability_inv: "store_inv (ap_store x) \<Longrightarrow> store_inv (ap_store (apply_capability env p base a x c))"
  by (simp add: apply_capability_def Let_def)

text \<open>An invariant of the two nested loops is one of a single step.\<close>

lemma foldl_invariant:
  "P x \<Longrightarrow> (\<And>x y. y \<in> set ys \<Longrightarrow> P x \<Longrightarrow> P (f x y)) \<Longrightarrow> P (foldl f x ys)"
  by (induction ys arbitrary: x) auto

lemma reconcile_invariant:
  assumes "P \<lparr>ap_store = st, ap_rows = [], ap_summary = [], ap_reads = 1\<rparr>"
    and "\<And>x a c. a \<in> set (ListAdapters st) \<Longrightarrow> c \<in> set (ad_Capabilities a) \<Longrightarrow> P x \<Longrightarrow>
      P (apply_capability env p (BaselineByID (pol_Baseline p)) a x c)"
  shows "P (reconcile env p st)"
  unfolding reconcile_def
proof (rule foldl_invariant [where P = P])
  fix x a
  assume "a \<in> set (ListAdapters st)" "P x"
  then show "P (foldl (apply_capability env p (BaselineByID (pol_Baseline p)) a) x (ad_Capabilities a))"
    using assms(2) by (intro foldl_invariant [where P = P]) auto
qed (rule assms(1))

definition controls :: "Adapter list \<Rightarrow> (string \<times> string) list" where
  "controls as = concat (map (\<lambda>a. map (\<lambda>c. (ad_ID a, cap_Key c)) (ad_Capabilities a)) as)"

definition row_key :: "CoverageRow \<Rightarrow> string \<times> string" where
  "row_key r = (cv_Vendor r, cv_Capability r)"

lemma apply_capabilities_keys:
  "map row_key (ap_rows (foldl (apply_capability env p (BaselineByID (pol_Baseline p)) a) x cs)) =
     map row_key (ap_rows x) @ map (\<lambda>c. (ad_ID a, cap_Key c)) cs"
  by (induction cs arbitrary: x) (simp_all add: row_key_def)

lemma reconcile_keys: "map row_key (ap_rows (reconcile env p st)) = controls (ListAdapters st)"
proof -
  have "map row_key (ap_rows (foldl
      (\<lambda>x a. foldl (apply_capability env p (BaselineByID (pol_Baseline p)) a) x (ad_Capabilities a)) x as)) =
    map row_key (ap_rows x) @ controls as" for x as
    by (induction as arbitrary: x) (simp_all add: controls_def apply_capabilities_keys)
  then show ?thesis by (simp add: reconcile_def)
qed

definition tally :: "string \<Rightarrow> (string \<times> int) list \<Rightarrow> int" where
  "tally outcome m = (case map_of m outcome of None \<Rightarrow> 0 | Some n \<Rightarrow> n)"

lemma tally_count: "tally q (count_outcome k m) = tally q m + (if q = k then 1 else 0)"
  by (simp add: tally_def count_outcome_def update_conv')

lemma reconcile_summary:
  "tally q (ap_summary (reconcile env p st)) =
     int (length (filter (\<lambda>r. cv_Outcome r = q) (ap_rows (reconcile env p st))))"
proof (rule reconcile_invariant)
  fix x :: apply_state and a c
  assume "tally q (ap_summary x) = int (length (filter (\<lambda>r. cv_Outcome r = q) (ap_rows x)))"
  then show "tally q (ap_summary (apply_capability env p (BaselineByID (pol_Baseline p)) a x c)) =
      int (length (filter (\<lambda>r. cv_Outcome r = q)
        (ap_rows (apply_capability env p (BaselineByID (pol_Baseline p)) a x c))))"
    by (simp add: tally_count)
qed (simp add: tally_def)

definition row_of :: "Policy \<Rightarrow> (nat \<Rightarrow> reading) \<Rightarrow> Store \<Rightarrow> CoverageRow \<Rightarrow> bool" where
  "row_of p env st row \<longleftrightarrow>
     (\<exists>a \<in> set (ListAdapters st). \<exists>c \<in> set (ad_Capabilities a). \<exists>k.
       cv_Vendor row = ad_ID a \<and> cv_Capability row = cap_Key c \<and> cv_Disposition row = cap_Disposition c \<and>
       cv_Outcome row = outcome_of p (fst (env k)) st a c)"

lemma reconcile_rows:
  "st_gwEnforce (ap_store (reconcile env p st)) = st_gwEnforce st \<and>
     (\<forall>row \<in> set (ap_rows (reconcile env p st)). row_of p env st row)"
proof (rule reconcile_invariant)
  fix x :: apply_state and a c
  assume ac: "a \<in> set (ListAdapters st)" "c \<in> set (ad_Capabilities a)"
    and x: "st_gwEnforce (ap_store x) = st_gwEnforce st \<and> (\<forall>row \<in> set (ap_rows x). row_of p env st row)"
  then have "row_of p env st (next_row env p a x c)"
    unfolding row_of_def using outcome_of_gwEnforce [of "ap_store x" st]
    by (intro bexI [of _ a] bexI [of _ c] exI [of _ "ap_reads x"]) auto
  with x show "st_gwEnforce (ap_store (apply_capability env p (BaselineByID (pol_Baseline p)) a x c)) = st_gwEnforce st \<and>
      (\<forall>row \<in> set (ap_rows (apply_capability env p (BaselineByID (pol_Baseline p)) a x c)). row_of p env st row)"
    by simp
qed simp

text \<open>The outcome by disposition: one branch each.\<close>

lemma classify_outcome:
  "fst (classify f a c) =
     (if cap_Disposition c = DispVendorNative then ''applied_native''
      else if cap_Disposition c = DispEnvManaged then ''applied_env''
      else if cap_Disposition c = DispProxyEnforced then
        (if snd (f (ad_ID a) (cap_Key c)) then ''applied_proxy'' else ''proxy_needed'')
      else if cap_Disposition c = DispMonitorOnly then ''monitored''
      else if cap_Disposition c = DispUnverified then ''unverified'' else ''unsupported'')"
  by (simp add: classify_def Let_def split: prod.split)

lemma applied_proxy_fresh:
  assumes "outcome_of p now st a c = ''applied_proxy''"
  shows "cap_Disposition c = DispProxyEnforced \<and> \<not> baa_excluded p a \<and>
    (\<exists>gid rep. (gid, rep) \<in> set (st_gwEnforce st) \<and> listed (ad_ID a) (cap_Key c) rep \<and>
      now - GatewayStaleAfter < er_At rep)"
proof -
  from assms have *: "\<not> baa_excluded p a" "cap_Disposition c = DispProxyEnforced"
    "snd (enforced_by now st (ad_ID a) (cap_Key c))"
    by (auto simp: outcome_of_def classify_outcome split: if_splits)
  obtain gid fresh seen where ge: "GatewayEnforcement now (ad_ID a) (cap_Key c) GatewayStaleAfter st = (gid, fresh, seen)"
    by (cases "GatewayEnforcement now (ad_ID a) (cap_Key c) GatewayStaleAfter st") auto
  with *(3) have "fresh" by (simp add: enforced_by_def)
  with ge have "\<exists>rep. (gid, rep) \<in> set (st_gwEnforce st) \<and> listed (ad_ID a) (cap_Key c) rep \<and>
      now - GatewayStaleAfter < er_At rep"
    by (intro GatewayEnforcement_fresh [where seen = seen]) simp
  with * show ?thesis by blast
qed

section \<open>Applying a policy\<close>

lemma SetPolicy_frame [simp]:
  "st_gwEnforce (SetPolicy fs r p s) = st_gwEnforce s" "st_adapters (SetPolicy fs r p s) = st_adapters s"
  "st_order (SetPolicy fs r p s) = st_order s"
  "st_policy (SetPolicy fs r p s) = Some (p\<lparr>pol_AppliedAt := fst r\<rparr>)"
  by (simp_all add: SetPolicy_def Let_def split: prod.split)

lemma reconcile_inv: "store_inv st \<Longrightarrow> store_inv (ap_store (reconcile env p st))"
  by (rule reconcile_invariant) (simp_all add: apply_capability_inv)

lemma Apply_inv: "store_inv st \<Longrightarrow> store_inv (fst (snd (Apply fs env st p)))"
  by (simp add: Apply_def Let_def SetPolicy_inv reconcile_inv)

lemma Apply_rows:
  "rep_Rows (fst (Apply fs env st p)) = ap_rows (reconcile env p st)"
  "rep_Summary (fst (Apply fs env st p)) = ap_summary (reconcile env p st)"
  by (simp_all add: Apply_def Let_def)

lemma Apply_store:
  "st_gwEnforce (fst (snd (Apply fs env st p))) = st_gwEnforce st"
  "GetPolicy (fst (snd (Apply fs env st p))) =
     Some (p\<lparr>pol_AppliedAt := fst (env (ap_reads (reconcile env p st)))\<rparr>)"
  using reconcile_rows [of env p st] by (simp_all add: Apply_def Let_def GetPolicy_def)

section \<open>What the drift set says\<close>

lemma over_capabilities_invariant:
  assumes "P x"
    and "\<And>x a c. a \<in> set as \<Longrightarrow> \<not> inactive a \<Longrightarrow> c \<in> set (ad_Capabilities a) \<Longrightarrow> P x \<Longrightarrow> P (f a x c)"
  shows "P (over_capabilities f as x)"
  unfolding over_capabilities_def
proof (rule foldl_invariant [where P = P])
  fix x a
  assume "a \<in> set as" "P x"
  then show "P (if inactive a then x else foldl (f a) x (ad_Capabilities a))"
    using assms(2) by (auto intro: foldl_invariant [where P = P])
qed (rule assms(1))

lemma AddObservation_frame [simp]:
  "st_gwEnforce (snd (AddObservation r ob s)) = st_gwEnforce s"
  "st_adapters (snd (AddObservation r ob s)) = st_adapters s"
  "st_order (snd (AddObservation r ob s)) = st_order s" "st_policy (snd (AddObservation r ob s)) = st_policy s"
  by (simp_all add: AddObservation_def Let_def)

text \<open>The parts of the store the drift loops read, and the part of a record that is not its id or time.\<close>

definition drift_view :: "Store \<Rightarrow> (string \<times> EnforcementReport) list \<times> (string \<times> Adapter) list \<times> string list \<times> Policy option" where
  "drift_view s = (st_gwEnforce s, st_adapters s, st_order s, st_policy s)"

definition drift_core :: "DriftRecord \<Rightarrow> string \<times> string \<times> string \<times> string" where
  "drift_core d = (dr_Vendor d, dr_Capability d, dr_Surface d, dr_Severity d)"

lemma number_drift_core [simp]: "map drift_core (number_drift now n ds) = map drift_core ds"
  by (induction ds arbitrary: n) (simp_all add: drift_core_def)

lemma drift_view_emit [simp]:
  "drift_view (emitDriftObs env n a c state ts st) = drift_view st"
  "drift_view (emitGatewayDriftObs env n a c q sev ts st) = drift_view st"
  by (simp_all add: drift_view_def emitDriftObs_def emitGatewayDriftObs_def Let_def)

lemma drift_core_record [simp]:
  "drift_core (drift_record ts a c d ac sev m) = (ad_ID a, cap_Key c, cap_Disposition c, sev)"
  by (simp add: drift_core_def drift_record_def)

text \<open>Why a record is in the set: an overridden managed surface, or a silent gateway.\<close>

definition env_reason :: "Store \<Rightarrow> string \<times> string \<times> string \<times> string \<Rightarrow> bool" where
  "env_reason st k \<longleftrightarrow>
     (\<exists>a \<in> set (ListAdapters st). \<exists>c \<in> set (ad_Capabilities a).
        k = (ad_ID a, cap_Key c, DispEnvManaged, ''warning'') \<and> \<not> inactive a \<and>
        cap_Disposition c = DispEnvManaged \<and> overrideHeuristic (ad_ID a) (cap_Key c) \<and>
        cap_Enforcement c \<in> {EnforcementSeedOnly, EnforcementMDMLocked})"

definition gateway_reason :: "(nat \<Rightarrow> reading) \<Rightarrow> Store \<Rightarrow> string \<times> string \<times> string \<times> string \<Rightarrow> bool" where
  "gateway_reason env st k \<longleftrightarrow>
     (\<exists>a \<in> set (ListAdapters st). \<exists>c \<in> set (ad_Capabilities a). \<exists>n i seen.
        GatewayEnforcement (fst (env n)) (ad_ID a) (cap_Key c) GatewayStaleAfter st = (i, False, seen) \<and>
        \<not> inactive a \<and> cap_Disposition c = DispProxyEnforced \<and>
        k = (ad_ID a, cap_Key c, DispProxyEnforced, if seen then ''error'' else ''warning'') \<and>
        (\<not> seen \<longrightarrow> redaction_expected st \<and> cap_Key c = ''pii_redaction''))"

lemma view_ListAdapters: "drift_view s = drift_view s' \<Longrightarrow> ListAdapters s = ListAdapters s'"
  by (simp add: drift_view_def ListAdapters_def)

lemma view_GatewayEnforcement:
  "drift_view s = drift_view s' \<Longrightarrow> GatewayEnforcement now v c d s = GatewayEnforcement now v c d s'"
  by (simp add: drift_view_def GatewayEnforcement_def)

lemma view_expected: "drift_view s = drift_view s' \<Longrightarrow> redaction_expected s = redaction_expected s'"
  by (simp add: drift_view_def redaction_expected_def GetPolicy_def)

lemma ReadState_drift:
  "es_DriftDetected (ReadState now p i art ov) \<longleftrightarrow>
     ov \<and> art_Enforcement art \<in> {EnforcementSeedOnly, EnforcementMDMLocked}"
  by (simp add: ReadState_def Let_def)

lemma Render_enforcement [simp]: "art_Enforcement (Render now p i ag enf) = enf"
  by (simp add: Render_def Let_def)

definition env_sound :: "Store \<Rightarrow> drift_state \<Rightarrow> bool" where
  "env_sound st x \<longleftrightarrow>
     drift_view (fst (snd x)) = drift_view st \<and> (\<forall>d \<in> set (fst x). env_reason st (drift_core d))"

definition gateway_sound :: "(nat \<Rightarrow> reading) \<Rightarrow> Store \<Rightarrow> drift_state \<Rightarrow> bool" where
  "gateway_sound env st x \<longleftrightarrow>
     drift_view (fst (snd x)) = drift_view st \<and> (\<forall>d \<in> set (fst x). gateway_reason env st (drift_core d))"

lemma env_drift_sound:
  assumes "a \<in> set (ListAdapters st)" and "\<not> inactive a" and "c \<in> set (ad_Capabilities a)"
    and "env_sound st x"
  shows "env_sound st (env_drift env ts a x c)"
proof -
  obtain records st' n where x: "x = (records, st', n)" by (cases x)
  have "env_reason st (ad_ID a, cap_Key c, DispEnvManaged, ''warning'')"
    if "cap_Disposition c = DispEnvManaged" "overrideHeuristic (ad_ID a) (cap_Key c)"
      "cap_Enforcement c \<in> {EnforcementSeedOnly, EnforcementMDMLocked}"
    using that assms(1-3) unfolding env_reason_def by blast
  with assms(4) show ?thesis
    by (auto simp: x env_sound_def env_drift_def Let_def ReadState_drift)
qed

lemma gateway_drift_sound:
  assumes "a \<in> set (ListAdapters st)" and "\<not> inactive a" and "c \<in> set (ad_Capabilities a)"
    and "gateway_sound env st x"
  shows "gateway_sound env st (gateway_drift env ts (redaction_expected st) a x c)"
proof -
  obtain records st' n where x: "x = (records, st', n)" by (cases x)
  obtain i fresh seen where ge: "GatewayEnforcement (fst (env n)) (ad_ID a) (cap_Key c) GatewayStaleAfter st = (i, fresh, seen)"
    by (cases "GatewayEnforcement (fst (env n)) (ad_ID a) (cap_Key c) GatewayStaleAfter st")
  have ge': "GatewayEnforcement (fst (env n)) (ad_ID a) (cap_Key c) GatewayStaleAfter st' = (i, fresh, seen)"
    using assms(4) ge by (simp add: x gateway_sound_def view_GatewayEnforcement [of st' st])
  have "gateway_reason env st (ad_ID a, cap_Key c, DispProxyEnforced, if seen then ''error'' else ''warning'')"
    if "cap_Disposition c = DispProxyEnforced" "\<not> fresh" "seen \<or> redaction_expected st \<and> cap_Key c = ''pii_redaction''"
    using that ge assms(1-3) unfolding gateway_reason_def
    by (intro bexI [of _ a] bexI [of _ c] exI [of _ n] exI [of _ i] exI [of _ seen]) auto
  with assms(4) show ?thesis
    by (auto simp: x gateway_sound_def gateway_drift_def ge' split: if_splits)
qed

lemma env_drifts_sound: "env_sound st (over_capabilities (env_drift env ts) (ListAdapters st) ([], st, n))"
  by (rule over_capabilities_invariant [where P = "env_sound st"])
    (simp_all add: env_drift_sound, simp add: env_sound_def)

lemma gatewayDrift_sound: "gateway_sound env st (gatewayDrift env ts st n)"
  unfolding gatewayDrift_def
  by (rule over_capabilities_invariant [where P = "gateway_sound env st"])
    (simp_all add: gateway_drift_sound, simp add: gateway_sound_def)

lemma RefreshDrift_reasons:
  assumes "d \<in> set (st_drift (fst (RefreshDrift env n ts st)))"
  shows "env_reason st (drift_core d) \<or> gateway_reason env st (drift_core d)"
proof -
  obtain records st1 n1 where e: "over_capabilities (env_drift env ts) (ListAdapters st) ([], st, n) = (records, st1, n1)"
    by (cases "over_capabilities (env_drift env ts) (ListAdapters st) ([], st, n)")
  have 1: "drift_view st1 = drift_view st" "\<forall>d \<in> set records. env_reason st (drift_core d)"
    using env_drifts_sound [of st env ts n] by (simp_all add: e env_sound_def)
  obtain records' st2 n2 where g: "gatewayDrift env ts st1 n1 = (records', st2, n2)"
    by (cases "gatewayDrift env ts st1 n1")
  have "gateway_reason env st1 k \<longleftrightarrow> gateway_reason env st k" for k
    by (simp add: gateway_reason_def view_ListAdapters [OF 1(1)] view_GatewayEnforcement [OF 1(1)]
        view_expected [OF 1(1)])
  with gatewayDrift_sound [of env st1 ts n1] have 2: "\<forall>d \<in> set records'. gateway_reason env st (drift_core d)"
    by (simp add: g gateway_sound_def)
  have "st_drift (fst (RefreshDrift env n ts st)) =
      number_drift (fst (env n2)) (st_nextDriftID st2) (records @ records')"
    by (simp add: RefreshDrift_def e g ReplaceDrift_def)
  then have "map drift_core (st_drift (fst (RefreshDrift env n ts st))) = map drift_core (records @ records')"
    by (simp only: number_drift_core)
  moreover from assms have "drift_core d \<in> set (map drift_core (st_drift (fst (RefreshDrift env n ts st))))"
    by simp
  ultimately have "drift_core d \<in> drift_core ` (set records \<union> set records')" by (simp add: image_Un)
  then obtain d' where "d' \<in> set records \<union> set records'" "drift_core d = drift_core d'" by (rule imageE)
  with 1(2) 2 show ?thesis by (metis UnE)
qed

definition drift_inv :: "drift_state \<Rightarrow> bool" where
  "drift_inv x \<longleftrightarrow> store_inv (fst (snd x))"

lemma env_drift_inv: "drift_inv x \<Longrightarrow> drift_inv (env_drift env ts a x c)"
  by (cases x) (simp add: drift_inv_def env_drift_def Let_def emitDriftObs_def AddObservation_inv)

lemma gateway_drift_inv: "drift_inv x \<Longrightarrow> drift_inv (gateway_drift env ts e a x c)"
  by (cases x) (simp add: drift_inv_def gateway_drift_def Let_def emitGatewayDriftObs_def AddObservation_inv
      split: prod.split)

lemma over_capabilities_inv:
  assumes "\<And>x a c. drift_inv x \<Longrightarrow> drift_inv (f a x c)" and "drift_inv x"
  shows "drift_inv (over_capabilities f as x)"
  using assms by (intro over_capabilities_invariant [where P = drift_inv]) auto

lemma RefreshDrift_inv:
  assumes "store_inv st"
  shows "store_inv (fst (RefreshDrift env n ts st))"
proof -
  obtain records st1 n1 where e: "over_capabilities (env_drift env ts) (ListAdapters st) ([], st, n) = (records, st1, n1)"
    by (cases "over_capabilities (env_drift env ts) (ListAdapters st) ([], st, n)")
  have "drift_inv (records, st1, n1)"
    unfolding e [symmetric] using assms by (intro over_capabilities_inv env_drift_inv) (simp_all add: drift_inv_def)
  then have "drift_inv (gatewayDrift env ts st1 n1)"
    unfolding gatewayDrift_def by (intro over_capabilities_inv gateway_drift_inv) (simp_all add: drift_inv_def)
  then show ?thesis
    by (auto simp: RefreshDrift_def e drift_inv_def ReplaceDrift_inv split: prod.split)
qed

section \<open>The drift set is complete\<close>

text \<open>What a step of a drift loop does to the record set once it has met a given control.\<close>

lemma over_capabilities_meets:
  assumes "a \<in> set as" "\<not> inactive a" "c \<in> set (ad_Capabilities a)" and "P x"
    and P: "\<And>x a c. P x \<Longrightarrow> P (f a x c)" and hit: "\<And>x. P x \<Longrightarrow> Q (f a x c)" and Q: "\<And>x a c. Q x \<Longrightarrow> Q (f a x c)"
  shows "Q (over_capabilities f as x)"
proof -
  obtain as1 as2 where as: "as = as1 @ a # as2" using split_list [OF assms(1)] by blast
  obtain cs1 cs2 where cs: "ad_Capabilities a = cs1 @ c # cs2" using split_list [OF assms(3)] by blast
  have "P (over_capabilities f as1 x)" using assms(4) by (intro over_capabilities_invariant [where P = P] P)
  then have "P (foldl (f a) (over_capabilities f as1 x) cs1)" by (intro foldl_invariant [where P = P] P)
  then have "Q (f a (foldl (f a) (over_capabilities f as1 x) cs1) c)" by (rule hit)
  then have "Q (foldl (f a) (over_capabilities f as1 x) (ad_Capabilities a))"
    unfolding cs by (simp add: Q foldl_invariant [where P = Q])
  then have "Q (over_capabilities f as2 (foldl (f a) (over_capabilities f as1 x) (ad_Capabilities a)))"
    by (intro over_capabilities_invariant [where P = Q] Q)
  then show ?thesis using assms(2) by (simp add: over_capabilities_def as)
qed

text \<open>The keys of the records a loop has found; each step only adds to them.\<close>

definition found :: "drift_state \<Rightarrow> (string \<times> string \<times> string \<times> string) set" where
  "found x = drift_core ` set (fst x)"

lemma found_grows: "k \<in> found x \<Longrightarrow> k \<in> found (env_drift env ts a x c)" "k \<in> found x \<Longrightarrow> k \<in> found (gateway_drift env ts e a x c)"
  by (cases x, auto simp: found_def env_drift_def gateway_drift_def Let_def split: prod.split)+

definition silent :: "(nat \<Rightarrow> reading) \<Rightarrow> Store \<Rightarrow> string \<Rightarrow> string \<Rightarrow> bool" where
  "silent env st v c \<longleftrightarrow>
     (\<exists>e \<in> set (st_gwEnforce st). listed v c (snd e)) \<and>
     (\<forall>e \<in> set (st_gwEnforce st). listed v c (snd e) \<longrightarrow> (\<forall>n. er_At (snd e) + GatewayStaleAfter \<le> fst (env n)))"

lemma silent_GatewayEnforcement:
  assumes "silent env st v c"
  shows "\<exists>i. GatewayEnforcement (fst (env n)) v c GatewayStaleAfter st = (i, False, True)"
proof -
  have "\<not> fst (env n) - GatewayStaleAfter < er_At (snd e)"
    if "e \<in> set (st_gwEnforce st)" "listed v c (snd e)" for e
  proof -
    have "er_At (snd e) + GatewayStaleAfter \<le> fst (env n)" using assms that unfolding silent_def by blast
    then show ?thesis by simp
  qed
  then have "\<not> fst (snd (GatewayEnforcement (fst (env n)) v c GatewayStaleAfter st))"
    unfolding GatewayEnforcement_def scan_heartbeats_fresh by blast
  moreover have "snd (snd (GatewayEnforcement (fst (env n)) v c GatewayStaleAfter st))"
    unfolding GatewayEnforcement_def scan_heartbeats_seen using assms by (auto simp: silent_def)
  ultimately show ?thesis by (metis prod.collapse)
qed

lemma drift_found: "drift_core ` set (st_drift (fst (RefreshDrift env n ts st))) =
   (case over_capabilities (env_drift env ts) (ListAdapters st) ([], st, n) of (records, st', n') \<Rightarrow>
      found (records, st', n') \<union> found (gatewayDrift env ts st' n'))"
proof -
  obtain records st1 n1 where e: "over_capabilities (env_drift env ts) (ListAdapters st) ([], st, n) = (records, st1, n1)"
    by (cases "over_capabilities (env_drift env ts) (ListAdapters st) ([], st, n)")
  obtain records' st2 n2 where g: "gatewayDrift env ts st1 n1 = (records', st2, n2)"
    by (cases "gatewayDrift env ts st1 n1")
  have "st_drift (fst (RefreshDrift env n ts st)) =
      number_drift (fst (env n2)) (st_nextDriftID st2) (records @ records')"
    by (simp add: RefreshDrift_def e g ReplaceDrift_def)
  then have "map drift_core (st_drift (fst (RefreshDrift env n ts st))) = map drift_core (records @ records')"
    by (simp only: number_drift_core)
  then have "set (map drift_core (st_drift (fst (RefreshDrift env n ts st)))) = set (map drift_core (records @ records'))"
    by simp
  then show ?thesis by (simp add: e g found_def image_Un)
qed

lemma env_reason_found:
  assumes "env_reason st k"
  shows "k \<in> found (over_capabilities (env_drift env ts) (ListAdapters st) x)"
proof -
  from assms obtain a c where ac: "a \<in> set (ListAdapters st)" "c \<in> set (ad_Capabilities a)" "\<not> inactive a"
      "k = (ad_ID a, cap_Key c, DispEnvManaged, ''warning'')" "overrideHeuristic (ad_ID a) (cap_Key c)"
      "cap_Enforcement c \<in> {EnforcementSeedOnly, EnforcementMDMLocked}" "cap_Disposition c = DispEnvManaged"
    unfolding env_reason_def by blast
  have meets: "k \<in> found (env_drift env ts a x c)" for x
    using ac(4-7) by (cases x) (auto simp: env_drift_def Let_def ReadState_drift found_def)
  show ?thesis
    by (rule over_capabilities_meets [where P = "\<lambda>_. True" and Q = "\<lambda>x. k \<in> found x", OF ac(1,3,2)])
      (simp_all add: meets found_grows(1))
qed

lemma silent_found:
  assumes "a \<in> set (ListAdapters st)" "\<not> inactive a" "c \<in> set (ad_Capabilities a)" "cap_Disposition c = DispProxyEnforced"
    and "silent env st (ad_ID a) (cap_Key c)"
  shows "(ad_ID a, cap_Key c, DispProxyEnforced, ''error'') \<in> found (gatewayDrift env ts st n)"
  unfolding gatewayDrift_def
proof (rule over_capabilities_meets [where a = a and c = c and P = "\<lambda>x. drift_view (fst (snd x)) = drift_view st"])
  fix x :: drift_state
  assume view: "drift_view (fst (snd x)) = drift_view st"
  obtain records st' m where x: "x = (records, st', m)" by (cases x)
  from view have view': "drift_view st' = drift_view st" by (simp add: x)
  obtain i where "GatewayEnforcement (fst (env m)) (ad_ID a) (cap_Key c) GatewayStaleAfter st = (i, False, True)"
    using silent_GatewayEnforcement [OF assms(5)] by blast
  then have "GatewayEnforcement (fst (env m)) (ad_ID a) (cap_Key c) GatewayStaleAfter st' = (i, False, True)"
    by (simp add: view_GatewayEnforcement [OF view'])
  then show "(ad_ID a, cap_Key c, DispProxyEnforced, ''error'') \<in> found (gateway_drift env ts (redaction_expected st) a x c)"
    by (simp add: x gateway_drift_def assms(4) found_def)
qed (use assms(1-3) found_grows(2) in \<open>auto simp: gateway_drift_def split: prod.split\<close>)

end
