(* ===== verification/Emitter.thy ===== *)
theory Emitter
  imports Policy_Engine
begin

text \<open>
  The background generator of observations (\<open>internal/emitter/emitter.go\<close>): every tick walks the
  metrics of each emitting adapter and stores one batch per adapter. The random draws and the readings
  of clock and random bytes are sequences, and the state carries the next position of each. The ticker
  of \<open>Run\<close> and its cancellation are left out: a live tick is \<open>emitTick\<close> at the time it fires.
\<close>

definition ProxyNotNormalizedCode :: string where "ProxyNotNormalizedCode = ''proxy_not_normalized''"

definition ProxyNotNormalizedMessage :: string where
  "ProxyNotNormalizedMessage =
     ''proxy mode is not served by the synthetic vendor replica; inline enforcement is the inference gateway '' @
     ''(cmd/air-traffic-gateway)''"

text \<open>\<open>int64(x)\<close> of a float: truncation towards zero.\<close>

definition trunc :: "float64 \<Rightarrow> int" where
  "trunc x = (if x < 0 then - \<lfloor>- x\<rfloor> else \<lfloor>x\<rfloor>)"

fun pow10 :: "nat \<Rightarrow> float64" where
  "pow10 0 = 1"
| "pow10 (Suc n) = pow10 n * 10"

definition roundTo :: "float64 \<Rightarrow> int \<Rightarrow> json" where
  "roundTo v decimals =
     (if decimals \<le> 0 then JNum (of_int (trunc (v + 1 / 2)))
      else let p = pow10 (nat decimals) in JNum (of_int (trunc (v * p + 1 / 2)) / p))"

definition rag :: "float64 \<Rightarrow> float64 \<Rightarrow> float64 \<Rightarrow> string \<Rightarrow> string \<times> string" where
  "rag v green amber polarity =
     (if polarity = ''higher''
      then (if v \<ge> green then (''green'', ''info'') else if v \<ge> amber then (''amber'', ''warning'') else (''red'', ''error''))
      else (if v \<le> green then (''green'', ''info'') else if v \<le> amber then (''amber'', ''warning'') else (''red'', ''error'')))"

section \<open>The walk\<close>

record emission =
  em_state :: "(string \<times> float64) list"
  em_store :: Store
  em_draws :: nat
  em_reads :: nat

text \<open>A tick hook: what main registers refreshes the drift set.\<close>

type_synonym tick_hook = "time \<Rightarrow> Store \<Rightarrow> nat \<Rightarrow> Store \<times> nat"

record Emitter =
  et_interval :: int
  et_historyDepth :: nat
  et_hooks :: "tick_hook list"

definition new_emitter :: "int \<Rightarrow> Emitter" where
  "new_emitter interval = \<lparr>et_interval = interval, et_historyDepth = 12, et_hooks = []\<rparr>"

definition AddTickHook :: "tick_hook \<Rightarrow> Emitter \<Rightarrow> Emitter" where
  "AddTickHook f e = e\<lparr>et_hooks := et_hooks e @ [f]\<rparr>"

definition walk :: "MetricDef \<Rightarrow> float64 \<Rightarrow> float64 \<Rightarrow> float64" where
  "walk d draw cur =
     (let delta = (draw * 2 - 1) * md_Step d;
          next = cur + delta + (md_Baseline d - cur) * (6 / 100);
          next = (if next < md_Min d then md_Min d else next)
      in if next > md_Max d then md_Max d else next)"

definition metric_key :: "string \<Rightarrow> MetricDef \<Rightarrow> string" where
  "metric_key i d = i @ ''|'' @ md_Key d"

definition current :: "(string \<times> float64) list \<Rightarrow> string \<Rightarrow> MetricDef \<Rightarrow> float64" where
  "current m i d = (case map_of m (metric_key i d) of Some cur \<Rightarrow> cur | None \<Rightarrow> md_Baseline d)"

definition metric_dims :: "MetricDef \<Rightarrow> (string \<times> json) list" where
  "metric_dims d =
     (if md_Model d \<noteq> [] then [(''model'', JStr (md_Model d))] else []) @ [(''team'', JStr ''platform-engineering'')]"

record metric_walk =
  mw_state :: "(string \<times> float64) list"
  mw_agg :: "(string \<times> float64) list"
  mw_obs :: "json list"
  mw_draws :: nat

definition emit_metric :: "(nat \<Rightarrow> float64) \<Rightarrow> string \<Rightarrow> metric_walk \<Rightarrow> MetricDef \<Rightarrow> metric_walk" where
  "emit_metric draw i x d =
     (let held = (md_Step d = 0);
          next = (if held then md_Baseline d else walk d (draw (mw_draws x)) (current (mw_state x) i d))
      in case rag next (md_Green d) (md_Amber d) (md_Polarity d) of (status, severity) \<Rightarrow>
        \<lparr>mw_state = AList.update (metric_key i d) next (mw_state x),
         mw_agg = AList.update (md_Key d) next (mw_agg x),
         mw_obs = mw_obs x @ [Obs (md_Kind d) (md_Key d) (roundTo next (md_Decimals d)) (md_Unit d) status severity
           (md_Plane d) i (md_Surface d) (metric_dims d) (md_Surface d) (md_SourceURL d)],
         mw_draws = (if held then mw_draws x else mw_draws x + 1)\<rparr>)"

section \<open>Cost breakdowns\<close>

definition total_weight :: "FacetMember list \<Rightarrow> float64" where
  "total_weight ms = foldl (\<lambda>t m. t + fm_Weight m) 0 ms"

definition agg_of :: "(string \<times> float64) list \<Rightarrow> string \<Rightarrow> float64" where
  "agg_of agg k = (case map_of agg k of Some v \<Rightarrow> v | None \<Rightarrow> 0)"

definition member_share :: "CostFacet \<Rightarrow> FacetMember \<Rightarrow> float64" where
  "member_share f m = fm_Weight m / total_weight (cf_Members f)"

definition breakdown_obs :: "string \<Rightarrow> (string \<times> float64) list \<Rightarrow> CostFacet \<Rightarrow> FacetMember \<Rightarrow> json" where
  "breakdown_obs i agg f m =
     (let share = member_share f m; tin = agg_of agg ''tokens_in''; tout = agg_of agg ''tokens_out'' in
      Obs ''cost_breakdown'' ''cost_usd'' (roundTo (agg_of agg ''cost_usd'' * share) 2) ''usd'' ''green'' ''info''
        PlaneBudget i DispVendorNative
        [(''cost_facet'', JStr (cf_Dimension f)), (''cost_facet_member'', JStr (fm_Key m)),
         (''cost_facet_label'', JStr (fm_Label m)),
         (''tokens_in'', JNum (of_int (trunc (tin * share + 1 / 2)))),
         (''tokens_out'', JNum (of_int (trunc (tout * share + 1 / 2)))),
         (''requests'', JNum (of_int (trunc (tin * share / 150 + 1 / 2))))]
        ''cost-facets'' (cf_Endpoint f))"

definition broken_down :: "CostFacet \<Rightarrow> bool" where
  "broken_down f \<longleftrightarrow> \<not> (\<not> cf_Supported f \<or> cf_Members f = []) \<and> \<not> total_weight (cf_Members f) \<le> 0"

definition costBreakdowns :: "string \<Rightarrow> Definition \<Rightarrow> (string \<times> float64) list \<Rightarrow> json list" where
  "costBreakdowns i d agg =
     (if agg_of agg ''cost_usd'' \<le> 0 \<or> df_CostFacets d = [] then []
      else concat (map (\<lambda>f. map (breakdown_obs i agg f) (cf_Members f)) (filter broken_down (df_CostFacets d))))"

section \<open>Ticks\<close>

definition storeBatch ::
    "(nat \<Rightarrow> reading) \<Rightarrow> int \<Rightarrow> Adapter \<Rightarrow> time \<Rightarrow> json list \<Rightarrow> json list \<Rightarrow> bool \<Rightarrow> emission \<Rightarrow> emission" where
  "storeBatch env interval a ts observations errs whole x =
     (let body = BuildBatch (snd (env (em_reads x))) a ts interval observations errs
      in x\<lparr>em_store := snd (AddObservation (env (em_reads x + 1))
             \<lparr>ob_ID = 0, ob_ReceivedAt = ts, ob_Contract = ObservationContract, ob_ConnectorType = ''ai-vendor'',
              ob_ConnectorInstance = ad_ID a, ob_Complete = whole, ob_ObservationCount = int (length observations),
              ob_ErrorCount = int (length errs), ob_Body = body\<rparr> (em_store x)),
           em_reads := em_reads x + 2\<rparr>)"

definition emitSynthetic ::
    "(nat \<Rightarrow> float64) \<Rightarrow> (nat \<Rightarrow> reading) \<Rightarrow> int \<Rightarrow> Adapter \<Rightarrow> Definition \<Rightarrow> time \<Rightarrow> emission \<Rightarrow> emission" where
  "emitSynthetic draw env interval a d ts x =
     (let w = foldl (emit_metric draw (ad_ID a))
                \<lparr>mw_state = em_state x, mw_agg = [], mw_obs = [], mw_draws = em_draws x\<rparr> (df_Metrics d)
      in storeBatch env interval a ts (mw_obs w @ costBreakdowns (ad_ID a) d (mw_agg w)) [] True
           (x\<lparr>em_state := mw_state w, em_draws := mw_draws w\<rparr>))"

definition emitProxyStub :: "(nat \<Rightarrow> reading) \<Rightarrow> int \<Rightarrow> Adapter \<Rightarrow> time \<Rightarrow> emission \<Rightarrow> emission" where
  "emitProxyStub env interval a ts x =
     storeBatch env interval a ts []
       [JObj [(''scope'', JStr ''connector''), (''code'', JStr ProxyNotNormalizedCode),
              (''message'', JStr ProxyNotNormalizedMessage), (''retryable'', JBool False), (''http_status'', JNull)]] False x"

definition emit_adapter ::
    "(nat \<Rightarrow> float64) \<Rightarrow> (nat \<Rightarrow> reading) \<Rightarrow> int \<Rightarrow> time \<Rightarrow> emission \<Rightarrow> Adapter \<Rightarrow> emission" where
  "emit_adapter draw env interval ts x a =
     (if \<not> ad_Enabled a \<or> \<not> ad_Emit a \<or> ad_Mode a = ModeDisabled then x
      else if ad_Mode a = ModeProxy then emitProxyStub env interval a ts x
      else case ByID (ad_ID a) of
             None \<Rightarrow> x
           | Some d \<Rightarrow> if df_Metrics d = [] then x else emitSynthetic draw env interval a d ts x)"

definition run_hook :: "time \<Rightarrow> emission \<Rightarrow> tick_hook \<Rightarrow> emission" where
  "run_hook ts x h = (case h ts (em_store x) (em_reads x) of (st, n) \<Rightarrow> x\<lparr>em_store := st, em_reads := n\<rparr>)"

definition emitTick :: "(nat \<Rightarrow> float64) \<Rightarrow> (nat \<Rightarrow> reading) \<Rightarrow> Emitter \<Rightarrow> emission \<Rightarrow> time \<Rightarrow> emission" where
  "emitTick draw env e x ts =
     foldl (run_hook ts) (foldl (emit_adapter draw env (et_interval e) ts) x (ListAdapters (em_store x))) (et_hooks e)"

definition SeedHistory :: "(nat \<Rightarrow> float64) \<Rightarrow> (nat \<Rightarrow> reading) \<Rightarrow> Emitter \<Rightarrow> emission \<Rightarrow> emission" where
  "SeedHistory draw env e x =
     (let now = fst (env (em_reads x));
          ticks = map (\<lambda>k. now - int k * et_interval e) (rev [0..<et_historyDepth e]);
          x = foldl (emitTick draw env e) (x\<lparr>em_reads := em_reads x + 1\<rparr>) ticks
      in x\<lparr>em_store := RecordActivity (env (em_reads x)) ''emitter'' ''Seeded synthetic observation history''
                         (itoa (et_historyDepth e) @ '' ticks'') (em_store x),
           em_reads := em_reads x + 1\<rparr>)"

section \<open>Bounds of the walk\<close>

lemma walk_bounds: "md_Min d \<le> md_Max d \<Longrightarrow> md_Min d \<le> walk d draw cur \<and> walk d draw cur \<le> md_Max d"
  by (simp add: walk_def Let_def)

text \<open>The state of the emitter holds in-range values only, whatever the draws.\<close>

definition in_range :: "MetricDef \<Rightarrow> float64 \<Rightarrow> bool" where
  "in_range d v \<longleftrightarrow> md_Min d \<le> v \<and> v \<le> md_Max d"

lemma emit_metric_in_range:
  assumes "metric_ok d"
  shows "\<exists>v. in_range d v \<and> mw_state (emit_metric draw i x d) = AList.update (metric_key i d) v (mw_state x) \<and>
    mw_agg (emit_metric draw i x d) = AList.update (md_Key d) v (mw_agg x)"
  using assms walk_bounds [of d]
  by (auto simp: emit_metric_def Let_def in_range_def metric_ok_def split: prod.split)

section \<open>Shares\<close>

lemma foldl_weights: "foldl (\<lambda>t m. t + fm_Weight m) a ms = a + sum_list (map fm_Weight ms)"
  by (induction ms arbitrary: a) (simp_all add: add.assoc)

lemma total_weight_sum: "total_weight ms = sum_list (map fm_Weight ms)"
  by (simp add: total_weight_def foldl_weights)

lemma sum_list_scaled: "sum_list (map (\<lambda>m. c * fm_Weight m / t) ms) = c * sum_list (map fm_Weight ms) / t"
  by (induction ms) (simp_all add: distrib_left add_divide_distrib)

text \<open>Before rounding, a breakdown splits the spend exactly.\<close>

lemma shares_split:
  assumes "broken_down f"
  shows "sum_list (map (\<lambda>m. cost * member_share f m) (cf_Members f)) = cost"
proof -
  have "total_weight (cf_Members f) \<noteq> 0" using assms by (auto simp: broken_down_def)
  then show ?thesis by (simp add: member_share_def sum_list_scaled total_weight_sum)
qed

text \<open>One walk over the metrics of an adapter: one observation each, every aggregate in its range.\<close>

definition start_walk :: "(string \<times> float64) list \<Rightarrow> nat \<Rightarrow> metric_walk" where
  "start_walk m n = \<lparr>mw_state = m, mw_agg = [], mw_obs = [], mw_draws = n\<rparr>"

lemma length_mw_obs: "length (mw_obs (foldl (emit_metric draw i) x ds)) = length (mw_obs x) + length ds"
  by (induction ds arbitrary: x) (simp_all add: emit_metric_def Let_def split: prod.split)

lemma walk_in_range:
  assumes "list_all metric_ok ds" and "\<forall>(k, v) \<in> set (mw_agg x). \<exists>d \<in> D. md_Key d = k \<and> in_range d v" and "set ds \<subseteq> D"
  shows "\<forall>(k, v) \<in> set (mw_agg (foldl (emit_metric draw i) x ds)). \<exists>d \<in> D. md_Key d = k \<and> in_range d v"
  using assms
proof (induction ds arbitrary: x)
  case (Cons d ds)
  obtain v where v: "in_range d v" "mw_agg (emit_metric draw i x d) = AList.update (md_Key d) v (mw_agg x)"
    using emit_metric_in_range [of d draw i x] Cons.prems(1) by auto
  have "\<forall>(k, v) \<in> set (mw_agg (emit_metric draw i x d)). \<exists>d \<in> D. md_Key d = k \<and> in_range d v"
    using Cons.prems(2,3) v by (auto dest!: alist_update_in)
  with Cons.IH [of "emit_metric draw i x d"] Cons.prems show ?case by simp
qed simp

lemma catalog_metrics: "d \<in> set All \<Longrightarrow> list_all metric_ok (df_Metrics d)"
  using catalog_metrics_ok by (simp add: list_all_iff)

section \<open>Ticks keep the store's invariant\<close>

lemma storeBatch_inv: "store_inv (em_store x) \<Longrightarrow> store_inv (em_store (storeBatch env n a ts obs errs c x))"
  by (simp add: storeBatch_def Let_def AddObservation_inv)

lemma emit_adapter_inv: "store_inv (em_store x) \<Longrightarrow> store_inv (em_store (emit_adapter draw env n ts x a))"
  by (simp add: emit_adapter_def emitProxyStub_def emitSynthetic_def Let_def storeBatch_inv split: option.split)

lemma emitTick_inv:
  assumes "store_inv (em_store x)"
    and "\<And>h st n. h \<in> set (et_hooks e) \<Longrightarrow> store_inv st \<Longrightarrow> store_inv (fst (h ts st n))"
  shows "store_inv (em_store (emitTick draw env e x ts))"
proof -
  have "store_inv (em_store (foldl (emit_adapter draw env (et_interval e) ts) x (ListAdapters (em_store x))))"
    by (rule foldl_invariant [where P = "\<lambda>x. store_inv (em_store x)"]) (simp_all add: assms(1) emit_adapter_inv)
  moreover have "store_inv (em_store (run_hook ts y h))" if "h \<in> set (et_hooks e)" "store_inv (em_store y)" for y h
    using assms(2) [OF that, of "em_reads y"] by (simp add: run_hook_def split_beta)
  ultimately show ?thesis
    unfolding emitTick_def by (rule foldl_invariant [where P = "\<lambda>x. store_inv (em_store x)"])
qed

text \<open>The hook the control plane registers at start-up.\<close>

definition drift_hook :: "(nat \<Rightarrow> reading) \<Rightarrow> tick_hook" where
  "drift_hook env ts st n = RefreshDrift env n ts st"

lemma drift_hook_inv: "store_inv st \<Longrightarrow> store_inv (fst (drift_hook env ts st n))"
  by (simp add: drift_hook_def RefreshDrift_inv)

end
