(* ===== verification/Spine_Emit.thy ===== *)
theory Spine_Emit
  imports Gateway_Run Control_Store
begin

text \<open>
  The upward half of the spine on the gateway (\<open>internal/gateway/spine_emit.go\<close>) and its health
  endpoints (\<open>internal/gateway/health.go\<close>). The control plane is a function from the request it
  gets to its answer. Tickers and timers of \<open>RunSpine\<close> are events; the loop is driven by a list of
  them.
\<close>

section \<open>Requests to the control plane\<close>

datatype spine_payload =
    Batch "(string \<times> json) list"
  | Leaks "Report list"
  | Heartbeat EnforcementReport

record spine_request =
  sr_url :: string
  sr_auth :: "string option"
  sr_payload :: spine_payload

type_synonym control_plane = "spine_request \<Rightarrow> http_answer"

definition authSpine :: "gateway \<Rightarrow> string option" where
  "authSpine gw = (if spineKey gw = [] then None else Some (''Bearer '' @ spineKey gw))"

definition postJSON :: "control_plane \<Rightarrow> gateway \<Rightarrow> string \<Rightarrow> spine_payload \<Rightarrow> post_answer" where
  "postJSON cp gw path body =
     post_result (cp \<lparr>sr_url = ControlPlaneURL (gw_cfg gw) @ path, sr_auth = authSpine gw, sr_payload = body\<rparr>)"

section \<open>Observations\<close>

definition gatewayID :: "gateway \<Rightarrow> string" where
  "gatewayID gw = ''gw@'' @ ListenAddr (gw_cfg gw)"

definition gwObs :: "string \<Rightarrow> string \<Rightarrow> json \<Rightarrow> string \<Rightarrow> (string \<times> json) list \<Rightarrow> json" where
  "gwObs vendor name value unit extraDims =
     Obs ''metric'' name value unit ''green'' ''info'' PlaneObservability vendor DispProxyEnforced extraDims ''gateway'' []"

definition ratio :: "int \<Rightarrow> int \<Rightarrow> float64" where
  "ratio num den = (if den = 0 then 0 else of_int num / of_int den)"

definition num_of :: "int \<Rightarrow> json" where
  "num_of n = JNum (of_int n)"

definition routeObservations :: "string \<Rightarrow> metricsSnapshot \<Rightarrow> json list" where
  "routeObservations route snap =
     (let dims = [(''route'', JStr route)];
          obs = [gwObs route ''gw_auth_failures'' (num_of (ms_AuthFailures snap)) ''count'' dims];
          obs = (if ms_Requests snap > 0
            then obs @
             [gwObs route ''gw_requests'' (num_of (ms_Requests snap)) ''count'' dims,
              gwObs route ''gw_block_rate'' (JNum (ratio (ms_Blocked snap) (ms_Requests snap))) ''ratio'' dims,
              gwObs route ''gw_masked'' (num_of (ms_Masked snap)) ''count'' dims,
              gwObs route ''gw_fail_mode_trips'' (num_of (ms_FailTrips snap)) ''count'' dims,
              gwObs route ''gw_errors'' (num_of (ms_Errors snap)) ''count'' dims,
              gwObs route ''gw_error_rate'' (JNum (ratio (ms_Errors snap) (ms_Requests snap))) ''ratio'' dims,
              gwObs route ''gw_added_latency_ms_p50'' (JNum (ms_AddedP50 snap)) ''ms'' dims,
              gwObs route ''gw_added_latency_ms_p95'' (JNum (ms_AddedP95 snap)) ''ms'' dims,
              gwObs route ''gw_added_latency_ms_p99'' (JNum (ms_AddedP99 snap)) ''ms'' dims,
              gwObs route ''gw_latency_ms_p95'' (JNum (ms_TotalP95 snap)) ''ms'' dims,
              gwObs route ''tokens_in'' (num_of (ms_TokensIn snap)) ''tokens'' dims,
              gwObs route ''tokens_out'' (num_of (ms_TokensOut snap)) ''tokens'' dims]
            else obs)
      in obs @ map (\<lambda>(typ, n). gwObs route ''gw_redactions'' (num_of n) ''count''
                     (AList.update ''pii_type'' (JStr typ) dims)) (ms_RedactionsByType snap))"

definition pushObservations ::
    "(nat \<Rightarrow> reading) \<Rightarrow> control_plane \<Rightarrow> gateway \<Rightarrow> route_metrics \<Rightarrow> post_answer option \<times> route_metrics" where
  "pushObservations env cp gw rm =
     (case rm_drain rm of (snaps, rm') \<Rightarrow>
       if snaps = [] then (None, rm')
       else let routes = sort_strings (map fst snaps);
                obs = concat (map (\<lambda>route. case map_of snaps route of
                                     Some snap \<Rightarrow> routeObservations route snap | None \<Rightarrow> []) routes);
                batch =
                 [(''contract'', JStr ObservationContract),
                  (''batch_id'', JStr (NewUUID (snd (env 0)))),
                  (''connector'', JObj
                    [(''type'', JStr ''gateway''), (''instance'', JStr (gatewayID gw)),
                     (''api_version'', JStr ''gateway/v0'')]),
                  (''collected_at'', JStr (rfc3339 (fst (env 1)))),
                  (''window'', JObj
                    [(''from'', JStr (rfc3339 (fst (env 2) - ObsPushInterval (gw_cfg gw)))),
                     (''to'', JStr (rfc3339 (fst (env 3))))]),
                  (''cursor'', JObj [(''input'', JNull), (''output'', JNull)]),
                  (''complete'', JBool True),
                  (''observations'', JArr obs),
                  (''errors'', JArr [])]
            in (Some (postJSON cp gw ''/api/observations'' (Batch batch)), rm'))"

section \<open>The heartbeat\<close>

definition heartbeat :: "gateway \<Rightarrow> EnforcementReport" where
  "heartbeat gw =
     (let action = fst (actionFor gw no_principal);
          vendors = (if map_of (Upstreams (gw_cfg gw)) ''anthropic'' \<noteq> None \<and> enforces action \<and> allAppsEnforce gw
                     then [(''anthropic'', [''pii_redaction''])] else [])
      in \<lparr>er_GatewayID = gatewayID gw, er_BaseURL = AdvertiseURL (gw_cfg gw), er_Action = action,
          er_Detectors = cfg_Detectors (gw_cfg gw), er_Vendors = vendors, er_At = zero_time\<rparr>)"

definition pushHeartbeat :: "control_plane \<Rightarrow> gateway \<Rightarrow> post_answer" where
  "pushHeartbeat cp gw = postJSON cp gw ''/api/gateway/enforcement'' (Heartbeat (heartbeat gw))"

section \<open>The loop\<close>

text \<open>
  The request handlers run beside the loop. An observation tick carries what they do to the sinks
  while the observations are posted and, after the ring was drained, while the reports are.
\<close>

datatype spine_event = ObsTick "sinks \<Rightarrow> sinks" "sinks \<Rightarrow> sinks" | HeartbeatDue

definition beat_delay :: "post_answer \<Rightarrow> int" where
  "beat_delay ans = (if ans = Accepted then GatewayHeartbeatInterval else 2 * second)"

text \<open>One turn of \<open>RunSpine\<close>: the sinks it leaves and, after a heartbeat, the delay it sets the timer to.\<close>

definition spine_turn ::
    "(nat \<Rightarrow> reading) \<Rightarrow> control_plane \<Rightarrow> gateway \<Rightarrow> spine_event \<Rightarrow> sinks \<Rightarrow> sinks \<times> int option" where
  "spine_turn env cp gw ev sk =
     (case ev of
        ObsTick during_obs during_push \<Rightarrow>
          (let sk = during_obs (sk\<lparr>route_windows := snd (pushObservations env cp gw (route_windows sk))\<rparr>);
               sk' = during_push (sk\<lparr>audits := snd (ring_drain (audits sk))\<rparr>);
               post = (\<lambda>chunk. cp \<lparr>sr_url = ControlPlaneURL (gw_cfg gw) @ ''/api/gateway/leaks'',
                                   sr_auth = authSpine gw, sr_payload = Leaks chunk\<rparr>)
           in (sk'\<lparr>audits := snd (snd (pushReports post (\<lambda>_. audits sk') (audits sk)))\<rparr>, None))
      | HeartbeatDue \<Rightarrow> (sk, Some (beat_delay (pushHeartbeat cp gw))))"

text \<open>
  The heartbeat timer. When it fires the loop may be held up in an observation tick for \<open>bt_held\<close>; the
  attempt then takes \<open>bt_took\<close>, at most the client's timeout; and only when it has returned is the
  timer set again. The result is the moment every attempt is over.
\<close>

definition postTimeout :: int where "postTimeout = 5 * second"

record beat =
  bt_held :: int
  bt_took :: int
  bt_answer :: post_answer

fun beat_ends :: "time \<Rightarrow> beat list \<Rightarrow> time list" where
  "beat_ends fires [] = []"
| "beat_ends fires (b # bs) =
     (let done_at = fires + bt_held b + bt_took b
      in done_at # beat_ends (done_at + beat_delay (bt_answer b)) bs)"

section \<open>Health\<close>

definition handleHealthz :: "nat \<times> (string \<times> json) list" where
  "handleHealthz = (200, [(''status'', JStr ''ok'')])"

definition handleReadyz :: "gateway \<Rightarrow> nat \<times> (string \<times> json) list" where
  "handleReadyz gw =
     (let reasons = (if Upstreams (gw_cfg gw) = [] then [''no upstreams configured''] else []);
          reasons = (if clientKeys gw = [] then reasons @ [''no client keys resolved''] else reasons)
      in if reasons \<noteq> []
         then (503, [(''status'', JStr ''not_ready''), (''reasons'', JArr (map JStr reasons))])
         else (200, [(''status'', JStr ''ready'')]))"

section \<open>What a heartbeat claims\<close>

lemma heartbeat_claim:
  "listed v c (heartbeat gw) \<longleftrightarrow>
     v = ''anthropic'' \<and> c = ''pii_redaction'' \<and> map_of (Upstreams (gw_cfg gw)) ''anthropic'' \<noteq> None \<and>
     enforces (fst (actionFor gw no_principal)) \<and> allAppsEnforce gw"
  by (auto simp: listed_def heartbeat_def Let_def)

lemma listed_received [simp]: "listed v c (rep\<lparr>er_At := t\<rparr>) = listed v c rep"
  by (simp add: listed_def)

lemma ratio_bounds: "0 \<le> a \<Longrightarrow> a \<le> b \<Longrightarrow> 0 \<le> ratio a b \<and> ratio a b \<le> 1"
  by (auto simp: ratio_def divide_le_eq)

text \<open>A gateway that booted is ready exactly when it has a route to serve.\<close>

lemma ready_after_boot:
  "New getenv cfg = Inr gw \<Longrightarrow> fst (handleReadyz gw) = 200 \<longleftrightarrow> Upstreams cfg \<noteq> []"
  by (auto simp: New_def handleReadyz_def Let_def split: sum.splits if_splits)

text \<open>
  Staying fresh: the attempt after \<open>n\<close> failed ones is over within the sum of what they took, what the
  loop was held up for, and two seconds for each failure.
\<close>

lemma beat_ends_bound:
  assumes "\<forall>b \<in> set bs. bt_answer b \<noteq> Accepted \<and> bt_held b \<le> hold \<and> bt_took b \<le> took"
    and "bt_held l \<le> hold" and "bt_took l \<le> took"
  shows "last (beat_ends fires (bs @ [l])) \<le> fires + (hold + took) * (int (length bs) + 1) + 2 * second * int (length bs)"
  using assms(1)
proof (induction bs arbitrary: fires)
  case Nil
  with assms(2,3) show ?case by simp
next
  case (Cons b bs)
  let ?next = "fires + bt_held b + bt_took b + beat_delay (bt_answer b)"
  have "beat_ends ?next (bs @ [l]) \<noteq> []" by (cases bs) (simp_all add: Let_def)
  then have "last (beat_ends fires ((b # bs) @ [l])) = last (beat_ends ?next (bs @ [l]))" by (simp add: Let_def)
  also have "\<dots> \<le> ?next + (hold + took) * (int (length bs) + 1) + 2 * second * int (length bs)"
    using Cons by simp
  also have "\<dots> \<le> fires + (hold + took) * (int (length (b # bs)) + 1) + 2 * second * int (length (b # bs))"
    using Cons.prems by (simp add: beat_delay_def algebra_simps)
  finally show ?case .
qed

end
