(* ===== verification/Harness_Model.thy ===== *)
theory Harness_Model
  imports Spine_Emit
begin

text \<open>
  The records of the test harness (\<open>internal/model/harness.go\<close>) and the state of its runner
  (\<open>internal/harness/runner.go\<close>). The files under the harness directory are part of that state: the
  pattern file, one file per corpus entry, the lines of the ratchet series.
\<close>

section \<open>Records\<close>

record TruthSpan =
  tr_Start :: int
  tr_End :: int
  tr_Type :: string
  tr_Value :: string

record HarnessRunConfig =
  rc_Count :: int
  rc_Concurrency :: int
  rc_Seed :: int
  rc_IncludeTraps :: bool
  rc_IncludePresidioOnly :: bool
  rc_IncludeStraddle :: bool
  rc_ReplayPercent :: int

record TypeScore =
  ts_TP :: nat
  ts_FN :: nat
  ts_FP :: nat
  ts_BehavioralMisses :: nat

record RunScore =
  sc_Precision :: float64
  sc_RecallReported :: float64
  sc_RecallBehavioral :: float64
  sc_TrapFPs :: nat
  sc_ResponseLeaks :: nat
  sc_ByType :: "(string \<times> TypeScore) list"
  sc_ByEngine :: "(string \<times> nat) list"
  sc_JoinedReports :: nat
  sc_OrphanRequests :: nat
  sc_CaptureOrphans :: nat

record HarnessRun =
  hn_ID :: string
  hn_Config :: HarnessRunConfig
  hn_Status :: string
  hn_Total :: int
  hn_Completed :: nat
  hn_Masked :: nat
  hn_Blocked :: nat
  hn_DetectOnly :: nat
  hn_Passed :: nat
  hn_Errors :: nat
  hn_PackVersion :: int
  hn_DetectorChain :: string
  hn_Score :: "RunScore option"
  hn_PromotedCount :: nat
  hn_Error :: string
  hn_StartedAt :: time
  hn_FinishedAt :: time

record HarnessResult =
  hr_RunID :: string
  hr_RequestID :: string
  hr_Template :: string
  hr_Content :: string
  hr_Truth :: "TruthSpan list"
  hr_Traps :: "TruthSpan list"
  hr_Straddle :: bool
  hr_Action :: string
  hr_HTTPStatus :: nat
  hr_Redactions :: "GatewayRedaction list"
  hr_UpstreamText :: string
  hr_MissedTypes :: "string list"
  hr_ResponseLeaks :: nat
  hr_LatencyMS :: int
  hr_Err :: string

record RatchetPoint =
  rp_RunID :: string
  rp_At :: time
  rp_CorpusVersion :: string
  rp_PackVersion :: int
  rp_DetectorChain :: string
  rp_Precision :: float64
  rp_RecallReported :: float64
  rp_RecallBehavioral :: float64
  rp_RequestCount :: int
  rp_Seed :: int
  rp_CaptureOrphans :: nat

record CorpusEntry =
  ce_ID :: string
  ce_Text :: string
  ce_Truth :: "TruthSpan list"
  ce_SourceRun :: string
  ce_MissTypes :: "string list"
  ce_AddedAt :: time

record SampleResult =
  sm_RequestID :: string
  sm_Action :: string
  sm_HTTPStatus :: nat
  sm_Redactions :: "GatewayRedaction list"
  sm_ReportJoined :: bool
  sm_UpstreamText :: string
  sm_ResponseText :: string
  sm_LatencyMS :: int
  sm_PackVersion :: int
  sm_DetectorChain :: string

record PatternProposal =
  pp_ID :: string
  pp_Type :: string
  pp_Kind :: string
  pp_Regex :: string
  pp_DenyList :: "string list"
  pp_AllowList :: "string list"
  pp_Threshold :: float64
  pp_Context :: "string list"
  pp_Confidence :: float64
  pp_Rationale :: string
  pp_SampleMisses :: int
  pp_Status :: string
  pp_SourceRun :: string
  pp_CreatedAt :: time

definition KindRegex :: string where "KindRegex = ''regex''"
definition KindDenyList :: string where "KindDenyList = ''deny_list''"
definition KindThreshold :: string where "KindThreshold = ''threshold''"
definition KindAllowList :: string where "KindAllowList = ''allow_list''"

lemmas kind_defs = KindRegex_def KindDenyList_def KindThreshold_def KindAllowList_def

definition appendUnique :: "string list \<Rightarrow> string \<Rightarrow> string list" where
  "appendUnique xs v = (if v \<in> set xs then xs else xs @ [v])"

section \<open>The runner\<close>

text \<open>
  The probe is reached only through \<open>analyzeRaw\<close>, so the runner records whether there is one. The runs
  are pointers in Go; the running one is always the last, so an update through the pointer is an
  update of the last element.
\<close>

record Runner =
  ru_gatewayKey :: string
  ru_gatewayURL :: string
  ru_probe :: bool
  ru_runs :: "HarnessRun list"
  ru_results :: "(string \<times> HarnessResult list) list"
  ru_ratchet :: "RatchetPoint list"
  ru_corpus :: "CorpusEntry list"
  ru_proposals :: "PatternProposal list"
  ru_running :: bool
  ru_patternPersistErr :: "string option"
  ru_disk :: "string option"
  ru_corpusDir :: "(string \<times> string) list"
  ru_ratchetFile :: "string list"

end
