(* ===== verification/Harness_Flywheel.thy ===== *)
theory Harness_Flywheel
  imports Harness_Model
begin

text \<open>
  The flywheel of the test harness (\<open>internal/harness/flywheel.go\<close>, \<open>probe.go\<close>, the pattern file of
  \<open>persist.go\<close>): missed detections become evidence, evidence becomes proposals, and
  an approved proposal becomes a rule of the pattern pack every gateway pulls. The runner's mutex
  is held for each operation, so each is one function from the runner and the store to the next.
  Compiling a regular expression, hashing, lower-casing beyond ASCII, Presidio and the file system
  are arguments.
\<close>

definition maxProbesPerRun :: nat where "maxProbesPerRun = 25"
definition maxDenyTerms :: nat where "maxDenyTerms = 50"
definition maxDenyTermLen :: nat where "maxDenyTermLen = 80"
definition maxAllowTerms :: nat where "maxAllowTerms = 50"
definition maxAllowTermLen :: nat where "maxAllowTermLen = 48"
definition minGate :: float64 where "minGate = 5 / 100"
definition maxGate :: float64 where "maxGate = 95 / 100"

definition freeTextTypes :: "string list" where
  "freeTextTypes = [''PERSON_NAME'', ''ADDRESS'']"

section \<open>The candidate library\<close>

record candidate =
  cand_ID :: string
  cand_Type :: string
  cand_Regex :: string
  cand_Confidence :: float64
  cand_Rationale :: string
  cand_Context :: "string list"
  cand_re :: Re

text \<open>
  A literal under \<open>(?i)\<close>: each letter in both cases, and for s also its folding U+017F.
\<close>

definition fold_char :: "char \<Rightarrow> Re" where
  "fold_char c =
     (if c = CHR ''s'' then Alt (one_of ''sS'') (re_seq [lit (CHR 0xC5), lit (CHR 0xBF)])
      else if 97 \<le> byte c \<and> byte c \<le> 122 then one_of [c, chr (byte c - 32)] else lit c)"

definition fold_lit :: "string \<Rightarrow> Re" where
  "fold_lit s = re_seq (map fold_char s)"

text \<open>\<open>\s\<close>.\<close>

definition re_space1 :: Re where
  "re_space1 = Cls [(9, 10), (12, 13), (32, 32)]"

definition re_colon_space :: Re where
  "re_colon_space = Rep (Cls [(58, 58), (9, 10), (12, 13), (32, 32)]) 1 None"

definition ssn_context_re :: Re where
  "ssn_context_re = re_seq
     [WordB, Alt (fold_lit ''ssn'') (re_seq [fold_lit ''social security'', re_opt (fold_lit '' number'')]),
      re_opt (re_seq [Rep re_space1 1 None, fold_lit ''on'', Rep re_space1 1 None, fold_lit ''file'']),
      re_colon_space, Rep re_digit 9 (Some 9), WordB]"

definition mrn_context_re :: Re where
  "mrn_context_re = re_seq
     [WordB, Alt (fold_lit ''mrn'') (re_seq [fold_lit ''medical record'', re_opt (fold_lit '' number'')]),
      re_colon_space, Rep re_digit 7 (Some 9), WordB]"

definition phone_dotted_re :: Re where
  "phone_dotted_re = re_seq
     [WordB, Rep re_digit 3 (Some 3), lit (CHR ''.''), Rep re_digit 3 (Some 3), lit (CHR ''.''),
      Rep re_digit 4 (Some 4), WordB]"

definition candidateLibrary :: "candidate list" where
  "candidateLibrary =
     [\<lparr>cand_ID = ''ssn-bare-context'', cand_Type = ''SSN'',
       cand_Regex = ''(?i)'' @ [CHR 0x5C] @ ''b(?:SSN|social security(?: number)?)(?:'' @ [CHR 0x5C] @ ''s+on'' @
         [CHR 0x5C] @ ''s+file)?[:'' @ [CHR 0x5C] @ ''s]+'' @ [CHR 0x5C] @ ''d{9}'' @ [CHR 0x5C] @ ''b'',
       cand_Confidence = 7 / 10,
       cand_Rationale = ''bare 9-digit SSNs after an SSN context word '' @ [CHR 0xE2, CHR 0x80, CHR 0x94] @
         '' the deliberate v0 miss'',
       cand_Context = [''ssn'', ''social security''], cand_re = ssn_context_re\<rparr>,
      \<lparr>cand_ID = ''mrn-bare-context'', cand_Type = ''MRN'',
       cand_Regex = ''(?i)'' @ [CHR 0x5C] @ ''b(?:MRN|medical record(?: number)?)[:'' @ [CHR 0x5C] @ ''s]+'' @
         [CHR 0x5C] @ ''d{7,9}'' @ [CHR 0x5C] @ ''b'',
       cand_Confidence = 7 / 10,
       cand_Rationale = ''bare medical record numbers after an MRN context word'',
       cand_Context = [''mrn'', ''medical record''], cand_re = mrn_context_re\<rparr>,
      \<lparr>cand_ID = ''phone-dotted'', cand_Type = ''PHONE'',
       cand_Regex = [CHR 0x5C] @ ''b'' @ [CHR 0x5C] @ ''d{3}'' @ [CHR 0x5C] @ ''.'' @ [CHR 0x5C] @ ''d{3}'' @
         [CHR 0x5C] @ ''.'' @ [CHR 0x5C] @ ''d{4}'' @ [CHR 0x5C] @ ''b'',
       cand_Confidence = 7 / 10,
       cand_Rationale = ''dot-separated US phone numbers'',
       cand_Context = [], cand_re = phone_dotted_re\<rparr>]"

definition overlap :: "int \<Rightarrow> int \<Rightarrow> int \<Rightarrow> int \<Rightarrow> bool" where
  "overlap s e s' e' \<longleftrightarrow> s < e' \<and> s' < e"

definition candidateCovers :: "candidate \<Rightarrow> string \<Rightarrow> TruthSpan list \<Rightarrow> string \<Rightarrow> bool" where
  "candidateCovers cand content truths missType =
     list_ex (\<lambda>(s, e). list_ex (\<lambda>t. tr_Type t = missType \<and> overlap s e (tr_Start t) (tr_End t)) truths)
       (find_all (cand_re cand) content)"

section \<open>Evidence\<close>

record uncoveredMiss =
  um_typ :: string
  um_content :: string
  um_truth :: "TruthSpan list"

record configEvidence =
  ev_gate :: float64
  ev_thresholdMisses :: int
  ev_minScore :: float64
  ev_denyMisses :: int
  ev_denyTerms :: "string list"
  ev_manualMisses :: int

record probeSpan =
  ps_Start :: int
  ps_End :: int
  ps_Type :: string
  ps_Score :: float64

text \<open>
  The probe (\<open>probe.go\<close>): every span Presidio saw, in gateway vocabulary and byte offsets. The sidecar
  is the argument \<open>post\<close>, from the request body to a failure or the decoded results.
\<close>

definition probe_span :: "int list \<Rightarrow> presidioResult \<Rightarrow> probeSpan list" where
  "probe_span runeToByte r =
     (let typ = (case PresidioEntityMap (EntityType r) of Some t \<Rightarrow> t | None \<Rightarrow> EntityType r) in
      if typ = [] then []
      else if res_Start r < 0 \<or> res_End r > int (length runeToByte) - 1 \<or> res_Start r \<ge> res_End r then []
      else [\<lparr>ps_Start = runeToByte ! nat (res_Start r), ps_End = runeToByte ! nat (res_End r),
             ps_Type = typ, ps_Score = Score r\<rparr>])"

definition probe_body :: "string \<Rightarrow> json" where
  "probe_body content = JObj [(''text'', JStr content), (''language'', JStr ''en''), (''score_threshold'', JNum 0)]"

definition analyzeRaw :: "(json \<Rightarrow> string + presidioResult list) \<Rightarrow> string \<Rightarrow> string + probeSpan list" where
  "analyzeRaw post content =
     (case post (probe_body content) of
        Inl err \<Rightarrow> Inl err
      | Inr results \<Rightarrow> Inr (concat (map (probe_span (RuneToByteOffsets content)) results)))"

datatype term_error = TermBlank string | TermTooLong | TermMeta string | TermLines string

definition regex_meta :: string where
  "regex_meta = [CHR 0x5C] @ ''.+*?()|[]{}^$''"

definition validateDenyTerm :: "string \<Rightarrow> term_error option" where
  "validateDenyTerm t =
     (if trim_space t = [] \<or> trim_space t \<noteq> t then Some (TermBlank t)
      else if length t > maxDenyTermLen then Some TermTooLong
      else if contains_any t regex_meta then Some (TermMeta t)
      else None)"

definition validateAllowTerm :: "string \<Rightarrow> term_error option" where
  "validateAllowTerm t =
     (if trim_space t = [] \<or> trim_space t \<noteq> t then Some (TermBlank t)
      else if length t > maxAllowTermLen then Some TermTooLong
      else if contains_any t [CHR 0x0A, CHR 0x0D, CHR 0x09] then Some (TermLines t)
      else None)"

definition currentGates :: "Store \<Rightarrow> (string \<times> float64) list" where
  "currentGates st =
     foldl (\<lambda>gts rule.
       if rule_Kind rule = KindThreshold \<and> rule_Threshold rule > 0 then
         (case map_of gts (rule_Type rule) of
            None \<Rightarrow> AList.update (rule_Type rule) (rule_Threshold rule) gts
          | Some g \<Rightarrow> if rule_Threshold rule < g then AList.update (rule_Type rule) (rule_Threshold rule) gts else gts)
       else gts) [] (pack_Rules (GetPatternPack st))"

definition gateFor :: "(string \<times> float64) list \<Rightarrow> string \<Rightarrow> float64" where
  "gateFor gts t = (case map_of gts t of Some g \<Rightarrow> g | None \<Rightarrow> PresidioDefaultScoreGate)"

definition missSpanCount :: "uncoveredMiss \<Rightarrow> int" where
  "missSpanCount u =
     (let n = length (filter (\<lambda>t. tr_Type t = um_typ u) (um_truth u)) in if n = 0 then 1 else int n)"

definition bestOverlap :: "probeSpan list \<Rightarrow> TruthSpan \<Rightarrow> string \<Rightarrow> float64 \<times> bool" where
  "bestOverlap raw t typ =
     foldl (\<lambda>(best, found) sp.
       if ps_Type sp = typ \<and> overlap (ps_Start sp) (ps_End sp) (tr_Start t) (tr_End t)
       then (if ps_Score sp > best then ps_Score sp else best, True) else (best, found)) (0, False) raw"

definition no_evidence :: "(string \<times> float64) list \<Rightarrow> string \<Rightarrow> configEvidence" where
  "no_evidence gts t =
     \<lparr>ev_gate = gateFor gts t, ev_thresholdMisses = 0, ev_minScore = 1, ev_denyMisses = 0,
      ev_denyTerms = [], ev_manualMisses = 0\<rparr>"

definition get_evidence :: "(string \<times> float64) list \<Rightarrow> (string \<times> configEvidence) list \<Rightarrow> string \<Rightarrow> configEvidence" where
  "get_evidence gts ev t = (case map_of ev t of Some e \<Rightarrow> e | None \<Rightarrow> no_evidence gts t)"

text \<open>One missed span against what the engine saw (\<open>None\<close>: nothing is known).\<close>

definition weigh_span :: "probeSpan list option \<Rightarrow> string \<Rightarrow> configEvidence \<Rightarrow> TruthSpan \<Rightarrow> configEvidence" where
  "weigh_span raw typ e t =
     (if tr_Type t \<noteq> typ then e
      else let (score, sawIt) = bestOverlap (case raw of None \<Rightarrow> [] | Some r \<Rightarrow> r) t typ in
        if raw \<noteq> None \<and> sawIt \<and> score < ev_gate e
        then e\<lparr>ev_thresholdMisses := ev_thresholdMisses e + 1,
               ev_minScore := (if score < ev_minScore e then score else ev_minScore e)\<rparr>
        else if raw \<noteq> None \<and> sawIt then e\<lparr>ev_manualMisses := ev_manualMisses e + 1\<rparr>
        else if typ \<in> set freeTextTypes \<and> validateDenyTerm (tr_Value t) = None
        then e\<lparr>ev_denyMisses := ev_denyMisses e + 1, ev_denyTerms := appendUnique (ev_denyTerms e) (tr_Value t)\<rparr>
        else e\<lparr>ev_manualMisses := ev_manualMisses e + 1\<rparr>)"

text \<open>The probing loop: the evidence, whether the probe is still used, the answers so far, their number.\<close>

record synth =
  sy_ev :: "(string \<times> configEvidence) list"
  sy_probe :: bool
  sy_cache :: "(string \<times> probeSpan list) list"
  sy_probed :: nat

definition synth_one ::
    "(string \<Rightarrow> string + probeSpan list) \<Rightarrow> (string \<times> float64) list \<Rightarrow> synth \<Rightarrow> uncoveredMiss \<Rightarrow> synth" where
  "synth_one ask_engine gts y u =
     (let ask = (map_of (sy_cache y) (um_content u) = None \<and> sy_probe y \<and> sy_probed y < maxProbesPerRun);
          y = (if ask
               then (case ask_engine (um_content u) of
                       Inl err \<Rightarrow> y\<lparr>sy_probed := sy_probed y + 1, sy_probe := False\<rparr>
                     | Inr spans \<Rightarrow> y\<lparr>sy_probed := sy_probed y + 1,
                                       sy_cache := AList.update (um_content u) spans (sy_cache y)\<rparr>)
               else y);
          raw = map_of (sy_cache y) (um_content u);
          e = foldl (weigh_span raw (um_typ u)) (get_evidence gts (sy_ev y) (um_typ u)) (um_truth u)
      in y\<lparr>sy_ev := AList.update (um_typ u) e (sy_ev y)\<rparr>)"

definition synthesizeConfig ::
    "(string \<Rightarrow> string + probeSpan list) option \<Rightarrow> Store \<Rightarrow> string \<Rightarrow> uncoveredMiss list \<Rightarrow>
     (string \<times> configEvidence) list" where
  "synthesizeConfig probe st chain uncovered =
     (if uncovered = [] then []
      else let gts = currentGates st in
        if \<not> contains chain ''presidio'' then
          foldl (\<lambda>ev u. let e = get_evidence gts ev (um_typ u)
                        in AList.update (um_typ u) (e\<lparr>ev_manualMisses := ev_manualMisses e + missSpanCount u\<rparr>) ev)
            [] uncovered
        else sy_ev (foldl (synth_one (case probe of Some f \<Rightarrow> f | None \<Rightarrow> (\<lambda>_. Inl [])) gts)
               \<lparr>sy_ev = [], sy_probe = (probe \<noteq> None), sy_cache = [], sy_probed = 0\<rparr> uncovered))"

section \<open>The pattern file\<close>

record pattern_fs =
  pat_marshal :: "PatternPack \<times> PatternProposal list \<Rightarrow> string + string"
  pat_write_err :: "string option"
  pat_rename_err :: "string option"

text \<open>\<open>writeAtomic\<close>: the error and the committed content.\<close>

definition writeAtomic :: "string option \<Rightarrow> string option \<Rightarrow> string \<Rightarrow> string option \<Rightarrow> string option \<times> string option" where
  "writeAtomic write_e rename_e data committed =
     (case write_e of
        Some err \<Rightarrow> (Some err, committed)
      | None \<Rightarrow> (case rename_e of Some err \<Rightarrow> (Some err, committed) | None \<Rightarrow> (None, Some data)))"

definition savePatterns ::
    "pattern_fs \<Rightarrow> PatternPack \<Rightarrow> PatternProposal list \<Rightarrow> string option \<Rightarrow> string option \<times> string option" where
  "savePatterns fs pack proposals committed =
     (case pat_marshal fs (pack, proposals) of
        Inl err \<Rightarrow> (Some err, committed)
      | Inr raw \<Rightarrow> writeAtomic (pat_write_err fs) (pat_rename_err fs) raw committed)"

definition savePatternsLocked :: "pattern_fs \<Rightarrow> PatternPack \<Rightarrow> Runner \<Rightarrow> Runner" where
  "savePatternsLocked fs pack ru =
     (case savePatterns fs pack (ru_proposals ru) (ru_disk ru) of
        (err, committed) \<Rightarrow> ru\<lparr>ru_patternPersistErr := err, ru_disk := committed\<rparr>)"

text \<open>A missing file is the first boot; the second component says whether the rules were null.\<close>

definition loadPatterns ::
    "(string \<Rightarrow> string + (PatternPack \<times> bool) \<times> PatternProposal list) \<Rightarrow> string + string option \<Rightarrow>
     string + (PatternPack \<times> bool) \<times> PatternProposal list" where
  "loadPatterns unmarshal content =
     (case content of
        Inl err \<Rightarrow> Inl (''reading patterns.json: '' @ err)
      | Inr None \<Rightarrow> Inr ((empty_pattern_pack, False), [])
      | Inr (Some raw) \<Rightarrow>
          (case unmarshal raw of
             Inl err \<Rightarrow> Inl (''parsing patterns.json: '' @ err)
           | Inr pf \<Rightarrow> Inr pf))"

section \<open>Which proposals may become rules\<close>

datatype rule_error =
    BadRegex string string
  | DenyCount string
  | DenyTerm string term_error
  | GateRange string
  | AllowCount string
  | AllowTerm string term_error
  | UnknownKind string string

fun first_term_error :: "(string \<Rightarrow> term_error option) \<Rightarrow> string list \<Rightarrow> term_error option" where
  "first_term_error f [] = None"
| "first_term_error f (t # ts) = (case f t of Some e \<Rightarrow> Some e | None \<Rightarrow> first_term_error f ts)"

definition ruleFromProposal :: "(string \<Rightarrow> string option) \<Rightarrow> PatternProposal \<Rightarrow> rule_error + PackRule" where
  "ruleFromProposal compile_err p =
     (let rule = \<lparr>rule_ID = pp_ID p, rule_Type = pp_Type p, rule_Kind = [], rule_Regex = [], rule_DenyList = [],
                  rule_AllowList = [], rule_Threshold = 0, rule_Context = [], rule_Confidence = pp_Confidence p,
                  rule_Rationale = pp_Rationale p, rule_AddedAt = zero_time\<rparr>
      in if pp_Kind p = [] \<or> pp_Kind p = KindRegex then
           (case compile_err (pp_Regex p) of
              Some err \<Rightarrow> Inl (BadRegex (pp_ID p) err)
            | None \<Rightarrow> Inr (rule\<lparr>rule_Kind := KindRegex, rule_Regex := pp_Regex p, rule_Context := pp_Context p\<rparr>))
         else if pp_Kind p = KindDenyList then
           (if pp_DenyList p = [] \<or> length (pp_DenyList p) > maxDenyTerms then Inl (DenyCount (pp_ID p))
            else case first_term_error validateDenyTerm (pp_DenyList p) of
                   Some e \<Rightarrow> Inl (DenyTerm (pp_ID p) e)
                 | None \<Rightarrow> Inr (rule\<lparr>rule_Kind := KindDenyList, rule_DenyList := pp_DenyList p\<rparr>))
         else if pp_Kind p = KindThreshold then
           (if pp_Threshold p < minGate \<or> pp_Threshold p > maxGate then Inl (GateRange (pp_ID p))
            else Inr (rule\<lparr>rule_Kind := KindThreshold, rule_Threshold := pp_Threshold p\<rparr>))
         else if pp_Kind p = KindAllowList then
           (if pp_AllowList p = [] \<or> length (pp_AllowList p) > maxAllowTerms then Inl (AllowCount (pp_ID p))
            else case first_term_error validateAllowTerm (pp_AllowList p) of
                   Some e \<Rightarrow> Inl (AllowTerm (pp_ID p) e)
                 | None \<Rightarrow> Inr (rule\<lparr>rule_Kind := KindAllowList, rule_AllowList := pp_AllowList p\<rparr>))
         else Inl (UnknownKind (pp_ID p) (pp_Kind p)))"

section \<open>Upserting proposals\<close>

text \<open>
  Every proposal reads the clock when it is appended: the reading is the one at the length the list
  has then. An open deny list longer than the cap, which only an edited pattern file can bring in,
  makes the slice of the fresh terms panic in Go; here no term is added.
\<close>

text \<open>An assignment through the pointer \<open>find\<close> returns: to the first element that qualifies.\<close>

fun update_first :: "('a \<Rightarrow> bool) \<Rightarrow> ('a \<Rightarrow> 'a) \<Rightarrow> 'a list \<Rightarrow> 'a list" where
  "update_first P f [] = []"
| "update_first P f (x # xs) = (if P x then f x # xs else x # update_first P f xs)"

definition has_id :: "string \<Rightarrow> PatternProposal \<Rightarrow> bool" where
  "has_id i p \<longleftrightarrow> pp_ID p = i"

definition new_proposal :: "string \<Rightarrow> string \<Rightarrow> string \<Rightarrow> string \<Rightarrow> time \<Rightarrow> PatternProposal" where
  "new_proposal i t status runID now =
     \<lparr>pp_ID = i, pp_Type = t, pp_Kind = [], pp_Regex = [], pp_DenyList = [], pp_AllowList = [], pp_Threshold = 0,
      pp_Context = [], pp_Confidence = 0, pp_Rationale = [], pp_SampleMisses = 0, pp_Status = status,
      pp_SourceRun = runID, pp_CreatedAt = now\<rparr>"

text \<open>\<open>freeProposalID\<close>: the base, or the base with the first suffix from 2 on that is not taken.\<close>

definition suffixed :: "string \<Rightarrow> nat \<Rightarrow> string" where
  "suffixed base n = base @ ''-'' @ itoa n"

lemma suffixed_inject [simp]: "suffixed base m = suffixed base n \<longleftrightarrow> m = n"
  by (simp add: suffixed_def)

lemma finite_taken [simp]: "finite {m. n \<le> m \<and> suffixed base m \<in> set taken}"
proof (rule finite_subset)
  show "{m. n \<le> m \<and> suffixed base m \<in> set taken} \<subseteq> suffixed base -` set taken" by auto
  show "finite (suffixed base -` set taken)" by (rule finite_vimageI) (auto intro: injI)
qed

function free_suffix :: "string list \<Rightarrow> string \<Rightarrow> nat \<Rightarrow> string" where
  "free_suffix taken base n =
     (if suffixed base n \<in> set taken then free_suffix taken base (Suc n) else suffixed base n)"
  by pat_completeness auto
termination
proof (relation "measure (\<lambda>(taken, base, n). card {m. n \<le> m \<and> suffixed base m \<in> set taken})")
  fix taken base n
  assume "suffixed base n \<in> set taken"
  then have "n \<in> {m. n \<le> m \<and> suffixed base m \<in> set taken}" "n \<notin> {m. Suc n \<le> m \<and> suffixed base m \<in> set taken}"
    by simp_all
  moreover have "{m. Suc n \<le> m \<and> suffixed base m \<in> set taken} \<subseteq> {m. n \<le> m \<and> suffixed base m \<in> set taken}"
    by auto
  ultimately have "{m. Suc n \<le> m \<and> suffixed base m \<in> set taken} \<subset> {m. n \<le> m \<and> suffixed base m \<in> set taken}"
    by blast
  then show "((taken, base, Suc n), taken, base, n)
      \<in> measure (\<lambda>(taken, base, n). card {m. n \<le> m \<and> suffixed base m \<in> set taken})"
    by (simp add: psubset_card_mono)
qed simp

declare free_suffix.simps [simp del]

definition freeProposalID :: "PatternProposal list \<Rightarrow> string \<Rightarrow> string" where
  "freeProposalID proposals base =
     (let taken = map pp_ID proposals
      in if base \<notin> set taken then base else free_suffix taken base 2)"

lemma free_suffix_fresh: "free_suffix taken base n \<notin> set taken"
  by (induction taken base n rule: free_suffix.induct) (subst free_suffix.simps, auto)

lemma freeProposalID_fresh: "freeProposalID proposals base \<notin> pp_ID ` set proposals"
  using free_suffix_fresh [of "map pp_ID proposals" base 2] by (simp add: freeProposalID_def Let_def)

text \<open>\<open>math.Round\<close> (half away from zero) and the gate the flywheel proposes.\<close>

definition round_half_away :: "float64 \<Rightarrow> int" where
  "round_half_away x = (if x < 0 then - \<lfloor>- x + 1 / 2\<rfloor> else \<lfloor>x + 1 / 2\<rfloor>)"

definition proposeGate :: "float64 \<Rightarrow> float64" where
  "proposeGate minScore =
     (let g = of_int \<lfloor>minScore * 20\<rfloor> / 20 - 5 / 100;
          g = (if g < minGate then minGate else g)
      in of_int (round_half_away (g * 100)) / 100)"

text \<open>\<open>%.2f\<close>: two decimals, exact ties to even.\<close>

definition fixed2 :: "float64 \<Rightarrow> string" where
  "fixed2 x =
     (let a = \<bar>x\<bar> * 100; n = nat \<lfloor>a\<rfloor>; f = a - of_int \<lfloor>a\<rfloor>;
          m = (if f > 1 / 2 \<or> f = 1 / 2 \<and> odd n then n + 1 else n)
      in (if x < 0 then ''-'' else []) @ itoa (m div 100) @ ''.'' @ pad_zero 2 (m mod 100))"

definition itoa_int :: "int \<Rightarrow> string" where
  "itoa_int n = (if n < 0 then ''-'' @ itoa (nat (- n)) else itoa (nat n))"

definition em_dash :: string where "em_dash = [CHR 0xE2, CHR 0x80, CHR 0x94]"

definition thresholdRationale :: "string \<Rightarrow> configEvidence \<Rightarrow> float64 \<Rightarrow> string" where
  "thresholdRationale t e gate =
     ''Presidio saw '' @ itoa_int (ev_thresholdMisses e) @ '' missed '' @ t @ '' span(s) at scores down to '' @
     fixed2 (ev_minScore e) @ '' '' @ em_dash @ '' under the '' @ fixed2 (ev_gate e) @
     '' gate; lowering the gate to '' @ fixed2 gate @ '' accepts them''"

definition denyRationale :: "nat \<Rightarrow> string" where
  "denyRationale terms =
     ''Presidio'' @ [CHR 0x27] @ ''s NER never saw these spans; an exact-term deny list is the honest artifact '' @
     em_dash @ '' catches recurrences and corpus replays ('' @ itoa terms @ '' terms)''"

definition upsertThreshold ::
    "(nat \<Rightarrow> time) \<Rightarrow> string \<Rightarrow> configEvidence \<Rightarrow> string \<Rightarrow> PatternProposal list \<Rightarrow> bool \<times> PatternProposal list" where
  "upsertThreshold clock t e runID ps =
     (let needed = proposeGate (ev_minScore e);
          mine = (\<lambda>p. pp_Kind p = KindThreshold \<and> pp_Type p = t);
          settled = (\<lambda>p. mine p \<and> (pp_Status p = ''approved'' \<or> pp_Status p = ''rejected'') \<and> pp_Threshold p \<le> needed);
          opened = (\<lambda>p. mine p \<and> pp_Status p = ''proposed'')
      in if list_ex settled ps then (False, ps)
         else if list_ex opened ps then
           (True, update_first opened (\<lambda>p.
              let g = (if needed < pp_Threshold p then needed else pp_Threshold p)
              in p\<lparr>pp_Threshold := g, pp_SampleMisses := pp_SampleMisses p + ev_thresholdMisses e,
                   pp_SourceRun := runID, pp_Rationale := thresholdRationale t e g\<rparr>) ps)
         else
           (True, ps @ [(new_proposal (freeProposalID ps (''threshold-'' @ t)) t ''proposed'' runID (clock (length ps)))
              \<lparr>pp_Kind := KindThreshold, pp_Threshold := needed, pp_Rationale := thresholdRationale t e needed,
               pp_SampleMisses := ev_thresholdMisses e\<rparr>]))"

definition upsertDeny ::
    "(nat \<Rightarrow> time) \<Rightarrow> string \<Rightarrow> configEvidence \<Rightarrow> string \<Rightarrow> PatternProposal list \<Rightarrow> bool \<times> PatternProposal list" where
  "upsertDeny clock t e runID ps =
     (let mine = (\<lambda>p. pp_Kind p = KindDenyList \<and> pp_Type p = t);
          known = concat (map pp_DenyList (filter mine ps));
          opened = (\<lambda>p. mine p \<and> pp_Status p = ''proposed'');
          fresh = filter (\<lambda>term. term \<notin> set known) (ev_denyTerms e)
      in if fresh = [] then
           (list_ex opened ps,
            update_first opened (\<lambda>p. p\<lparr>pp_SampleMisses := pp_SampleMisses p + ev_denyMisses e, pp_SourceRun := runID\<rparr>) ps)
         else if list_ex opened ps then
           (True, update_first opened (\<lambda>p.
              let terms = pp_DenyList p @ take (maxDenyTerms - length (pp_DenyList p)) fresh
              in p\<lparr>pp_DenyList := terms, pp_SampleMisses := pp_SampleMisses p + ev_denyMisses e,
                   pp_SourceRun := runID, pp_Rationale := denyRationale (length terms)\<rparr>) ps)
         else
           (let fresh = take maxDenyTerms fresh
            in (True, ps @ [(new_proposal (freeProposalID ps (''deny-'' @ t)) t ''proposed'' runID (clock (length ps)))
                 \<lparr>pp_Kind := KindDenyList, pp_DenyList := fresh, pp_Confidence := 1,
                  pp_Rationale := denyRationale (length fresh), pp_SampleMisses := ev_denyMisses e\<rparr>])))"

definition manualRationale :: string where
  "manualRationale =
     ''needs a new recognizer '' @ em_dash @ '' no curated candidate covers these misses and no Presidio-side config'' @
     '' would provably catch them (author one manually)''"

definition upsertManual :: "(nat \<Rightarrow> time) \<Rightarrow> string \<Rightarrow> int \<Rightarrow> string \<Rightarrow> PatternProposal list \<Rightarrow> PatternProposal list" where
  "upsertManual clock t misses runID ps =
     (let i = ''manual-'' @ t in
      if list_ex (has_id i) ps then
        update_first (has_id i) (\<lambda>p. if pp_Status p = ''manual'' then p\<lparr>pp_SampleMisses := pp_SampleMisses p + misses\<rparr> else p) ps
      else ps @ [(new_proposal i t ''manual'' runID (clock (length ps)))\<lparr>pp_Rationale := manualRationale, pp_SampleMisses := misses\<rparr>])"

definition upsertCandidate ::
    "(nat \<Rightarrow> time) \<Rightarrow> string \<Rightarrow> (string \<times> int) list \<Rightarrow> PatternProposal list \<Rightarrow> candidate \<Rightarrow> PatternProposal list" where
  "upsertCandidate clock runID nhits ps cand =
     (let n = (case map_of nhits (cand_ID cand) of None \<Rightarrow> 0 | Some n \<Rightarrow> n) in
      if n = 0 then ps
      else if list_ex (has_id (cand_ID cand)) ps then
        update_first (has_id (cand_ID cand)) (\<lambda>p.
          if pp_Status p = ''proposed'' then p\<lparr>pp_SampleMisses := pp_SampleMisses p + n, pp_SourceRun := runID\<rparr> else p) ps
      else ps @ [(new_proposal (cand_ID cand) (cand_Type cand) ''proposed'' runID (clock (length ps)))
             \<lparr>pp_Kind := KindRegex, pp_Regex := cand_Regex cand, pp_Context := cand_Context cand,
              pp_Confidence := cand_Confidence cand, pp_Rationale := cand_Rationale cand, pp_SampleMisses := n\<rparr>])"

definition upsertType ::
    "(nat \<Rightarrow> time) \<Rightarrow> string \<Rightarrow> (string \<times> configEvidence) list \<Rightarrow> PatternProposal list \<Rightarrow> string \<Rightarrow> PatternProposal list" where
  "upsertType clock runID evidence ps t =
     (case map_of evidence t of
        None \<Rightarrow> ps
      | Some e \<Rightarrow>
          (let (a1, ps) = (if ev_thresholdMisses e > 0 then upsertThreshold clock t e runID ps else (False, ps));
               (a2, ps) = (if ev_denyTerms e \<noteq> [] then upsertDeny clock t e runID ps else (False, ps));
               ps = (if ev_manualMisses e > 0 then upsertManual clock t (ev_manualMisses e) runID ps else ps)
           in if a1 \<or> a2
              then update_first (has_id (''manual-'' @ t))
                     (\<lambda>p. if pp_Status p = ''manual'' then p\<lparr>pp_Status := ''superseded''\<rparr> else p) ps
              else ps))"

definition upsertProposals ::
    "pattern_fs \<Rightarrow> (nat \<Rightarrow> time) \<Rightarrow> string \<Rightarrow> (string \<times> int) list \<Rightarrow> (string \<times> configEvidence) list \<Rightarrow> Store \<Rightarrow> Runner \<Rightarrow> Runner" where
  "upsertProposals fs clock runID nhits evidence st ru =
     (let ps = foldl (upsertCandidate clock runID nhits) (ru_proposals ru) candidateLibrary;
          ps = foldl (upsertType clock runID evidence) ps (sort_strings (map fst evidence))
      in savePatternsLocked fs (GetPatternPack st) (ru\<lparr>ru_proposals := ps\<rparr>))"

section \<open>Authoring, approving, rejecting\<close>

datatype proposal_error =
    TypeRequired
  | RationaleRequired
  | Unapprovable rule_error
  | AlreadyExists string
  | UnknownProposal string
  | NotApprovable string string

definition authored :: "(string \<Rightarrow> string) \<Rightarrow> reading \<Rightarrow> PatternProposal \<Rightarrow> PatternProposal" where
  "authored lower r p =
     (let p = p\<lparr>pp_Status := ''proposed'', pp_CreatedAt := fst r\<rparr>;
          p = (if pp_ID p = []
               then p\<lparr>pp_ID := ''manual-'' @ to_lower lower (pp_Type p) @ ''-'' @ take 8 (NewUUID (snd r))\<rparr> else p)
      in p\<lparr>pp_SourceRun := ''manual''\<rparr>)"

definition AddProposal ::
    "(string \<Rightarrow> string option) \<Rightarrow> (string \<Rightarrow> string) \<Rightarrow> pattern_fs \<Rightarrow> reading \<Rightarrow> PatternProposal \<Rightarrow> Store \<Rightarrow> Runner \<Rightarrow>
     (proposal_error + PatternProposal) \<times> Runner" where
  "AddProposal compile_err lower fs r p st ru =
     (if pp_Type p = [] then (Inl TypeRequired, ru)
      else if pp_Rationale p = [] then (Inl RationaleRequired, ru)
      else let p = authored lower r p
           in case ruleFromProposal compile_err p of
                Inl e \<Rightarrow> (Inl (Unapprovable e), ru)
              | Inr _ \<Rightarrow>
                  if list_ex (has_id (pp_ID p)) (ru_proposals ru) then (Inl (AlreadyExists (pp_ID p)), ru)
                  else (Inr p, savePatternsLocked fs (GetPatternPack st)
                                 (ru\<lparr>ru_proposals := ru_proposals ru @ [p]\<rparr>)))"

text \<open>The loop of \<open>ApproveProposal\<close> has no break: it settles on the last proposal with the id.\<close>

definition find_last :: "('a \<Rightarrow> bool) \<Rightarrow> 'a list \<Rightarrow> 'a option" where
  "find_last P xs = find P (rev xs)"

definition update_last_match :: "('a \<Rightarrow> bool) \<Rightarrow> ('a \<Rightarrow> 'a) \<Rightarrow> 'a list \<Rightarrow> 'a list" where
  "update_last_match P f xs = rev (update_first P f (rev xs))"

definition ApproveProposal ::
    "(string \<Rightarrow> string option) \<Rightarrow> pattern_fs \<Rightarrow> (nat \<Rightarrow> reading) \<Rightarrow> string \<Rightarrow> Runner \<times> Store \<Rightarrow>
     (proposal_error + PatternPack) \<times> (Runner \<times> Store)" where
  "ApproveProposal compile_err fs env i rs =
     (case rs of (ru, st) \<Rightarrow>
       (case find_last (has_id i) (ru_proposals ru) of
          None \<Rightarrow> (Inl (UnknownProposal i), rs)
        | Some prop \<Rightarrow>
            if pp_Status prop \<noteq> ''proposed'' then (Inl (NotApprovable i (pp_Status prop)), rs)
            else case ruleFromProposal compile_err prop of
              Inl e \<Rightarrow> (Inl (Unapprovable e), rs)
            | Inr rule \<Rightarrow>
                (let ps = update_last_match (has_id i) (\<lambda>p. p\<lparr>pp_Status := ''approved''\<rparr>) (ru_proposals ru);
                     rule = rule\<lparr>rule_AddedAt := fst (env 0)\<rparr>;
                     pack = GetPatternPack st;
                     pack = pack\<lparr>pack_Rules := pack_Rules pack @ [rule], pack_Version := pack_Version pack + 1,
                                 pack_UpdatedAt := fst (env 1)\<rparr>;
                     ru = savePatternsLocked fs pack (ru\<lparr>ru_proposals := ps\<rparr>);
                     st = SetPatternPack False pack st;
                     st = AddAudit (env 2)
                       \<lparr>ae_ID = [], ae_Timestamp = zero_time, ae_Actor = ''air-traffic:admin'',
                        ae_Action = ''gateway.pattern.approve'', ae_Resource = pp_Type prop, ae_Plane = PlaneDataPolicy,
                        ae_Vendor = ''anthropic'', ae_ControlSurface = DispProxyEnforced, ae_Before = None,
                        ae_After = Some [(''pattern_id'', JStr (pp_ID prop)), (''kind'', JStr (rule_Kind rule)),
                          (''pack_version'', JNum (of_int (pack_Version pack)))],
                        ae_RequestID = NewUUID (snd (env 3))\<rparr> st
                 in (Inr pack, (ru, st)))))"

definition RejectProposal ::
    "pattern_fs \<Rightarrow> string \<Rightarrow> Store \<Rightarrow> Runner \<Rightarrow> proposal_error option \<times> Runner" where
  "RejectProposal fs i st ru =
     (case find (has_id i) (ru_proposals ru) of
        None \<Rightarrow> (Some (UnknownProposal i), ru)
      | Some p \<Rightarrow>
          if pp_Status p \<noteq> ''proposed'' then (Some (NotApprovable i (pp_Status p)), ru)
          else (None, savePatternsLocked fs (GetPatternPack st)
                  (ru\<lparr>ru_proposals := update_first (has_id i) (\<lambda>p. p\<lparr>pp_Status := ''rejected''\<rparr>) (ru_proposals ru)\<rparr>)))"

end
