(* ===== verification/Synthetic_Fixtures.thy ===== *)
theory Synthetic_Fixtures
  imports Emitter Harness_Flywheel
begin

text \<open>
  The success bodies of the synthetic vendor surface (\<open>internal/synthetic/fixtures_t1.go\<close>,
  \<open>fixtures_cost.go\<close>), the grouping of cost responses (\<open>cost_grouping.go\<close>) and the vendors' error
  envelopes (\<open>errors.go\<close>). A fixture reads the clock and random bytes from \<open>env\<close>, numbered in the
  order the body evaluates them; an object is the association list of the Go map literal.
\<close>

type_synonym query = "(string \<times> string list) list"

section \<open>Error and empty envelopes\<close>

definition awsExceptionName :: "string \<Rightarrow> string" where
  "awsExceptionName code =
     (if code = ''unauthorized'' \<or> code = ''forbidden'' then ''AccessDeniedException''
      else if code = ''rate_limit_exceeded'' then ''ThrottlingException''
      else if code = ''service_unavailable'' then ''ServiceUnavailableException''
      else ''InternalServerException'')"

definition azureCode :: "string \<Rightarrow> string" where
  "azureCode code =
     (if code = ''unauthorized'' then ''401''
      else if code = ''forbidden'' then ''AuthorizationFailed''
      else if code = ''rate_limit_exceeded'' then ''429''
      else ''InternalServerError'')"

definition googleStatus :: "string \<Rightarrow> string" where
  "googleStatus code =
     (if code = ''unauthorized'' then ''UNAUTHENTICATED''
      else if code = ''forbidden'' then ''PERMISSION_DENIED''
      else if code = ''rate_limit_exceeded'' then ''RESOURCE_EXHAUSTED''
      else if code = ''timeout'' then ''DEADLINE_EXCEEDED''
      else ''INTERNAL'')"

definition dbxCode :: "string \<Rightarrow> string" where
  "dbxCode code =
     (if code = ''unauthorized'' then ''PERMISSION_DENIED''
      else if code = ''rate_limit_exceeded'' then ''REQUEST_LIMIT_EXCEEDED''
      else ''INTERNAL_ERROR'')"

definition msGraphCode :: "string \<Rightarrow> string" where
  "msGraphCode code =
     (if code = ''unauthorized'' then ''InvalidAuthenticationToken''
      else if code = ''forbidden'' then ''accessDenied''
      else if code = ''rate_limit_exceeded'' then ''activityLimitReached''
      else ''generalException'')"

definition openai_like :: "string list" where
  "openai_like = [''openai'', ''mistral'', ''groq'', ''together'', ''cohere'', ''perplexity'', ''xai'']"

definition vendorError :: "reading \<Rightarrow> string \<Rightarrow> nat \<Rightarrow> string \<Rightarrow> string \<Rightarrow> nat \<times> json" where
  "vendorError rd vendor status code message =
     (status,
      if vendor \<in> set openai_like
      then JObj [(''error'', JObj [(''message'', JStr message), (''type'', JStr code), (''param'', JNull), (''code'', JStr code)])]
      else if vendor = ''anthropic''
      then JObj [(''type'', JStr ''error''), (''error'', JObj [(''type'', JStr code), (''message'', JStr message)])]
      else if vendor = ''bedrock'' \<or> vendor = ''amazon_q''
      then JObj [(''__type'', JStr (awsExceptionName code)), (''message'', JStr message)]
      else if vendor = ''azure_openai''
      then JObj [(''error'', JObj [(''code'', JStr (azureCode code)), (''message'', JStr message)])]
      else if vendor = ''vertex''
      then JObj [(''error'', JObj [(''code'', JNum (of_nat status)), (''message'', JStr message), (''status'', JStr (googleStatus code))])]
      else if vendor = ''github_copilot''
      then JObj [(''message'', JStr message), (''documentation_url'', JStr ''https://docs.github.com/rest/copilot''),
                 (''status'', JStr (itoa status))]
      else if vendor = ''databricks''
      then JObj [(''error_code'', JStr (dbxCode code)), (''message'', JStr message)]
      else if vendor = ''m365_copilot''
      then JObj [(''error'', JObj [(''code'', JStr (msGraphCode code)), (''message'', JStr message)])]
      else if vendor = ''watsonx''
      then JObj [(''errors'', JArr [JObj [(''code'', JStr code), (''message'', JStr message)]]), (''trace'', JStr (NewUUID (snd rd)))]
      else JObj [(''error'', JObj [(''message'', JStr message), (''type'', JStr code), (''code'', JStr code)])])"

definition emptyEnvelope :: "string \<Rightarrow> json" where
  "emptyEnvelope vendor =
     (if vendor = ''openai'' \<or> vendor = ''mistral''
      then JObj [(''object'', JStr ''list''), (''data'', JArr []), (''has_more'', JBool False), (''first_id'', JNull), (''last_id'', JNull)]
      else if vendor = ''anthropic''
      then JObj [(''data'', JArr []), (''has_more'', JBool False), (''first_id'', JNull), (''last_id'', JNull)]
      else if vendor = ''github_copilot'' then JArr []
      else if vendor = ''bedrock'' then JObj [(''results'', JArr [])]
      else if vendor = ''vertex'' then JObj []
      else JObj [(''data'', JArr [])])"

definition genericFixture :: "Adapter \<Rightarrow> string \<Rightarrow> json" where
  "genericFixture a path =
     JObj [(''object'', JStr ''list''), (''data'', JArr []), (''has_more'', JBool False), (''vendor'', JStr (ad_Vendor a)),
           (''api_version'', JStr (ad_APIVersion a)), (''path'', JStr path),
           (''note'', JStr (''synthetic surface (Tier '' @ itoa_int (ad_Tier a) @ ''); manifest-level fidelity''))]"

section \<open>Clock and identifiers\<close>

definition nowUnix :: "reading \<Rightarrow> int" where
  "nowUnix rd = fst rd div second - 719162 * 86400"

definition nowRFC :: "reading \<Rightarrow> string" where
  "nowRFC rd = rfc3339 (fst rd)"

definition agoRFC :: "int \<Rightarrow> reading \<Rightarrow> string" where
  "agoRFC hours rd = rfc3339 (fst rd - hours * 3600 * second)"

definition date_only :: "time \<Rightarrow> string" where
  "date_only t = take 10 (date_time t)"

definition new_id :: "nat \<Rightarrow> reading \<Rightarrow> string" where
  "new_id n rd = take n (NewUUID (snd rd))"

section \<open>Grouping\<close>

definition facetByField :: "string \<Rightarrow> string \<Rightarrow> CostFacet option" where
  "facetByField vendor field = find (\<lambda>f. cf_Supported f \<and> cf_Members f \<noteq> [] \<and> cf_ResponseField f = field) (CostFacetsFor vendor)"

text \<open>The first non-blank field under a parameter, its bracketed form included, comma-joined or repeated.\<close>

definition query_values :: "query \<Rightarrow> string \<Rightarrow> string list" where
  "query_values q k = (case map_of q k of Some vs \<Rightarrow> vs | None \<Rightarrow> [])"

definition requestedGroupField :: "query \<Rightarrow> string list \<Rightarrow> string" where
  "requestedGroupField q params =
     (let fields = concat (map (\<lambda>p. concat (map (\<lambda>key. concat (map (\<lambda>v. map trim_space (split_on (CHR '','') v))
                     (query_values q key))) [p, p @ ''[]''])) params)
      in case find (\<lambda>s. s \<noteq> []) fields of Some s \<Rightarrow> s | None \<Rightarrow> [])"

definition facetFor :: "string \<Rightarrow> string \<Rightarrow> string list \<Rightarrow> CostFacet option" where
  "facetFor vendor field allowed_fields = (if field \<in> set allowed_fields then facetByField vendor field else None)"

definition grouped_facet :: "query \<Rightarrow> string \<Rightarrow> string \<Rightarrow> string list \<Rightarrow> CostFacet option" where
  "grouped_facet q param vendor allowed_fields =
     (let field = requestedGroupField q [param]
      in if field \<noteq> [] then facetFor vendor field allowed_fields else None)"

definition shares :: "CostFacet \<Rightarrow> (FacetMember \<times> float64) list" where
  "shares f =
     (let total = total_weight (cf_Members f)
      in if total \<le> 0 then [] else map (\<lambda>m. (m, fm_Weight m / total)) (cf_Members f))"

definition scaled :: "float64 \<Rightarrow> float64 \<Rightarrow> json" where
  "scaled n x = JNum (of_int (trunc (n * x + 1 / 2)))"

definition round2 :: "float64 \<Rightarrow> float64" where
  "round2 v = of_int (trunc (v * 100 + 1 / 2)) / 100"

text \<open>One row per member, the grouped field set to the member's key.\<close>

definition grouped_rows :: "CostFacet \<Rightarrow> (float64 \<Rightarrow> (string \<times> json) list) \<Rightarrow> json list" where
  "grouped_rows f row = map (\<lambda>(m, x). JObj (AList.update (cf_ResponseField f) (JStr (fm_Key m)) (row x))) (shares f)"

section \<open>Grouped cost and usage responses\<close>

definition openai_bucket_of :: "(nat \<Rightarrow> reading) \<Rightarrow> nat \<Rightarrow> json list \<Rightarrow> json" where
  "openai_bucket_of env n results =
     JObj [(''object'', JStr ''bucket''), (''start_time'', JNum (of_int (nowUnix (env n) - 86400))),
           (''end_time'', JNum (of_int (nowUnix (env (n + 1))))), (''results'', JArr results)]"

definition openaiUsageBucket :: "(nat \<Rightarrow> reading) \<Rightarrow> CostFacet \<Rightarrow> json" where
  "openaiUsageBucket env f =
     openai_bucket_of env 0 (grouped_rows f (\<lambda>x.
       [(''object'', JStr ''organization.usage.completions.result''), (''input_tokens'', scaled 142500 x),
        (''output_tokens'', scaled 58210 x), (''input_cached_tokens'', scaled 38110 x), (''num_model_requests'', scaled 9123 x),
        (''project_id'', JNull), (''user_id'', JNull), (''api_key_id'', JNull), (''model'', JNull), (''service_tier'', JNull),
        (''batch'', JNull)]))"

definition openaiCostsBucket :: "(nat \<Rightarrow> reading) \<Rightarrow> CostFacet \<Rightarrow> json" where
  "openaiCostsBucket env f =
     openai_bucket_of env 0 (grouped_rows f (\<lambda>x.
       [(''object'', JStr ''organization.costs.result''),
        (''amount'', JObj [(''value'', JNum (round2 (118244 / 100 * x))), (''currency'', JStr ''usd'')]),
        (''line_item'', JNull), (''project_id'', JNull), (''api_key_id'', JNull)]))"

definition anthropic_page :: "(nat \<Rightarrow> reading) \<Rightarrow> json list \<Rightarrow> json" where
  "anthropic_page env results =
     JObj [(''data'', JArr [JObj [(''starting_at'', JStr (agoRFC 24 (env 0))), (''ending_at'', JStr (nowRFC (env 1))),
             (''results'', JArr results)]]), (''has_more'', JBool False), (''next_page'', JNull)]"

definition anthropicUsageGrouped :: "(nat \<Rightarrow> reading) \<Rightarrow> CostFacet \<Rightarrow> json" where
  "anthropicUsageGrouped env f =
     anthropic_page env (grouped_rows f (\<lambda>x.
       [(''uncached_input_tokens'', scaled 142500 x), (''cache_read_input_tokens'', scaled 38110 x),
        (''output_tokens'', scaled 58210 x), (''api_key_id'', JNull), (''workspace_id'', JNull), (''model'', JNull),
        (''service_tier'', JNull)]))"

definition anthropicCostGrouped :: "(nat \<Rightarrow> reading) \<Rightarrow> CostFacet \<Rightarrow> json" where
  "anthropicCostGrouped env f =
     anthropic_page env (grouped_rows f (\<lambda>x.
       [(''amount'', JStr (fixed2 (round2 (28410 / 100 * x)))), (''currency'', JStr ''USD''), (''workspace_id'', JNull),
        (''description'', JNull)]))"

definition githubUsageItems :: "(nat \<Rightarrow> reading) \<Rightarrow> json" where
  "githubUsageItems env =
     (case facetByField ''github_copilot'' ''repositoryName'' of
        None \<Rightarrow> JArr []
      | Some f \<Rightarrow>
          JArr (map (\<lambda>(m, x). JObj
            [(''date'', JStr (date_only (fst (env 0)))), (''product'', JStr ''copilot''), (''sku'', JStr ''copilot_premium_request''),
             (''quantity'', scaled 1830 x), (''unitType'', JStr ''AI Credit''), (''netAmount'', JNum (round2 (183 / 10 * x))),
             (''organizationName'', JStr ''acme''), (''repositoryName'', JStr (fm_Key m))]) (shares f)))"

definition engaged_rows :: "string \<Rightarrow> float64 \<Rightarrow> json list" where
  "engaged_rows field n =
     (case facetByField ''github_copilot'' field of
        None \<Rightarrow> []
      | Some f \<Rightarrow> map (\<lambda>(m, x). JObj [(''name'', JStr (fm_Key m)), (''total_engaged_users'', scaled n x)]) (shares f))"

definition githubMetrics :: "(nat \<Rightarrow> reading) \<Rightarrow> json" where
  "githubMetrics env =
     JArr [JObj [(''date'', JStr (date_only (fst (env 0)))), (''total_active_users'', JNum 412), (''total_engaged_users'', JNum 388),
       (''copilot_ide_code_completions'', JObj
         [(''total_engaged_users'', JNum 360), (''languages'', JArr (engaged_rows ''languages[].name'' 360)),
          (''editors'', JArr [JObj [(''name'', JStr ''vscode''), (''total_engaged_users'', JNum 360),
             (''models'', JArr (engaged_rows ''editors[].models[].name'' 340))]])])]]"

definition githubSeats :: "(nat \<Rightarrow> reading) \<Rightarrow> json" where
  "githubSeats env =
     JObj [(''total_seats'', JNum 412),
       (''seats'', JArr (case facetByField ''github_copilot'' ''seats[].assignee.login'' of
          None \<Rightarrow> []
        | Some f \<Rightarrow> map (\<lambda>(n, m, x). JObj
            [(''created_at'', JStr (agoRFC 2400 (env (3 * n)))), (''updated_at'', JStr (nowRFC (env (3 * n + 1)))),
             (''last_activity_at'', JStr (nowRFC (env (3 * n + 2)))), (''last_activity_editor'', JStr ''vscode/1.99.0''),
             (''assignee'', JObj [(''login'', JStr (fm_Key m)), (''id'', JNum 90210), (''type'', JStr ''User'')])])
            (enumerate 0 (shares f))))]"

section \<open>Vendor envelopes\<close>

definition id_of :: "json \<Rightarrow> json" where
  "id_of v = (case v of JObj kvs \<Rightarrow> (case map_of kvs ''id'' of Some i \<Rightarrow> i | None \<Rightarrow> JNull) | _ \<Rightarrow> JNull)"

definition openaiList :: "json list \<Rightarrow> json" where
  "openaiList vs =
     JObj [(''object'', JStr ''list''), (''data'', JArr vs), (''first_id'', if vs = [] then JNull else id_of (hd vs)),
           (''last_id'', if vs = [] then JNull else id_of (last vs)), (''has_more'', JBool False)]"

definition openaiPage :: "json list \<Rightarrow> json" where
  "openaiPage vs = JObj [(''object'', JStr ''page''), (''data'', JArr vs), (''has_more'', JBool False), (''next_page'', JNull)]"

definition openaiBucket :: "(nat \<Rightarrow> reading) \<Rightarrow> nat \<Rightarrow> string \<Rightarrow> (string \<times> json) list \<Rightarrow> json" where
  "openaiBucket env n resultObject result =
     openai_bucket_of env n [JObj (AList.update ''object'' (JStr resultObject) result)]"

definition anthropicList :: "json list \<Rightarrow> json" where
  "anthropicList vs = JObj [(''data'', JArr vs), (''has_more'', JBool False), (''first_id'', JNull), (''last_id'', JNull)]"

section \<open>The fixtures\<close>

definition openaiFixture :: "(nat \<Rightarrow> reading) \<Rightarrow> string \<Rightarrow> query \<Rightarrow> json" where
  "openaiFixture env path q =
    (if contains path ''model_permissions'' then
       JObj [(''object'', JStr ''organization.project.model_permission''), (''mode'', JStr ''allow_list''),
         (''data'', JArr [JStr ''gpt-4o'', JStr ''gpt-4o-mini'', JStr ''o3-mini''])]
     else if contains path ''spend_alerts'' then
       JObj [(''object'', JStr ''organization.project.spend_alert''), (''id'',
         JStr (''spend_alert_'' @ new_id 8 (env 0))), (''threshold'', JNum 500000), (''interval'',
         JStr ''monthly''), (''created_at'', JNum (of_int (nowUnix (env 1))))]
     else if contains path ''rate_limits'' then
       openaiList [JObj [(''object'', JStr ''project.rate_limit''), (''id'', JStr ''rl-gpt-4o''), (''model'',
         JStr ''gpt-4o''), (''max_requests_per_1_minute'', JNum 10000), (''max_tokens_per_1_minute'',
         JNum 2000000)]]
     else if contains path ''audit_logs'' then
       openaiList [JObj [(''id'', JStr (''audit_log-'' @ new_id 12 (env 0))), (''type'', JStr ''api_key.created''),
         (''effective_at'', JNum (of_int (nowUnix (env 1)))), (''actor'', JObj [(''type'', JStr ''session''),
         (''session'', JObj [(''user'', JObj [(''id'', JStr ''user-42''), (''email'', JStr ''admin@acme.com'')]),
         (''ip_address'', JStr ''203.0.113.7'')])]), (''project'', JObj [(''id'', JStr ''proj_acme''), (''name'',
         JStr ''acme-prod'')])], JObj [(''id'', JStr (''audit_log-'' @ new_id 12 (env 2))), (''type'',
         JStr ''project.updated''), (''effective_at'', JNum (of_int (nowUnix (env 3) - 3600))), (''actor'',
         JObj [(''type'', JStr ''session''), (''session'', JObj [(''user'', JObj [(''id'', JStr ''user-7''),
         (''email'', JStr ''sec@acme.com'')])])])]]
     else if contains path ''/projects'' then
       openaiList [JObj [(''id'', JStr ''proj_acme''), (''object'', JStr ''organization.project''), (''name'',
         JStr ''acme-prod''), (''created_at'', JNum (of_int (nowUnix (env 0) - 86400 * 30))), (''archived_at'',
         JNull), (''status'', JStr ''active'')], JObj [(''id'', JStr ''proj_lab''), (''object'',
         JStr ''organization.project''), (''name'', JStr ''acme-research''), (''created_at'',
         JNum (of_int (nowUnix (env 1) - 86400 * 9))), (''archived_at'', JNull), (''status'', JStr ''active'')]]
     else if contains path ''/users'' \<or> contains path ''/invites'' then
       openaiList [JObj [(''object'', JStr ''organization.user''), (''id'', JStr ''user-42''), (''name'',
         JStr ''Ada Admin''), (''email'', JStr ''admin@acme.com''), (''role'', JStr ''owner''), (''added_at'',
         JNum (of_int (nowUnix (env 0) - 86400 * 120)))], JObj [(''object'', JStr ''organization.user''), (''id'',
         JStr ''user-7''), (''name'', JStr ''Sec Eng''), (''email'', JStr ''sec@acme.com''), (''role'',
         JStr ''member''), (''added_at'', JNum (of_int (nowUnix (env 1) - 86400 * 60)))]]
     else if contains path ''/costs'' then
       (case grouped_facet q ''group_by'' ''openai'' [''project_id'', ''api_key_id'', ''line_item''] of
            Some f \<Rightarrow> openaiPage [openaiCostsBucket env f]
          | None \<Rightarrow> openaiPage [openaiBucket env 0 ''organization.costs.result'' [(''amount'',
            JObj [(''value'', JNum (118244 / 100)), (''currency'', JStr ''usd'')]), (''line_item'', JNull),
            (''project_id'', JStr ''proj_acme'')]])
     else if contains path ''/usage'' then
       (case grouped_facet q ''group_by'' ''openai'' [''project_id'', ''model'', ''user_id'', ''api_key_id'', ''service_tier''] of
            Some f \<Rightarrow> openaiPage [openaiUsageBucket env f]
          | None \<Rightarrow> openaiPage [openaiBucket env 0 ''organization.usage.completions.result'' [(''input_tokens'',
            JNum 142500), (''output_tokens'', JNum 58210), (''input_cached_tokens'', JNum 38110),
            (''num_model_requests'', JNum 9123), (''project_id'', JStr ''proj_acme''), (''model'',
            JStr ''gpt-4o'')]])
     else
       openaiList [])"

definition anthropicFixture :: "(nat \<Rightarrow> reading) \<Rightarrow> string \<Rightarrow> query \<Rightarrow> json" where
  "anthropicFixture env path q =
    (if contains path ''/workspaces'' then
       anthropicList [JObj [(''type'', JStr ''workspace''), (''id'', JStr (''wrkspc_'' @ new_id 16 (env 0))),
         (''name'', JStr ''Production''), (''created_at'', JStr (agoRFC 720 (env 1))), (''archived_at'', JNull),
         (''display_color'', JStr ''#0891B2'')], JObj [(''type'', JStr ''workspace''), (''id'',
         JStr (''wrkspc_'' @ new_id 16 (env 2))), (''name'', JStr ''Research''), (''created_at'',
         JStr (agoRFC 220 (env 3))), (''archived_at'', JNull), (''display_color'', JStr ''#D97757'')]]
     else if contains path ''/users'' \<or> contains path ''/invites'' then
       anthropicList [JObj [(''type'', JStr ''user''), (''id'', JStr (''user_'' @ new_id 16 (env 0))), (''email'',
         JStr ''admin@acme.com''), (''name'', JStr ''Ada Admin''), (''role'', JStr ''admin''), (''added_at'',
         JStr (agoRFC 2880 (env 1)))], JObj [(''type'', JStr ''user''), (''id'',
         JStr (''user_'' @ new_id 16 (env 2))), (''email'', JStr ''dev@acme.com''), (''name'', JStr ''Dev One''),
         (''role'', JStr ''developer''), (''added_at'', JStr (agoRFC 1440 (env 3)))]]
     else if contains path ''rate_limits'' then
       anthropicList [JObj [(''type'', JStr ''rate_limit''), (''model_tier'', JStr ''claude-opus''),
         (''requests_per_minute'', JNum 4000), (''input_tokens_per_minute'', JNum 400000),
         (''output_tokens_per_minute'', JNum 80000)]]
     else if contains path ''usage_report'' then
       (case grouped_facet q ''group_by'' ''anthropic'' [''model'', ''workspace_id'', ''api_key_id'', ''service_tier''] of
            Some f \<Rightarrow> anthropicUsageGrouped env f
          | None \<Rightarrow> JObj [(''data'', JArr [JObj [(''starting_at'', JStr (agoRFC 24 (env 0))),
            (''ending_at'', JStr (nowRFC (env 1))), (''results'', JArr [JObj [(''uncached_input_tokens'',
            JNum 142500), (''cache_read_input_tokens'', JNum 38110), (''output_tokens'', JNum 58210),
            (''api_key_id'', JStr ''apikey_01''), (''workspace_id'', JStr ''wrkspc_prod''), (''model'',
            JStr ''claude-opus-4-6''), (''service_tier'', JStr ''standard'')]])]]), (''has_more'', JBool False),
            (''next_page'', JNull)])
     else if contains path ''cost_report'' then
       (case grouped_facet q ''group_by'' ''anthropic'' [''workspace_id'', ''description''] of
            Some f \<Rightarrow> anthropicCostGrouped env f
          | None \<Rightarrow> JObj [(''data'', JArr [JObj [(''starting_at'', JStr (agoRFC 24 (env 0))),
            (''ending_at'', JStr (nowRFC (env 1))), (''results'', JArr [JObj [(''amount'', JStr ''284.10''),
            (''currency'', JStr ''USD''), (''workspace_id'', JStr ''wrkspc_prod''), (''description'',
            JStr ''Claude API usage'')]])]]), (''has_more'', JBool False), (''next_page'', JNull)])
     else if contains path ''/compliance/activities'' then
       JObj [(''data'', JArr [JObj [(''id'', JStr (''activity_'' @ new_id 16 (env 0))), (''type'',
         JStr ''conversation.created''), (''timestamp'', JStr (nowRFC (env 1))), (''actor'', JObj [(''type'',
         JStr ''user''), (''id'', JStr ''user_01''), (''email'', JStr ''dev@acme.com'')])], JObj [(''id'',
         JStr (''activity_'' @ new_id 16 (env 2))), (''type'', JStr ''org_config.updated''), (''timestamp'',
         JStr (agoRFC 2 (env 3))), (''actor'', JObj [(''type'', JStr ''user''), (''id'', JStr ''user_admin''),
         (''email'', JStr ''admin@acme.com'')])]]), (''has_more'', JBool False), (''first_id'', JNull),
         (''last_id'', JNull)]
     else
       anthropicList [])"

definition bedrockFixture :: "(nat \<Rightarrow> reading) \<Rightarrow> string \<Rightarrow> query \<Rightarrow> json" where
  "bedrockFixture env path q =
    (if contains path ''logging'' then
       JObj [(''loggingConfig'', JObj [(''cloudWatchConfig'', JObj [(''logGroupName'',
         JStr ''/aws/bedrock/modelinvocations''), (''roleArn'',
         JStr ''arn:aws:iam::123456789012:role/bedrock-logging'')]), (''s3Config'', JObj [(''bucketName'',
         JStr ''acme-bedrock-logs''), (''keyPrefix'', JStr ''invocations/'')]), (''textDataDeliveryEnabled'',
         JBool True), (''imageDataDeliveryEnabled'', JBool True), (''embeddingDataDeliveryEnabled'', JBool True)])]
     else if contains path ''effective'' then
       JObj [(''policy'', JObj [(''policyArn'',
         JStr ''arn:aws:organizations::123456789012:policy/o-acme/service_control_policy/p-bedrock''),
         (''guardrailIdentifier'', JStr ''g-12345abc''), (''effectiveGuardrailVersion'', JStr ''DRAFT''),
         (''appliedAcrossAccounts'', JBool True)])]
     else if contains path ''guardrail'' then
       JObj [(''guardrails'', JArr [JObj [(''id'', JStr ''g-12345abc''), (''arn'',
         JStr ''arn:aws:bedrock:us-east-1:123456789012:guardrail/g-12345abc''), (''name'',
         JStr ''acme-pii-and-safety''), (''status'', JStr ''READY''), (''version'', JStr ''DRAFT''), (''createdAt'',
         JStr (nowRFC (env 0))), (''updatedAt'', JStr (nowRFC (env 1)))]]), (''nextToken'', JNull)]
     else
       JObj [(''modelSummaries'', JArr [JObj [(''modelArn'',
         JStr ''arn:aws:bedrock:us-east-1::foundation-model/anthropic.claude-opus-4-6''), (''modelId'',
         JStr ''anthropic.claude-opus-4-6''), (''providerName'', JStr ''Anthropic''), (''modelLifecycle'',
         JObj [(''status'', JStr ''ACTIVE'')])]])])"

definition azureFixture :: "(nat \<Rightarrow> reading) \<Rightarrow> string \<Rightarrow> query \<Rightarrow> json" where
  "azureFixture env path q =
    (if contains path ''usages'' then
       JObj [(''value'', JArr [JObj [(''name'', JObj [(''value'', JStr ''OpenAI.Standard.gpt-4o''),
         (''localizedValue'', JStr ''Tokens Per Minute (thousands) - gpt-4o'')]), (''currentValue'', JNum 320),
         (''limit'', JNum 450), (''unit'', JStr ''Count'')], JObj [(''name'', JObj [(''value'',
         JStr ''OpenAI.Standard.o3-mini''), (''localizedValue'',
         JStr ''Tokens Per Minute (thousands) - o3-mini'')]), (''currentValue'', JNum 90), (''limit'', JNum 250),
         (''unit'', JStr ''Count'')]])]
     else if contains path ''raiPolicies'' \<or> contains path ''ContentFilter'' then
       JObj [(''value'', JArr [JObj [(''name'', JStr ''acme-elevated''), (''type'',
         JStr ''Microsoft.CognitiveServices/accounts/raiPolicies''), (''properties'', JObj [(''mode'',
         JStr ''Blocking''), (''contentFilters'', JArr [JObj [(''name'', JStr ''hate''), (''blocking'', JBool True),
         (''enabled'', JBool True), (''severityThreshold'', JStr ''Medium''), (''source'', JStr ''Prompt'')],
         JObj [(''name'', JStr ''violence''), (''blocking'', JBool True), (''enabled'', JBool True),
         (''severityThreshold'', JStr ''Medium''), (''source'', JStr ''Completion'')]])])]])]
     else if contains path ''deployments'' then
       JObj [(''value'', JArr [JObj [(''id'',
         JStr ''/subscriptions/sub/resourceGroups/rg/providers/Microsoft.CognitiveServices/accounts/acme/deployments/gpt-4o''),
         (''name'', JStr ''gpt-4o''), (''type'', JStr ''Microsoft.CognitiveServices/accounts/deployments''),
         (''properties'', JObj [(''model'', JObj [(''format'', JStr ''OpenAI''), (''name'', JStr ''gpt-4o''),
         (''version'', JStr ''2024-11-20'')]), (''provisioningState'', JStr ''Succeeded'')]), (''sku'',
         JObj [(''name'', JStr ''ProvisionedManaged''), (''capacity'', JNum 200)])]])]
     else
       JObj [(''value'', JArr [])])"

definition vertexFixture :: "(nat \<Rightarrow> reading) \<Rightarrow> string \<Rightarrow> query \<Rightarrow> json" where
  "vertexFixture env path q =
    (if contains path ''timeSeries'' then
       JObj [(''timeSeries'', JArr [JObj [(''metric'', JObj [(''type'',
         JStr ''aiplatform.googleapis.com/prediction/online/token_count''), (''labels'', JObj [(''model_id'',
         JStr ''gemini-2.5-pro'')])]), (''resource'', JObj [(''type'', JStr ''aiplatform.googleapis.com/Endpoint''),
         (''labels'', JObj [(''project_id'', JStr ''acme-prod''), (''location'', JStr ''us-central1'')])]),
         (''points'', JArr [JObj [(''interval'', JObj [(''startTime'', JStr (agoRFC 1 (env 0))), (''endTime'',
         JStr (nowRFC (env 1)))]), (''value'', JObj [(''int64Value'', JStr ''142500'')])]])]]), (''unit'',
         JStr ''1'')]
     else if contains path ''entries'' \<or> contains path ''logging'' then
       JObj [(''entries'', JArr [JObj [(''logName'',
         JStr ''projects/acme-prod/logs/cloudaudit.googleapis.com%2Fdata_access''), (''resource'', JObj [(''type'',
         JStr ''audited_resource''), (''labels'', JObj [(''project_id'', JStr ''acme-prod'')])]), (''timestamp'',
         JStr (nowRFC (env 0))), (''protoPayload'', JObj [(''@type'',
         JStr ''type.googleapis.com/google.cloud.audit.AuditLog''), (''serviceName'',
         JStr ''aiplatform.googleapis.com''), (''methodName'',
         JStr ''google.cloud.aiplatform.v1.PredictionService.GenerateContent''), (''authenticationInfo'',
         JObj [(''principalEmail'', JStr ''svc-agent@acme-prod.iam.gserviceaccount.com'')])])]]),
         (''nextPageToken'', JStr [])]
     else
       JObj [(''models'', JArr [JObj [(''name'',
         JStr ''projects/acme-prod/locations/us-central1/models/gemini-2.5-pro''), (''displayName'',
         JStr ''Gemini 2.5 Pro''), (''versionId'', JStr ''1'')]]), (''nextPageToken'', JStr [])])"

definition githubFixture :: "(nat \<Rightarrow> reading) \<Rightarrow> string \<Rightarrow> query \<Rightarrow> json" where
  "githubFixture env path q =
    (if contains path ''content_exclusion'' then
       JObj [(''*'', JArr [JStr ''.env'', JStr ''secrets/**'']), (''acme/payments'', JArr [JStr ''**/*.key''])]
     else if contains path ''billing/usage'' then
       JObj [(''usageItems'', githubUsageItems env)]
     else if contains path ''/metrics'' then
       githubMetrics env
     else if contains path ''audit'' \<or> contains path ''audit-log'' then
       JArr [JObj [(''action'', JStr ''copilot.agent_session.start''), (''actor'', JStr ''Copilot''),
         (''actor_is_agent'', JBool True), (''created_at'', JNum (of_int (nowUnix (env 0) * 1000))), (''user'',
         JStr ''dev-one''), (''agent_session'', JObj [(''task'', JStr ''implement-feature'')])], JObj [(''action'',
         JStr ''business.update_copilot_business_policy''), (''actor'', JStr ''ada-admin''), (''actor_is_agent'',
         JBool False), (''created_at'', JNum (of_int ((nowUnix (env 1) - 7200) * 1000)))]]
     else
       githubSeats env)"

definition mistralFixture :: "(nat \<Rightarrow> reading) \<Rightarrow> string \<Rightarrow> query \<Rightarrow> json" where
  "mistralFixture env path q =
    (if contains path ''workspaces'' then
       JObj [(''object'', JStr ''list''), (''data'', JArr [JObj [(''id'', JStr (''ws_'' @ new_id 12 (env 0))),
         (''object'', JStr ''workspace''), (''name'', JStr ''acme-prod''), (''created_at'', JStr (nowRFC (env 1))),
         (''mcp_connectors_enabled'', JBool True)]])]
     else if contains path ''analytics'' \<or> contains path ''billing'' then
       JObj [(''object'', JStr ''list''), (''data'', JArr [JObj [(''date'', JStr (date_only (fst (env 0)))),
         (''workspace_id'', JStr ''ws_prod''), (''total_tokens'', JNum 200710), (''cost'', JObj [(''amount'',
         JNum (1425 / 10)), (''currency'', JStr ''EUR'')])]])]
     else
       JObj [(''object'', JStr ''list''), (''data'', JArr [])])"

definition fixtures :: "(string \<times> ((nat \<Rightarrow> reading) \<Rightarrow> string \<Rightarrow> query \<Rightarrow> json)) list" where
  "fixtures =
     [(''openai'', openaiFixture), (''anthropic'', anthropicFixture), (''bedrock'', bedrockFixture),
      (''azure_openai'', azureFixture), (''vertex'', vertexFixture), (''github_copilot'', githubFixture),
      (''mistral'', mistralFixture)]"

text \<open>Every fixture is a 200 without extra headers; a vendor without one has the generic body.\<close>

definition fixture_body :: "(nat \<Rightarrow> reading) \<Rightarrow> Adapter \<Rightarrow> string \<Rightarrow> query \<Rightarrow> json" where
  "fixture_body env a path q =
     (case map_of fixtures (ad_ID a) of Some f \<Rightarrow> f env path q | None \<Rightarrow> genericFixture a path)"

section \<open>Shares add up\<close>

lemma shares_sum:
  assumes "shares f \<noteq> []"
  shows "sum_list (map snd (shares f)) = 1"
proof -
  have "total_weight (cf_Members f) \<noteq> 0" using assms by (auto simp: shares_def Let_def split: if_splits)
  moreover have "shares f = map (\<lambda>m. (m, fm_Weight m / total_weight (cf_Members f))) (cf_Members f)"
    using assms by (auto simp: shares_def Let_def split: if_splits)
  ultimately show ?thesis
    using sum_list_scaled [of 1 "total_weight (cf_Members f)" "cf_Members f"] by (simp add: comp_def total_weight_sum)
qed

text \<open>The drill-down the emitter stores and the grouped response attribute spend alike.\<close>

lemma shares_member_share: "(m, x) \<in> set (shares f) \<Longrightarrow> x = member_share f m"
  by (auto simp: shares_def Let_def member_share_def split: if_splits)

end
