(* ===== verification/Control_Auth.thy ===== *)
theory Control_Auth
  imports Spine_Emit
begin

text \<open>
  Who may call the control plane: the guards of \<open>internal/server/spine_auth.go\<close> and
  \<open>routes_keystore.go\<close> (\<open>requireLocalAdmin\<close>), the browser guard both binaries are wrapped in
  (\<open>internal/hostguard\<close>) and the request helpers of \<open>internal/server/http.go\<close>. A handler is a
  function from the request and the store to a reply and the next store; a guard wraps a handler.
  Parsing an IP literal, parsing an origin and Unicode case folding are arguments.
\<close>

section \<open>Requests\<close>

record api_request =
  ar_method :: string
  ar_path :: string
  ar_query :: "(string \<times> string list) list"
  ar_headers :: headers
  ar_remote :: string
  ar_host :: string
  ar_body :: string

definition query_get :: "api_request \<Rightarrow> string \<Rightarrow> string" where
  "query_get r k = (case map_of (ar_query r) k of Some (v # _) \<Rightarrow> v | _ \<Rightarrow> [])"

text \<open>\<open>net.IP\<close> parsing and loopback test, the host of a parsed origin (None: it does not parse), case folding.\<close>

record net_world =
  loopback_ip :: "string \<Rightarrow> bool"
  origin_host :: "string \<Rightarrow> string option"
  equal_fold :: "string \<Rightarrow> string \<Rightarrow> bool"
  unicode_lower :: "string \<Rightarrow> string"

type_synonym ('reply, 'state) handler = "api_request \<Rightarrow> 'state \<Rightarrow> (nat \<times> 'reply) \<times> 'state"

section \<open>net.SplitHostPort\<close>

definition index_of :: "char \<Rightarrow> string \<Rightarrow> nat option" where
  "index_of c s = (let k = length (takeWhile (\<lambda>d. d \<noteq> c) s) in if k < length s then Some k else None)"

definition last_index_of :: "char \<Rightarrow> string \<Rightarrow> nat option" where
  "last_index_of c s = (case index_of c (rev s) of None \<Rightarrow> None | Some k \<Rightarrow> Some (length s - 1 - k))"

text \<open>The host and the port, or None for every error: missing port, too many colons, a stray bracket.\<close>

definition SplitHostPort :: "string \<Rightarrow> (string \<times> string) option" where
  "SplitHostPort hostport =
     (case last_index_of (CHR '':'') hostport of
        None \<Rightarrow> None
      | Some i \<Rightarrow>
          (if hostport \<noteq> [] \<and> hd hostport = CHR ''['' then
             (case index_of (CHR '']'') hostport of
                None \<Rightarrow> None
              | Some e \<Rightarrow>
                  if e + 1 \<noteq> i then None
                  else let host = drop 1 (take e hostport) in
                    if CHR ''['' \<in> set (drop 1 hostport) \<or> CHR '']'' \<in> set (drop (e + 1) hostport) then None
                    else Some (host, drop (i + 1) hostport))
           else let host = take i hostport in
             if CHR '':'' \<in> set host then None
             else if CHR ''['' \<in> set hostport \<or> CHR '']'' \<in> set hostport then None
             else Some (host, drop (i + 1) hostport)))"

definition trim_brackets :: "string \<Rightarrow> string" where
  "trim_brackets s =
     (let bracket = (\<lambda>c. c = CHR ''['' \<or> c = CHR '']'')
      in rev (dropWhile bracket (rev (dropWhile bracket s))))"

section \<open>Keys and guards\<close>

definition isReadMethod :: "string \<Rightarrow> bool" where
  "isReadMethod m \<longleftrightarrow> m = ''GET'' \<or> m = ''HEAD'' \<or> m = ''OPTIONS''"

text \<open>The constant-time comparison is equality of the bytes.\<close>

definition validKey :: "api_request \<Rightarrow> string \<Rightarrow> bool" where
  "validKey r want \<longleftrightarrow>
     (if list_ex (\<lambda>h. let got = hdr_get (ar_headers r) h in got \<noteq> [] \<and> got = want)
           [''X-Air-Traffic-Admin-Key'', ''X-Air-Traffic-Key'']
      then True
      else let got = trim_prefix (hdr_get (ar_headers r) ''Authorization'') ''Bearer ''
           in if got = [] then False else got = want)"

definition isLoopback :: "net_world \<Rightarrow> string \<Rightarrow> bool" where
  "isLoopback nw remoteAddr =
     loopback_ip nw (trim_brackets (case SplitHostPort remoteAddr of None \<Rightarrow> remoteAddr | Some (host, port) \<Rightarrow> host))"

definition requireAdminWrite :: "(string \<Rightarrow> 'reply) \<Rightarrow> string \<Rightarrow> ('reply, 'state) handler \<Rightarrow> ('reply, 'state) handler" where
  "requireAdminWrite err adminKey next r s =
     (if isReadMethod (ar_method r) \<or> adminKey = [] then next r s
      else if \<not> validKey r adminKey
      then ((401, err ''this route changes state and requires the operator key (X-Air-Traffic-Admin-Key)''), s)
      else next r s)"

definition requireSpineKey ::
    "(string \<Rightarrow> 'reply) \<Rightarrow> net_world \<Rightarrow> string \<Rightarrow> ('reply, 'state) handler \<Rightarrow> ('reply, 'state) handler" where
  "requireSpineKey err nw skey next r s =
     (if skey \<noteq> []
      then (if \<not> validKey r skey then ((401, err ''invalid or missing gateway spine key''), s)
            else next r s)
      else if \<not> isLoopback nw (ar_remote r)
      then ((401, err ''spine routes accept non-local callers only with AIRTRAFFIC_SPINE_KEY configured''), s)
      else next r s)"

definition requireAdminIngest ::
    "(string \<Rightarrow> 'reply) \<Rightarrow> net_world \<Rightarrow> string \<Rightarrow> string \<Rightarrow> ('reply, 'state) handler \<Rightarrow> ('reply, 'state) handler" where
  "requireAdminIngest err nw adminKey skey next r s =
     (if isReadMethod (ar_method r) then next r s
      else if adminKey \<noteq> [] \<and> validKey r adminKey then next r s
      else requireSpineKey err nw skey next r s)"

definition requireLocalAdmin ::
    "(string \<Rightarrow> 'reply) \<Rightarrow> net_world \<Rightarrow> string \<Rightarrow> ('reply, 'state) handler \<Rightarrow> ('reply, 'state) handler" where
  "requireLocalAdmin err nw adminKey next r s =
     (if adminKey \<noteq> [] \<and> validKey r adminKey then next r s
      else if \<not> isLoopback nw (ar_remote r)
      then ((401, err (if adminKey \<noteq> []
               then ''keystore administration requires loopback or the operator key (X-Air-Traffic-Admin-Key)''
               else ''keystore administration accepts loopback callers only'')), s)
      else next r s)"

definition devSpineKeys :: "string list" where
  "devSpineKeys = [''spine-dev-insecure'', ''gwk-demo'']"

definition spineAuthMode :: "string \<Rightarrow> string" where
  "spineAuthMode skey = (if skey \<noteq> [] then ''shared_key'' else ''loopback_only'')"

definition adminAuthMode :: "string \<Rightarrow> string" where
  "adminAuthMode adminKey = (if adminKey \<noteq> [] then ''admin_key'' else ''open'')"

section \<open>Request helpers\<close>

definition maxBody :: nat where "maxBody = 2097152"

definition decodeJSON :: "(string \<Rightarrow> string + 'a) \<Rightarrow> api_request \<Rightarrow> string + 'a" where
  "decodeJSON strict r = strict (take maxBody (ar_body r))"

definition limit_step :: "int \<Rightarrow> char \<Rightarrow> int" where
  "limit_step n c = wrap64 (wrap64 (n * 10) + int (digit_val c))"

definition limitParam :: "api_request \<Rightarrow> nat \<Rightarrow> nat" where
  "limitParam r def =
     (let q = query_get r ''limit'' in
      if q = [] then def
      else if \<not> list_all is_digit q then def
      else let n = foldl limit_step 0 q in
        if n \<le> 0 \<or> n > 1000 then def else nat n)"

section \<open>The browser guard\<close>

definition allowed_hosts :: "net_world \<Rightarrow> string list \<Rightarrow> string list" where
  "allowed_hosts nw hosts = filter (\<lambda>h. h \<noteq> []) (map (\<lambda>h. to_lower (unicode_lower nw) (trim_space h)) hosts)"

definition hostname :: "net_world \<Rightarrow> string \<Rightarrow> string" where
  "hostname nw hostport =
     to_lower (unicode_lower nw)
       (trim_brackets (case SplitHostPort hostport of None \<Rightarrow> hostport | Some (host, port) \<Rightarrow> host))"

definition hostAllowed :: "net_world \<Rightarrow> string \<Rightarrow> string list \<Rightarrow> bool" where
  "hostAllowed nw host accepted \<longleftrightarrow>
     (let h = hostname nw host in
      if h = [] then False
      else if h = ''localhost'' \<or> has_suffix h ''.localhost'' then True
      else if loopback_ip nw h then True
      else h \<in> set accepted)"

definition crossSite :: "net_world \<Rightarrow> api_request \<Rightarrow> bool" where
  "crossSite nw r \<longleftrightarrow>
     (if equal_fold nw (hdr_get (ar_headers r) ''Sec-Fetch-Site'') ''cross-site'' then True
      else let origin = hdr_get (ar_headers r) ''Origin'' in
        if origin = [] then False
        else case origin_host nw origin of
               None \<Rightarrow> True
             | Some h \<Rightarrow> if h = [] then True else \<not> equal_fold nw h (ar_host r))"

definition Wrap ::
    "(string \<Rightarrow> 'reply) \<Rightarrow> net_world \<Rightarrow> string list \<Rightarrow> ('reply, 'state) handler \<Rightarrow> ('reply, 'state) handler" where
  "Wrap refuse nw hosts next r s =
     (if \<not> hostAllowed nw (ar_host r) (allowed_hosts nw hosts)
      then ((421, refuse ''unrecognised Host header (loopback and localhost always pass; add others to AIRTRAFFIC_ALLOWED_HOSTS / GATEWAY_ALLOWED_HOSTS)''), s)
      else if crossSite nw r \<and> (\<not> isReadMethod (ar_method r) \<or> contains (ar_path r) ''/_harness/'')
      then ((403, refuse ''cross-site browser request refused''), s)
      else next r s)"

section \<open>What a guard is\<close>

text \<open>
  The contract of a guard: it either runs the handler it wraps or refuses without touching the
  state, and which of the two depends on the request alone.
\<close>

locale request_guard =
  fixes wrap :: "('reply, 'state) handler \<Rightarrow> ('reply, 'state) handler"
    and lets_in :: "api_request \<Rightarrow> bool"
  assumes runs: "lets_in r \<Longrightarrow> wrap h r s = h r s"
    and refuses: "\<not> lets_in r \<Longrightarrow> snd (wrap h r s) = s \<and> 400 \<le> fst (fst (wrap h r s))"
begin

lemma changed_lets_in: "snd (wrap h r s) \<noteq> s \<Longrightarrow> lets_in r"
  using refuses by blast

lemma success_lets_in: "fst (fst (wrap h r s)) < 400 \<Longrightarrow> lets_in r"
  using refuses by (meson not_less)

lemma keeps:
  assumes "\<And>r. P s \<Longrightarrow> P (snd (h r s))" and "P s"
  shows "P (snd (wrap h r s))"
proof (cases "lets_in r")
  case True
  with assms show ?thesis by (simp add: runs)
next
  case False
  with refuses [of r h s] assms(2) show ?thesis by simp
qed

end

definition admin_in :: "string \<Rightarrow> api_request \<Rightarrow> bool" where
  "admin_in k r \<longleftrightarrow> isReadMethod (ar_method r) \<or> k = [] \<or> validKey r k"

definition spine_in :: "net_world \<Rightarrow> string \<Rightarrow> api_request \<Rightarrow> bool" where
  "spine_in nw k r \<longleftrightarrow> (if k = [] then isLoopback nw (ar_remote r) else validKey r k)"

definition ingest_in :: "net_world \<Rightarrow> string \<Rightarrow> string \<Rightarrow> api_request \<Rightarrow> bool" where
  "ingest_in nw ak sk r \<longleftrightarrow> isReadMethod (ar_method r) \<or> ak \<noteq> [] \<and> validKey r ak \<or> spine_in nw sk r"

definition local_in :: "net_world \<Rightarrow> string \<Rightarrow> api_request \<Rightarrow> bool" where
  "local_in nw k r \<longleftrightarrow> k \<noteq> [] \<and> validKey r k \<or> isLoopback nw (ar_remote r)"

definition browser_in :: "net_world \<Rightarrow> string list \<Rightarrow> api_request \<Rightarrow> bool" where
  "browser_in nw hosts r \<longleftrightarrow>
     hostAllowed nw (ar_host r) (allowed_hosts nw hosts) \<and>
     (crossSite nw r \<longrightarrow> isReadMethod (ar_method r) \<and> \<not> contains (ar_path r) ''/_harness/'')"

interpretation admin_guard: request_guard "requireAdminWrite err k" "admin_in k"
  by unfold_locales (auto simp: requireAdminWrite_def admin_in_def)

interpretation spine_guard: request_guard "requireSpineKey err nw k" "spine_in nw k"
  by unfold_locales (auto simp: requireSpineKey_def spine_in_def)

interpretation ingest_guard: request_guard "requireAdminIngest err nw ak sk" "ingest_in nw ak sk"
  by unfold_locales (auto simp: requireAdminIngest_def requireSpineKey_def ingest_in_def spine_in_def)

interpretation local_guard: request_guard "requireLocalAdmin err nw k" "local_in nw k"
  by unfold_locales (auto simp: requireLocalAdmin_def local_in_def)

interpretation browser_guard: request_guard "Wrap refuse nw hosts" "browser_in nw hosts"
  by unfold_locales (auto simp: Wrap_def browser_in_def)

text \<open>An empty header never authenticates, whatever key is configured.\<close>

lemma validKey_nonempty: "validKey r want \<Longrightarrow> want \<noteq> []"
  by (auto simp: validKey_def Let_def split: if_splits)

lemma limitParam_bounds: "limitParam r def = def \<or> (1 \<le> limitParam r def \<and> limitParam r def \<le> 1000)"
  by (auto simp: limitParam_def Let_def)

end
