(* ===== verification/Harness_Gen.thy ===== *)
theory Harness_Gen
  imports Harness_Model "HOL-Library.State_Monad"
begin

text \<open>
  The traffic generator of the harness (\<open>internal/harness/gen.go\<close>). A random source is the sequence of
  its raw draws; \<open>Intn n\<close> takes the next one modulo n, so every sequence of outcomes is one of some
  source and nothing is assumed about how they are distributed. Seeding is an argument of the run.
  The generator threads the source through the library's state monad.
\<close>

section \<open>The random source\<close>

type_synonym rng = "nat \<Rightarrow> nat"

type_synonym 'a gen = "(rng, 'a) state"

definition Intn :: "nat \<Rightarrow> nat gen" where
  "Intn n = State (\<lambda>r. (r 0 mod n, \<lambda>i. r (Suc i)))"

definition pick :: "'a list \<Rightarrow> 'a gen" where
  "pick xs = do { k \<leftarrow> Intn (length xs); State_Monad.return (xs ! k) }"

text \<open>
  \<open>yields m P\<close>: whatever the source, the value of \<open>m\<close> satisfies \<open>P\<close>. The rules below reduce a goal
  about a program to goals about its draws.
\<close>

definition yields :: "'a gen \<Rightarrow> ('a \<Rightarrow> bool) \<Rightarrow> bool" where
  "yields m P \<longleftrightarrow> (\<forall>r. P (fst (run_state m r)))"

named_theorems yields_rules

lemma run_return [simp]: "run_state (State_Monad.return x) r = (x, r)"
  by (simp add: State_Monad.return_def)

lemma run_bind [simp]: "run_state (State_Monad.bind m f) r = (case run_state m r of (x, r') \<Rightarrow> run_state (f x) r')"
  by (simp add: State_Monad.bind_def)

lemma run_Intn [simp]: "run_state (Intn n) r = (r 0 mod n, \<lambda>i. r (Suc i))"
  by (simp add: Intn_def)

lemma yields_bind: "yields m Q \<Longrightarrow> (\<And>x. Q x \<Longrightarrow> yields (f x) P) \<Longrightarrow> yields (State_Monad.bind m f) P"
  by (auto simp: yields_def split: prod.split) (metis fst_conv)

lemma yields_return [yields_rules]: "P x \<Longrightarrow> yields (State_Monad.return x) P"
  by (simp add: yields_def)

lemma yields_Intn: "0 < n \<Longrightarrow> yields (Intn n) (\<lambda>k. k < n)"
  by (simp add: yields_def)

lemma yields_mono: "yields m Q \<Longrightarrow> (\<And>x. Q x \<Longrightarrow> P x) \<Longrightarrow> yields m P"
  by (simp add: yields_def)

lemma yields_draw [yields_rules]:
  "0 < n \<Longrightarrow> (\<And>k. k < n \<Longrightarrow> yields (f k) P) \<Longrightarrow> yields (State_Monad.bind (Intn n) f) P"
  by (rule yields_bind [OF yields_Intn])

lemma yields_pick [yields_rules]:
  "xs \<noteq> [] \<Longrightarrow> (\<And>x. x \<in> set xs \<Longrightarrow> yields (f x) P) \<Longrightarrow> yields (State_Monad.bind (pick xs) f) P"
  by (rule yields_bind [where Q = "\<lambda>x. x \<in> set xs"]) (simp_all add: yields_def pick_def)

lemma yields_if [yields_rules]:
  "(b \<Longrightarrow> yields m P) \<Longrightarrow> (\<not> b \<Longrightarrow> yields m' P) \<Longrightarrow> yields (if b then m else m') P"
  by simp

section \<open>Templates\<close>

record genItem =
  gi_Template :: string
  gi_Content :: string
  gi_Truth :: "TruthSpan list"
  gi_Traps :: "TruthSpan list"
  gi_Straddle :: bool
  gi_Replay :: bool

definition slotSSN :: string where "slotSSN = ''SSN''"
definition slotEmail :: string where "slotEmail = ''EMAIL''"
definition slotPhone :: string where "slotPhone = ''PHONE''"
definition slotCC :: string where "slotCC = ''CREDIT_CARD''"
definition slotMRN :: string where "slotMRN = ''MRN''"
definition slotIP :: string where "slotIP = ''IP''"
definition slotIBAN :: string where "slotIBAN = ''IBAN''"
definition slotDOB :: string where "slotDOB = ''DOB''"
definition slotName :: string where "slotName = ''PERSON_NAME''"
definition slotAddress :: string where "slotAddress = ''ADDRESS''"
definition slotTrap :: string where "slotTrap = ''TRAP''"

lemmas slot_defs = slotSSN_def slotEmail_def slotPhone_def slotCC_def slotMRN_def slotIP_def slotIBAN_def
  slotDOB_def slotName_def slotAddress_def slotTrap_def

record part =
  pt_lit :: string
  pt_slot :: string

record genTemplate =
  tm_name :: string
  tm_parts :: "part list"
  tm_presidioOnly :: bool
  tm_trap :: bool

definition gen_lit :: "string \<Rightarrow> part" where "gen_lit s = \<lparr>pt_lit = s, pt_slot = []\<rparr>"
definition gen_slot :: "string \<Rightarrow> part" where "gen_slot s = \<lparr>pt_lit = [], pt_slot = s\<rparr>"

definition templates :: "genTemplate list" where
  "templates =
    [\<lparr>tm_name = ''patient_intake'', tm_parts =
       [gen_lit ''Summarize this patient intake: MRN '', gen_slot slotMRN,
        gen_lit '', SSN '', gen_slot slotSSN, gen_lit '', DOB '', gen_slot slotDOB,
        gen_lit ''. Contact '', gen_slot slotEmail, gen_lit '' with the care plan.''],
      tm_presidioOnly = False, tm_trap = False\<rparr>,
     \<lparr>tm_name = ''support_ticket'', tm_parts =
       [gen_lit ''Draft a reply to this ticket: customer at '', gen_slot slotEmail,
        gen_lit '' (callback '', gen_slot slotPhone, gen_lit '') reports a double charge on card '',
        gen_slot slotCC, gen_lit ''.''],
      tm_presidioOnly = False, tm_trap = False\<rparr>,
     \<lparr>tm_name = ''wire_transfer'', tm_parts =
       [gen_lit ''Explain this wire rejection: destination '', gen_slot slotIBAN,
        gen_lit '', contact '', gen_slot slotPhone, gen_lit '', SSN on file '', gen_slot slotSSN, gen_lit ''.''],
      tm_presidioOnly = False, tm_trap = False\<rparr>,
     \<lparr>tm_name = ''infra_note'', tm_parts =
       [gen_lit ''Review this runbook step: EHR host '', gen_slot slotIP,
        gen_lit '' pages the on-call at '', gen_slot slotPhone, gen_lit '' after three failures.''],
      tm_presidioOnly = False, tm_trap = False\<rparr>,
     \<lparr>tm_name = ''claims_review'', tm_parts =
       [gen_lit ''Check this claim summary for errors: member SSN '', gen_slot slotSSN,
        gen_lit '', card '', gen_slot slotCC, gen_lit '', reach at '', gen_slot slotEmail, gen_lit ''.''],
      tm_presidioOnly = False, tm_trap = False\<rparr>,
     \<lparr>tm_name = ''referral_letter'', tm_parts =
       [gen_lit ''Write a referral letter for '', gen_slot slotName,
        gen_lit '' living at '', gen_slot slotAddress,
        gen_lit ''. Include MRN '', gen_slot slotMRN, gen_lit ''.''],
      tm_presidioOnly = True, tm_trap = False\<rparr>,
     \<lparr>tm_name = ''discharge_note'', tm_parts =
       [gen_lit ''Summarize the discharge for '', gen_slot slotName,
        gen_lit '' (DOB '', gen_slot slotDOB, gen_lit '', SSN '', gen_slot slotSSN, gen_lit '').''],
      tm_presidioOnly = True, tm_trap = False\<rparr>,
     \<lparr>tm_name = ''commerce_trap'', tm_parts =
       [gen_lit ''Where is order '', gen_slot slotTrap,
        gen_lit ''? The customer emailed from '', gen_slot slotEmail, gen_lit '' yesterday.''],
      tm_presidioOnly = False, tm_trap = True\<rparr>,
     \<lparr>tm_name = ''release_trap'', tm_parts =
       [gen_lit ''Changelog: bump to '', gen_slot slotTrap,
        gen_lit '' and rotate the pager to '', gen_slot slotPhone, gen_lit ''.''],
      tm_presidioOnly = False, tm_trap = True\<rparr>]"

section \<open>Values\<close>

text \<open>\<open>luhnCard\<close>: digits up to fifteen, the check digit, and half of the time grouped by four.\<close>

function grow_digits :: "string \<Rightarrow> string gen" where
  "grow_digits digits =
     (if length digits < 15
      then do { d \<leftarrow> Intn 10; grow_digits (digits @ itoa d) }
      else State_Monad.return digits)"
  by pat_completeness auto
termination
proof (relation "measure (\<lambda>digits. 15 - length digits)")
  fix digits :: string and d :: nat
  assume "length digits < 15"
  moreover have "0 < length (itoa d)" by simp
  ultimately show "(digits @ itoa d, digits) \<in> measure (\<lambda>digits. 15 - length digits)"
    unfolding in_measure length_append by linarith
qed simp

declare grow_digits.simps [simp del]

text \<open>The loop from the last digit to the first, doubling every other one from the last on.\<close>

fun check_sum :: "nat list \<Rightarrow> bool \<Rightarrow> nat \<Rightarrow> nat" where
  "check_sum [] dbl acc = acc"
| "check_sum (d # ds) dbl acc =
     (let d' = (if dbl then (if d * 2 > 9 then d * 2 - 9 else d * 2) else d)
      in check_sum ds (\<not> dbl) (acc + d'))"

definition check_digit :: "string \<Rightarrow> nat" where
  "check_digit digits = (10 - check_sum (rev (map digit_val digits)) True 0 mod 10) mod 10"

definition group_card :: "string \<Rightarrow> string" where
  "group_card full =
     take 4 full @ '' '' @ take 4 (drop 4 full) @ '' '' @ take 4 (drop 8 full) @ '' '' @ drop 12 full"

definition luhnCard :: "string gen" where
  "luhnCard = do {
     p \<leftarrow> pick [''4'', ''51'', ''37''];
     digits \<leftarrow> grow_digits p;
     k \<leftarrow> Intn 2;
     State_Monad.return
       (let full = digits @ itoa (check_digit digits)
        in if k = 0 then group_card full else full)
   }"

definition bump_last :: "string \<Rightarrow> string" where
  "bump_last full = butlast full @ [digit ((digit_val (last full) + 1) mod 10)]"

definition invalidLuhn :: "string gen" where
  "invalidLuhn = do { full \<leftarrow> luhnCard; State_Monad.return (bump_last full) }"

fun draw_digits :: "nat \<Rightarrow> string \<Rightarrow> string gen" where
  "draw_digits 0 bban = State_Monad.return bban"
| "draw_digits (Suc n) bban = do { d \<leftarrow> Intn 10; draw_digits n (bban @ itoa d) }"

definition iban_rem :: "string \<Rightarrow> nat" where
  "iban_rem rearranged = foldl (\<lambda>rm c. (rm * 10 + digit_val c) mod 97) 0 rearranged"

definition gen_iban :: "string gen" where
  "gen_iban = do {
     bban \<leftarrow> draw_digits 18 [];
     State_Monad.return (''DE'' @ pad_zero 2 (98 - iban_rem (bban @ ''131400'')) @ bban)
   }"

definition gen_ssn :: "string gen" where
  "gen_ssn = do {
     a \<leftarrow> Intn 665; b \<leftarrow> Intn 89; c \<leftarrow> Intn 8999; k \<leftarrow> Intn 4;
     State_Monad.return
       (let a = pad_zero 3 (100 + a); b = pad_zero 2 (10 + b); c = pad_zero 4 (1000 + c)
        in if k = 0 then a @ '' '' @ b @ '' '' @ c
           else if k = 1 then a @ b @ c
           else a @ ''-'' @ b @ ''-'' @ c)
   }"

definition gen_email :: "string gen" where
  "gen_email = do {
     user \<leftarrow> pick [''jane.doe'', ''p.kim'', ''alex.rivera'', ''m.chen'', ''sam.okafor'', ''billing+acct''];
     n \<leftarrow> Intn 90;
     domain \<leftarrow> pick [''example.org'', ''clinic-mail.co.uk'', ''example.net'', ''hospital-demo.io''];
     State_Monad.return (user @ itoa (n + 10) @ ''@'' @ domain)
   }"

definition gen_phone :: "string gen" where
  "gen_phone = do {
     a \<leftarrow> Intn 700; b \<leftarrow> Intn 700; c \<leftarrow> Intn 8999; k \<leftarrow> Intn 3;
     State_Monad.return
       (let a = pad_zero 3 (200 + a); b = pad_zero 3 (200 + b); c = pad_zero 4 (1000 + c)
        in if k = 0 then ''('' @ a @ '') '' @ b @ ''-'' @ c
           else if k = 1 then ''+1'' @ a @ b @ c
           else a @ ''-'' @ b @ ''-'' @ c)
   }"

definition gen_mrn :: "string gen" where
  "gen_mrn = do {
     k \<leftarrow> Intn 3;
     if k = 0 then do { n \<leftarrow> Intn 89999999; State_Monad.return (pad_zero 8 (10000000 + n)) }
     else do { n \<leftarrow> Intn 8999999; State_Monad.return (''MRN-'' @ pad_zero 7 (1000000 + n)) }
   }"

definition gen_ip :: "string gen" where
  "gen_ip = do {
     a \<leftarrow> Intn 255; b \<leftarrow> Intn 255; c \<leftarrow> Intn 254;
     State_Monad.return (''10.'' @ itoa a @ ''.'' @ itoa b @ ''.'' @ itoa (1 + c))
   }"

definition gen_dob :: "string gen" where
  "gen_dob = do {
     m \<leftarrow> Intn 12; d \<leftarrow> Intn 28; y \<leftarrow> Intn 65;
     State_Monad.return (pad_zero 2 (1 + m) @ ''/'' @ pad_zero 2 (1 + d) @ ''/'' @ itoa (1940 + y))
   }"

definition gen_name :: "string gen" where
  "gen_name = do {
     first \<leftarrow> pick [''John'', ''Maria'', ''Wei'', ''Aisha'', ''Diego'', ''Ingrid'', ''Kofi'', ''Yuki''];
     surname \<leftarrow> pick [''Smith'', ''Alvarez'', ''Chen'', ''Okafor'', ''Larsen'', ''Tanaka'', ''Mensah'', ''Novak''];
     State_Monad.return (first @ '' '' @ surname)
   }"

definition gen_address :: "string gen" where
  "gen_address = do {
     n \<leftarrow> Intn 900;
     street \<leftarrow> pick [''Evergreen Terrace'', ''Maple Avenue'', ''Cedar Lane'', ''Willow Court''];
     city \<leftarrow> pick [''Springfield'', ''Riverton'', ''Lakewood'', ''Fairview''];
     State_Monad.return (itoa (100 + n) @ '' '' @ street @ '', '' @ city)
   }"

definition gen_trap :: "string gen" where
  "gen_trap = do {
     k \<leftarrow> Intn 4;
     if k = 0 then do {
       a \<leftarrow> Intn 899; b \<leftarrow> Intn 89; c \<leftarrow> Intn 8999;
       State_Monad.return (''ORD-'' @ pad_zero 3 (100 + a) @ ''-'' @ pad_zero 2 (10 + b) @ ''-'' @ pad_zero 4 (1000 + c))
     }
     else if k = 1 then do { n \<leftarrow> Intn 899999999; State_Monad.return (pad_zero 9 (100000000 + n)) }
     else if k = 2 then do {
       a \<leftarrow> Intn 9; b \<leftarrow> Intn 20; c \<leftarrow> Intn 20;
       State_Monad.return (''v'' @ itoa (1 + a) @ ''.'' @ itoa b @ ''.'' @ itoa c)
     }
     else invalidLuhn
   }"

text \<open>\<open>value\<close>: the type it returns beside the text is the slot itself.\<close>

definition gen_value :: "string \<Rightarrow> (string \<times> string) gen" where
  "gen_value slotKey = do {
     v \<leftarrow> (if slotKey = slotSSN then gen_ssn
          else if slotKey = slotEmail then gen_email
          else if slotKey = slotPhone then gen_phone
          else if slotKey = slotCC then luhnCard
          else if slotKey = slotMRN then gen_mrn
          else if slotKey = slotIP then gen_ip
          else if slotKey = slotIBAN then gen_iban
          else if slotKey = slotDOB then gen_dob
          else if slotKey = slotName then gen_name
          else if slotKey = slotAddress then gen_address
          else if slotKey = slotTrap then gen_trap
          else State_Monad.return []);
     State_Monad.return (v, slotKey)
   }"

section \<open>Items\<close>

fun fill_parts :: "part list \<Rightarrow> genItem \<Rightarrow> genItem gen" where
  "fill_parts [] item = State_Monad.return item"
| "fill_parts (p # ps) item =
     (if pt_slot p = [] then fill_parts ps (item\<lparr>gi_Content := gi_Content item @ pt_lit p\<rparr>)
      else do {
        (val, t) \<leftarrow> gen_value (pt_slot p);
        let sp = \<lparr>tr_Start = int (length (gi_Content item)), tr_End = int (length (gi_Content item) + length val),
                  tr_Type = t, tr_Value = val\<rparr>;
            item = (if pt_slot p = slotTrap then item\<lparr>gi_Traps := gi_Traps item @ [sp]\<rparr>
                    else item\<lparr>gi_Truth := gi_Truth item @ [sp]\<rparr>)
        in fill_parts ps (item\<lparr>gi_Content := gi_Content item @ val\<rparr>)
      })"

definition fill :: "genTemplate \<Rightarrow> genItem gen" where
  "fill t = fill_parts (tm_parts t)
     \<lparr>gi_Template = tm_name t, gi_Content = [], gi_Truth = [], gi_Traps = [], gi_Straddle = False, gi_Replay = False\<rparr>"

definition usable :: "HarnessRunConfig \<Rightarrow> genTemplate list" where
  "usable cfg =
     filter (\<lambda>t. \<not> (tm_trap t \<and> \<not> rc_IncludeTraps cfg) \<and> \<not> (tm_presidioOnly t \<and> \<not> rc_IncludePresidioOnly cfg)) templates"

definition replay_item :: "CorpusEntry \<Rightarrow> genItem" where
  "replay_item e =
     \<lparr>gi_Template = ''corpus_replay'', gi_Content = ce_Text e, gi_Truth = ce_Truth e, gi_Traps = [],
      gi_Straddle = False, gi_Replay = True\<rparr>"

definition fresh_item :: "HarnessRunConfig \<Rightarrow> genItem gen" where
  "fresh_item cfg = do {
     t \<leftarrow> pick (usable cfg);
     item \<leftarrow> fill t;
     if rc_IncludeStraddle cfg \<and> \<not> tm_trap t \<and> gi_Truth item \<noteq> []
     then do { k \<leftarrow> Intn 5; State_Monad.return (if k = 0 then item\<lparr>gi_Straddle := True\<rparr> else item) }
     else State_Monad.return item
   }"

definition one_item :: "HarnessRunConfig \<Rightarrow> CorpusEntry list \<Rightarrow> genItem gen" where
  "one_item cfg corpus =
     (if rc_ReplayPercent cfg > 0 \<and> corpus \<noteq> []
      then do {
        k \<leftarrow> Intn 100;
        if int k < rc_ReplayPercent cfg
        then do { e \<leftarrow> pick corpus; State_Monad.return (replay_item e) }
        else fresh_item cfg
      }
      else fresh_item cfg)"

fun gen_items :: "nat \<Rightarrow> HarnessRunConfig \<Rightarrow> CorpusEntry list \<Rightarrow> genItem list gen" where
  "gen_items 0 cfg corpus = State_Monad.return []"
| "gen_items (Suc n) cfg corpus = do {
     item \<leftarrow> one_item cfg corpus;
     items \<leftarrow> gen_items n cfg corpus;
     State_Monad.return (item # items)
   }"

definition generate :: "(int \<Rightarrow> rng) \<Rightarrow> HarnessRunConfig \<Rightarrow> CorpusEntry list \<Rightarrow> genItem list" where
  "generate source cfg corpus =
     fst (run_state (gen_items (nat (rc_Count cfg)) cfg corpus) (source (rc_Seed cfg)))"

section \<open>Cards and account numbers are what they claim to be\<close>

lemma itoa_digit [simp]: "d < 10 \<Longrightarrow> itoa d = [digit d]"
  by (simp add: itoa.simps)

lemma check_sum_luhn: "check_sum ds dbl acc = luhn_loop ds dbl acc"
  by (induction ds dbl acc rule: check_sum.induct) simp_all

lemma luhn_loop_acc: "luhn_loop ds dbl acc = acc + luhn_loop ds dbl 0"
  by (simp add: luhn_loop_sum)

lemma grow_digits_yields:
  assumes "length digits \<le> 15" and "list_all is_digit digits"
  shows "yields (grow_digits digits) (\<lambda>v. length v = 15 \<and> list_all is_digit v)"
  using assms
proof (induction digits rule: grow_digits.induct)
  case (1 digits)
  show ?case
  proof (cases "length digits < 15")
    case True
    have "yields (grow_digits (digits @ itoa k)) (\<lambda>v. length v = 15 \<and> list_all is_digit v)" if "k < 10" for k
      using that True 1(2,3) by (intro 1(1)) simp_all
    then show ?thesis
      by (subst grow_digits.simps) (simp only: True if_True, rule yields_draw, simp_all)
  next
    case False
    with 1 show ?thesis by (subst grow_digits.simps) (auto intro: yields_return)
  qed
qed

lemma luhn_digits_simps [simp]:
  "luhn_digits [] = []" "luhn_digits (x @ y) = luhn_digits x @ luhn_digits y"
  "is_digit c \<Longrightarrow> luhn_digits (c # x) = digit_val c # luhn_digits x"
  "\<not> is_digit c \<Longrightarrow> luhn_digits (c # x) = luhn_digits x"
  by (simp_all add: luhn_digits_def)

lemma luhn_digits_all: "list_all is_digit v \<Longrightarrow> luhn_digits v = map digit_val v"
  by (simp add: luhn_digits_def filter_id_conv list_all_iff)

lemma not_digit_space [simp]: "\<not> is_digit (CHR '' '')"
  by code_simp

lemma group_card_digits: "luhn_digits (group_card full) = luhn_digits full"
proof -
  have "luhn_digits (drop 4 full) = luhn_digits (take 4 (drop 4 full)) @ luhn_digits (drop 8 full)"
    "luhn_digits (drop 8 full) = luhn_digits (take 4 (drop 8 full)) @ luhn_digits (drop 12 full)"
    using luhn_digits_simps(2) [of "take 4 (drop 4 full)" "drop 4 (drop 4 full)", unfolded append_take_drop_id]
      luhn_digits_simps(2) [of "take 4 (drop 8 full)" "drop 4 (drop 8 full)", unfolded append_take_drop_id]
    by simp_all
  moreover have "luhn_digits full = luhn_digits (take 4 full) @ luhn_digits (drop 4 full)"
    using luhn_digits_simps(2) [of "take 4 full" "drop 4 full", unfolded append_take_drop_id] .
  ultimately show ?thesis by (simp add: group_card_def)
qed

lemma checked_card:
  assumes "length digits = 15" and "list_all is_digit digits"
  shows "luhn_ok (luhn_digits (digits @ itoa (check_digit digits)))"
proof -
  let ?s = "luhn_loop (rev (map digit_val digits)) True 0"
  have c: "check_digit digits = (10 - ?s mod 10) mod 10" by (simp add: check_digit_def check_sum_luhn)
  then have "check_digit digits < 10" by simp
  then have ds: "luhn_digits (digits @ itoa (check_digit digits)) = map digit_val digits @ [check_digit digits]"
    using assms(2) by (simp add: luhn_digits_all)
  have "luhn_loop (rev (map digit_val digits @ [check_digit digits])) False 0 = check_digit digits + ?s"
    using luhn_loop_acc [of "rev (map digit_val digits)" True "check_digit digits"] by (simp add: rev_map)
  also have "(check_digit digits + ?s) mod 10 = 0" unfolding c by (simp add: mod_simps) presburger
  finally show ?thesis unfolding luhn_ok_def ds by (simp add: assms(1) rev_map)
qed

text \<open>The text of a card: sixteen digits, plain or grouped by four.\<close>

definition card_text :: "string \<Rightarrow> string \<Rightarrow> bool" where
  "card_text full v \<longleftrightarrow> length full = 16 \<and> list_all is_digit full \<and> (v = full \<or> v = group_card full)"

lemma card_text_digits: "card_text full v \<Longrightarrow> luhn_digits v = luhn_digits full"
  by (auto simp: card_text_def group_card_digits)

lemma luhnCard_yields: "yields luhnCard (\<lambda>v. \<exists>full. card_text full v \<and> luhn_ok (luhn_digits full))"
  unfolding luhnCard_def
proof (rule yields_pick; (rule yields_bind [OF grow_digits_yields])?)
  fix digits
  assume d: "length digits = 15 \<and> list_all is_digit digits"
  define full where "full = digits @ itoa (check_digit digits)"
  have "check_digit digits < 10" by (simp add: check_digit_def)
  then have full: "luhn_ok (luhn_digits full)" "length full = 16" "list_all is_digit full"
    using checked_card [of digits] d by (simp_all add: full_def)
  then show "yields (State_Monad.bind (Intn 2) (\<lambda>k. State_Monad.return
      (let full = digits @ itoa (check_digit digits) in if k = 0 then group_card full else full)))
      (\<lambda>v. \<exists>full. card_text full v \<and> luhn_ok (luhn_digits full))"
    unfolding full_def [symmetric] Let_def by (auto intro!: yields_rules exI [of _ full] simp: card_text_def)
qed (auto simp: is_digit_def)

lemma bump_last_digits:
  assumes "full \<noteq> []" and "is_digit (last full)"
  shows "\<exists>a x y. luhn_digits full = a @ [x] \<and> luhn_digits (bump_last full) = a @ [y] \<and> x < 10 \<and> y < 10 \<and> x \<noteq> y"
proof -
  define x where "x = digit_val (last full)"
  have x: "x < 10" using assms(2) by (auto simp: x_def is_digit_def digit_val_def)
  have "full = butlast full @ [last full]" using assms(1) by simp
  then have "luhn_digits full = luhn_digits (butlast full) @ [x]"
    using assms(2) luhn_digits_simps(2) [of "butlast full" "[last full]"] by (simp add: x_def)
  moreover have "luhn_digits (bump_last full) = luhn_digits (butlast full) @ [(x + 1) mod 10]"
    by (simp add: bump_last_def x_def)
  moreover have "(x + 1) mod 10 \<noteq> x" by presburger
  ultimately show ?thesis using x by fastforce
qed

lemma bump_last_append: "y \<noteq> [] \<Longrightarrow> bump_last (x @ y) = x @ bump_last y"
  by (simp add: bump_last_def butlast_append)

lemma card_text_bump:
  assumes "card_text full v"
  shows "card_text (bump_last full) (bump_last v)"
proof -
  have full: "length full = 16" "list_all is_digit full" using assms by (simp_all add: card_text_def)
  then have tail: "drop 12 full \<noteq> []" "full \<noteq> []" by auto
  then have bump: "bump_last full = take 12 full @ bump_last (drop 12 full)"
    using bump_last_append [of "drop 12 full" "take 12 full"] by simp
  let ?front = "take 4 full @ '' '' @ take 4 (drop 4 full) @ '' '' @ take 4 (drop 8 full) @ '' ''"
  have "group_card full = ?front @ drop 12 full" by (simp add: group_card_def)
  then have "bump_last (group_card full) = ?front @ bump_last (drop 12 full)" by (simp only: bump_last_append [OF tail(1)])
  also have "\<dots> = group_card (bump_last full)"
    using full(1) by (simp add: group_card_def bump drop_take)
  finally have "bump_last (group_card full) = group_card (bump_last full)" .
  moreover have "length (bump_last full) = 16" using full(1) tail(2) by (simp add: bump_last_def)
  moreover have "list_all is_digit (bump_last full)"
    using full(2) by (auto simp: bump_last_def list_all_iff dest: in_set_butlastD)
  ultimately show ?thesis using assms by (auto simp: card_text_def)
qed

lemma invalidLuhn_yields: "yields invalidLuhn (\<lambda>v. \<exists>full. card_text full v \<and> \<not> luhn_ok (luhn_digits full))"
  unfolding invalidLuhn_def
proof (rule yields_bind [OF luhnCard_yields], rule yields_return)
  fix v
  assume "\<exists>full. card_text full v \<and> luhn_ok (luhn_digits full)"
  then obtain full where card: "card_text full v" and ok: "luhn_ok (luhn_digits full)" by blast
  then have "full \<noteq> []" by (auto simp: card_text_def)
  moreover from this have "is_digit (last full)" using card by (simp add: card_text_def list_all_iff)
  ultimately obtain a x y where "luhn_digits full = a @ [x]" "luhn_digits (bump_last full) = a @ [y]" "x < 10" "y < 10" "x \<noteq> y"
    using bump_last_digits by blast
  with ok luhn_change_digit [of a x "[]" y] have "\<not> luhn_ok (luhn_digits (bump_last full))" by simp
  with card_text_bump [OF card] show "\<exists>full. card_text full (bump_last v) \<and> \<not> luhn_ok (luhn_digits full)" by blast
qed

lemma draw_digits_yields:
  "list_all is_digit bban \<Longrightarrow> yields (draw_digits n bban) (\<lambda>v. list_all is_digit v \<and> length v = length bban + n)"
proof (induction n arbitrary: bban)
  case (Suc n)
  have "yields (draw_digits n (bban @ itoa d)) (\<lambda>v. list_all is_digit v \<and> length v = length bban + Suc n)"
    if "d < 10" for d
    using Suc.IH [of "bban @ itoa d"] Suc.prems that by simp
  then show ?case by (auto intro!: yields_draw)
qed (simp add: yields_return)

lemma iban_rem_value: "iban_rem w = dec_value w mod 97"
proof -
  have "foldl (\<lambda>rm c. (rm * 10 + digit_val c) mod 97) (a mod 97) w = foldl (\<lambda>n c. n * 10 + digit_val c) a w mod 97" for a
  proof (induction w arbitrary: a)
    case (Cons c w)
    have "(a mod 97 * 10 + digit_val c) mod 97 = (a * 10 + digit_val c) mod 97"
      by (metis mod_add_left_eq mod_mult_left_eq)
    with Cons show ?case by simp
  qed simp
  from this [of 0] show ?thesis by (simp add: iban_rem_def dec_value_def)
qed

lemma iban_expand_append: "iban_expand (x @ y) = iban_expand x @ iban_expand y"
  by (simp add: iban_expand_def)

lemma iban_expand_digits: "list_all is_digit x \<Longrightarrow> iban_expand x = x"
  by (induction x) (simp_all add: iban_expand_def)

lemma dec_value_append: "dec_value (x @ y) = dec_value x * 10 ^ length y + dec_value y"
proof (induction y rule: rev_induct)
  case (snoc c y)
  have "dec_value (z @ [c]) = dec_value z * 10 + digit_val c" for z by (simp add: dec_value_def)
  from this [of "x @ y"] this [of y] snoc show ?case by simp
qed (simp add: dec_value_def)

lemma dec_value_zeros: "dec_value (replicate n (CHR ''0'')) = 0"
proof (induction n)
  case (Suc n)
  moreover have "dec_value [CHR ''0''] = 0" by code_simp
  ultimately show ?case using dec_value_append [of "[CHR ''0'']" "replicate n (CHR ''0'')"] by simp
qed (simp add: dec_value_def)

lemma digit_vals: "digit_val (CHR ''0'') = 0" "digit_val (CHR ''1'') = 1" "digit_val (CHR ''3'') = 3" "digit_val (CHR ''4'') = 4"
  by code_simp+

lemma iban_digits_of_DE: "iban_expand ''DE'' = ''1314''" "dec_value ''1314'' = 1314" "dec_value ''131400'' = 131400"
proof -
  have "iban_expand ''D'' = ''13''" "iban_expand ''E'' = ''14''" by code_simp+
  then show "iban_expand ''DE'' = ''1314''" using iban_expand_append [of "''D''" "''E''"] by simp
  show "dec_value ''1314'' = 1314" "dec_value ''131400'' = 131400" by (simp_all add: dec_value_def digit_vals)
qed

lemma pad_zero_two: "n < 100 \<Longrightarrow> length (pad_zero 2 n) = 2 \<and> list_all is_digit (pad_zero 2 n) \<and> dec_value (pad_zero 2 n) = n"
  using length_pad_zero [of n 2] pad_zero_digits [of _ 2 n]
  by (auto simp: list_all_iff pad_zero_def Let_def dec_value_append [of "replicate _ _"] dec_value_zeros)

lemma checked_iban:
  assumes "list_all is_digit bban" and "length bban = 18"
  shows "ibanMod97 (''DE'' @ pad_zero 2 (98 - iban_rem (bban @ ''131400'')) @ bban) 0 22 = Some True"
proof -
  define k where "k = 98 - iban_rem (bban @ ''131400'')"
  let ?v = "''DE'' @ pad_zero 2 k @ bban"
  have "iban_rem (bban @ ''131400'') < 97" by (simp add: iban_rem_value)
  then have k: "k < 100" "2 \<le> k" "k + iban_rem (bban @ ''131400'') = 98" by (simp_all add: k_def)
  note pad = pad_zero_two [OF k(1)]
  have "iban_char (CHR ''D'')" "iban_char (CHR ''E'')" by code_simp+
  then have "list_all iban_char ?v" using assms(1) pad by (auto simp: iban_char_def list_all_iff)
  moreover have len: "length ?v = 22" using assms(2) pad by simp
  moreover have sl: "slice ?v 0 22 = ?v" using len by (simp add: slice_def)
  moreover have "drop 4 ?v @ take 4 ?v = bban @ ''DE'' @ pad_zero 2 k" using pad by (simp add: numeral_eq_Suc)
  moreover have "iban_expand (bban @ ''DE'' @ pad_zero 2 k) = (bban @ ''1314'') @ pad_zero 2 k"
    using pad by (simp only: iban_expand_append iban_expand_digits [OF assms(1)] iban_expand_digits
        iban_digits_of_DE append_assoc)
  moreover have "dec_value ((bban @ ''1314'') @ pad_zero 2 k) mod 97 = 1"
  proof -
    have "dec_value ((bban @ ''1314'') @ pad_zero 2 k) = dec_value (bban @ ''131400'') + k"
      using pad by (simp only: dec_value_append iban_digits_of_DE) simp
    moreover have "(dec_value (bban @ ''131400'') + k) mod 97 = (iban_rem (bban @ ''131400'') + k) mod 97"
      unfolding iban_rem_value by (rule mod_add_left_eq [symmetric])
    moreover have "iban_rem (bban @ ''131400'') + k = 98" using k(3) by linarith
    ultimately show ?thesis by simp
  qed
  ultimately show ?thesis using ibanMod97_value [of 0 22 ?v] unfolding k_def [symmetric] by simp
qed

section \<open>What a slot yields\<close>

text \<open>
  The form of a value, part by part: fixed characters, a run of digits, a number in a range, padded
  with zeros to a width.
\<close>

datatype form_part = Chars string | Digits nat | Number nat nat nat

fun fits :: "form_part list \<Rightarrow> string \<Rightarrow> bool" where
  "fits [] v \<longleftrightarrow> v = []"
| "fits (Chars s # ps) v \<longleftrightarrow> has_prefix v s \<and> fits ps (drop (length s) v)"
| "fits (Digits n # ps) v \<longleftrightarrow> n \<le> length v \<and> list_all is_digit (take n v) \<and> fits ps (drop n v)"
| "fits (Number w lo hi # ps) v \<longleftrightarrow>
     (\<exists>n \<in> {lo..hi}. has_prefix v (pad_zero w n) \<and> fits ps (drop (length (pad_zero w n)) v))"

definition triple :: "form_part \<Rightarrow> string \<Rightarrow> form_part \<Rightarrow> string \<Rightarrow> form_part \<Rightarrow> form_part list" where
  "triple a s b t c = [a, Chars s, b, Chars t, c]"

definition ssn_forms :: "form_part list list" where
  "ssn_forms = map (\<lambda>s. triple (Number 3 100 764) s (Number 2 10 98) s (Number 4 1000 9998)) [''-'', '' '', []]"

definition phone_forms :: "form_part list list" where
  "phone_forms =
     [triple (Number 3 200 899) ''-'' (Number 3 200 899) ''-'' (Number 4 1000 9998),
      Chars ''('' # triple (Number 3 200 899) '') '' (Number 3 200 899) ''-'' (Number 4 1000 9998),
      Chars ''+1'' # triple (Number 3 200 899) [] (Number 3 200 899) [] (Number 4 1000 9998)]"

definition card_forms :: "form_part list list" where
  "card_forms = [[Digits 16], Digits 4 # Chars '' '' # triple (Digits 4) '' '' (Digits 4) '' '' (Digits 4)]"

definition mrn_forms :: "form_part list list" where
  "mrn_forms = [[Number 8 10000000 99999998], [Chars ''MRN-'', Number 7 1000000 9999998]]"

definition ip_forms :: "form_part list list" where
  "ip_forms = [Chars ''10.'' # triple (Number 0 0 254) ''.'' (Number 0 0 254) ''.'' (Number 0 1 254)]"

definition dob_forms :: "form_part list list" where
  "dob_forms = [triple (Number 2 1 12) ''/'' (Number 2 1 28) ''/'' (Number 0 1940 2004)]"

text \<open>An order number with or without its prefix, a version, or a number in the form of a card.\<close>

definition trap_forms :: "form_part list list" where
  "trap_forms =
     [Chars ''ORD-'' # triple (Number 3 100 998) ''-'' (Number 2 10 98) ''-'' (Number 4 1000 9998),
      [Number 9 100000000 999999998],
      Chars ''v'' # triple (Number 0 1 9) ''.'' (Number 0 0 19) ''.'' (Number 0 0 19)] @ card_forms"

definition has_form :: "form_part list list \<Rightarrow> string \<Rightarrow> bool" where
  "has_form forms v \<longleftrightarrow> (\<exists>f \<in> set forms. fits f v)"

definition capital_word :: "string \<Rightarrow> bool" where
  "capital_word w \<longleftrightarrow>
     w \<noteq> [] \<and> 65 \<le> byte (hd w) \<and> byte (hd w) \<le> 90 \<and> list_all (\<lambda>c. 97 \<le> byte c \<and> byte c \<le> 122) (tl w)"

definition mail_chars :: "string \<Rightarrow> bool" where
  "mail_chars w \<longleftrightarrow> w \<noteq> [] \<and> list_all (\<lambda>c. 97 \<le> byte c \<and> byte c \<le> 122 \<or> c \<in> set ''.+-'') w"

definition email_form :: "string \<Rightarrow> bool" where
  "email_form v \<longleftrightarrow>
     (\<exists>user n domain. v = user @ itoa n @ ''@'' @ domain \<and> 10 \<le> n \<and> n \<le> 99 \<and> mail_chars user \<and> mail_chars domain \<and>
        CHR ''.'' \<in> set domain)"

definition name_form :: "string \<Rightarrow> bool" where
  "name_form v \<longleftrightarrow> (\<exists>given family. v = given @ '' '' @ family \<and> capital_word given \<and> capital_word family)"

definition address_form :: "string \<Rightarrow> bool" where
  "address_form v \<longleftrightarrow>
     (\<exists>n a b city. v = itoa n @ '' '' @ (a @ '' '' @ b) @ '', '' @ city \<and> 100 \<le> n \<and> n \<le> 999 \<and>
        capital_word a \<and> capital_word b \<and> capital_word city)"

text \<open>
  What a value of each type looks like. A card passes the Luhn check, an account number the check
  modulo 97, and no trap passes the Luhn check: too short, or off by one in the last digit.
\<close>

definition value_ok :: "string \<Rightarrow> string \<Rightarrow> bool" where
  "value_ok t v \<longleftrightarrow>
     (t = slotSSN \<longrightarrow> has_form ssn_forms v) \<and>
     (t = slotEmail \<longrightarrow> email_form v) \<and>
     (t = slotPhone \<longrightarrow> has_form phone_forms v) \<and>
     (t = slotCC \<longrightarrow> has_form card_forms v \<and> luhn_ok (luhn_digits v)) \<and>
     (t = slotMRN \<longrightarrow> has_form mrn_forms v) \<and>
     (t = slotIP \<longrightarrow> has_form ip_forms v) \<and>
     (t = slotIBAN \<longrightarrow> has_form [[Chars ''DE'', Digits 20]] v \<and> ibanMod97 v 0 (int (length v)) = Some True) \<and>
     (t = slotDOB \<longrightarrow> has_form dob_forms v) \<and>
     (t = slotName \<longrightarrow> name_form v) \<and>
     (t = slotAddress \<longrightarrow> address_form v) \<and>
     (t = slotTrap \<longrightarrow> has_form trap_forms v \<and> \<not> luhn_ok (luhn_digits v))"

lemma fits_Chars: "fits ps v \<Longrightarrow> fits (Chars s # ps) (s @ v)"
  by simp

lemma fits_Digits: "length d = n \<Longrightarrow> list_all is_digit d \<Longrightarrow> fits ps v \<Longrightarrow> fits (Digits n # ps) (d @ v)"
  by simp

lemma fits_Number: "lo \<le> n \<Longrightarrow> n \<le> hi \<Longrightarrow> fits ps v \<Longrightarrow> fits (Number w lo hi # ps) (pad_zero w n @ v)"
  by (simp only: fits.simps, rule bexI [of _ n]) simp_all

lemma fits_Number_last: "lo \<le> n \<Longrightarrow> n \<le> hi \<Longrightarrow> fits [Number w lo hi] (pad_zero w n)"
  using fits_Number [of lo n hi "[]" "[]"] by simp

lemma pad_zero_none [simp]: "pad_zero 0 n = itoa n"
  by (simp add: pad_zero_def)

lemmas fits_intros = fits_Chars fits_Number fits_Number_last fits_Number [where w = 0, unfolded pad_zero_none]
  fits_Number_last [where w = 0, unfolded pad_zero_none]

lemma has_formI: "f \<in> set forms \<Longrightarrow> fits f v \<Longrightarrow> has_form forms v"
  by (auto simp: has_form_def)

lemma fits_triple:
  assumes "la \<le> a" "a \<le> ha" "lb \<le> b" "b \<le> hb" "lc \<le> c" "c \<le> hc"
  shows "fits (triple (Number x la ha) s (Number y lb hb) t (Number z lc hc)) (pad_zero x a @ s @ pad_zero y b @ t @ pad_zero z c)"
  unfolding triple_def by (intro fits_intros assms)

lemma card_has_form: "card_text full v \<Longrightarrow> has_form card_forms v"
proof -
  assume card: "card_text full v"
  then have full: "length full = 16" "list_all is_digit full" by (simp_all add: card_text_def)
  then have part: "list_all is_digit (take n (drop m full))" for n m
    by (auto simp: list_all_iff dest!: in_set_takeD in_set_dropD)
  have "take 4 (drop 12 full) = drop 12 full" using full(1) by simp
  then have "fits (Digits 4 # Chars '' '' # triple (Digits 4) '' '' (Digits 4) '' '' (Digits 4)) (group_card full)"
    using part [of 4 0] part [of 4 4] part [of 4 8] part [of 4 12] full(1)
    unfolding group_card_def triple_def
    by (intro fits_Digits fits_Chars fits_Digits [of _ _ "[]" "[]", unfolded append_Nil2]) simp_all
  moreover have "fits [Digits 16] full" using full by simp
  ultimately show ?thesis using card by (auto simp: card_text_def card_forms_def has_form_def)
qed

section \<open>The generators keep to the forms\<close>

lemma gen_iban_yields:
  "yields gen_iban (\<lambda>v. has_form [[Chars ''DE'', Digits 20]] v \<and> ibanMod97 v 0 (int (length v)) = Some True)"
  unfolding gen_iban_def
proof (rule yields_bind [OF draw_digits_yields], simp, rule yields_return)
  fix bban
  assume "list_all is_digit bban \<and> length bban = length ([] :: string) + 18"
  then have b: "list_all is_digit bban" "length bban = 18" by simp_all
  define k where "k = 98 - iban_rem (bban @ ''131400'')"
  have "k < 100" by (simp add: k_def)
  then have "int (length (''DE'' @ pad_zero 2 k @ bban)) = 22" using b(2) pad_zero_two [of k] by simp
  with checked_iban [OF b] have "ibanMod97 (''DE'' @ pad_zero 2 k @ bban) 0 (int (length (''DE'' @ pad_zero 2 k @ bban))) = Some True"
    unfolding k_def [symmetric] by simp
  moreover have "fits [Chars ''DE'', Digits 20] (''DE'' @ (pad_zero 2 k @ bban) @ [])"
    using b pad_zero_two [OF \<open>k < 100\<close>] by (intro fits_Chars fits_Digits) simp_all
  then have "has_form [[Chars ''DE'', Digits 20]] (''DE'' @ pad_zero 2 k @ bban)"
    by (intro has_formI [where f = "[Chars ''DE'', Digits 20]"]) (simp_all only: append_Nil2 list.set insert_iff simp_thms)
  ultimately show "has_form [[Chars ''DE'', Digits 20]] (''DE'' @ pad_zero 2 (98 - iban_rem (bban @ ''131400'')) @ bban) \<and>
      ibanMod97 (''DE'' @ pad_zero 2 (98 - iban_rem (bban @ ''131400'')) @ bban) 0
        (int (length (''DE'' @ pad_zero 2 (98 - iban_rem (bban @ ''131400'')) @ bban))) = Some True"
    unfolding k_def [symmetric] by blast
qed

lemma gen_ssn_yields: "yields gen_ssn (has_form ssn_forms)"
proof -
  have form: "has_form ssn_forms (pad_zero 3 (100 + a) @ s @ pad_zero 2 (10 + b) @ s @ pad_zero 4 (1000 + c))"
    if "a < 665" "b < 89" "c < 8999" "s \<in> {''-'', '' '', []}" for a b c s
    using that by (intro has_formI [OF _ fits_triple]) (auto simp: ssn_forms_def)
  show ?thesis
    unfolding gen_ssn_def Let_def
    by (intro yields_rules) (use form [of _ _ _ "''-''"] form [of _ _ _ "'' ''"] form [of _ _ _ "[]"] in simp_all)
qed

lemma gen_phone_yields: "yields gen_phone (has_form phone_forms)"
proof -
  have triple: "fits (triple (Number 3 200 899) s (Number 3 200 899) t (Number 4 1000 9998))
      (pad_zero 3 (200 + a) @ s @ pad_zero 3 (200 + b) @ t @ pad_zero 4 (1000 + c))"
    if "a < 700" "b < 700" "c < 8999" for a b c s t
    using that by (intro fits_triple) simp_all
  have form: "has_form phone_forms (''('' @ pad_zero 3 (200 + a) @ '') '' @ pad_zero 3 (200 + b) @ ''-'' @ pad_zero 4 (1000 + c))"
    "has_form phone_forms (''+1'' @ pad_zero 3 (200 + a) @ [] @ pad_zero 3 (200 + b) @ [] @ pad_zero 4 (1000 + c))"
    "has_form phone_forms (pad_zero 3 (200 + a) @ ''-'' @ pad_zero 3 (200 + b) @ ''-'' @ pad_zero 4 (1000 + c))"
    if "a < 700" "b < 700" "c < 8999" for a b c
    by (rule has_formI [OF _ fits_Chars [OF triple [OF that]]], simp add: phone_forms_def)+
      (rule has_formI [OF _ triple [OF that]], simp add: phone_forms_def)
  show ?thesis
    unfolding gen_phone_def Let_def by (intro yields_rules) (use form in simp_all)
qed

lemma gen_mrn_yields: "yields gen_mrn (has_form mrn_forms)"
proof -
  have "has_form mrn_forms (pad_zero 8 (10000000 + n))" if "n < 89999999" for n
    using that by (intro has_formI [OF _ fits_Number_last]) (auto simp: mrn_forms_def)
  moreover have "has_form mrn_forms (''MRN-'' @ pad_zero 7 (1000000 + n))" if "n < 8999999" for n
    using that by (intro has_formI [OF _ fits_Chars [OF fits_Number_last]]) (auto simp: mrn_forms_def)
  ultimately show ?thesis unfolding gen_mrn_def by (intro yields_rules) simp_all
qed

lemma gen_ip_yields: "yields gen_ip (has_form ip_forms)"
proof -
  have "has_form ip_forms (''10.'' @ itoa a @ ''.'' @ itoa b @ ''.'' @ itoa (1 + c))" if "a < 255" "b < 255" "c < 254" for a b c
    using that fits_triple [of 0 a 254 0 b 254 1 "1 + c" 254 0 "''.''" 0 "''.''" 0]
    by (intro has_formI [OF _ fits_Chars]) (auto simp: ip_forms_def)
  then show ?thesis unfolding gen_ip_def by (intro yields_rules) simp_all
qed

lemma gen_dob_yields: "yields gen_dob (has_form dob_forms)"
proof -
  have "has_form dob_forms (pad_zero 2 (1 + m) @ ''/'' @ pad_zero 2 (1 + d) @ ''/'' @ itoa (1940 + y))"
    if "m < 12" "d < 28" "y < 65" for m d y
    using that fits_triple [of 1 "1 + m" 12 1 "1 + d" 28 1940 "1940 + y" 2004 2 "''/''" 2 "''/''" 0]
    by (intro has_formI) (auto simp: dob_forms_def)
  then show ?thesis unfolding gen_dob_def by (intro yields_rules) simp_all
qed

lemma gen_email_yields: "yields gen_email email_form"
proof -
  have users: "list_all mail_chars [''jane.doe'', ''p.kim'', ''alex.rivera'', ''m.chen'', ''sam.okafor'', ''billing+acct'']"
    and domains: "list_all (\<lambda>d. mail_chars d \<and> CHR ''.'' \<in> set d)
      [''example.org'', ''clinic-mail.co.uk'', ''example.net'', ''hospital-demo.io'']"
    by code_simp+
  have "email_form (user @ itoa (n + 10) @ ''@'' @ domain)"
    if "user \<in> set [''jane.doe'', ''p.kim'', ''alex.rivera'', ''m.chen'', ''sam.okafor'', ''billing+acct'']" "n < 90"
      "domain \<in> set [''example.org'', ''clinic-mail.co.uk'', ''example.net'', ''hospital-demo.io'']" for user n domain
  proof -
    have "mail_chars user" "mail_chars domain" "CHR ''.'' \<in> set domain"
      using that(1,3) users domains unfolding list_all_iff by blast+
    with that(2) show ?thesis
      unfolding email_form_def by (intro exI [of _ user] exI [of _ "n + 10"] exI [of _ domain]) simp
  qed
  then show ?thesis unfolding gen_email_def by (intro yields_rules) simp_all
qed

lemma gen_name_yields: "yields gen_name name_form"
proof -
  have words: "list_all capital_word [''John'', ''Maria'', ''Wei'', ''Aisha'', ''Diego'', ''Ingrid'', ''Kofi'', ''Yuki'']"
    "list_all capital_word [''Smith'', ''Alvarez'', ''Chen'', ''Okafor'', ''Larsen'', ''Tanaka'', ''Mensah'', ''Novak'']"
    by code_simp+
  show ?thesis
    unfolding gen_name_def name_form_def by (intro yields_rules) (use words in \<open>auto simp: list_all_iff\<close>)
qed

lemma gen_address_yields: "yields gen_address address_form"
proof -
  have words: "list_all capital_word [''Evergreen'', ''Terrace'', ''Maple'', ''Avenue'', ''Cedar'', ''Lane'', ''Willow'', ''Court'']"
    "list_all capital_word [''Springfield'', ''Riverton'', ''Lakewood'', ''Fairview'']"
    by code_simp+
  have streets: "\<exists>a b. street = a @ '' '' @ b \<and> capital_word a \<and> capital_word b"
    if "street \<in> set [''Evergreen Terrace'', ''Maple Avenue'', ''Cedar Lane'', ''Willow Court'']" for street
  proof -
    have "street = ''Evergreen'' @ '' '' @ ''Terrace'' \<or> street = ''Maple'' @ '' '' @ ''Avenue'' \<or>
        street = ''Cedar'' @ '' '' @ ''Lane'' \<or> street = ''Willow'' @ '' '' @ ''Court''"
      using that by simp
    with words(1) show ?thesis unfolding list.pred_inject by blast
  qed
  have "address_form (itoa (100 + n) @ '' '' @ street @ '', '' @ city)"
    if n: "n < 900" and street: "street \<in> set [''Evergreen Terrace'', ''Maple Avenue'', ''Cedar Lane'', ''Willow Court'']"
      and city: "city \<in> set [''Springfield'', ''Riverton'', ''Lakewood'', ''Fairview'']" for n street city
  proof -
    obtain a b where ab: "street = a @ '' '' @ b" "capital_word a" "capital_word b" using streets [OF street] by blast
    have "capital_word city" using city words(2) unfolding list_all_iff by blast
    with ab n show ?thesis
      unfolding address_form_def ab(1) by (intro exI [of _ "100 + n"] exI [of _ a] exI [of _ b] exI [of _ city]) simp
  qed
  then show ?thesis unfolding gen_address_def by (intro yields_rules) simp_all
qed

lemma few_digits: "length (luhn_digits v) < 13 \<Longrightarrow> \<not> luhn_ok (luhn_digits v)"
  by (simp add: luhn_ok_def)

lemma luhn_digits_length: "length (luhn_digits v) \<le> length v"
  by (simp add: luhn_digits_def)

lemma gen_trap_short:
  "a < 899 \<Longrightarrow> b < 89 \<Longrightarrow> c < 8999 \<Longrightarrow>
     \<not> luhn_ok (luhn_digits (''ORD-'' @ pad_zero 3 (100 + a) @ ''-'' @ pad_zero 2 (10 + b) @ ''-'' @ pad_zero 4 (1000 + c)))"
  "m < 9 \<Longrightarrow> k < 20 \<Longrightarrow> l < 20 \<Longrightarrow> \<not> luhn_ok (luhn_digits (''v'' @ itoa (1 + m) @ ''.'' @ itoa k @ ''.'' @ itoa l))"
  "n < 899999999 \<Longrightarrow> \<not> luhn_ok (luhn_digits (pad_zero 9 (100000000 + n)))"
proof -
  have small: "length (luhn_digits (itoa n)) \<le> 2" if "n < 100" for n
    using length_itoa_le [of n 1] luhn_digits_length [of "itoa n"] that by simp
  have pad: "length (luhn_digits (pad_zero w n)) \<le> w" if "n < 10 ^ w" "0 < w" for w n
    using length_pad_zero [OF that] luhn_digits_length [of "pad_zero w n"] by simp
  have signs: "luhn_digits ''ORD-'' = []" "luhn_digits ''-'' = []" "luhn_digits ''v'' = []" "luhn_digits ''.'' = []"
    by code_simp+
  show "\<not> luhn_ok (luhn_digits (''ORD-'' @ pad_zero 3 (100 + a) @ ''-'' @ pad_zero 2 (10 + b) @ ''-'' @ pad_zero 4 (1000 + c)))"
    if "a < 899" "b < 89" "c < 8999"
    using that pad [of "100 + a" 3] pad [of "10 + b" 2] pad [of "1000 + c" 4]
    by (intro few_digits, simp only: luhn_digits_simps(2) signs length_append list.size) simp
  show "\<not> luhn_ok (luhn_digits (''v'' @ itoa (1 + m) @ ''.'' @ itoa k @ ''.'' @ itoa l))" if "m < 9" "k < 20" "l < 20"
    using that small [of "1 + m"] small [of k] small [of l]
    by (intro few_digits, simp only: luhn_digits_simps(2) signs length_append list.size) simp
  show "\<not> luhn_ok (luhn_digits (pad_zero 9 (100000000 + n)))" if "n < 899999999"
    using that pad [of "100000000 + n" 9] by (intro few_digits) simp
qed

lemma gen_trap_yields: "yields gen_trap (\<lambda>v. has_form trap_forms v \<and> \<not> luhn_ok (luhn_digits v))"
proof -
  have ord: "has_form trap_forms (''ORD-'' @ pad_zero 3 (100 + a) @ ''-'' @ pad_zero 2 (10 + b) @ ''-'' @ pad_zero 4 (1000 + c))"
    if "a < 899" "b < 89" "c < 8999" for a b c
    using that by (intro has_formI [OF _ fits_Chars [OF fits_triple]]) (auto simp: trap_forms_def)
  have ver: "has_form trap_forms (''v'' @ itoa (1 + a) @ ''.'' @ itoa b @ ''.'' @ itoa c)" if "a < 9" "b < 20" "c < 20" for a b c
    using that fits_triple [of 1 "1 + a" 9 0 b 19 0 c 19 0 "''.''" 0 "''.''" 0]
    by (intro has_formI [OF _ fits_Chars]) (auto simp: trap_forms_def)
  have num: "has_form trap_forms (pad_zero 9 (100000000 + n))" if "n < 899999999" for n
    using that by (intro has_formI [OF _ fits_Number_last]) (auto simp: trap_forms_def)
  have card: "yields invalidLuhn (\<lambda>v. has_form trap_forms v \<and> \<not> luhn_ok (luhn_digits v))"
    by (rule yields_mono [OF invalidLuhn_yields])
      (use card_has_form in \<open>auto simp: card_text_digits trap_forms_def has_form_def\<close>)
  show ?thesis
    unfolding gen_trap_def
    by (intro yields_rules card conjI ord ver num gen_trap_short) simp_all
qed

lemma gen_value_yields: "yields (gen_value s) (\<lambda>(v, t). t = s \<and> value_ok s v)"
proof -
  have card: "yields luhnCard (\<lambda>v. has_form card_forms v \<and> luhn_ok (luhn_digits v))"
    by (rule yields_mono [OF luhnCard_yields]) (use card_has_form in \<open>auto simp: card_text_digits\<close>)
  have ok: "yields m (value_ok s)" if "yields m P" "\<And>v. P v \<Longrightarrow> value_ok s v" for m P
    using that by (rule yields_mono)
  have "yields (if s = slotSSN then gen_ssn else if s = slotEmail then gen_email else if s = slotPhone then gen_phone
      else if s = slotCC then luhnCard else if s = slotMRN then gen_mrn else if s = slotIP then gen_ip
      else if s = slotIBAN then gen_iban else if s = slotDOB then gen_dob else if s = slotName then gen_name
      else if s = slotAddress then gen_address else if s = slotTrap then gen_trap else State_Monad.return []) (value_ok s)"
    by (intro yields_if; (rule ok [OF gen_ssn_yields] ok [OF gen_email_yields] ok [OF gen_phone_yields] ok [OF card]
          ok [OF gen_mrn_yields] ok [OF gen_ip_yields] ok [OF gen_iban_yields] ok [OF gen_dob_yields]
          ok [OF gen_name_yields] ok [OF gen_address_yields] ok [OF gen_trap_yields])?)
      (simp_all add: value_ok_def slot_defs yields_return)
  then show ?thesis
    unfolding gen_value_def by (rule yields_bind) (simp add: yields_return)
qed

section \<open>The ground truth is exact\<close>

definition span_exact :: "string \<Rightarrow> TruthSpan \<Rightarrow> bool" where
  "span_exact content sp \<longleftrightarrow>
     0 \<le> tr_Start sp \<and> tr_Start sp \<le> tr_End sp \<and> tr_End sp \<le> int (length content) \<and>
     slice content (tr_Start sp) (tr_End sp) = tr_Value sp \<and> value_ok (tr_Type sp) (tr_Value sp)"

definition item_exact :: "genItem \<Rightarrow> bool" where
  "item_exact item \<longleftrightarrow>
     (\<forall>sp \<in> set (gi_Truth item). span_exact (gi_Content item) sp \<and> tr_Type sp \<noteq> slotTrap) \<and>
     (\<forall>sp \<in> set (gi_Traps item). span_exact (gi_Content item) sp \<and> tr_Type sp = slotTrap) \<and>
     sorted_wrt (\<lambda>a b. tr_End a \<le> tr_Start b) (gi_Truth item)"

lemma span_exact_append: "span_exact content sp \<Longrightarrow> span_exact (content @ rest) sp"
  by (auto simp: span_exact_def slice_def nat_le_iff le_nat_iff)

lemma span_exact_new:
  "value_ok t val \<Longrightarrow> span_exact (content @ val)
     \<lparr>tr_Start = int (length content), tr_End = int (length content + length val), tr_Type = t, tr_Value = val\<rparr>"
  by (simp add: span_exact_def slice_def)

lemma item_exact_lit: "item_exact item \<Longrightarrow> item_exact (item\<lparr>gi_Content := gi_Content item @ s\<rparr>)"
  by (simp add: item_exact_def span_exact_append)

lemma item_exact_truth:
  assumes "item_exact item" and "value_ok t val" and "t \<noteq> slotTrap"
  shows "item_exact (item\<lparr>gi_Truth := gi_Truth item @ [\<lparr>tr_Start = int (length (gi_Content item)),
      tr_End = int (length (gi_Content item) + length val), tr_Type = t, tr_Value = val\<rparr>],
    gi_Content := gi_Content item @ val\<rparr>)"
  using assms span_exact_new [OF assms(2), of "gi_Content item"]
  by (auto simp: item_exact_def span_exact_append sorted_wrt_append) (auto simp: span_exact_def)

lemma item_exact_trap:
  assumes "item_exact item" and "value_ok slotTrap val"
  shows "item_exact (item\<lparr>gi_Traps := gi_Traps item @ [\<lparr>tr_Start = int (length (gi_Content item)),
      tr_End = int (length (gi_Content item) + length val), tr_Type = slotTrap, tr_Value = val\<rparr>],
    gi_Content := gi_Content item @ val\<rparr>)"
  using assms span_exact_new [OF assms(2), of "gi_Content item"]
  by (auto simp: item_exact_def span_exact_append)

lemma fill_parts_yields: "item_exact item \<Longrightarrow> yields (fill_parts ps item) item_exact"
proof (induction ps arbitrary: item)
  case (Cons p ps)
  show ?case
  proof (cases "pt_slot p = []")
    case True
    with Cons show ?thesis by (simp add: item_exact_lit)
  next
    case False
    show ?thesis
      using False Cons
      by (auto intro!: yields_bind [OF gen_value_yields] Cons.IH item_exact_trap [unfolded of_nat_add]
          item_exact_truth [unfolded of_nat_add]
          split: prod.split simp: Let_def)
  qed
qed (simp add: yields_return)

lemma fill_yields: "yields (fill t) item_exact"
  unfolding fill_def by (rule fill_parts_yields) (simp add: item_exact_def)

lemma usable_nonempty: "usable cfg \<noteq> []"
  by (simp add: usable_def templates_def)

lemma fresh_item_yields: "yields (fresh_item cfg) item_exact"
  unfolding fresh_item_def
proof (rule yields_pick [OF usable_nonempty], rule yields_bind [OF fill_yields])
  fix t item
  assume item: "item_exact item"
  then have "item_exact (item\<lparr>gi_Straddle := True\<rparr>)" by (simp add: item_exact_def)
  with item show "yields (if rc_IncludeStraddle cfg \<and> \<not> tm_trap t \<and> gi_Truth item \<noteq> []
      then State_Monad.bind (Intn 5) (\<lambda>k. State_Monad.return (if k = 0 then item\<lparr>gi_Straddle := True\<rparr> else item))
      else State_Monad.return item) item_exact"
    by (auto intro!: yields_rules)
qed

lemma one_item_yields:
  assumes "\<And>e. e \<in> set corpus \<Longrightarrow> item_exact (replay_item e)"
  shows "yields (one_item cfg corpus) item_exact"
  using assms by (auto simp: one_item_def intro!: yields_rules fresh_item_yields)

lemma gen_items_yields:
  assumes "\<And>e. e \<in> set corpus \<Longrightarrow> item_exact (replay_item e)"
  shows "yields (gen_items n cfg corpus) (\<lambda>items. length items = n \<and> list_all item_exact items)"
proof (induction n)
  case (Suc n)
  then show ?case
    by (auto intro!: yields_bind [OF one_item_yields [OF assms]] yields_bind [OF Suc] yields_return)
qed (simp add: yields_return)

lemma generate_exact:
  assumes "\<And>e. e \<in> set corpus \<Longrightarrow> item_exact (replay_item e)"
  shows "length (generate source cfg corpus) = nat (rc_Count cfg)" and "list_all item_exact (generate source cfg corpus)"
  using gen_items_yields [of corpus "nat (rc_Count cfg)" cfg, OF assms] unfolding generate_def yields_def by auto

end
