(* ===== verification/Harness_Score.thy ===== *)
theory Harness_Score
  imports Harness_Gen
begin

text \<open>
  Scoring of a harness run (\<open>internal/harness/score.go\<close>, \<open>streamscan.go\<close>): every outcome is joined
  with the gateway's report and the upstream's capture and counted against the ground truth. The
  decoding of a JSON body into the few fields the code reads is an argument (\<open>body_codec\<close>).
\<close>

section \<open>Reading bodies\<close>

text \<open>
  The contents of \<open>messages\<close> of a request, the type and text of a stream event's \<open>delta\<close>, the types and
  texts of a response's \<open>content\<close>; \<open>None\<close>: the body does not decode.
\<close>

record body_codec =
  bc_messages :: "string \<Rightarrow> json option list option"
  bc_delta :: "string \<Rightarrow> (string \<times> string) option"
  bc_content :: "string \<Rightarrow> (string \<times> string) list option"

definition upstreamContent :: "body_codec \<Rightarrow> string \<Rightarrow> string" where
  "upstreamContent bc body =
     (case bc_messages bc body of
        Some (Some (JStr s) # _) \<Rightarrow> s
      | _ \<Rightarrow> [])"

definition event_text :: "body_codec \<Rightarrow> string \<Rightarrow> string" where
  "event_text bc line =
     (if \<not> has_prefix line ''data: '' then []
      else case bc_delta bc (drop 6 line) of
             Some (t, txt) \<Rightarrow> if t = ''text_delta'' then txt else []
           | None \<Rightarrow> [])"

definition reassembleSSE :: "body_codec \<Rightarrow> string \<Rightarrow> string" where
  "reassembleSSE bc raw = concat (map (event_text bc) (split_on (CHR 0x0A) raw))"

definition responseText :: "body_codec \<Rightarrow> string \<Rightarrow> string" where
  "responseText bc raw =
     (case bc_content bc raw of
        None \<Rightarrow> []
      | Some blocks \<Rightarrow> concat (map snd (filter (\<lambda>b. fst b = ''text'') blocks)))"

section \<open>Scoring\<close>

record requestOutcome =
  oc_Item :: genItem
  oc_RequestID :: string
  oc_HTTPStatus :: nat
  oc_ResponseBody :: string
  oc_IsSSE :: bool
  oc_LatencyMS :: int
  oc_Err :: string

record scoring =
  sg_score :: RunScore
  sg_results :: "HarnessResult list"
  sg_tp :: nat
  sg_fn :: nat
  sg_fp :: nat
  sg_caught :: nat
  sg_total :: nat

definition zero_type :: TypeScore where
  "zero_type = \<lparr>ts_TP = 0, ts_FN = 0, ts_FP = 0, ts_BehavioralMisses = 0\<rparr>"

definition bump_type :: "(TypeScore \<Rightarrow> TypeScore) \<Rightarrow> string \<Rightarrow> RunScore \<Rightarrow> RunScore" where
  "bump_type f t sc =
     (let ts = (case map_of (sc_ByType sc) t of Some ts \<Rightarrow> ts | None \<Rightarrow> zero_type)
      in sc\<lparr>sc_ByType := AList.update t (f ts) (sc_ByType sc)\<rparr>)"

definition bump_engine :: "string \<Rightarrow> RunScore \<Rightarrow> RunScore" where
  "bump_engine d sc =
     (let n = (case map_of (sc_ByEngine sc) d of Some n \<Rightarrow> n | None \<Rightarrow> 0)
      in sc\<lparr>sc_ByEngine := AList.update d (n + 1) (sc_ByEngine sc)\<rparr>)"

definition missing :: "HarnessResult \<Rightarrow> string \<Rightarrow> HarnessResult" where
  "missing res t = res\<lparr>hr_MissedTypes := appendUnique (hr_MissedTypes res) t\<rparr>"

text \<open>One seeded value against the capture: held out, leaked or caught.\<close>

definition behavioral_step ::
    "InferenceCapture option \<Rightarrow> bool \<Rightarrow> scoring \<times> HarnessResult \<Rightarrow> TruthSpan \<Rightarrow> scoring \<times> HarnessResult" where
  "behavioral_step capture verified gr truth =
     (case gr of (g, res) \<Rightarrow>
       if \<not> verified
       then (g\<lparr>sg_score := (sg_score g)\<lparr>sc_CaptureOrphans := sc_CaptureOrphans (sg_score g) + 1\<rparr>\<rparr>, res)
       else let g = g\<lparr>sg_total := sg_total g + 1\<rparr>;
                leaked = (case capture of None \<Rightarrow> False | Some c \<Rightarrow> contains (ic_Body c) (tr_Value truth))
            in if leaked
               then (g\<lparr>sg_score := bump_type (\<lambda>ts. ts\<lparr>ts_BehavioralMisses := ts_BehavioralMisses ts + 1\<rparr>)
                        (tr_Type truth) (sg_score g)\<rparr>, missing res (tr_Type truth))
               else (g\<lparr>sg_caught := sg_caught g + 1\<rparr>, res))"

definition redaction_matches :: "TruthSpan \<Rightarrow> GatewayRedaction \<Rightarrow> bool" where
  "redaction_matches truth red \<longleftrightarrow>
     red_Type red = tr_Type truth \<and> red_Start red < tr_End truth \<and> tr_Start truth < red_End red"

definition first_match :: "GatewayRedaction list \<Rightarrow> TruthSpan \<Rightarrow> nat option" where
  "first_match reds truth = find (\<lambda>i. redaction_matches truth (reds ! i)) [0..<length reds]"

text \<open>One seeded value against the reported redactions; the third component holds the matched ones.\<close>

definition span_step ::
    "GatewayRedaction list \<Rightarrow> scoring \<times> HarnessResult \<times> nat list \<Rightarrow> TruthSpan \<Rightarrow> scoring \<times> HarnessResult \<times> nat list" where
  "span_step reds grm truth =
     (case grm of (g, res, matched) \<Rightarrow>
       (case first_match reds truth of
          Some i \<Rightarrow>
            (g\<lparr>sg_tp := sg_tp g + 1,
               sg_score := bump_type (\<lambda>ts. ts\<lparr>ts_TP := ts_TP ts + 1\<rparr>) (tr_Type truth) (sg_score g)\<rparr>, res, i # matched)
        | None \<Rightarrow>
            (g\<lparr>sg_fn := sg_fn g + 1,
               sg_score := bump_type (\<lambda>ts. ts\<lparr>ts_FN := ts_FN ts + 1\<rparr>) (tr_Type truth) (sg_score g)\<rparr>,
             missing res (tr_Type truth), matched)))"

definition trap_hits :: "TruthSpan list \<Rightarrow> GatewayRedaction \<Rightarrow> nat" where
  "trap_hits traps red = length (filter (\<lambda>t. red_Start red < tr_End t \<and> tr_Start t < red_End red) traps)"

definition redaction_step :: "TruthSpan list \<Rightarrow> nat list \<Rightarrow> scoring \<Rightarrow> nat \<times> GatewayRedaction \<Rightarrow> scoring" where
  "redaction_step traps matched g ir =
     (case ir of (i, red) \<Rightarrow>
       (let sc = bump_engine (red_Detector red) (sg_score g) in
        if i \<in> set matched then g\<lparr>sg_score := sc\<rparr>
        else let sc = bump_type (\<lambda>ts. ts\<lparr>ts_FP := ts_FP ts + 1\<rparr>) (red_Type red) sc
             in g\<lparr>sg_fp := sg_fp g + 1, sg_score := sc\<lparr>sc_TrapFPs := sc_TrapFPs sc + trap_hits traps red\<rparr>\<rparr>))"

definition base_result :: "string \<Rightarrow> requestOutcome \<Rightarrow> HarnessResult" where
  "base_result runID o1 =
     \<lparr>hr_RunID = runID, hr_RequestID = oc_RequestID o1, hr_Template = gi_Template (oc_Item o1),
      hr_Content = gi_Content (oc_Item o1), hr_Truth = gi_Truth (oc_Item o1), hr_Traps = gi_Traps (oc_Item o1),
      hr_Straddle = gi_Straddle (oc_Item o1), hr_Action = [], hr_HTTPStatus = oc_HTTPStatus o1,
      hr_Redactions = [], hr_UpstreamText = [], hr_MissedTypes = [], hr_ResponseLeaks = 0,
      hr_LatencyMS = oc_LatencyMS o1, hr_Err = oc_Err o1\<rparr>"

text \<open>The joins: the report decides the action and the redactions, a missing one is an orphan.\<close>

definition join_report :: "Report option \<Rightarrow> nat \<Rightarrow> RunScore \<times> HarnessResult \<Rightarrow> RunScore \<times> HarnessResult" where
  "join_report report status sr =
     (case sr of (sc, res) \<Rightarrow>
       (case report of
          Some rep \<Rightarrow> (sc\<lparr>sc_JoinedReports := sc_JoinedReports sc + 1\<rparr>,
                       res\<lparr>hr_Action := rr_Action rep, hr_Redactions := rr_Redactions rep\<rparr>)
        | None \<Rightarrow> (sc\<lparr>sc_OrphanRequests := sc_OrphanRequests sc + 1\<rparr>,
                   if status = 400 then res\<lparr>hr_Action := ''block''\<rparr> else res)))"

definition response_leaks :: "body_codec \<Rightarrow> requestOutcome \<Rightarrow> nat" where
  "response_leaks bc o1 =
     (let respText = (if oc_IsSSE o1 then reassembleSSE bc (oc_ResponseBody o1) else responseText bc (oc_ResponseBody o1))
      in if respText = [] then 0
         else length (filter (\<lambda>truth. contains respText (tr_Value truth)) (gi_Truth (oc_Item o1))))"

definition score_one :: "body_codec \<Rightarrow> Store \<Rightarrow> string \<Rightarrow> scoring \<Rightarrow> requestOutcome \<Rightarrow> scoring" where
  "score_one bc st runID g o1 =
     (let res = base_result runID o1 in
      if oc_Err o1 \<noteq> [] then g\<lparr>sg_results := sg_results g @ [res]\<rparr>
      else
        let capture = InferenceCaptureByRequestID (oc_RequestID o1) st;
            (sc, res) = join_report (GatewayReportByRequestID (oc_RequestID o1) st) (oc_HTTPStatus o1) (sg_score g, res);
            res = (case capture of None \<Rightarrow> res | Some c \<Rightarrow> res\<lparr>hr_UpstreamText := upstreamContent bc (ic_Body c)\<rparr>);
            verified = (capture \<noteq> None \<or> hr_Action res = ''block'');
            (g, res) = foldl (behavioral_step capture verified) (g\<lparr>sg_score := sc\<rparr>, res) (gi_Truth (oc_Item o1));
            (g, res, matched) = foldl (span_step (hr_Redactions res)) (g, res, []) (gi_Truth (oc_Item o1));
            g = foldl (redaction_step (gi_Traps (oc_Item o1)) matched) g (enumerate 0 (hr_Redactions res));
            leaks = response_leaks bc o1;
            sc = sg_score g
        in g\<lparr>sg_score := sc\<lparr>sc_ResponseLeaks := sc_ResponseLeaks sc + leaks\<rparr>,
             sg_results := sg_results g @ [res\<lparr>hr_ResponseLeaks := leaks\<rparr>]\<rparr>)"

definition zero_score :: RunScore where
  "zero_score =
     \<lparr>sc_Precision = 0, sc_RecallReported = 0, sc_RecallBehavioral = 0, sc_TrapFPs = 0, sc_ResponseLeaks = 0,
      sc_ByType = [], sc_ByEngine = [], sc_JoinedReports = 0, sc_OrphanRequests = 0, sc_CaptureOrphans = 0\<rparr>"

definition share :: "nat \<Rightarrow> nat \<Rightarrow> float64" where
  "share a b = (if b > 0 then of_nat a / of_nat b else 0)"

definition score_all :: "body_codec \<Rightarrow> Store \<Rightarrow> string \<Rightarrow> requestOutcome list \<Rightarrow> scoring" where
  "score_all bc st runID outcomes =
     foldl (score_one bc st runID)
       \<lparr>sg_score = zero_score, sg_results = [], sg_tp = 0, sg_fn = 0, sg_fp = 0, sg_caught = 0, sg_total = 0\<rparr> outcomes"

definition scoreRun :: "body_codec \<Rightarrow> Store \<Rightarrow> string \<Rightarrow> requestOutcome list \<Rightarrow> RunScore \<times> HarnessResult list" where
  "scoreRun bc st runID outcomes =
     (let g = score_all bc st runID outcomes
      in ((sg_score g)\<lparr>sc_RecallReported := share (sg_tp g) (sg_tp g + sg_fn g),
            sc_Precision := share (sg_tp g) (sg_tp g + sg_fp g),
            sc_RecallBehavioral := share (sg_caught g) (sg_total g)\<rparr>, sg_results g))"

section \<open>The books balance\<close>

lemma bump_type_frame [simp]:
  "sc_CaptureOrphans (bump_type f t sc) = sc_CaptureOrphans sc" "sc_JoinedReports (bump_type f t sc) = sc_JoinedReports sc"
  "sc_OrphanRequests (bump_type f t sc) = sc_OrphanRequests sc"
  by (simp_all add: bump_type_def Let_def)

lemma bump_engine_frame [simp]:
  "sc_CaptureOrphans (bump_engine d sc) = sc_CaptureOrphans sc" "sc_JoinedReports (bump_engine d sc) = sc_JoinedReports sc"
  "sc_OrphanRequests (bump_engine d sc) = sc_OrphanRequests sc" "sc_ByType (bump_engine d sc) = sc_ByType sc"
  by (simp_all add: bump_engine_def Let_def)

text \<open>The sum of one count over all types.\<close>

definition over_types :: "(TypeScore \<Rightarrow> nat) \<Rightarrow> scoring \<Rightarrow> nat" where
  "over_types f g = (\<Sum>(t, ts)\<leftarrow>sc_ByType (sg_score g). f ts)"

definition types_distinct :: "scoring \<Rightarrow> bool" where
  "types_distinct g \<longleftrightarrow> distinct (map fst (sc_ByType (sg_score g)))"

lemma sum_update:
  "distinct (map fst m) \<Longrightarrow>
     (\<Sum>(t, ts)\<leftarrow>AList.update k v m. f ts) + (case map_of m k of None \<Rightarrow> 0 | Some ts \<Rightarrow> f ts) =
     (\<Sum>(t, ts)\<leftarrow>m. f ts) + (f v :: nat)"
  by (induction m) (auto split: option.split simp: map_of_eq_None_iff)

lemma bump_type_sum:
  fixes f :: "TypeScore \<Rightarrow> nat"
  assumes "distinct (map fst (sc_ByType sc))" and "\<And>ts. f (up ts) = f ts + n" and "f zero_type = 0"
  shows "(\<Sum>(t, ts)\<leftarrow>sc_ByType (bump_type up k sc). f ts) = (\<Sum>(t, ts)\<leftarrow>sc_ByType sc. f ts) + n"
  using sum_update [OF assms(1), where k = k and f = f
      and v = "up (case map_of (sc_ByType sc) k of Some ts \<Rightarrow> ts | None \<Rightarrow> zero_type)"]
    assms(2,3) by (auto simp: bump_type_def Let_def split: option.splits)

lemma bump_type_distinct [simp]:
  "distinct (map fst (sc_ByType sc)) \<Longrightarrow> distinct (map fst (sc_ByType (bump_type up k sc)))"
  by (simp add: bump_type_def Let_def distinct_update)

text \<open>
  What holds after any number of outcomes: \<open>n\<close> of them free of errors, with \<open>k\<close> seeded values.
\<close>

definition balanced :: "nat \<Rightarrow> nat \<Rightarrow> scoring \<Rightarrow> bool" where
  "balanced n k g \<longleftrightarrow>
     sg_tp g + sg_fn g = k \<and> sg_total g + sc_CaptureOrphans (sg_score g) = k \<and> sg_caught g \<le> sg_total g \<and>
     sc_JoinedReports (sg_score g) + sc_OrphanRequests (sg_score g) = n \<and> types_distinct g \<and>
     over_types ts_TP g = sg_tp g \<and> over_types ts_FN g = sg_fn g \<and> over_types ts_FP g = sg_fp g \<and>
     over_types ts_BehavioralMisses g + sg_caught g = sg_total g"

text \<open>The three inner loops, each with what it adds.\<close>

definition midway :: "nat \<Rightarrow> nat \<Rightarrow> nat \<Rightarrow> scoring \<Rightarrow> bool" where
  "midway n k j g \<longleftrightarrow>
     sg_tp g + sg_fn g = k \<and> sg_total g + sc_CaptureOrphans (sg_score g) = j \<and> sg_caught g \<le> sg_total g \<and>
     sc_JoinedReports (sg_score g) + sc_OrphanRequests (sg_score g) = n \<and> types_distinct g \<and>
     over_types ts_TP g = sg_tp g \<and> over_types ts_FN g = sg_fn g \<and> over_types ts_FP g = sg_fp g \<and>
     over_types ts_BehavioralMisses g + sg_caught g = sg_total g"

lemma balanced_midway: "balanced n k g \<longleftrightarrow> midway n k k g"
  by (simp add: balanced_def midway_def)

lemmas count_defs = midway_def over_types_def types_distinct_def

lemma behavioral_step_midway: "midway n k j (fst gr) \<Longrightarrow> midway n k (Suc j) (fst (behavioral_step capture v gr truth))"
  by (cases gr) (auto simp: behavioral_step_def Let_def count_defs zero_type_def
      bump_type_sum [where n = 0] bump_type_sum [where n = "Suc 0"])

lemma span_step_midway: "midway n k j (fst grm) \<Longrightarrow> midway n (Suc k) j (fst (span_step reds grm truth))"
  by (cases grm) (auto simp: span_step_def Let_def count_defs zero_type_def
      bump_type_sum [where n = 0] bump_type_sum [where n = "Suc 0"] split: option.split)

lemma redaction_step_midway: "midway n k j g \<Longrightarrow> midway n k j (redaction_step traps matched g ir)"
  by (cases ir) (auto simp: redaction_step_def Let_def count_defs zero_type_def
      bump_type_sum [where n = 0] bump_type_sum [where n = "Suc 0"])

lemma behavioral_fold: "midway n k j (fst gr) \<Longrightarrow> midway n k (j + length ts) (fst (foldl (behavioral_step capture v) gr ts))"
proof (induction ts arbitrary: gr j)
  case (Cons t ts)
  from Cons.IH [OF behavioral_step_midway [OF Cons.prems]] show ?case by simp
qed simp

lemma span_fold: "midway n k j (fst grm) \<Longrightarrow> midway n (k + length ts) j (fst (foldl (span_step reds) grm ts))"
proof (induction ts arbitrary: grm k)
  case (Cons t ts)
  from Cons.IH [OF span_step_midway [OF Cons.prems]] show ?case by simp
qed simp

lemma redaction_fold: "midway n k j g \<Longrightarrow> midway n k j (foldl (redaction_step traps matched) g irs)"
  by (induction irs arbitrary: g) (simp_all add: redaction_step_midway)

lemma join_report_midway:
  "midway n k j g \<Longrightarrow> midway (Suc n) k j (g\<lparr>sg_score := fst (join_report report status (sg_score g, res))\<rparr>)"
  by (auto simp: join_report_def count_defs split: option.split)

lemma steps_results [simp]:
  "sg_results (fst (behavioral_step capture v gr t)) = sg_results (fst gr)"
  "sg_results (fst (span_step reds grm t)) = sg_results (fst grm)"
  "sg_results (redaction_step traps matched g ir) = sg_results g"
  by (auto simp: behavioral_step_def span_step_def redaction_step_def Let_def split: prod.split option.split)

lemma folds_results [simp]:
  "sg_results (fst (foldl (behavioral_step capture v) gr ts)) = sg_results (fst gr)"
  "sg_results (fst (foldl (span_step reds) grm ts)) = sg_results (fst grm)"
  "sg_results (foldl (redaction_step traps matched) g irs) = sg_results g"
  by (induction ts arbitrary: gr grm, auto) (induction irs arbitrary: g, auto)

definition seeded :: "requestOutcome \<Rightarrow> nat" where
  "seeded o1 = (if oc_Err o1 = [] then length (gi_Truth (oc_Item o1)) else 0)"

definition answered :: "requestOutcome list \<Rightarrow> nat" where
  "answered outcomes = length (filter (\<lambda>o1. oc_Err o1 = []) outcomes)"

lemma score_one_ok:
  assumes "balanced n k g"
  shows "balanced (n + answered [o1]) (k + seeded o1) (score_one bc st runID g o1)"
    and "length (sg_results (score_one bc st runID g o1)) = Suc (length (sg_results g))"
proof -
  have "balanced (n + answered [o1]) (k + seeded o1) (score_one bc st runID g o1) \<and>
      length (sg_results (score_one bc st runID g o1)) = Suc (length (sg_results g))"
  proof (cases "oc_Err o1 = []")
    case True
    let ?rep = "GatewayReportByRequestID (oc_RequestID o1) st" and ?capture = "InferenceCaptureByRequestID (oc_RequestID o1) st"
    obtain sc res where 1: "join_report ?rep (oc_HTTPStatus o1) (sg_score g, base_result runID o1) = (sc, res)"
      by (rule prod.exhaust)
    define res' where "res' = (case ?capture of None \<Rightarrow> res | Some c \<Rightarrow> res\<lparr>hr_UpstreamText := upstreamContent bc (ic_Body c)\<rparr>)"
    define v where "v = (?capture \<noteq> None \<or> hr_Action res' = ''block'')"
    obtain g2 res2 where 2: "foldl (behavioral_step ?capture v) (g\<lparr>sg_score := sc\<rparr>, res') (gi_Truth (oc_Item o1)) = (g2, res2)"
      by (rule prod.exhaust)
    obtain g3 res3 matched where 3: "foldl (span_step (hr_Redactions res2)) (g2, res2, []) (gi_Truth (oc_Item o1)) = (g3, res3, matched)"
      by (metis prod.exhaust)
    define g4 where "g4 = foldl (redaction_step (gi_Traps (oc_Item o1)) matched) g3 (enumerate 0 (hr_Redactions res3))"
    have m1: "midway (Suc n) k k (g\<lparr>sg_score := sc\<rparr>)"
      using join_report_midway [of n k k g ?rep "oc_HTTPStatus o1" "base_result runID o1"] assms by (simp add: 1 balanced_midway)
    have m2: "midway (Suc n) k (k + seeded o1) g2"
      using behavioral_fold [of "Suc n" k k "(g\<lparr>sg_score := sc\<rparr>, res')" "gi_Truth (oc_Item o1)" ?capture v] m1 True
      by (simp add: 2 seeded_def)
    have m3: "midway (Suc n) (k + seeded o1) (k + seeded o1) g3"
      using span_fold [of "Suc n" k "k + seeded o1" "(g2, res2, [])" "gi_Truth (oc_Item o1)" "hr_Redactions res2"] m2 True
      by (simp add: 3 seeded_def)
    have m4: "midway (Suc n) (k + seeded o1) (k + seeded o1) g4"
      unfolding g4_def by (rule redaction_fold [OF m3])
    have "sg_results g2 = sg_results g"
      using folds_results(1) [where gr = "(g\<lparr>sg_score := sc\<rparr>, res')"] 2 by (metis fst_conv scoring.select_convs(2) scoring.surjective scoring.update_convs(1))
    moreover have "sg_results g3 = sg_results g2"
      using folds_results(2) [where grm = "(g2, res2, [])"] 3 by (metis fst_conv)
    ultimately have len: "sg_results g4 = sg_results g" by (simp add: g4_def)
    have "score_one bc st runID g o1 = g4\<lparr>sg_score := (sg_score g4)\<lparr>sc_ResponseLeaks := sc_ResponseLeaks (sg_score g4) + response_leaks bc o1\<rparr>,
        sg_results := sg_results g4 @ [res3\<lparr>hr_ResponseLeaks := response_leaks bc o1\<rparr>]\<rparr>"
      by (simp only: score_one_def Let_def 1 prod.case res'_def [symmetric] v_def [symmetric] 2 3 g4_def [symmetric]
          True simp_thms if_False)
    with m4 len True show ?thesis by (simp add: balanced_midway count_defs answered_def)
  next
    case False
    with assms show ?thesis by (simp add: score_one_def Let_def balanced_midway count_defs answered_def seeded_def)
  qed
  then show "balanced (n + answered [o1]) (k + seeded o1) (score_one bc st runID g o1)"
    "length (sg_results (score_one bc st runID g o1)) = Suc (length (sg_results g))" by simp_all
qed

lemma score_all_ok:
  "balanced (answered outcomes) (\<Sum>o1\<leftarrow>outcomes. seeded o1) (score_all bc st runID outcomes)"
  "length (sg_results (score_all bc st runID outcomes)) = length outcomes"
proof -
  have "balanced (n + answered os) (k + (\<Sum>o1\<leftarrow>os. seeded o1)) (foldl (score_one bc st runID) g os) \<and>
      length (sg_results (foldl (score_one bc st runID) g os)) = length (sg_results g) + length os"
    if "balanced n k g" for n k g os
    using that
  proof (induction os arbitrary: n k g)
    case (Cons o1 os)
    from Cons.IH [OF score_one_ok(1) [OF Cons.prems, of o1 bc st runID]] score_one_ok(2) [OF Cons.prems, of bc st runID o1]
    show ?case by (simp add: answered_def add.assoc split: if_splits)
  qed (simp add: answered_def)
  from this [of 0 0 _ outcomes] show "balanced (answered outcomes) (\<Sum>o1\<leftarrow>outcomes. seeded o1) (score_all bc st runID outcomes)"
    "length (sg_results (score_all bc st runID outcomes)) = length outcomes"
    by (simp_all add: score_all_def balanced_midway count_defs zero_score_def)
qed

lemma share_bounds: "a \<le> b \<Longrightarrow> 0 \<le> share a b \<and> share a b \<le> 1"
  by (simp add: share_def divide_le_eq)

end
