(* ===== verification/Harness_Proposals.thy ===== *)
theory Harness_Proposals
  imports Harness_Flywheel
begin

text \<open>
  The run of the flywheel over the results of a harness run (\<open>flywheel\<close> in
  \<open>internal/harness/flywheel.go\<close>, the corpus files of \<open>persist.go\<close>) and what its proposals satisfy: no
  two with one id, and every open one passes the check an approval makes.
\<close>

section \<open>The corpus\<close>

text \<open>The files of the corpus directory: encoding an entry, and the outcome of writing and renaming.\<close>

record corpus_fs =
  cor_marshal :: "CorpusEntry \<Rightarrow> string + string"
  cor_write_err :: "string \<Rightarrow> string option"
  cor_rename_err :: "string \<Rightarrow> string option"

definition corpus_name :: "CorpusEntry \<Rightarrow> string" where
  "corpus_name e = ce_ID e @ ''.json''"

definition saveCorpusEntry ::
    "corpus_fs \<Rightarrow> CorpusEntry \<Rightarrow> (string \<times> string) list \<Rightarrow> string option \<times> (string \<times> string) list" where
  "saveCorpusEntry fs e dir =
     (case cor_marshal fs e of
        Inl err \<Rightarrow> (Some err, dir)
      | Inr raw \<Rightarrow>
          (let name = corpus_name e in
           case writeAtomic (cor_write_err fs name) (cor_rename_err fs name) raw (map_of dir name) of
             (err, None) \<Rightarrow> (err, dir)
           | (err, Some content) \<Rightarrow> (err, AList.update name content dir)))"

text \<open>A file that cannot be read or parsed is skipped.\<close>

definition loadCorpus ::
    "(string \<Rightarrow> string + CorpusEntry) \<Rightarrow> (string \<Rightarrow> bool) \<Rightarrow> (string \<times> string) list \<Rightarrow> CorpusEntry list" where
  "loadCorpus unmarshal unreadable dir =
     concat (map (\<lambda>name.
       if unreadable name then []
       else (case map_of dir name of
               None \<Rightarrow> []
             | Some raw \<Rightarrow> (case unmarshal raw of Inl err \<Rightarrow> [] | Inr e \<Rightarrow> [e])))
       (sort_strings (filter (\<lambda>name. has_suffix name ''.json'') (map fst dir))))"

definition hashText :: "(string \<Rightarrow> string) \<Rightarrow> string \<Rightarrow> string" where
  "hashText sha t = hex_encode (sha t)"

definition corpusVersion :: "(string \<Rightarrow> string) \<Rightarrow> CorpusEntry list \<Rightarrow> string" where
  "corpusVersion sha corpus =
     take 12 (hex_encode (sha (''gen/v1|'' @ concat (sort_strings (map ce_ID corpus)))))"

section \<open>One run of the flywheel\<close>

definition missed :: "HarnessResult \<Rightarrow> bool" where
  "missed res \<longleftrightarrow> hr_MissedTypes res \<noteq> [] \<and> hr_Err res = []"

definition count_hit :: "(string \<times> int) list \<Rightarrow> candidate \<Rightarrow> (string \<times> int) list" where
  "count_hit m cand =
     AList.update (cand_ID cand) ((case map_of m (cand_ID cand) of None \<Rightarrow> 0 | Some n \<Rightarrow> n) + 1) m"

definition match_type ::
    "HarnessResult \<Rightarrow> (string \<times> int) list \<times> uncoveredMiss list \<Rightarrow> string \<Rightarrow> (string \<times> int) list \<times> uncoveredMiss list" where
  "match_type res acc missType =
     (let hitting = filter (\<lambda>cand. cand_Type cand = missType \<and>
                      candidateCovers cand (hr_Content res) (hr_Truth res) missType) candidateLibrary
      in if hitting = []
         then (fst acc, snd acc @ [\<lparr>um_typ = missType, um_content = hr_Content res, um_truth = hr_Truth res\<rparr>])
         else (foldl count_hit (fst acc) hitting, snd acc))"

definition match_misses :: "HarnessResult list \<Rightarrow> (string \<times> int) list \<times> uncoveredMiss list" where
  "match_misses results =
     foldl (\<lambda>acc res. if missed res then foldl (match_type res) acc (hr_MissedTypes res) else acc) ([], []) results"

record promotion =
  pm_seen :: "string list"
  pm_corpus :: "CorpusEntry list"
  pm_dir :: "(string \<times> string) list"
  pm_promoted :: nat

definition corpus_entry :: "(string \<Rightarrow> string) \<Rightarrow> string \<Rightarrow> time \<Rightarrow> HarnessResult \<Rightarrow> CorpusEntry" where
  "corpus_entry sha runID now res =
     \<lparr>ce_ID = take 16 (hashText sha (hr_Content res)), ce_Text = hr_Content res, ce_Truth = hr_Truth res,
      ce_SourceRun = runID, ce_MissTypes = hr_MissedTypes res, ce_AddedAt = now\<rparr>"

definition promote_one ::
    "(string \<Rightarrow> string) \<Rightarrow> corpus_fs \<Rightarrow> (nat \<Rightarrow> time) \<Rightarrow> string \<Rightarrow> promotion \<Rightarrow> nat \<times> HarnessResult \<Rightarrow> promotion" where
  "promote_one sha fs clock runID m ir =
     (let res = snd ir; h = hashText sha (hr_Content res) in
      if \<not> missed res \<or> h \<in> set (pm_seen m) then m
      else let entry = corpus_entry sha runID (clock (fst ir)) res in
        case saveCorpusEntry fs entry (pm_dir m) of
          (Some err, dir) \<Rightarrow> m\<lparr>pm_dir := dir\<rparr>
        | (None, dir) \<Rightarrow>
            \<lparr>pm_seen = h # pm_seen m, pm_corpus = pm_corpus m @ [entry], pm_dir = dir,
             pm_promoted = pm_promoted m + 1\<rparr>)"

definition promote ::
    "(string \<Rightarrow> string) \<Rightarrow> corpus_fs \<Rightarrow> (nat \<Rightarrow> time) \<Rightarrow> string \<Rightarrow> HarnessResult list \<Rightarrow> Runner \<Rightarrow> promotion" where
  "promote sha fs clock runID results ru =
     foldl (promote_one sha fs clock runID)
       \<lparr>pm_seen = map (\<lambda>e. hashText sha (ce_Text e)) (ru_corpus ru), pm_corpus = ru_corpus ru,
        pm_dir = ru_corpusDir ru, pm_promoted = 0\<rparr> (enumerate 0 results)"

record flywheel_io =
  fw_sha :: "string \<Rightarrow> string"
  fw_post :: "json \<Rightarrow> string + presidioResult list"
  fw_corpus :: corpus_fs
  fw_patterns :: pattern_fs
  fw_added :: "nat \<Rightarrow> time"
  fw_created :: "nat \<Rightarrow> time"

definition flywheel ::
    "flywheel_io \<Rightarrow> string \<Rightarrow> string \<Rightarrow> HarnessResult list \<Rightarrow> Store \<Rightarrow> Runner \<Rightarrow> nat \<times> Runner" where
  "flywheel io runID chain results st ru =
     (case match_misses results of (nhits, uncovered) \<Rightarrow>
       (let evidence = synthesizeConfig (if ru_probe ru then Some (analyzeRaw (fw_post io)) else None) st chain uncovered;
            m = promote (fw_sha io) (fw_corpus io) (fw_added io) runID results ru;
            ru = ru\<lparr>ru_corpus := pm_corpus m, ru_corpusDir := pm_dir m\<rparr>
        in (pm_promoted m, upsertProposals (fw_patterns io) (fw_created io) runID nhits evidence st ru)))"

section \<open>Every open proposal can be approved\<close>

definition approvable :: "(string \<Rightarrow> string option) \<Rightarrow> PatternProposal \<Rightarrow> bool" where
  "approvable compile_err p \<longleftrightarrow> (case ruleFromProposal compile_err p of Inl _ \<Rightarrow> False | Inr _ \<Rightarrow> True)"

definition proposals_ok :: "(string \<Rightarrow> string option) \<Rightarrow> PatternProposal list \<Rightarrow> bool" where
  "proposals_ok compile_err ps \<longleftrightarrow>
     distinct (map pp_ID ps) \<and> (\<forall>p \<in> set ps. pp_Status p = ''proposed'' \<longrightarrow> approvable compile_err p)"

lemma first_term_error_None: "first_term_error f ts = None \<longleftrightarrow> (\<forall>t \<in> set ts. f t = None)"
  by (induction ts) (auto split: option.split)

lemma approvable_regex:
  "pp_Kind p = KindRegex \<Longrightarrow> approvable compile_err p \<longleftrightarrow> compile_err (pp_Regex p) = None"
  by (simp add: approvable_def ruleFromProposal_def Let_def split: option.split)

lemma approvable_deny:
  "pp_Kind p = KindDenyList \<Longrightarrow> approvable compile_err p \<longleftrightarrow>
     pp_DenyList p \<noteq> [] \<and> length (pp_DenyList p) \<le> maxDenyTerms \<and> (\<forall>t \<in> set (pp_DenyList p). validateDenyTerm t = None)"
  by (auto simp: approvable_def ruleFromProposal_def Let_def kind_defs first_term_error_None [symmetric] split: option.split)

lemma approvable_threshold:
  "pp_Kind p = KindThreshold \<Longrightarrow> approvable compile_err p \<longleftrightarrow> minGate \<le> pp_Threshold p \<and> pp_Threshold p \<le> maxGate"
  by (auto simp: approvable_def ruleFromProposal_def Let_def kind_defs)

text \<open>What an approved rule went through, whatever its kind.\<close>

definition rule_checked :: "(string \<Rightarrow> string option) \<Rightarrow> PackRule \<Rightarrow> bool" where
  "rule_checked compile_err r \<longleftrightarrow>
     rule_Kind r = KindRegex \<and> compile_err (rule_Regex r) = None
     \<or> rule_Kind r = KindDenyList \<and> rule_DenyList r \<noteq> [] \<and> length (rule_DenyList r) \<le> maxDenyTerms \<and>
         (\<forall>t \<in> set (rule_DenyList r). validateDenyTerm t = None)
     \<or> rule_Kind r = KindThreshold \<and> minGate \<le> rule_Threshold r \<and> rule_Threshold r \<le> maxGate
     \<or> rule_Kind r = KindAllowList \<and> rule_AllowList r \<noteq> [] \<and> length (rule_AllowList r) \<le> maxAllowTerms \<and>
         (\<forall>t \<in> set (rule_AllowList r). validateAllowTerm t = None)"

lemma ruleFromProposal_checked:
  assumes "ruleFromProposal compile_err p = Inr r"
  shows "rule_checked compile_err (r\<lparr>rule_AddedAt := t\<rparr>)" and "rule_ID r = pp_ID p" and "rule_Type r = pp_Type p"
proof -
  have "rule_checked compile_err (r\<lparr>rule_AddedAt := t\<rparr>) \<and> rule_ID r = pp_ID p \<and> rule_Type r = pp_Type p"
    using assms
    by (auto simp: ruleFromProposal_def rule_checked_def Let_def first_term_error_None not_less not_le
        split: if_splits option.splits)
  then show "rule_checked compile_err (r\<lparr>rule_AddedAt := t\<rparr>)" "rule_ID r = pp_ID p" "rule_Type r = pp_Type p"
    by simp_all
qed

text \<open>A deny term that passes has no character with a meaning in a regular expression.\<close>

lemma validateDenyTerm_None:
  "validateDenyTerm t = None \<longleftrightarrow>
     t \<noteq> [] \<and> trim_space t = t \<and> length t \<le> maxDenyTermLen \<and> (\<forall>c \<in> set t. c \<notin> set regex_meta)"
  by (auto simp: validateDenyTerm_def contains_any_def list_ex_iff)

lemma validateAllowTerm_None:
  "validateAllowTerm t = None \<longleftrightarrow>
     t \<noteq> [] \<and> trim_space t = t \<and> length t \<le> maxAllowTermLen \<and> (\<forall>c \<in> set t. c \<notin> {CHR 0x0A, CHR 0x0D, CHR 0x09})"
  by (auto simp: validateAllowTerm_def contains_any_def list_ex_iff)

text \<open>The proposed gate: on the grid, in range, and below the evidence it is meant to accept.\<close>

lemma proposeGate_closed:
  "proposeGate s = (if of_int \<lfloor>s * 20\<rfloor> / 20 - 5 / 100 < minGate then minGate else of_int \<lfloor>s * 20\<rfloor> / 20 - 5 / 100)"
proof -
  have "\<lfloor>of_int k + (1 / 2 :: float64)\<rfloor> = k" "\<lfloor>1 / 2 - of_int k :: float64\<rfloor> = - k" for k :: int
    by (simp_all add: floor_eq_iff)
  then have round: "round_half_away (of_int k) = k" for k :: int
    by (simp add: round_half_away_def)
  have five: "round_half_away (minGate * 100) = 5"
    using round [of 5] by (simp add: minGate_def)
  have grid: "round_half_away ((of_int \<lfloor>s * 20\<rfloor> / 20 - 5 / 100) * 100) = \<lfloor>s * 20\<rfloor> * 5 - 5"
    using round [of "\<lfloor>s * 20\<rfloor> * 5 - 5"] by (simp add: algebra_simps)
  show ?thesis
    unfolding proposeGate_def Let_def if_distrib [of "\<lambda>g. round_half_away (g * 100)"] five grid
    by (simp add: minGate_def)
qed

lemma proposeGate_bounds:
  assumes "s \<le> 1"
  shows "minGate \<le> proposeGate s" and "proposeGate s \<le> maxGate" and "minGate \<le> s \<Longrightarrow> proposeGate s \<le> s"
proof -
  have "\<lfloor>s * 20\<rfloor> \<le> 20" using assms by (simp add: floor_le_iff)
  then have "(of_int \<lfloor>s * 20\<rfloor> :: float64) \<le> 20" by (simp add: of_int_le_iff [of _ 20, simplified])
  moreover have "of_int \<lfloor>s * 20\<rfloor> / 20 - 1 / 20 \<le> s" using of_int_floor_le [of "s * 20"] by linarith
  ultimately show "minGate \<le> proposeGate s" "proposeGate s \<le> maxGate" "minGate \<le> s \<Longrightarrow> proposeGate s \<le> s"
    unfolding proposeGate_closed minGate_def maxGate_def by (simp_all split: if_splits)
qed

lemma update_first_ids: "(\<And>p. pp_ID (f p) = pp_ID p) \<Longrightarrow> map pp_ID (update_first P f ps) = map pp_ID ps"
  by (induction ps) auto

lemma in_update_first: "x \<in> set (update_first P f xs) \<Longrightarrow> x \<in> set xs \<or> (\<exists>y \<in> set xs. P y \<and> x = f y)"
  by (induction xs) (auto split: if_splits)

lemma proposals_ok_update:
  assumes "proposals_ok c ps" and "\<And>p. pp_ID (f p) = pp_ID p"
    and "\<And>p. p \<in> set ps \<Longrightarrow> P p \<Longrightarrow> pp_Status (f p) = ''proposed'' \<Longrightarrow> approvable c (f p)"
  shows "proposals_ok c (update_first P f ps)"
  using assms unfolding proposals_ok_def
  by (auto simp: update_first_ids dest!: in_update_first)

lemma proposals_ok_snoc:
  assumes "proposals_ok c ps" and "pp_ID p \<notin> pp_ID ` set ps" and "pp_Status p = ''proposed'' \<Longrightarrow> approvable c p"
  shows "proposals_ok c (ps @ [p])"
  using assms by (auto simp: proposals_ok_def)

lemma approvable_cong:
  assumes "pp_Kind q = pp_Kind p" "pp_Regex q = pp_Regex p" "pp_DenyList q = pp_DenyList p"
    "pp_AllowList q = pp_AllowList p" "pp_Threshold q = pp_Threshold p"
  shows "approvable c q = approvable c p"
  using assms by (simp add: approvable_def ruleFromProposal_def Let_def split: option.split)

definition evidence_ok :: "configEvidence \<Rightarrow> bool" where
  "evidence_ok e \<longleftrightarrow> ev_minScore e \<le> 1 \<and> (\<forall>t \<in> set (ev_denyTerms e). validateDenyTerm t = None)"

lemma proposals_okD: "proposals_ok c ps \<Longrightarrow> p \<in> set ps \<Longrightarrow> pp_Status p = ''proposed'' \<Longrightarrow> approvable c p"
  by (simp add: proposals_ok_def)

lemma in_library_regex:
  "cand \<in> set candidateLibrary \<Longrightarrow> cand_ID cand \<in> {''ssn-bare-context'', ''mrn-bare-context'', ''phone-dotted''}"
  by (auto simp: candidateLibrary_def)

definition library_compiles :: "(string \<Rightarrow> string option) \<Rightarrow> bool" where
  "library_compiles compile_err \<longleftrightarrow> (\<forall>cand \<in> set candidateLibrary. compile_err (cand_Regex cand) = None)"

lemma has_id_fresh: "\<not> list_ex (has_id i) ps \<Longrightarrow> i \<notin> pp_ID ` set ps"
  by (auto simp: list_ex_iff has_id_def)

text \<open>Changing only the counts, the run, the rationale or the type keeps a proposal approvable.\<close>

lemma approvable_update [simp]:
  "approvable c (p\<lparr>pp_SampleMisses := n\<rparr>) = approvable c p"
  "approvable c (p\<lparr>pp_SourceRun := s\<rparr>) = approvable c p"
  "approvable c (p\<lparr>pp_Rationale := s\<rparr>) = approvable c p"
  "approvable c (p\<lparr>pp_Status := s\<rparr>) = approvable c p"
  "approvable c (p\<lparr>pp_CreatedAt := now\<rparr>) = approvable c p"
  by (rule approvable_cong; simp)+

lemma freeProposalID_neq: "p \<in> set ps \<Longrightarrow> pp_ID p = freeProposalID ps base \<Longrightarrow> False"
  using freeProposalID_fresh [of ps base] by (metis image_eqI)

lemma upsertThreshold_ok:
  assumes ok: "proposals_ok c ps" and score: "ev_minScore e \<le> 1"
  shows "proposals_ok c (snd (upsertThreshold clock t e runID ps))"
proof -
  note gate = proposeGate_bounds(1,2) [OF score]
  have held: "minGate \<le> pp_Threshold p \<and> pp_Threshold p \<le> maxGate"
    if "p \<in> set ps" "pp_Kind p = KindThreshold" "pp_Status p = ''proposed''" for p
    using proposals_okD [OF ok that(1,3)] that(2) by (simp add: approvable_threshold)
  show ?thesis
    unfolding upsertThreshold_def Let_def
    by (auto simp: new_proposal_def approvable_threshold gate held ok
        intro!: proposals_ok_update [OF ok] proposals_ok_snoc [OF ok] dest: freeProposalID_neq [OF _ sym])
qed

lemma upsertDeny_ok:
  assumes ok: "proposals_ok c ps" and terms: "\<forall>t \<in> set (ev_denyTerms e). validateDenyTerm t = None"
  shows "proposals_ok c (snd (upsertDeny clock t e runID ps))"
proof -
  define fresh where "fresh = filter (\<lambda>term. term \<notin> set (concat (map pp_DenyList
    (filter (\<lambda>p. pp_Kind p = KindDenyList \<and> pp_Type p = t) ps)))) (ev_denyTerms e)"
  have fresh: "\<forall>x \<in> set fresh. validateDenyTerm x = None" using terms by (simp add: fresh_def)
  have merged: "approvable c (p\<lparr>pp_DenyList := pp_DenyList p @ take (maxDenyTerms - length (pp_DenyList p)) fresh\<rparr>)"
    if "p \<in> set ps" "pp_Kind p = KindDenyList" "pp_Status p = ''proposed''" for p
    using proposals_okD [OF ok that(1,3)] that(2) fresh by (auto simp: approvable_deny dest: in_set_takeD)
  have new: "approvable c \<lparr>pp_ID = i, pp_Type = ty, pp_Kind = KindDenyList, pp_Regex = [],
      pp_DenyList = take maxDenyTerms fresh, pp_AllowList = [], pp_Threshold = 0, pp_Context = [], pp_Confidence = 1,
      pp_Rationale = ra, pp_SampleMisses = n, pp_Status = s, pp_SourceRun = r, pp_CreatedAt = now\<rparr>"
    if "fresh \<noteq> []" for i ty ra n s r now
    using that fresh by (auto simp: approvable_deny maxDenyTerms_def dest: in_set_takeD)
  show ?thesis
    unfolding upsertDeny_def Let_def fresh_def [symmetric]
    by (auto simp: new_proposal_def proposals_okD [OF ok] ok
        intro!: proposals_ok_update [OF ok] proposals_ok_snoc [OF ok] merged new dest: freeProposalID_neq [OF _ sym])
qed

lemma upsertManual_ok:
  assumes "proposals_ok c ps"
  shows "proposals_ok c (upsertManual clock t n runID ps)"
  unfolding upsertManual_def Let_def
  by (auto simp: new_proposal_def proposals_okD [OF assms] dest: has_id_fresh split: if_splits
      intro!: proposals_ok_update [OF assms] proposals_ok_snoc [OF assms])

lemma upsertCandidate_ok:
  assumes "proposals_ok c ps" and "library_compiles c" and "cand \<in> set candidateLibrary"
  shows "proposals_ok c (upsertCandidate clock runID nhits ps cand)"
  using assms(2,3) unfolding upsertCandidate_def Let_def
  by (auto simp: new_proposal_def proposals_okD [OF assms(1)] assms(1) approvable_regex library_compiles_def dest: has_id_fresh
      intro!: proposals_ok_update [OF assms(1)] proposals_ok_snoc [OF assms(1)])

text \<open>The evidence the loops collect is of that kind.\<close>

lemma weigh_span_ok: "evidence_ok e \<Longrightarrow> evidence_ok (weigh_span raw ty e t)"
  by (auto simp: weigh_span_def evidence_ok_def appendUnique_def split: prod.split)

lemma no_evidence_ok [simp]: "evidence_ok (no_evidence gts t)"
  by (simp add: no_evidence_def evidence_ok_def)

definition evidences_ok :: "(string \<times> configEvidence) list \<Rightarrow> bool" where
  "evidences_ok ev \<longleftrightarrow> (\<forall>t e. map_of ev t = Some e \<longrightarrow> evidence_ok e)"

lemma get_evidence_ok: "evidences_ok ev \<Longrightarrow> evidence_ok (get_evidence gts ev t)"
  by (auto simp: get_evidence_def evidences_ok_def split: option.split)

lemma evidences_ok_update: "evidences_ok ev \<Longrightarrow> evidence_ok e \<Longrightarrow> evidences_ok (AList.update t e ev)"
  by (auto simp: evidences_ok_def update_conv')

lemma synth_one_ok:
  assumes "evidences_ok (sy_ev y)"
  shows "evidences_ok (sy_ev (synth_one ask gts y u))"
proof -
  have step: "evidence_ok (foldl (weigh_span raw ty) e ts)" if "evidence_ok e" for raw ty e ts
    using that by (induction ts arbitrary: e) (simp_all add: weigh_span_ok)
  show ?thesis
    using assms unfolding synth_one_def Let_def
    by (auto intro!: evidences_ok_update step get_evidence_ok split: sum.split)
qed

lemma synthesizeConfig_ok: "evidences_ok (synthesizeConfig probe st chain uncovered)"
proof -
  have 1: "evidences_ok (sy_ev (foldl (synth_one ask gts) y us))" if "evidences_ok (sy_ev y)" for ask gts y us
    using that by (induction us arbitrary: y) (simp_all add: synth_one_ok)
  have 2: "evidences_ok (foldl (\<lambda>ev u. let e = get_evidence gts ev (um_typ u)
      in AList.update (um_typ u) (e\<lparr>ev_manualMisses := ev_manualMisses e + missSpanCount u\<rparr>) ev) ev us)"
    if "evidences_ok ev" for gts ev us
    using that
  proof (induction us arbitrary: ev)
    case (Cons u us)
    have "evidence_ok (e\<lparr>ev_manualMisses := n\<rparr>)" if "evidence_ok e" for e n
      using that by (simp add: evidence_ok_def)
    with Cons show ?case by (simp add: Let_def evidences_ok_update get_evidence_ok)
  qed simp
  have "evidences_ok []" by (simp add: evidences_ok_def)
  with 1 2 show ?thesis by (simp add: synthesizeConfig_def Let_def)
qed

lemma upsertType_ok:
  assumes "proposals_ok c ps" and "evidences_ok ev"
  shows "proposals_ok c (upsertType clock runID ev ps t)"
proof (cases "map_of ev t")
  case (Some e)
  with assms(2) have e: "ev_minScore e \<le> 1" "\<forall>t \<in> set (ev_denyTerms e). validateDenyTerm t = None"
    by (auto simp: evidences_ok_def evidence_ok_def)
  obtain a1 ps1 where 1: "(if ev_thresholdMisses e > 0 then upsertThreshold clock t e runID ps else (False, ps)) = (a1, ps1)"
    by (metis surj_pair)
  obtain a2 ps2 where 2: "(if ev_denyTerms e \<noteq> [] then upsertDeny clock t e runID ps1 else (False, ps1)) = (a2, ps2)"
    by (metis surj_pair)
  define ps3 where "ps3 = (if ev_manualMisses e > 0 then upsertManual clock t (ev_manualMisses e) runID ps2 else ps2)"
  have "proposals_ok c ps1" using 1 upsertThreshold_ok [OF assms(1) e(1), of clock t runID] assms(1)
    by (metis snd_conv)
  then have "proposals_ok c ps2" using 2 upsertDeny_ok [OF _ e(2), of c ps1 clock t runID]
    by (metis snd_conv)
  then have 3: "proposals_ok c ps3" by (simp add: ps3_def upsertManual_ok)
  have "proposals_ok c (update_first (has_id i)
      (\<lambda>p. if pp_Status p = ''manual'' then p\<lparr>pp_Status := ''superseded''\<rparr> else p) ps3)" for i
    by (rule proposals_ok_update [OF 3]) (auto dest: proposals_okD [OF 3] split: if_splits)
  with 3 show ?thesis
    by (simp add: upsertType_def Some 1 2 ps3_def [symmetric] Let_def del: approvable_update)
qed (simp add: upsertType_def assms(1))

lemma savePatternsLocked_frame [simp]:
  "ru_proposals (savePatternsLocked fs pack ru) = ru_proposals ru" "ru_corpus (savePatternsLocked fs pack ru) = ru_corpus ru"
  "ru_corpusDir (savePatternsLocked fs pack ru) = ru_corpusDir ru" "ru_runs (savePatternsLocked fs pack ru) = ru_runs ru"
  "ru_running (savePatternsLocked fs pack ru) = ru_running ru" "ru_results (savePatternsLocked fs pack ru) = ru_results ru"
  "ru_ratchet (savePatternsLocked fs pack ru) = ru_ratchet ru"
  by (simp_all add: savePatternsLocked_def split: prod.split)

lemma upsertProposals_ok:
  assumes "proposals_ok c (ru_proposals ru)" and "library_compiles c" and "evidences_ok ev"
  shows "proposals_ok c (ru_proposals (upsertProposals fs clock runID nhits ev st ru))"
proof -
  have 1: "proposals_ok c (foldl (upsertCandidate clock runID nhits) ps cs)"
    if "proposals_ok c ps" "set cs \<subseteq> set candidateLibrary" for ps cs
    using that assms(2) by (induction cs arbitrary: ps) (simp_all add: upsertCandidate_ok)
  have 2: "proposals_ok c (foldl (upsertType clock runID ev) ps ts)" if "proposals_ok c ps" for ps ts
    using that assms(3) by (induction ts arbitrary: ps) (simp_all add: upsertType_ok)
  show ?thesis
    unfolding upsertProposals_def Let_def by (simp add: 1 2 assms(1))
qed

lemma flywheel_ok:
  assumes "proposals_ok c (ru_proposals ru)" and "library_compiles c"
  shows "proposals_ok c (ru_proposals (snd (flywheel io runID chain results st ru)))"
  using assms
  by (auto simp: flywheel_def Let_def split: prod.split intro!: upsertProposals_ok synthesizeConfig_ok)

lemma approvableI: "ruleFromProposal c p = Inr r \<Longrightarrow> approvable c p"
  by (simp add: approvable_def)

lemma AddProposal_ok:
  assumes ok: "proposals_ok c (ru_proposals ru)"
  shows "proposals_ok c (ru_proposals (snd (AddProposal c lower fs r p st ru)))"
  using ok unfolding AddProposal_def Let_def
  by (auto split: sum.split intro!: proposals_ok_snoc [OF ok] approvableI dest!: has_id_fresh)

lemma RejectProposal_ok:
  assumes ok: "proposals_ok c (ru_proposals ru)"
  shows "proposals_ok c (ru_proposals (snd (RejectProposal fs i st ru)))"
  using ok unfolding RejectProposal_def
  by (auto split: option.split intro!: proposals_ok_update [OF ok])

lemma proposals_ok_rev [simp]: "proposals_ok c (rev ps) = proposals_ok c ps"
  by (simp add: proposals_ok_def rev_map [symmetric])

lemma proposals_ok_approved:
  assumes "proposals_ok c ps"
  shows "proposals_ok c (update_last_match P (\<lambda>p. p\<lparr>pp_Status := ''approved''\<rparr>) ps)"
  unfolding update_last_match_def using assms by (auto intro!: proposals_ok_update)

text \<open>What an approval does, and that a refused one does nothing.\<close>

lemma find_lastD: "find_last P xs = Some x \<Longrightarrow> x \<in> set xs \<and> P x"
  unfolding find_last_def by (metis find_Some_iff nth_mem set_rev)

lemma SetPatternPack_frame [simp]:
  "GetPatternPack (SetPatternPack False pack st) = pack"
  "st_activity (SetPatternPack b pack st) = st_activity st"
  by (simp_all add: GetPatternPack_def SetPatternPack_def)

lemma AddAudit_pack [simp]: "GetPatternPack (AddAudit r e st) = GetPatternPack st"
  by (simp add: GetPatternPack_def AddAudit_def Let_def)

lemma ApproveProposal_refused:
  "ApproveProposal c fs env i rs = (Inl e, rs') \<Longrightarrow> rs' = rs"
  by (auto simp: ApproveProposal_def Let_def split: prod.splits option.splits if_splits sum.splits)

lemma ApproveProposal_granted:
  assumes "ApproveProposal c fs env i (ru, st) = (Inr pack, (ru', st'))"
  shows "\<exists>p r. p \<in> set (ru_proposals ru) \<and> pp_ID p = i \<and> pp_Status p = ''proposed'' \<and>
      ruleFromProposal c p = Inr r \<and>
      pack_Rules pack = pack_Rules (GetPatternPack st) @ [r\<lparr>rule_AddedAt := fst (env 0)\<rparr>]"
    and "pack_Version pack = pack_Version (GetPatternPack st) + 1"
    and "GetPatternPack st' = pack"
    and "ru_proposals ru' = update_last_match (has_id i) (\<lambda>p. p\<lparr>pp_Status := ''approved''\<rparr>) (ru_proposals ru)"
proof -
  obtain p where p: "find_last (has_id i) (ru_proposals ru) = Some p" "pp_Status p = ''proposed''"
    using assms by (auto simp: ApproveProposal_def split: option.splits if_splits)
  obtain r where r: "ruleFromProposal c p = Inr r"
    using assms p by (auto simp: ApproveProposal_def split: sum.splits)
  from find_lastD [OF p(1)] have i: "p \<in> set (ru_proposals ru)" "pp_ID p = i" by (auto simp: has_id_def)
  note * = assms [unfolded ApproveProposal_def, simplified p r Let_def prod.case option.case sum.case, simplified]
  show "\<exists>p r. p \<in> set (ru_proposals ru) \<and> pp_ID p = i \<and> pp_Status p = ''proposed'' \<and>
      ruleFromProposal c p = Inr r \<and>
      pack_Rules pack = pack_Rules (GetPatternPack st) @ [r\<lparr>rule_AddedAt := fst (env 0)\<rparr>]"
    using * p(2) r i by auto
  show "pack_Version pack = pack_Version (GetPatternPack st) + 1" "GetPatternPack st' = pack"
    "ru_proposals ru' = update_last_match (has_id i) (\<lambda>p. p\<lparr>pp_Status := ''approved''\<rparr>) (ru_proposals ru)"
    using * by auto
qed

section \<open>Settled proposals stay settled\<close>

lemma in_update_first_kept: "x \<in> set xs \<Longrightarrow> \<not> P x \<Longrightarrow> x \<in> set (update_first P f xs)"
  by (induction xs) auto

definition settled :: "PatternProposal \<Rightarrow> bool" where
  "settled p \<longleftrightarrow> pp_Status p = ''approved'' \<or> pp_Status p = ''rejected''"

definition settled_kept :: "PatternProposal list \<Rightarrow> PatternProposal list \<Rightarrow> bool" where
  "settled_kept ps ps' \<longleftrightarrow> (\<forall>p \<in> set ps. settled p \<longrightarrow> p \<in> set ps')"

lemma settled_kept_refl [simp]: "settled_kept ps ps"
  by (simp add: settled_kept_def)

lemma settled_kept_trans: "settled_kept ps ps' \<Longrightarrow> settled_kept ps' ps'' \<Longrightarrow> settled_kept ps ps''"
  by (simp add: settled_kept_def)

lemma settled_kept_snoc [simp]: "settled_kept ps (ps @ qs)"
  by (simp add: settled_kept_def)

lemma settled_kept_update:
  assumes "\<And>p. settled p \<Longrightarrow> P p \<Longrightarrow> f p = p"
  shows "settled_kept ps (update_first P f ps)"
  using assms by (induction ps) (auto simp: settled_kept_def)

lemma settled_kept_rev: "settled_kept (rev ps) qs \<Longrightarrow> settled_kept ps (rev qs)"
  by (simp add: settled_kept_def)

lemma settled_kept_foldl:
  assumes "\<And>ps x. settled_kept ps (f ps x)"
  shows "settled_kept ps (foldl f ps xs)"
proof (induction xs arbitrary: ps)
  case (Cons x xs)
  show ?case using settled_kept_trans [OF assms Cons.IH] by simp
qed simp

lemma upsert_settled:
  "settled_kept ps (snd (upsertThreshold clock t e runID ps))"
  "settled_kept ps (snd (upsertDeny clock t e runID ps))"
  "settled_kept ps (upsertManual clock t n runID ps)"
  "settled_kept ps (upsertCandidate clock runID nhits ps cand)"
  unfolding upsertThreshold_def upsertDeny_def upsertManual_def upsertCandidate_def Let_def
  by (auto simp: settled_def intro!: settled_kept_update)

lemma upsertType_settled: "settled_kept ps (upsertType clock runID ev ps t)"
proof (cases "map_of ev t")
  case (Some e)
  obtain a1 ps1 where 1: "(if ev_thresholdMisses e > 0 then upsertThreshold clock t e runID ps else (False, ps)) = (a1, ps1)"
    by (metis surj_pair)
  obtain a2 ps2 where 2: "(if ev_denyTerms e \<noteq> [] then upsertDeny clock t e runID ps1 else (False, ps1)) = (a2, ps2)"
    by (metis surj_pair)
  define ps3 where "ps3 = (if ev_manualMisses e > 0 then upsertManual clock t (ev_manualMisses e) runID ps2 else ps2)"
  have "settled_kept ps ps1" using 1 upsert_settled(1) by (metis settled_kept_refl snd_conv)
  moreover have "settled_kept ps1 ps2" using 2 upsert_settled(2) by (metis settled_kept_refl snd_conv)
  moreover have "settled_kept ps2 ps3" by (simp add: ps3_def upsert_settled(3))
  ultimately have 3: "settled_kept ps ps3" by (blast intro: settled_kept_trans)
  have "settled_kept ps3 (update_first (has_id i)
      (\<lambda>p. if pp_Status p = ''manual'' then p\<lparr>pp_Status := ''superseded''\<rparr> else p) ps3)" for i
    by (rule settled_kept_update) (auto simp: settled_def)
  with 3 show ?thesis
    by (auto simp: upsertType_def Some 1 2 ps3_def [symmetric] Let_def intro: settled_kept_trans)
qed (simp add: upsertType_def)

lemma flywheel_settled: "settled_kept (ru_proposals ru) (ru_proposals (snd (flywheel io runID chain results st ru)))"
proof -
  have "settled_kept ps (foldl (upsertType c r ev) (foldl (upsertCandidate c r nhits) ps cs) ts)" for c r ev nhits ps cs ts
    by (rule settled_kept_trans [OF settled_kept_foldl settled_kept_foldl]) (rule upsert_settled upsertType_settled)+
  then show ?thesis by (simp add: flywheel_def upsertProposals_def Let_def split: prod.split)
qed

lemma AddProposal_settled: "settled_kept (ru_proposals ru) (ru_proposals (snd (AddProposal c lower fs r p st ru)))"
  by (auto simp: AddProposal_def Let_def split: sum.split)

lemma RejectProposal_settled:
  assumes "distinct (map pp_ID (ru_proposals ru))"
  shows "settled_kept (ru_proposals ru) (ru_proposals (snd (RejectProposal fs i st ru)))"
proof (cases "find (has_id i) (ru_proposals ru)")
  case (Some p)
  show ?thesis
  proof (cases "pp_Status p = ''proposed''")
    case True
    have "p \<in> set (ru_proposals ru)" "pp_ID p = i" using Some by (auto simp: find_Some_iff has_id_def)
    then have "q = p" if "q \<in> set (ru_proposals ru)" "has_id i q" for q
      using assms that by (auto simp: has_id_def distinct_map inj_on_def)
    with True have open_only: "\<not> has_id i q" if "q \<in> set (ru_proposals ru)" "settled q" for q
      using that by (auto simp: settled_def)
    have "settled_kept (ru_proposals ru) (update_first (has_id i) f (ru_proposals ru))" for f
      unfolding settled_kept_def by (intro ballI impI in_update_first_kept) (simp_all add: open_only)
    with True show ?thesis by (simp add: RejectProposal_def Some)
  qed (simp add: RejectProposal_def Some)
qed (simp add: RejectProposal_def)

lemma ApproveProposal_settled:
  assumes "ApproveProposal c fs env i (ru, st) = (Inr pack, (ru', st'))" and "distinct (map pp_ID (ru_proposals ru))"
  shows "settled_kept (ru_proposals ru) (ru_proposals ru')"
proof -
  from ApproveProposal_granted(1) [OF assms(1)] obtain p where
    p: "p \<in> set (ru_proposals ru)" "pp_ID p = i" "pp_Status p = ''proposed''" by blast
  have "q = p" if "q \<in> set (ru_proposals ru)" "has_id i q" for q
    using assms(2) p(1,2) that by (auto simp: has_id_def distinct_map inj_on_def)
  with p(3) have open_only: "\<not> has_id i q" if "q \<in> set (ru_proposals ru)" "settled q" for q
    using that by (auto simp: settled_def)
  have "settled_kept (rev (ru_proposals ru)) (update_first (has_id i) f (rev (ru_proposals ru)))" for f
    unfolding settled_kept_def by (intro ballI impI in_update_first_kept) (simp_all add: open_only)
  then show ?thesis
    unfolding ApproveProposal_granted(4) [OF assms(1)] update_last_match_def by (rule settled_kept_rev)
qed

section \<open>The approval loop as a transition system\<close>

text \<open>
  What the control plane does to the runner and the store through the flywheel and the proposal
  routes: \<open>compile_err\<close> is fixed, every other argument is the environment's choice.
\<close>

inductive approval_step :: "(string \<Rightarrow> string option) \<Rightarrow> Runner \<times> Store \<Rightarrow> Runner \<times> Store \<Rightarrow> bool" for c where
  learn: "approval_step c (ru, st) (snd (flywheel io runID chain results st ru), st)"
| author: "approval_step c (ru, st) (snd (AddProposal c lower fs r p st ru), st)"
| reject: "approval_step c (ru, st) (snd (RejectProposal fs i st ru), st)"
| approve: "approval_step c (ru, st) (snd (ApproveProposal c fs env i (ru, st)))"

definition pack_checked :: "(string \<Rightarrow> string option) \<Rightarrow> PatternPack \<Rightarrow> bool" where
  "pack_checked c pack \<longleftrightarrow> (\<forall>r \<in> set (pack_Rules pack). rule_checked c r)"

definition approvals_inv :: "(string \<Rightarrow> string option) \<Rightarrow> Runner \<times> Store \<Rightarrow> bool" where
  "approvals_inv c s \<longleftrightarrow> proposals_ok c (ru_proposals (fst s)) \<and> pack_checked c (GetPatternPack (snd s))"

lemma proposals_ok_distinct: "proposals_ok c ps \<Longrightarrow> distinct (map pp_ID ps)"
  by (simp add: proposals_ok_def)

lemma approve_cases:
  assumes "approvals_inv c (ru, st)"
  shows "approvals_inv c (snd (ApproveProposal c fs env i (ru, st))) \<and>
    settled_kept (ru_proposals ru) (ru_proposals (fst (snd (ApproveProposal c fs env i (ru, st)))))"
proof -
  obtain result s' where Pair: "ApproveProposal c fs env i (ru, st) = (result, s')" by (rule prod.exhaust)
  show ?thesis
  proof (cases result)
    case (Inl e)
    with Pair ApproveProposal_refused [of c fs env i "(ru, st)" e s'] assms show ?thesis by simp
  next
    case (Inr pack)
    obtain ru' st' where s': "s' = (ru', st')" by (cases s')
    note granted = ApproveProposal_granted [OF Pair [unfolded Inr s']]
    obtain p r where r: "ruleFromProposal c p = Inr r"
      "pack_Rules pack = pack_Rules (GetPatternPack st) @ [r\<lparr>rule_AddedAt := fst (env 0)\<rparr>]"
      using granted(1) by blast
    have "approvals_inv c (ru', st')"
      using assms ruleFromProposal_checked(1) [OF r(1), of "fst (env 0)"]
      by (auto simp: approvals_inv_def pack_checked_def granted(3,4) r(2) intro: proposals_ok_approved)
    moreover have "settled_kept (ru_proposals ru) (ru_proposals ru')"
      using assms by (intro ApproveProposal_settled [OF Pair [unfolded Inr s']])
        (auto simp: approvals_inv_def intro: proposals_ok_distinct)
    ultimately show ?thesis by (simp add: Pair s')
  qed
qed

lemma approval_step_inv:
  assumes "approval_step c s s'" and "approvals_inv c s" and "library_compiles c"
  shows "approvals_inv c s' \<and> settled_kept (ru_proposals (fst s)) (ru_proposals (fst s'))"
  using assms
proof cases
  case (learn ru st io runID chain results)
  with assms(2,3) show ?thesis by (simp add: approvals_inv_def flywheel_ok flywheel_settled)
next
  case (author ru st lower fs r p)
  with assms(2) show ?thesis by (simp add: approvals_inv_def AddProposal_ok AddProposal_settled)
next
  case (reject ru st fs i)
  with assms(2) RejectProposal_settled [OF proposals_ok_distinct, of c ru fs i st] show ?thesis
    by (simp add: approvals_inv_def RejectProposal_ok)
next
  case (approve ru st fs env i)
  with assms(2) approve_cases [of c ru st fs env i] show ?thesis by simp
qed

lemma approval_steps_inv:
  assumes "(approval_step c)\<^sup>*\<^sup>* s s'" and "approvals_inv c s" and "library_compiles c"
  shows "approvals_inv c s' \<and> settled_kept (ru_proposals (fst s)) (ru_proposals (fst s'))"
  using assms(1)
proof (induction rule: rtranclp_induct)
  case (step y z)
  then show ?case using approval_step_inv [OF step(2) _ assms(3)] by (blast intro: settled_kept_trans)
qed (simp add: assms(2))

section \<open>What the approvals of a run publish\<close>

text \<open>
  A run together with the proposals it approved, as they were and in that order: a granted approval
  appends its proposal, every other step and every refused approval appends none.
\<close>

inductive approval_run ::
    "(string \<Rightarrow> string option) \<Rightarrow> Runner \<times> Store \<Rightarrow> PatternProposal list \<Rightarrow> Runner \<times> Store \<Rightarrow> bool" for c s where
  run_start: "approval_run c s [] s"
| run_learn: "approval_run c s ps (ru, st) \<Longrightarrow>
    approval_run c s ps (snd (flywheel io runID chain results st ru), st)"
| run_author: "approval_run c s ps (ru, st) \<Longrightarrow> approval_run c s ps (snd (AddProposal c lower fs r p st ru), st)"
| run_reject: "approval_run c s ps (ru, st) \<Longrightarrow> approval_run c s ps (snd (RejectProposal fs i st ru), st)"
| run_refused: "approval_run c s ps (ru, st) \<Longrightarrow> ApproveProposal c fs env i (ru, st) = (Inl e, s') \<Longrightarrow> approval_run c s ps s'"
| run_granted: "approval_run c s ps (ru, st) \<Longrightarrow> ApproveProposal c fs env i (ru, st) = (Inr pack, s') \<Longrightarrow>
    p \<in> set (ru_proposals ru) \<Longrightarrow> pp_ID p = i \<Longrightarrow> approval_run c s (ps @ [p]) s'"

lemma approval_run_steps: "approval_run c s ps s' \<Longrightarrow> (approval_step c)\<^sup>*\<^sup>* s s'"
proof (induction rule: approval_run.induct)
  case (run_refused ps ru st fs env i e s')
  then show ?case using approval_step.approve [of c ru st fs env i] by (simp add: rtranclp.rtrancl_into_rtrancl)
next
  case (run_granted ps ru st fs env i pack s' p)
  then show ?case using approval_step.approve [of c ru st fs env i] by (simp add: rtranclp.rtrancl_into_rtrancl)
qed (auto intro: rtranclp.rtrancl_into_rtrancl approval_step.intros)

lemma approval_steps_run: "(approval_step c)\<^sup>*\<^sup>* s s' \<Longrightarrow> \<exists>ps. approval_run c s ps s'"
proof (induction rule: rtranclp_induct)
  case (step y z)
  then obtain ps where run: "approval_run c s ps y" by blast
  from step(2) show ?case
  proof cases
    case (approve ru st fs env i)
    obtain result s' where Pair: "ApproveProposal c fs env i (ru, st) = (result, s')" by (rule prod.exhaust)
    show ?thesis
    proof (cases result)
      case (Inl e)
      with run approve Pair show ?thesis by (auto intro: run_refused)
    next
      case (Inr pack)
      obtain ru' st' where s': "s' = (ru', st')" by (cases s')
      obtain p where "p \<in> set (ru_proposals ru)" "pp_ID p = i"
        using ApproveProposal_granted(1) [OF Pair [unfolded Inr s']] by blast
      with run approve Pair Inr show ?thesis by (auto intro: run_granted)
    qed
  qed (use run in \<open>auto intro: approval_run.intros\<close>)
qed (auto intro: run_start)

text \<open>The rule a proposal becomes, by its kind: a rule carries the payload of its kind and no other.\<close>

definition regex_proposal :: "PatternProposal \<Rightarrow> bool" where
  "regex_proposal p \<longleftrightarrow> pp_Kind p = [] \<or> pp_Kind p = ''regex''"

definition published :: "PatternProposal \<Rightarrow> PatternRule" where
  "published p =
     \<lparr>rule_ID = pp_ID p, rule_Type = pp_Type p, rule_Kind = (if pp_Kind p = [] then ''regex'' else pp_Kind p),
      rule_Regex = (if regex_proposal p then pp_Regex p else []),
      rule_DenyList = (if pp_Kind p = ''deny_list'' then pp_DenyList p else []),
      rule_AllowList = (if pp_Kind p = ''allow_list'' then pp_AllowList p else []),
      rule_Threshold = (if pp_Kind p = ''threshold'' then pp_Threshold p else 0),
      rule_Context = (if regex_proposal p then pp_Context p else []), rule_Confidence = pp_Confidence p\<rparr>"

lemma ruleFromProposal_published:
  "ruleFromProposal c p = Inr r \<Longrightarrow> PatternRule.truncate (r\<lparr>rule_AddedAt := t\<rparr>) = published p"
  by (auto simp: ruleFromProposal_def published_def regex_proposal_def kind_defs PatternRule.truncate_def Let_def
      split: if_splits option.splits)

lemma granted_publishes:
  assumes "ApproveProposal c fs env i (ru, st) = (Inr pack, (ru', st'))" and "distinct (map pp_ID (ru_proposals ru))"
    and "p \<in> set (ru_proposals ru)" and "pp_ID p = i"
  shows "map PatternRule.truncate (pack_Rules (GetPatternPack st')) =
      map PatternRule.truncate (pack_Rules (GetPatternPack st)) @ [published p]"
    and "pack_Version (GetPatternPack st') = pack_Version (GetPatternPack st) + 1"
    and "p\<lparr>pp_Status := ''approved''\<rparr> \<in> set (ru_proposals ru')"
proof -
  note granted = ApproveProposal_granted [OF assms(1)]
  obtain q r where q: "q \<in> set (ru_proposals ru)" "pp_ID q = i" "ruleFromProposal c q = Inr r"
    "pack_Rules pack = pack_Rules (GetPatternPack st) @ [r\<lparr>rule_AddedAt := fst (env 0)\<rparr>]"
    using granted(1) by blast
  have "q = p" using assms(2-4) q(1,2) by (auto simp: distinct_map inj_on_def)
  with q(3,4) show "map PatternRule.truncate (pack_Rules (GetPatternPack st')) =
      map PatternRule.truncate (pack_Rules (GetPatternPack st)) @ [published p]"
    by (simp add: granted(3) ruleFromProposal_published)
  show "pack_Version (GetPatternPack st') = pack_Version (GetPatternPack st) + 1"
    using granted(2,3) by simp
  obtain as bs where split: "rev (ru_proposals ru) = as @ p # bs" using assms(3) by (metis set_rev split_list)
  have "\<not> has_id i x" if "x \<in> set as" for x
  proof -
    have "distinct (map pp_ID (as @ p # bs))" using assms(2) unfolding split [symmetric] by (simp add: rev_map [symmetric])
    then have "pp_ID p \<notin> pp_ID ` set as" by simp
    with that assms(4) show ?thesis by (auto simp: has_id_def image_iff)
  qed
  then have "p\<lparr>pp_Status := ''approved''\<rparr> \<in> set (update_first (has_id i) (\<lambda>p. p\<lparr>pp_Status := ''approved''\<rparr>) (as @ p # bs))"
    using assms(4) by (induction as) (auto simp: has_id_def)
  then show "p\<lparr>pp_Status := ''approved''\<rparr> \<in> set (ru_proposals ru')"
    unfolding granted(4) update_last_match_def split by simp
qed

lemma approval_run_publishes:
  assumes "approval_run c s ps s'" and "approvals_inv c s" and "library_compiles c"
  shows "map PatternRule.truncate (pack_Rules (GetPatternPack (snd s'))) =
      map PatternRule.truncate (pack_Rules (GetPatternPack (snd s))) @ map published ps \<and>
    pack_Version (GetPatternPack (snd s')) = pack_Version (GetPatternPack (snd s)) + int (length ps) \<and>
    (\<forall>p \<in> set ps. p\<lparr>pp_Status := ''approved''\<rparr> \<in> set (ru_proposals (fst s')))"
  using assms(1)
proof (induction rule: approval_run.induct)
  case (run_learn ps ru st io runID chain results)
  have "settled_kept (ru_proposals ru) (ru_proposals (snd (flywheel io runID chain results st ru)))"
    by (rule flywheel_settled)
  with run_learn.IH show ?case by (auto simp: settled_kept_def settled_def)
next
  case (run_author ps ru st lower fs r p)
  have "settled_kept (ru_proposals ru) (ru_proposals (snd (AddProposal c lower fs r p st ru)))"
    by (rule AddProposal_settled)
  with run_author.IH show ?case by (auto simp: settled_kept_def settled_def)
next
  case (run_reject ps ru st fs i)
  have "approvals_inv c (ru, st)"
    using approval_steps_inv [OF approval_run_steps [OF run_reject.hyps] assms(2,3)] by blast
  then have "settled_kept (ru_proposals ru) (ru_proposals (snd (RejectProposal fs i st ru)))"
    by (intro RejectProposal_settled) (auto simp: approvals_inv_def intro: proposals_ok_distinct)
  with run_reject.IH show ?case by (auto simp: settled_kept_def settled_def)
next
  case (run_refused ps ru st fs env i e s')
  with ApproveProposal_refused [of c fs env i "(ru, st)" e s'] show ?case by simp
next
  case (run_granted ps ru st fs env i pack s' p)
  obtain ru' st' where s': "s' = (ru', st')" by (cases s')
  have dist: "distinct (map pp_ID (ru_proposals ru))"
    using approval_steps_inv [OF approval_run_steps [OF run_granted.hyps(1)] assms(2,3)]
    by (auto simp: approvals_inv_def intro: proposals_ok_distinct)
  note new = granted_publishes [OF run_granted.hyps(2) [unfolded s'] dist run_granted.hyps(3,4)]
  have "settled_kept (ru_proposals ru) (ru_proposals ru')"
    by (rule ApproveProposal_settled [OF run_granted.hyps(2) [unfolded s'] dist])
  with run_granted.IH new show ?case by (auto simp: s' settled_kept_def settled_def)
qed simp

section \<open>The corpus only grows, and holds a text once\<close>

definition promoted_ok :: "(string \<Rightarrow> string) \<Rightarrow> CorpusEntry list \<Rightarrow> promotion \<Rightarrow> bool" where
  "promoted_ok sha corpus m \<longleftrightarrow>
     pm_seen m = rev (map (\<lambda>e. hashText sha (ce_Text e)) (drop (length corpus) (pm_corpus m))) @
       map (\<lambda>e. hashText sha (ce_Text e)) corpus \<and>
     take (length corpus) (pm_corpus m) = corpus \<and> length (pm_corpus m) = length corpus + pm_promoted m \<and>
     (distinct (map (\<lambda>e. hashText sha (ce_Text e)) corpus) \<longrightarrow>
        distinct (map (\<lambda>e. hashText sha (ce_Text e)) (pm_corpus m)))"

lemma promote_one_ok:
  assumes "promoted_ok sha corpus m"
  shows "promoted_ok sha corpus (promote_one sha fs clock runID m ir)"
proof -
  have seen: "set (pm_seen m) = (\<lambda>e. hashText sha (ce_Text e)) ` set (pm_corpus m)"
  proof -
    have "set (pm_corpus m) = set corpus \<union> set (drop (length corpus) (pm_corpus m))"
      using assms unfolding promoted_ok_def by (metis append_take_drop_id set_append)
    with assms show ?thesis by (auto simp: promoted_ok_def)
  qed
  have "length corpus \<le> length (pm_corpus m)" using assms by (simp add: promoted_ok_def)
  with assms seen show ?thesis
    by (auto simp: promote_one_def Let_def promoted_ok_def corpus_entry_def split: prod.splits option.splits)
qed

lemma promote_ok: "promoted_ok sha (ru_corpus ru) (promote sha fs clock runID results ru)"
proof -
  have "promoted_ok sha corpus (foldl (promote_one sha fs clock runID) m irs)" if "promoted_ok sha corpus m" for corpus m irs
    using that by (induction irs arbitrary: m) (simp_all add: promote_one_ok)
  moreover have "promoted_ok sha (ru_corpus ru)
      \<lparr>pm_seen = map (\<lambda>e. hashText sha (ce_Text e)) (ru_corpus ru), pm_corpus = ru_corpus ru,
       pm_dir = ru_corpusDir ru, pm_promoted = 0\<rparr>"
    by (simp add: promoted_ok_def)
  ultimately show ?thesis unfolding promote_def by blast
qed

lemma sort_strings_perm: "mset xs = mset ys \<Longrightarrow> sort_strings xs = sort_strings ys"
proof -
  have "sort xs = sort_strings zs" if "mset zs = mset xs" for xs zs
    using that by (intro properties_for_sort) (simp_all add: sort_simps)
  then show "mset xs = mset ys \<Longrightarrow> sort_strings xs = sort_strings ys" by metis
qed

lemma corpusVersion_perm: "mset (map ce_ID c) = mset (map ce_ID c') \<Longrightarrow> corpusVersion sha c = corpusVersion sha c'"
  by (simp add: corpusVersion_def sort_strings_perm [of "map ce_ID c" "map ce_ID c'"])

end
