(* ===== verification/Harness_Runner.thy ===== *)
theory Harness_Runner
  imports Harness_Score Harness_Proposals
begin

text \<open>
  The runner of the harness (\<open>internal/harness/runner.go\<close>, \<open>sample.go\<close>, the ratchet file of
  \<open>persist.go\<close>). A run has three phases: \<open>StartRun\<close> admits it, the items are sent, and \<open>finish_run\<close>
  scores it, runs the flywheel and records the ratchet point. The sends run in parallel in Go, but each
  writes its own slot and the counters are sums, so the outcome list is the same for every
  interleaving. The HTTP client, JSON coding, the file system and the clock are arguments.
\<close>

section \<open>Admission\<close>

definition maxRunCount :: int where "maxRunCount = 2000"
definition maxConcurrency :: int where "maxConcurrency = 8"
definition maxStoredRuns :: nat where "maxStoredRuns = 50"
definition maxStoredResults :: nat where "maxStoredResults = 2000"
definition reportJoinTimeout :: int where "reportJoinTimeout = 25 * second"

datatype run_error = CountTooLarge int | BadReplayPercent | NoFreshGateway | RunInProgress

definition fresher :: "EnforcementReport option \<Rightarrow> EnforcementReport \<Rightarrow> EnforcementReport option" where
  "fresher best rep =
     (case best of None \<Rightarrow> Some rep | Some b \<Rightarrow> if er_At rep > er_At b then Some rep else Some b)"

definition freshGateway :: "time \<Rightarrow> Store \<Rightarrow> Runner \<Rightarrow> run_error + string \<times> string" where
  "freshGateway now st ru =
     (case foldl fresher None (ListGatewayEnforcement st) of
        None \<Rightarrow> Inl NoFreshGateway
      | Some rep \<Rightarrow>
          if now - er_At rep > GatewayStaleAfter then Inl NoFreshGateway
          else let chain = join '','' (er_Detectors rep)
               in Inr (if ru_gatewayURL ru \<noteq> [] then ru_gatewayURL ru else er_BaseURL rep, chain))"

text \<open>\<open>UnixNano\<close>: nanoseconds since 1970; time 0 is the first day of year 1.\<close>

definition unix_nano :: "time \<Rightarrow> int" where
  "unix_nano t = wrap64 (t - 719162 * 86400 * second)"

definition normalize :: "time \<Rightarrow> HarnessRunConfig \<Rightarrow> run_error + HarnessRunConfig" where
  "normalize now cfg =
     (let cfg = (if rc_Count cfg \<le> 0 then cfg\<lparr>rc_Count := 200\<rparr> else cfg) in
      if rc_Count cfg > maxRunCount then Inl (CountTooLarge (rc_Count cfg))
      else let cfg = (if rc_Concurrency cfg \<le> 0 then cfg\<lparr>rc_Concurrency := 4\<rparr> else cfg);
               cfg = (if rc_Concurrency cfg > maxConcurrency then cfg\<lparr>rc_Concurrency := maxConcurrency\<rparr> else cfg) in
      if rc_ReplayPercent cfg < 0 \<or> rc_ReplayPercent cfg > 90 then Inl BadReplayPercent
      else Inr (if rc_Seed cfg = 0 then cfg\<lparr>rc_Seed := unix_nano now\<rparr> else cfg))"

definition new_run :: "reading \<Rightarrow> time \<Rightarrow> HarnessRunConfig \<Rightarrow> int \<Rightarrow> string \<Rightarrow> HarnessRun" where
  "new_run r started cfg version chain =
     \<lparr>hn_ID = NewUUID (snd r), hn_Config = cfg, hn_Status = ''running'', hn_Total = rc_Count cfg, hn_Completed = 0,
      hn_Masked = 0, hn_Blocked = 0, hn_DetectOnly = 0, hn_Passed = 0, hn_Errors = 0, hn_PackVersion = version,
      hn_DetectorChain = chain, hn_Score = None, hn_PromotedCount = 0, hn_Error = [], hn_StartedAt = started,
      hn_FinishedAt = zero_time\<rparr>"

definition keep_last :: "nat \<Rightarrow> 'a list \<Rightarrow> 'a list" where
  "keep_last n xs = (if length xs > n then drop (length xs - n) xs else xs)"

text \<open>The result: the run with the URL it is sent to.\<close>

definition StartRun ::
    "(nat \<Rightarrow> reading) \<Rightarrow> HarnessRunConfig \<Rightarrow> Store \<Rightarrow> Runner \<Rightarrow> (run_error + HarnessRun \<times> string) \<times> Runner" where
  "StartRun env cfg st ru =
     (case normalize (fst (env 0)) cfg of
        Inl e \<Rightarrow> (Inl e, ru)
      | Inr cfg \<Rightarrow>
          (case freshGateway (fst (env 1)) st ru of
             Inl e \<Rightarrow> (Inl e, ru)
           | Inr (gwURL, chain) \<Rightarrow>
               if ru_running ru then (Inl RunInProgress, ru)
               else let run = new_run (env 2) (fst (env 3)) cfg (pack_Version (GetPatternPack st)) chain
                    in (Inr (run, gwURL),
                        ru\<lparr>ru_running := True, ru_runs := keep_last maxStoredRuns (ru_runs ru @ [run])\<rparr>)))"

section \<open>Sending\<close>

record harness_request =
  hq_url :: string
  hq_body :: json
  hq_headers :: headers

text \<open>What the client made of a request: not built, not sent, cut off while reading, or answered.\<close>

datatype client_answer =
    NotBuilt string
  | NotSent string int
  | CutOff string int
  | Answered nat string int

definition message_body :: "string \<Rightarrow> bool \<Rightarrow> json" where
  "message_body content stream =
     JObj [(''model'', JStr ''claude-harness''), (''stream'', JBool stream),
           (''messages'', JArr [JObj [(''role'', JStr ''user''), (''content'', JStr content)]])]"

definition harness_headers :: "Runner \<Rightarrow> string \<Rightarrow> headers" where
  "harness_headers ru rid =
     hdr_set (hdr_set (hdr_set [] ''Content-Type'' ''application/json'')
       ''Authorization'' (''Bearer '' @ ru_gatewayKey ru)) ''X-Gateway-Request-Id'' rid"

definition sendOne :: "(harness_request \<Rightarrow> client_answer) \<Rightarrow> Runner \<Rightarrow> string \<Rightarrow> string \<Rightarrow> nat \<Rightarrow> genItem \<Rightarrow> requestOutcome" where
  "sendOne client ru gwURL runID i item =
     (let rid = ''hr-'' @ take 8 runID @ ''-'' @ itoa i;
          hdrs = harness_headers ru rid;
          hdrs = (if gi_Straddle item
                  then hdr_set (hdr_set hdrs ''X-Harness-Echo'' ''input'') ''X-Harness-Straddle'' ''on'' else hdrs);
          out = \<lparr>oc_Item = item, oc_RequestID = rid, oc_HTTPStatus = 0, oc_ResponseBody = [],
                 oc_IsSSE = gi_Straddle item, oc_LatencyMS = 0, oc_Err = []\<rparr>
      in case client \<lparr>hq_url = gwURL @ ''/v1/messages'', hq_body = message_body (gi_Content item) (gi_Straddle item),
                      hq_headers = hdrs\<rparr> of
           NotBuilt err \<Rightarrow> out\<lparr>oc_Err := err\<rparr>
         | NotSent err ms \<Rightarrow> out\<lparr>oc_LatencyMS := ms, oc_Err := err\<rparr>
         | CutOff err ms \<Rightarrow> out\<lparr>oc_LatencyMS := ms, oc_Err := err\<rparr>
         | Answered status body ms \<Rightarrow>
             out\<lparr>oc_LatencyMS := ms, oc_HTTPStatus := status, oc_ResponseBody := take 8388608 body\<rparr>)"

definition send_all :: "(nat \<Rightarrow> harness_request \<Rightarrow> client_answer) \<Rightarrow> Runner \<Rightarrow> string \<Rightarrow> string \<Rightarrow> genItem list \<Rightarrow> requestOutcome list" where
  "send_all client ru gwURL runID items =
     map (\<lambda>(i, item). sendOne (client i) ru gwURL runID i item) (enumerate 0 items)"

definition blocked_outcome :: "requestOutcome \<Rightarrow> bool" where
  "blocked_outcome o1 \<longleftrightarrow>
     oc_Err o1 = [] \<and> oc_HTTPStatus o1 = 400 \<and> contains (oc_ResponseBody o1) ''blocked by gateway policy''"

definition count_outcomes :: "requestOutcome list \<Rightarrow> HarnessRun \<Rightarrow> HarnessRun" where
  "count_outcomes outcomes run =
     run\<lparr>hn_Completed := hn_Completed run + length outcomes,
         hn_Errors := hn_Errors run + length (filter (\<lambda>o1. oc_Err o1 \<noteq> []) outcomes),
         hn_Blocked := hn_Blocked run + length (filter blocked_outcome outcomes)\<rparr>"

text \<open>
  \<open>waitForReports\<close>: the poll number \<open>k\<close> sees the clock and the store \<open>poll k\<close>; the result is the number
  of the poll it ended at, None if it never ended.
\<close>

definition unreported :: "Store \<Rightarrow> requestOutcome list \<Rightarrow> nat" where
  "unreported st outcomes =
     length (filter (\<lambda>o1. oc_Err o1 = [] \<and> GatewayReportByRequestID (oc_RequestID o1) st = None) outcomes)"

partial_function (option) wait_from :: "time \<Rightarrow> (nat \<Rightarrow> time \<times> Store) \<Rightarrow> requestOutcome list \<Rightarrow> nat \<Rightarrow> nat option" where
  "wait_from deadline poll outcomes k =
     (if fst (poll k) < deadline
      then if unreported (snd (poll k)) outcomes = 0 then Some k else wait_from deadline poll outcomes (Suc k)
      else Some k)"

definition waitForReports :: "time \<Rightarrow> (nat \<Rightarrow> time \<times> Store) \<Rightarrow> requestOutcome list \<Rightarrow> nat option" where
  "waitForReports now poll outcomes = wait_from (now + reportJoinTimeout) poll outcomes 0"

section \<open>The end of a run\<close>

definition ratchet_batch :: "reading \<Rightarrow> RatchetPoint \<Rightarrow> (string \<times> json) list" where
  "ratchet_batch r pt =
     (let obs = Obs ''metric'' ''detector_recall_ratchet'' (JNum (rp_RecallBehavioral pt * 100)) ''percent''
                  ''green'' ''info'' PlaneObservability ''anthropic'' DispProxyEnforced
                  [(''pack_version'', JNum (of_int (rp_PackVersion pt))), (''detector_chain'', JStr (rp_DetectorChain pt))]
                  ''harness'' []
      in [(''contract'', JStr ObservationContract), (''batch_id'', JStr (NewUUID (snd r))),
          (''connector'', JObj [(''type'', JStr ''harness''), (''instance'', JStr ''harness''),
                                (''api_version'', JStr ''harness/v0'')]),
          (''collected_at'', JStr (rfc3339 (rp_At pt))),
          (''window'', JObj [(''from'', JStr (rfc3339 (rp_At pt))), (''to'', JStr (rfc3339 (rp_At pt)))]),
          (''cursor'', JObj [(''input'', JNull), (''output'', JNull)]),
          (''complete'', JBool True), (''observations'', JArr [obs]), (''errors'', JArr [])])"

definition ingestRatchetObservation :: "reading \<Rightarrow> reading \<Rightarrow> RatchetPoint \<Rightarrow> Store \<Rightarrow> Store" where
  "ingestRatchetObservation r r' pt st =
     snd (AddObservation r'
       \<lparr>ob_ID = 0, ob_ReceivedAt = zero_time, ob_Contract = ObservationContract, ob_ConnectorType = ''harness'',
        ob_ConnectorInstance = ''harness'', ob_Complete = True, ob_ObservationCount = 1, ob_ErrorCount = 0,
        ob_Body = ratchet_batch r pt\<rparr> st)"

text \<open>The ratchet file: appending a line may fail, and reading stops at the first line that does not parse.\<close>

definition appendRatchet :: "(RatchetPoint \<Rightarrow> string + string) \<Rightarrow> RatchetPoint \<Rightarrow> string list \<Rightarrow> string option \<times> string list" where
  "appendRatchet write pt file =
     (case write pt of Inl err \<Rightarrow> (Some err, file) | Inr line \<Rightarrow> (None, file @ [line]))"

fun loadRatchet :: "(string \<Rightarrow> RatchetPoint option) \<Rightarrow> string list \<Rightarrow> RatchetPoint list" where
  "loadRatchet parse [] = []"
| "loadRatchet parse (l # ls) = (case parse l of None \<Rightarrow> [] | Some pt \<Rightarrow> pt # loadRatchet parse ls)"

definition update_last_run :: "(HarnessRun \<Rightarrow> HarnessRun) \<Rightarrow> HarnessRun list \<Rightarrow> HarnessRun list" where
  "update_last_run f runs = (if runs = [] then [] else butlast runs @ [f (last runs)])"

definition count_action :: "string \<Rightarrow> HarnessResult list \<Rightarrow> nat" where
  "count_action a results = length (filter (\<lambda>res. hr_Action res = a) results)"

definition finished :: "RunScore \<Rightarrow> nat \<Rightarrow> time \<Rightarrow> HarnessResult list \<Rightarrow> HarnessRun \<Rightarrow> HarnessRun" where
  "finished score promoted now results run =
     run\<lparr>hn_Masked := hn_Masked run + count_action ''mask'' results,
         hn_DetectOnly := hn_DetectOnly run + count_action ''detect'' results,
         hn_Passed := hn_Passed run + count_action ''pass'' results,
         hn_Score := Some score, hn_PromotedCount := promoted, hn_Status := ''done'', hn_FinishedAt := now\<rparr>"

definition ratchet_point :: "string \<Rightarrow> HarnessRun \<Rightarrow> RunScore \<Rightarrow> time \<Rightarrow> RatchetPoint" where
  "ratchet_point version run score now =
     \<lparr>rp_RunID = hn_ID run, rp_At = now, rp_CorpusVersion = version, rp_PackVersion = hn_PackVersion run,
      rp_DetectorChain = hn_DetectorChain run, rp_Precision = sc_Precision score,
      rp_RecallReported = sc_RecallReported score, rp_RecallBehavioral = sc_RecallBehavioral score,
      rp_RequestCount = hn_Total run, rp_Seed = rc_Seed (hn_Config run), rp_CaptureOrphans = sc_CaptureOrphans score\<rparr>"

record run_io =
  io_codec :: body_codec
  io_flywheel :: flywheel_io
  io_append :: "RatchetPoint \<Rightarrow> string + string"
  io_env :: "nat \<Rightarrow> reading"

definition finish_run ::
    "run_io \<Rightarrow> CorpusEntry list \<Rightarrow> HarnessRun \<Rightarrow> requestOutcome list \<Rightarrow> Runner \<times> Store \<Rightarrow> Runner \<times> Store" where
  "finish_run io snapshot run outcomes rs =
     (case rs of (ru, st) \<Rightarrow>
       (case scoreRun (io_codec io) st (hn_ID run) outcomes of (score, results) \<Rightarrow>
         (case flywheel (io_flywheel io) (hn_ID run) (hn_DetectorChain run) results st ru of (promoted, ru) \<Rightarrow>
           let pt = ratchet_point (corpusVersion (fw_sha (io_flywheel io)) snapshot) run score (fst (io_env io 0));
               file = snd (appendRatchet (io_append io) pt (ru_ratchetFile ru));
               st = ingestRatchetObservation (io_env io 1) (io_env io 2) pt st;
               results = take maxStoredResults results
           in (ru\<lparr>ru_ratchetFile := file, ru_ratchet := ru_ratchet ru @ [pt],
                  ru_results := AList.update (hn_ID run) results (ru_results ru),
                  ru_runs := update_last_run (finished score promoted (fst (io_env io 3)) results) (ru_runs ru),
                  ru_running := False\<rparr>, st))))"

text \<open>
  \<open>execute\<close>: the runner and the store may change while the items are sent and the reports are awaited,
  so the run ends on the state \<open>rs\<close> found then; \<open>ru\<close> is the runner it starts from.
\<close>

definition execute ::
    "(int \<Rightarrow> rng) \<Rightarrow> (nat \<Rightarrow> harness_request \<Rightarrow> client_answer) \<Rightarrow> run_io \<Rightarrow> HarnessRun \<Rightarrow> string \<Rightarrow>
     Runner \<Rightarrow> Runner \<times> Store \<Rightarrow> Runner \<times> Store" where
  "execute source client io run gwURL ru rs =
     (let snapshot = ru_corpus ru;
          items = generate source (hn_Config run) snapshot;
          outcomes = send_all client ru gwURL (hn_ID run) items;
          ru' = (fst rs)\<lparr>ru_runs := update_last_run (count_outcomes outcomes) (ru_runs (fst rs))\<rparr>
      in finish_run io snapshot run outcomes (ru', snd rs))"

section \<open>Boot and read accessors\<close>

definition NewRunner ::
    "(string \<Rightarrow> string + (PatternPack \<times> bool) \<times> PatternProposal list) \<Rightarrow> string + string option \<Rightarrow>
     (string \<Rightarrow> RatchetPoint option) \<Rightarrow> string list \<Rightarrow> (string \<Rightarrow> string + CorpusEntry) \<Rightarrow> (string \<Rightarrow> bool) \<Rightarrow>
     (string \<times> string) list \<Rightarrow> string \<Rightarrow> string \<Rightarrow> Store \<Rightarrow> Runner \<times> Store" where
  "NewRunner unmarshal content parse_pt ratchet_lines parse_entry unreadable dir gatewayKey presidioURL st =
     (let ru = \<lparr>ru_gatewayKey = gatewayKey, ru_gatewayURL = [], ru_probe = (presidioURL \<noteq> []), ru_runs = [],
                ru_results = [], ru_ratchet = loadRatchet parse_pt ratchet_lines,
                ru_corpus = loadCorpus parse_entry unreadable dir, ru_proposals = [], ru_running = False,
                ru_patternPersistErr = None, ru_disk = (case content of Inl _ \<Rightarrow> None | Inr c \<Rightarrow> c),
                ru_corpusDir = dir, ru_ratchetFile = ratchet_lines\<rparr>
      in case loadPatterns unmarshal content of
           Inl err \<Rightarrow> (ru\<lparr>ru_patternPersistErr := Some err\<rparr>, st)
         | Inr ((pack, nil), proposals) \<Rightarrow> (ru\<lparr>ru_proposals := proposals\<rparr>, SetPatternPack nil pack st))"

definition SetGatewayURL :: "string \<Rightarrow> Runner \<Rightarrow> Runner" where
  "SetGatewayURL u ru = ru\<lparr>ru_gatewayURL := u\<rparr>"

definition Runs :: "Runner \<Rightarrow> HarnessRun list" where
  "Runs ru = rev (ru_runs ru)"

definition Run :: "string \<Rightarrow> Runner \<Rightarrow> HarnessRun option" where
  "Run i ru = find (\<lambda>run. hn_ID run = i) (ru_runs ru)"

definition Results :: "string \<Rightarrow> nat \<Rightarrow> Runner \<Rightarrow> HarnessResult list" where
  "Results i limit ru =
     (let results = (case map_of (ru_results ru) i of Some rs \<Rightarrow> rs | None \<Rightarrow> [])
      in if limit > 0 \<and> length results > limit then take limit results else results)"

definition PatternPersistError :: "Runner \<Rightarrow> string option" where
  "PatternPersistError ru = ru_patternPersistErr ru"

definition Ratchet :: "Runner \<Rightarrow> RatchetPoint list" where
  "Ratchet ru = ru_ratchet ru"

definition Corpus :: "Runner \<Rightarrow> CorpusEntry list" where
  "Corpus ru = ru_corpus ru"

definition Proposals :: "Runner \<Rightarrow> PatternProposal list" where
  "Proposals ru = ru_proposals ru"

section \<open>One ad-hoc prompt\<close>

definition maxSampleBytes :: nat where "maxSampleBytes = 8192"
definition sampleJoinTimeout :: int where "sampleJoinTimeout = 8 * second"

datatype sample_error = SampleEmpty | SampleTooLong | SampleNoGateway run_error | SampleFailed string

text \<open>The polling loop: it checks for the report before it looks at the clock.\<close>

partial_function (option) sample_from :: "time \<Rightarrow> (nat \<Rightarrow> time \<times> Store) \<Rightarrow> string \<Rightarrow> nat \<Rightarrow> (nat \<times> Report option) option" where
  "sample_from deadline poll rid k =
     (case GatewayReportByRequestID rid (snd (poll k)) of
        Some rep \<Rightarrow> Some (k, Some rep)
      | None \<Rightarrow> if fst (poll k) > deadline then Some (k, None) else sample_from deadline poll rid (Suc k))"

definition RunSample ::
    "body_codec \<Rightarrow> (harness_request \<Rightarrow> client_answer) \<Rightarrow> (nat \<Rightarrow> reading) \<Rightarrow> (nat \<Rightarrow> time \<times> Store) \<Rightarrow> string \<Rightarrow>
     Runner \<Rightarrow> Store \<Rightarrow> (sample_error + SampleResult) option" where
  "RunSample bc client env poll content ru st =
     (if trim_space content = [] then Some (Inl SampleEmpty)
      else if length content > maxSampleBytes then Some (Inl SampleTooLong)
      else case freshGateway (fst (env 0)) st ru of
        Inl e \<Rightarrow> Some (Inl (SampleNoGateway e))
      | Inr (gwURL, chain) \<Rightarrow>
          (let rid = ''sample-'' @ take 8 (NewUUID (snd (env 1))) in
           case client \<lparr>hq_url = gwURL @ ''/v1/messages'', hq_body = message_body content False,
                        hq_headers = harness_headers ru rid\<rparr> of
             NotBuilt err \<Rightarrow> Some (Inl (SampleFailed err))
           | NotSent err ms \<Rightarrow> Some (Inl (SampleFailed err))
           | CutOff err ms \<Rightarrow> Some (Inl (SampleFailed err))
           | Answered status body ms \<Rightarrow>
               (case sample_from (fst (env 2) + sampleJoinTimeout) poll rid 0 of
                  None \<Rightarrow> None
                | Some (k, report) \<Rightarrow>
                    (let action = (case report of
                           Some rep \<Rightarrow> rr_Action rep
                         | None \<Rightarrow> if status = 400 then ''block'' else [])
                     in Some (Inr
                       \<lparr>sm_RequestID = rid, sm_Action = action, sm_HTTPStatus = status,
                        sm_Redactions = (case report of Some rep \<Rightarrow> rr_Redactions rep | None \<Rightarrow> []),
                        sm_ReportJoined = (report \<noteq> None),
                        sm_UpstreamText = (case InferenceCaptureByRequestID rid (snd (poll k)) of
                           Some c \<Rightarrow> upstreamContent bc (ic_Body c) | None \<Rightarrow> []),
                        sm_ResponseText = responseText bc (take 8388608 body), sm_LatencyMS = ms,
                        sm_PackVersion = pack_Version (GetPatternPack st), sm_DetectorChain = chain\<rparr>)))))"

section \<open>Admission is bounded and exclusive\<close>

definition config_bounded :: "HarnessRunConfig \<Rightarrow> bool" where
  "config_bounded cfg \<longleftrightarrow>
     1 \<le> rc_Count cfg \<and> rc_Count cfg \<le> maxRunCount \<and> 1 \<le> rc_Concurrency cfg \<and> rc_Concurrency cfg \<le> maxConcurrency \<and>
     0 \<le> rc_ReplayPercent cfg \<and> rc_ReplayPercent cfg \<le> 90"

lemma normalize_bounded: "normalize now cfg = Inr cfg' \<Longrightarrow> config_bounded cfg'"
  by (auto simp: normalize_def config_bounded_def Let_def maxConcurrency_def maxRunCount_def split: if_splits)

lemma fresher_in: "foldl fresher best reps = Some rep \<Longrightarrow> rep \<in> set reps \<or> best = Some rep"
  by (induction reps arbitrary: best) (fastforce simp: fresher_def split: option.splits if_splits)+

lemma freshGateway_fresh:
  "freshGateway now st ru = Inr (u, chain) \<Longrightarrow>
     \<exists>rep \<in> set (ListGatewayEnforcement st). now - er_At rep \<le> GatewayStaleAfter \<and> chain = join '','' (er_Detectors rep) \<and>
       u = (if ru_gatewayURL ru \<noteq> [] then ru_gatewayURL ru else er_BaseURL rep)"
proof -
  assume granted: "freshGateway now st ru = Inr (u, chain)"
  then obtain rep where best: "foldl fresher None (ListGatewayEnforcement st) = Some rep"
    by (auto simp: freshGateway_def split: option.splits)
  from fresher_in [OF best] have "rep \<in> set (ListGatewayEnforcement st)" by simp
  moreover from granted best have "now - er_At rep \<le> GatewayStaleAfter \<and> chain = join '','' (er_Detectors rep) \<and>
       u = (if ru_gatewayURL ru \<noteq> [] then ru_gatewayURL ru else er_BaseURL rep)"
    by (simp add: freshGateway_def Let_def not_less split: if_split_asm)
  ultimately show ?thesis by blast
qed

lemma StartRun_refused: "StartRun env cfg st ru = (Inl e, ru') \<Longrightarrow> ru' = ru"
  by (auto simp: StartRun_def Let_def split: sum.splits prod.splits if_splits)

lemma StartRun_admitted:
  assumes "StartRun env cfg st ru = (Inr (run, u), ru')"
  shows "\<not> ru_running ru \<and> config_bounded (hn_Config run) \<and> hn_Total run = rc_Count (hn_Config run) \<and>
      hn_Status run = ''running'' \<and>
      ru' = ru\<lparr>ru_running := True, ru_runs := keep_last maxStoredRuns (ru_runs ru @ [run])\<rparr>"
    and "\<exists>rep \<in> set (ListGatewayEnforcement st). fst (env 1) - er_At rep \<le> GatewayStaleAfter \<and>
      u = (if ru_gatewayURL ru \<noteq> [] then ru_gatewayURL ru else er_BaseURL rep)"
proof -
  obtain cfg' where 1: "normalize (fst (env 0)) cfg = Inr cfg'"
    using assms by (auto simp: StartRun_def split: sum.splits)
  obtain u' chain where 2: "freshGateway (fst (env 1)) st ru = Inr (u', chain)"
    using assms 1 by (auto simp: StartRun_def split: sum.splits)
  have 3: "\<not> ru_running ru" "run = new_run (env 2) (fst (env 3)) cfg' (pack_Version (GetPatternPack st)) chain" "u = u'"
    "ru' = ru\<lparr>ru_running := True, ru_runs := keep_last maxStoredRuns (ru_runs ru @ [run])\<rparr>"
    using assms unfolding StartRun_def 1 2 sum.case prod.case Let_def by (auto split: if_split_asm)
  from 3 normalize_bounded [OF 1] show "\<not> ru_running ru \<and> config_bounded (hn_Config run) \<and>
      hn_Total run = rc_Count (hn_Config run) \<and> hn_Status run = ''running'' \<and>
      ru' = ru\<lparr>ru_running := True, ru_runs := keep_last maxStoredRuns (ru_runs ru @ [run])\<rparr>"
    by (simp add: new_run_def)
  from freshGateway_fresh [OF 2] show "\<exists>rep \<in> set (ListGatewayEnforcement st).
      fst (env 1) - er_At rep \<le> GatewayStaleAfter \<and> u = (if ru_gatewayURL ru \<noteq> [] then ru_gatewayURL ru else er_BaseURL rep)"
    unfolding 3(3) by blast
qed

text \<open>At most one run is in progress, and it is the last one listed.\<close>

definition runs_inv :: "Runner \<Rightarrow> bool" where
  "runs_inv ru \<longleftrightarrow>
     length (ru_runs ru) \<le> maxStoredRuns \<and> (ru_running ru \<longrightarrow> ru_runs ru \<noteq> []) \<and>
     (\<forall>run \<in> set (butlast (ru_runs ru)). hn_Status run = ''done'') \<and>
     (ru_runs ru \<noteq> [] \<longrightarrow> hn_Status (last (ru_runs ru)) = (if ru_running ru then ''running'' else ''done'')) \<and>
     (\<forall>res \<in> set (map snd (ru_results ru)). length res \<le> maxStoredResults)"

lemma keep_last_length: "length (keep_last n xs) \<le> n"
  by (simp add: keep_last_def)

lemma keep_last_snoc: "0 < n \<Longrightarrow> keep_last n (xs @ [x]) = keep_last (n - 1) xs @ [x]"
  by (auto simp: keep_last_def)

lemma set_keep_last: "set (keep_last n xs) \<subseteq> set xs"
  by (auto simp: keep_last_def dest: in_set_dropD)

lemma runs_inv_all_done: "runs_inv ru \<Longrightarrow> \<not> ru_running ru \<Longrightarrow> run \<in> set (ru_runs ru) \<Longrightarrow> hn_Status run = ''done''"
  by (cases "ru_runs ru" rule: rev_cases) (auto simp: runs_inv_def)

lemma StartRun_inv:
  assumes "runs_inv ru"
  shows "runs_inv (snd (StartRun env cfg st ru))"
proof (cases "fst (StartRun env cfg st ru)")
  case (Inl e)
  then have "StartRun env cfg st ru = (Inl e, snd (StartRun env cfg st ru))" by (simp add: prod_eq_iff)
  from StartRun_refused [OF this] assms show ?thesis by simp
next
  case (Inr ok)
  then obtain run u where "StartRun env cfg st ru = (Inr (run, u), snd (StartRun env cfg st ru))"
    by (metis prod.collapse)
  note granted = StartRun_admitted(1) [OF this]
  then have idle: "\<not> ru_running ru" and status: "hn_Status run = ''running''"
    and start: "snd (StartRun env cfg st ru) =
      ru\<lparr>ru_running := True, ru_runs := keep_last maxStoredRuns (ru_runs ru @ [run])\<rparr>" by blast+
  have "0 < maxStoredRuns" by (simp add: maxStoredRuns_def)
  from start [unfolded keep_last_snoc [OF this]] have eq: "snd (StartRun env cfg st ru) =
      ru\<lparr>ru_running := True, ru_runs := keep_last (maxStoredRuns - 1) (ru_runs ru) @ [run]\<rparr>" .
  have all_done: "\<forall>r \<in> set (keep_last (maxStoredRuns - 1) (ru_runs ru)). hn_Status r = ''done''"
  proof
    fix r assume "r \<in> set (keep_last (maxStoredRuns - 1) (ru_runs ru))"
    then have "r \<in> set (ru_runs ru)" by (rule subsetD [OF set_keep_last])
    then show "hn_Status r = ''done''" by (rule runs_inv_all_done [OF assms idle])
  qed
  have "Suc (length (keep_last (maxStoredRuns - 1) (ru_runs ru))) \<le> maxStoredRuns"
    using keep_last_length [of "maxStoredRuns - 1" "ru_runs ru"] by (simp add: maxStoredRuns_def)
  with all_done status assms show ?thesis
    unfolding eq runs_inv_def by simp
qed

lemma update_last_run_length [simp]: "length (update_last_run f runs) = length runs"
  by (simp add: update_last_run_def)

lemma update_last_run_Nil [simp]: "update_last_run f runs = [] \<longleftrightarrow> runs = []"
  by (simp add: update_last_run_def)

lemma update_last_run_parts [simp]:
  "butlast (update_last_run f runs) = butlast runs" "runs \<noteq> [] \<Longrightarrow> last (update_last_run f runs) = f (last runs)"
  by (simp_all add: update_last_run_def)

lemma flywheel_runs [simp]:
  "ru_runs (snd (flywheel io runID chain results st ru)) = ru_runs ru"
  "ru_results (snd (flywheel io runID chain results st ru)) = ru_results ru"
  by (simp_all add: flywheel_def upsertProposals_def Let_def split: prod.split)

lemma finish_run_inv:
  assumes "runs_inv ru"
  shows "runs_inv (fst (finish_run io snapshot run outcomes (ru, st)))"
proof -
  obtain score results where 1: "scoreRun (io_codec io) st (hn_ID run) outcomes = (score, results)" by (rule prod.exhaust)
  obtain promoted ru1 where 2: "flywheel (io_flywheel io) (hn_ID run) (hn_DetectorChain run) results st ru = (promoted, ru1)"
    by (rule prod.exhaust)
  have 3: "ru_runs ru1 = ru_runs ru" "ru_results ru1 = ru_results ru"
    using flywheel_runs [of "io_flywheel io" "hn_ID run" "hn_DetectorChain run" results st ru] by (simp_all add: 2)
  show ?thesis
    using assms
    by (auto simp: finish_run_def 1 2 3 Let_def runs_inv_def finished_def dest!: alist_update_in)
qed

lemma execute_inv:
  assumes "runs_inv (fst rs)"
  shows "runs_inv (fst (execute source client io run gwURL ru rs))"
proof -
  have "runs_inv ((fst rs)\<lparr>ru_runs := update_last_run (count_outcomes outcomes) (ru_runs (fst rs))\<rparr>)" for outcomes
    using assms by (auto simp: runs_inv_def count_outcomes_def)
  then show ?thesis by (simp add: execute_def Let_def finish_run_inv)
qed

section \<open>Waiting ends\<close>

text \<open>With polls at least half a second apart the wait ends within fifty-one of them.\<close>

lemma wait_from_ends:
  assumes "\<And>k. fst (poll (Suc k)) \<ge> fst (poll k) + half" and "0 < half"
    and "deadline \<le> fst (poll k) + half * int n"
  shows "\<exists>j. k \<le> j \<and> j \<le> k + n \<and> wait_from deadline poll outcomes k = Some j"
  using assms(3)
proof (induction n arbitrary: k)
  case 0
  then show ?case by (subst wait_from.simps) simp
next
  case (Suc n)
  have "deadline \<le> fst (poll (Suc k)) + half * int n"
    using Suc.prems assms(1) [of k] by (simp add: algebra_simps)
  from Suc.IH [OF this] obtain j where "Suc k \<le> j" "j \<le> Suc k + n" "wait_from deadline poll outcomes (Suc k) = Some j"
    by blast
  then show ?case by (subst wait_from.simps) (auto intro: exI [of _ k] exI [of _ j])
qed

lemma wait_from_complete:
  assumes "wait_from deadline poll outcomes k = Some j" and "fst (poll j) < deadline"
  shows "unreported (snd (poll j)) outcomes = 0"
  using assms(1)
proof (rule wait_from.raw_induct [where P = "\<lambda>d p os k j. fst (p j) < d \<longrightarrow> unreported (snd (p j)) os = 0", THEN mp, rotated])
qed (use assms(2) in \<open>auto split: if_splits\<close>)

lemma sample_from_ends:
  assumes "\<And>k. fst (poll (Suc k)) \<ge> fst (poll k) + step" and "0 < step"
    and "deadline < fst (poll k) + step * int n"
  shows "\<exists>r. sample_from deadline poll rid k = Some r"
  using assms(3)
proof (induction n arbitrary: k)
  case 0
  then show ?case by (subst sample_from.simps) (auto split: option.split)
next
  case (Suc n)
  have "deadline < fst (poll (Suc k)) + step * int n"
    using Suc.prems assms(1) [of k] by (simp add: algebra_simps)
  from Suc.IH [OF this] show ?case by (subst sample_from.simps) (auto split: option.split)
qed

end
