(* ===== verification/Control_Server.thy ===== *)
theory Control_Server
  imports Policy_Engine Control_Auth Harness_Runner
begin

text \<open>
  The HTTP handlers of the control plane (\<open>internal/server\<close>) and the table of routes that puts a
  guard in front of each. A handler maps the request and the server's state (the store and the optional
  harness runner) to a status, the fields of the JSON reply and the next state. Decoded bodies, the
  parsed base URL, the clock, the random bytes and the file systems are fields of \<open>server_io\<close>. Every
  handler here is total; the one that polls, the sample box, answers with status 0 when it never answers.
\<close>

section \<open>The server, its world and its replies\<close>

record Server =
  sv_store :: Store
  sv_harness :: "Runner option"

record app_body =
  ab_ID :: string
  ab_Name :: string
  ab_Baseline :: string

record app_patch =
  ax_Name :: "string option"
  ax_Baseline :: "string option"
  ax_Disabled :: "bool option"

record key_body =
  kb_Subject :: string
  kb_Label :: string
  kb_Routes :: "string list"
  kb_ExpiresInDays :: int

text \<open>What \<open>url.Parse\<close> makes of a base URL, as far as it is asked: scheme, host, whether it has userinfo.\<close>

record parsed_url =
  ur_scheme :: string
  ur_host :: string
  ur_user :: bool

record server_io =
  so_adminKey :: string
  so_spineKey :: string
  so_net :: net_world
  so_env :: "nat \<Rightarrow> reading"
  so_lower :: "string \<Rightarrow> string"
  so_patch :: "string \<Rightarrow> string + AdapterPatch"
  so_policy :: "string \<Rightarrow> string + Policy"
  so_object :: "string \<Rightarrow> string + (string \<times> json) list"
  so_app :: "string \<Rightarrow> string + app_body"
  so_appPatch :: "string \<Rightarrow> string + app_patch"
  so_key :: "string \<Rightarrow> string + key_body"
  so_reports :: "string \<Rightarrow> string + Report list"
  so_heartbeat :: "string \<Rightarrow> string + EnforcementReport"
  so_runConfig :: "string \<Rightarrow> string + HarnessRunConfig"
  so_content :: "string \<Rightarrow> string + string"
  so_proposal :: "string \<Rightarrow> string + PatternProposal"
  so_url :: "string \<Rightarrow> parsed_url option"
  so_policyFS :: policy_fs
  so_keyFS :: key_fs
  so_patternFS :: pattern_fs
  so_sha :: "string \<Rightarrow> string"
  so_idBytes :: string
  so_secretBytes :: string
  so_compileErr :: "string \<Rightarrow> string option"
  so_codec :: body_codec
  so_client :: "harness_request \<Rightarrow> client_answer"
  so_poll :: "nat \<Rightarrow> time \<times> Store"

record baselineView =
  bv_Baseline :: Baseline
  bv_GatewayAction :: string
  bv_GatewayActionAttested :: string
  bv_RequiresZDRAttestation :: bool

record facetMeta =
  fc_Dimension :: string
  fc_Label :: string
  fc_RealParam :: string
  fc_Endpoint :: string
  fc_ResponseField :: string
  fc_Reason :: string

record vendorFacets =
  vf_Vendor :: string
  vf_Supported :: "facetMeta list"
  vf_Unsupported :: "facetMeta list"

record gatewayStatus =
  gs_GatewayID :: string
  gs_BaseURL :: string
  gs_Action :: string
  gs_Detectors :: "string list"
  gs_Vendors :: "(string \<times> string list) list"
  gs_LastSeen :: time
  gs_Fresh :: bool

text \<open>The error values a handler prints with \<open>err.Error()\<close>.\<close>

datatype failure =
    PatchFailure patch_error
  | KeystoreFailure store_error
  | RunFailure run_error
  | SampleFailure sample_error
  | ProposalFailure proposal_error

text \<open>A field of a reply.\<close>

datatype (plugins only:) reply_field =
    Flag bool
  | Num int
  | Text string
  | Failure failure
  | AdapterF Adapter
  | AdaptersF "Adapter list"
  | CapabilitiesF "Capability list"
  | PlatformsF "(string \<times> string) list"
  | StatusF Status
  | CallsF "CallRecord list"
  | BaselinesF "baselineView list"
  | PolicyF "Policy option"
  | CoverageF CoverageReport
  | CredentialF Credential
  | CredentialsF "Credential list"
  | ObservationF ObservationRecord
  | ObservationsF "ObservationRecord list"
  | AuditF "AuditEvent list"
  | RecordsF "(string \<times> json) list list"
  | ActivityF "ActivityEvent list"
  | DriftF "DriftRecord list"
  | FacetsF "(string \<times> vendorFacets) list"
  | ArtifactsF "ManagedArtifact list"
  | StatesF "EnvState list"
  | ReportsF "Report list"
  | GatewaysF "gatewayStatus list"
  | PackF PatternPack
  | SnapshotF KeySnapshot
  | AppF App
  | AppsF "App list"
  | KeyF APIKey
  | KeysF "APIKey list"
  | RunF HarnessRun
  | RunsF "HarnessRun list"
  | ResultsF "HarnessResult list"
  | RatchetF "RatchetPoint list"
  | CorpusF "CorpusEntry list"
  | SampleF SampleResult
  | ProposalF PatternProposal
  | ProposalsF "PatternProposal list"
  | NamesF "string list"
  | CapturesF "InferenceCapture list"

type_synonym reply = "(string \<times> reply_field) list"
type_synonym api_handler = "(reply, Server) handler"

definition error_reply :: "string \<Rightarrow> reply" where
  "error_reply msg = [(''error'', Text msg)]"

definition writeError :: "nat \<Rightarrow> string \<Rightarrow> Server \<Rightarrow> (nat \<times> reply) \<times> Server" where
  "writeError status msg sv = ((status, error_reply msg), sv)"

definition writeFailure :: "nat \<Rightarrow> failure \<Rightarrow> Server \<Rightarrow> (nat \<times> reply) \<times> Server" where
  "writeFailure status f sv = ((status, [(''error'', Failure f)]), sv)"

definition writeJSON :: "nat \<Rightarrow> reply \<Rightarrow> Server \<Rightarrow> (nat \<times> reply) \<times> Server" where
  "writeJSON status body sv = ((status, body), sv)"

lemmas write_defs = writeError_def writeFailure_def writeJSON_def

definition statusForPatch :: "patch_error \<Rightarrow> nat" where
  "statusForPatch e = (case e of PatchNotFound \<Rightarrow> 404 | PatchInvalid \<Rightarrow> 400)"

definition statusForError :: "store_error \<Rightarrow> nat" where
  "statusForError e = (case e of ErrNotFound k i \<Rightarrow> 404 | ErrInvalid x \<Rightarrow> 400 | MintFailed \<Rightarrow> 500)"

definition with_store :: "Store \<Rightarrow> Server \<Rightarrow> Server" where
  "with_store st sv = sv\<lparr>sv_store := st\<rparr>"

definition with_harness :: "Runner \<Rightarrow> Server \<Rightarrow> Server" where
  "with_harness ru sv = sv\<lparr>sv_harness := Some ru\<rparr>"


text \<open>The path below a prefix, split at slashes: the first part and the second, empty when there is none.\<close>

definition sub_path :: "string \<Rightarrow> api_request \<Rightarrow> string \<times> string" where
  "sub_path base r =
     (let parts = split_on (CHR ''/'') (trim_prefix (ar_path r) base)
      in (hd parts, if length parts > 1 then parts ! 1 else []))"

section \<open>Adapters\<close>

definition handleHealth :: "server_io \<Rightarrow> api_handler" where
  "handleHealth io r sv =
     writeJSON 200
       [(''ok'', Flag True), (''service'', Text ''air-traffic''),
        (''adapter_count'', Num (int (length (ListAdapters (sv_store sv))))),
        (''admin_auth'', Text (adminAuthMode (so_adminKey io))),
        (''ts'', Text (rfc3339 (fst (so_env io 0))))] sv"

definition handleAdapters :: "api_handler" where
  "handleAdapters r sv =
     (if ar_method r \<noteq> ''GET'' then writeError 405 ''use GET'' sv
      else writeJSON 200 [(''adapters'', AdaptersF (ListAdapters (sv_store sv)))] sv)"

definition patch_event :: "server_io \<Rightarrow> string \<Rightarrow> Adapter \<Rightarrow> AuditEvent" where
  "patch_event io i a =
     \<lparr>ae_ID = [], ae_Timestamp = zero_time, ae_Actor = ''air-traffic:admin'', ae_Action = ''adapter.patch'',
      ae_Resource = ad_Vendor a, ae_Plane = [], ae_Vendor = i, ae_ControlSurface = DispVendorNative,
      ae_Before = None, ae_After = None, ae_RequestID = NewUUID (snd (so_env io 2))\<rparr>"

definition adapter_record :: "server_io \<Rightarrow> string \<Rightarrow> api_handler" where
  "adapter_record io i r sv =
     (if ar_method r = ''GET'' then
        (case GetAdapter i (sv_store sv) of
           None \<Rightarrow> writeError 404 ''unknown adapter'' sv
         | Some a \<Rightarrow> writeJSON 200 [(''adapter'', AdapterF a)] sv)
      else if ar_method r = ''PATCH'' then
        (case decodeJSON (so_patch io) r of
           Inl err \<Rightarrow> writeError 400 (''invalid body: '' @ err) sv
         | Inr p \<Rightarrow>
             (case PatchAdapter (so_env io 0) (so_env io 1) i p (sv_store sv) of
                (Inl e, st) \<Rightarrow> writeFailure (statusForPatch e) (PatchFailure e) (with_store st sv)
              | (Inr a, st) \<Rightarrow>
                  writeJSON 200 [(''adapter'', AdapterF a)]
                    (with_store (AddAudit (so_env io 3) (patch_event io i a) st) sv)))
      else writeError 405 ''use GET or PATCH'' sv)"

definition test_status :: "time \<Rightarrow> Adapter \<Rightarrow> Status" where
  "test_status now a =
     (if \<not> ad_Enabled a \<or> ad_Mode a = ModeDisabled
      then \<lparr>sta_State = ''degraded'', sta_Message = ''adapter disabled'', sta_CheckedAt = now\<rparr>
      else if ad_Mode a = ModeProxy
      then \<lparr>sta_State = ''unverified'',
            sta_Message = ''proxy mode is a stub '' @ em_dash @ '' no upstream call is made, and the surface returns 501'',
            sta_CheckedAt = now\<rparr>
      else if ad_Scenario a \<noteq> [] \<and> ad_Scenario a \<noteq> ''healthy''
      then \<lparr>sta_State = ''degraded'', sta_Message = ''scenario override active: '' @ ad_Scenario a, sta_CheckedAt = now\<rparr>
      else \<lparr>sta_State = ''healthy'', sta_Message = ''synthetic surface reachable'', sta_CheckedAt = now\<rparr>)"

definition adapter_test :: "server_io \<Rightarrow> string \<Rightarrow> api_handler" where
  "adapter_test io i r sv =
     (if ar_method r \<noteq> ''POST'' then writeError 405 ''use POST'' sv
      else case GetAdapter i (sv_store sv) of
             None \<Rightarrow> writeError 404 ''unknown adapter'' sv
           | Some a \<Rightarrow>
               (let st = test_status (fst (so_env io 0)) a;
                    store = SetAdapterStatus (so_env io 1) i st (sv_store sv);
                    a = (case GetAdapter i store of Some a \<Rightarrow> a | None \<Rightarrow> zero_adapter)
                in writeJSON 200 [(''adapter'', AdapterF a), (''status'', StatusF st)] (with_store store sv)))"

definition env_platforms :: "string \<Rightarrow> (string \<times> string) list" where
  "env_platforms i = (case ByID i of Some d \<Rightarrow> df_EnvPlatforms d | None \<Rightarrow> [])"

definition handleAdapter :: "server_io \<Rightarrow> api_handler" where
  "handleAdapter io r sv =
     (case sub_path ''/api/adapters/'' r of (i, sub) \<Rightarrow>
       if i = [] then writeError 404 ''missing adapter id'' sv
       else if sub = [] then adapter_record io i r sv
       else if sub = ''manifest'' then
         (case GetAdapter i (sv_store sv) of
            None \<Rightarrow> writeError 404 ''unknown adapter'' sv
          | Some a \<Rightarrow>
              writeJSON 200
                [(''adapter_id'', Text i), (''vendor'', Text (ad_Vendor a)), (''tier'', Num (ad_Tier a)),
                 (''capabilities'', CapabilitiesF (ad_Capabilities a)), (''env_platforms'', PlatformsF (env_platforms i))] sv)
       else if sub = ''test'' then adapter_test io i r sv
       else if sub = ''calls'' then writeJSON 200 [(''calls'', CallsF (ListCalls i (limitParam r 200) (sv_store sv)))] sv
       else writeError 404 ''unknown sub-resource'' sv)"

section \<open>Baselines and policies\<close>

definition baseline_view :: "Baseline \<Rightarrow> baselineView" where
  "baseline_view b =
     \<lparr>bv_Baseline = b, bv_GatewayAction = GatewayAction b False, bv_GatewayActionAttested = GatewayAction b True,
      bv_RequiresZDRAttestation = RequiresZDRAttestation b\<rparr>"

definition handleBaselines :: "api_handler" where
  "handleBaselines r sv =
     writeJSON 200
       [(''baselines'', BaselinesF (map baseline_view Baselines)),
        (''zdr_attested'', Flag (ZDRAttestedIn (GetPolicy (sv_store sv))))] sv"

definition handlePolicies :: "server_io \<Rightarrow> api_handler" where
  "handlePolicies io r sv =
     (if ar_method r = ''GET'' then writeJSON 200 [(''policy'', PolicyF (GetPolicy (sv_store sv)))] sv
      else if ar_method r = ''PUT'' then
        (case decodeJSON (so_policy io) r of
           Inl err \<Rightarrow> writeError 400 (''invalid policy: '' @ err) sv
         | Inr p \<Rightarrow>
             if BaselineByID (pol_Baseline p) = None \<and> pol_Baseline p \<noteq> []
             then writeError 400 (''unknown baseline: '' @ pol_Baseline p) sv
             else (case Apply (so_policyFS io) (so_env io) (sv_store sv) p of (rep, st, n) \<Rightarrow>
                    writeJSON 200 [(''coverage'', CoverageF rep)]
                      (with_store (fst (RefreshDrift (so_env io) (n + 1) (fst (so_env io n)) st)) sv)))
      else writeError 405 ''use GET or PUT'' sv)"

section \<open>Credentials and observations\<close>

definition str :: "json option \<Rightarrow> string" where
  "str v = (case v of Some (JStr s) \<Rightarrow> s | _ \<Rightarrow> [])"

definition boolOf :: "json option \<Rightarrow> bool" where
  "boolOf v = (case v of Some (JBool b) \<Rightarrow> b | _ \<Rightarrow> False)"

definition posted_credential :: "(string \<times> json) list \<Rightarrow> Credential" where
  "posted_credential raw =
     \<lparr>cr_ID = [], cr_Name = str (map_of raw ''name''), cr_Provider = str (map_of raw ''provider''),
      cr_Type = str (map_of raw ''type''), cr_SecretRef = str (map_of raw ''secret_ref''), cr_Metadata = [],
      cr_Status = \<lparr>sta_State = [], sta_Message = [], sta_CheckedAt = zero_time\<rparr>, cr_CreatedAt = zero_time,
      cr_UpdatedAt = zero_time\<rparr>"

definition handleCredentials :: "server_io \<Rightarrow> api_handler" where
  "handleCredentials io r sv =
     (if ar_method r = ''GET'' then writeJSON 200 [(''credentials'', CredentialsF (ListCredentials (sv_store sv)))] sv
      else if ar_method r = ''POST'' then
        (case decodeJSON (so_object io) r of
           Inl err \<Rightarrow> writeError 400 (''invalid body: '' @ err) sv
         | Inr raw \<Rightarrow>
             if HasPlaintextSecretKey (so_lower io) raw
             then writeError 400 ''plaintext secrets are not accepted; send secret_ref only'' sv
             else let cred = posted_credential raw in
               if cr_SecretRef cred = [] then writeError 400 ''secret_ref is required'' sv
               else if LooksLikeRawSecret (cr_SecretRef cred)
               then writeError 400 ''secret_ref looks like a raw credential; send a reference (env:NAME, vault:PATH, kms:KEY)'' sv
               else if \<not> IsSecretRef (cr_SecretRef cred)
               then writeError 400 ''secret_ref is not a secret reference (want env:NAME, vault:PATH, kms:KEY)'' sv
               else case AddCredential (so_env io 0) cred (sv_store sv) of
                      (created, st) \<Rightarrow> writeJSON 201 [(''credential'', CredentialF created)] (with_store st sv))
      else writeError 405 ''use GET or POST'' sv)"

definition connector_of :: "(string \<times> json) list \<Rightarrow> (string \<times> json) list" where
  "connector_of batch = (case map_of batch ''connector'' of Some (JObj conn) \<Rightarrow> conn | _ \<Rightarrow> [])"

definition posted_observation :: "(string \<times> json) list \<Rightarrow> ObservationRecord" where
  "posted_observation batch =
     \<lparr>ob_ID = 0, ob_ReceivedAt = zero_time, ob_Contract = ObservationContract,
      ob_ConnectorType = str (map_of (connector_of batch) ''type''),
      ob_ConnectorInstance = str (map_of (connector_of batch) ''instance''),
      ob_Complete = boolOf (map_of batch ''complete''), ob_ObservationCount = 0, ob_ErrorCount = 0, ob_Body = batch\<rparr>"

definition handleObservations :: "server_io \<Rightarrow> api_handler" where
  "handleObservations io r sv =
     (if ar_method r = ''GET''
      then writeJSON 200 [(''observations'', ObservationsF (ListObservations (limitParam r 200) (sv_store sv)))] sv
      else if ar_method r = ''POST'' then
        (case decodeJSON (so_object io) r of
           Inl err \<Rightarrow> writeError 400 (''invalid batch: '' @ err) sv
         | Inr batch \<Rightarrow>
             if map_of batch ''contract'' \<noteq> Some (JStr ObservationContract)
             then writeError 400 (''contract must be '' @ ObservationContract) sv
             else case AddObservation (so_env io 0) (posted_observation batch) (sv_store sv) of
                    (rec, st) \<Rightarrow> writeJSON 202 [(''observation'', ObservationF rec)] (with_store st sv))
      else writeError 405 ''use GET or POST'' sv)"

section \<open>Audit, activity, drift\<close>

definition siem_value :: "(string \<times> json) list option \<Rightarrow> json" where
  "siem_value v = (case v of None \<Rightarrow> JNull | Some m \<Rightarrow> JObj m)"

definition ToSIEM :: "AuditEvent list \<Rightarrow> (string \<times> json) list list" where
  "ToSIEM events =
     map (\<lambda>e. [(''@timestamp'', JStr (rfc3339_millis (ae_Timestamp e))), (''event.id'', JStr (ae_ID e)),
               (''event.action'', JStr (ae_Action e)), (''event.category'', JStr (ae_Plane e)),
               (''user.name'', JStr (ae_Actor e)), (''cloud.provider'', JStr (ae_Vendor e)),
               (''gen_ai.system'', JStr (ae_Vendor e)), (''airtraffic.surface'', JStr (ae_ControlSurface e)),
               (''airtraffic.resource'', JStr (ae_Resource e)), (''airtraffic.before'', siem_value (ae_Before e)),
               (''airtraffic.after'', siem_value (ae_After e)), (''trace.id'', JStr (ae_RequestID e))]) events"

definition handleAudit :: "api_handler" where
  "handleAudit r sv =
     (let events = ListAudit (limitParam r 200) (sv_store sv) in
      if query_get r ''format'' = ''siem'' then writeJSON 200 [(''records'', RecordsF (ToSIEM events))] sv
      else writeJSON 200 [(''audit'', AuditF events)] sv)"

definition handleActivity :: "api_handler" where
  "handleActivity r sv = writeJSON 200 [(''activity'', ActivityF (ListActivity (limitParam r 200) (sv_store sv)))] sv"

definition handleDrift :: "api_handler" where
  "handleDrift r sv = writeJSON 200 [(''drift'', DriftF (ListDrift (sv_store sv)))] sv"

definition facet_meta :: "CostFacet \<Rightarrow> facetMeta" where
  "facet_meta f =
     \<lparr>fc_Dimension = cf_Dimension f, fc_Label = cf_Label f, fc_RealParam = cf_RealParam f, fc_Endpoint = cf_Endpoint f,
      fc_ResponseField = cf_ResponseField f, fc_Reason = cf_Reason f\<rparr>"

definition facet_supported :: "CostFacet \<Rightarrow> bool" where
  "facet_supported f \<longleftrightarrow> cf_Supported f \<and> cf_Members f \<noteq> []"

definition handleCostFacets :: "api_handler" where
  "handleCostFacets r sv =
     writeJSON 200
       [(''facets'', FacetsF (map (\<lambda>d.
          (df_ID d,
           \<lparr>vf_Vendor = df_DisplayName d, vf_Supported = map facet_meta (filter facet_supported (df_CostFacets d)),
            vf_Unsupported = map facet_meta (filter (\<lambda>f. \<not> facet_supported f) (df_CostFacets d))\<rparr>))
          (filter (\<lambda>d. df_CostFacets d \<noteq> []) All)))] sv"

text \<open>Each platform is rendered and read back; the two clock readings of the n-th are \<open>2 n\<close> and \<open>2 n + 1\<close>.\<close>

definition env_entries :: "string \<Rightarrow> Store \<Rightarrow> (string \<times> string \<times> string) list" where
  "env_entries platform st =
     concat (map (\<lambda>a. map (\<lambda>(p, enf). (ad_ID a, p, enf))
       (filter (\<lambda>(p, enf). platform = [] \<or> p = platform) (env_platforms (ad_ID a)))) (ListAdapters st))"

definition handleEnvConfig :: "server_io \<Rightarrow> api_handler" where
  "handleEnvConfig io r sv =
     (let entries = enumerate 0 (env_entries (query_get r ''platform'') (sv_store sv));
          rendered = map (\<lambda>(n, i, p, enf). Render (fst (so_env io (2 * n))) p i [] enf) entries;
          states = map (\<lambda>(n, i, p, enf).
            ReadState (fst (so_env io (2 * n + 1))) p i (Render (fst (so_env io (2 * n))) p i [] enf) False) entries
      in writeJSON 200 [(''artifacts'', ArtifactsF rendered), (''states'', StatesF states)] sv)"

section \<open>The gateway spine\<close>

definition noteworthy :: "Report \<Rightarrow> bool" where
  "noteworthy rep \<longleftrightarrow> rr_Action rep = ''block'' \<or> rr_FailModeTripped rep"

definition leak_event :: "Report \<Rightarrow> AuditEvent" where
  "leak_event rep =
     \<lparr>ae_ID = [], ae_Timestamp = zero_time, ae_Actor = ''air-traffic:gateway'', ae_Action = ''gateway.'' @ rr_Action rep,
      ae_Resource = rr_Route rep, ae_Plane = PlaneDataPolicy, ae_Vendor = rr_Route rep,
      ae_ControlSurface = DispProxyEnforced, ae_Before = None,
      ae_After = Some [(''redaction_count'', JNum (of_nat (length (rr_Redactions rep)))),
        (''fail_mode_tripped'', JBool (rr_FailModeTripped rep)), (''stream'', JBool (rr_Stream rep))],
      ae_RequestID = rr_RequestID rep\<rparr>"

definition audit_leak :: "(nat \<Rightarrow> reading) \<Rightarrow> Store \<times> nat \<Rightarrow> Report \<Rightarrow> Store \<times> nat" where
  "audit_leak env x rep =
     (if noteworthy rep then (AddAudit (env (snd x)) (leak_event rep) (fst x), snd x + 1) else x)"

definition handleGatewayLeaks :: "server_io \<Rightarrow> api_handler" where
  "handleGatewayLeaks io r sv =
     (if ar_method r \<noteq> ''POST'' then writeError 405 ''use POST'' sv
      else case decodeJSON (so_reports io) r of
        Inl err \<Rightarrow> writeError 400 (''invalid reports: '' @ err) sv
      | Inr reports \<Rightarrow>
          if reports = [] then writeError 400 ''reports is empty'' sv
          else if length reports > 1000 then writeError 400 ''max 1000 reports per push'' sv
          else let reports = map Clamp reports;
                   st = AddGatewayReports reports (sv_store sv)
               in writeJSON 202 [(''accepted'', Num (int (length reports)))]
                    (with_store (fst (foldl (audit_leak (so_env io)) (st, 0) reports)) sv))"

definition maxGatewayIDLen :: nat where "maxGatewayIDLen = 128"

definition base_url_ok :: "parsed_url option \<Rightarrow> bool" where
  "base_url_ok u =
     (case u of None \<Rightarrow> False
      | Some u \<Rightarrow> (ur_scheme u = ''http'' \<or> ur_scheme u = ''https'') \<and> ur_host u \<noteq> [] \<and> \<not> ur_user u)"

definition handleGatewayEnforcement :: "server_io \<Rightarrow> api_handler" where
  "handleGatewayEnforcement io r sv =
     (if ar_method r \<noteq> ''POST'' then writeError 405 ''use POST'' sv
      else case decodeJSON (so_heartbeat io) r of
        Inl err \<Rightarrow> writeError 400 (''invalid report: '' @ err) sv
      | Inr rep \<Rightarrow>
          if er_GatewayID rep = [] then writeError 400 ''gateway_id is required'' sv
          else if length (er_GatewayID rep) > maxGatewayIDLen then writeError 400 ''gateway_id too long'' sv
          else if \<not> base_url_ok (so_url io (er_BaseURL rep))
          then writeError 400 ''base_url must be an absolute http(s) URL without userinfo'' sv
          else writeJSON 200 [(''ok'', Flag True)]
                 (with_store (SetGatewayEnforcement (so_env io 1) (rep\<lparr>er_At := fst (so_env io 0)\<rparr>) (sv_store sv)) sv))"

definition handleGatewayPatterns :: "api_handler" where
  "handleGatewayPatterns r sv =
     (if ar_method r \<noteq> ''GET'' then writeError 405 ''use GET'' sv
      else writeJSON 200 [(''pack'', PackF (GetPatternPack (sv_store sv)))] sv)"

definition maxGatewayRequestPage :: nat where "maxGatewayRequestPage = 1000"

text \<open>\<open>strconv.Atoi\<close>: an optional sign, decimal digits, a value of 64 bits.\<close>

definition Atoi :: "string \<Rightarrow> int option" where
  "Atoi s =
     (let neg = (s \<noteq> [] \<and> hd s = CHR ''-''); signed = (s \<noteq> [] \<and> (hd s = CHR ''-'' \<or> hd s = CHR ''+''));
          ds = (if signed then tl s else s);
          n = foldl (\<lambda>n c. n * 10 + int (digit_val c)) 0 ds; v = (if neg then - n else n)
      in if ds = [] \<or> \<not> list_all is_digit ds then None
         else if v < - (2 ^ 63) \<or> v \<ge> 2 ^ 63 then None else Some v)"

definition request_page :: "string \<Rightarrow> nat option" where
  "request_page v =
     (if v = [] then Some 100
      else case Atoi v of None \<Rightarrow> None | Some n \<Rightarrow> if n \<le> 0 then None else Some (min (nat n) maxGatewayRequestPage))"

definition handleGatewayRequests :: "api_handler" where
  "handleGatewayRequests r sv =
     (if ar_method r \<noteq> ''GET'' then writeError 405 ''use GET'' sv
      else case request_page (query_get r ''limit'') of
        None \<Rightarrow> writeError 400 ''limit must be a positive integer'' sv
      | Some limit \<Rightarrow>
          writeJSON 200 [(''requests'', ReportsF (ListGatewayReports limit (sv_store sv))), (''limit'', Num (int limit))] sv)"

definition gateway_status :: "time \<Rightarrow> EnforcementReport \<Rightarrow> gatewayStatus" where
  "gateway_status cutoff rep =
     \<lparr>gs_GatewayID = er_GatewayID rep, gs_BaseURL = er_BaseURL rep, gs_Action = er_Action rep,
      gs_Detectors = er_Detectors rep, gs_Vendors = er_Vendors rep, gs_LastSeen = er_At rep,
      gs_Fresh = (er_At rep > cutoff)\<rparr>"

definition error_text :: "string option \<Rightarrow> string" where
  "error_text e = (case e of None \<Rightarrow> [] | Some t \<Rightarrow> t)"

definition handleGatewayStatus :: "server_io \<Rightarrow> api_handler" where
  "handleGatewayStatus io r sv =
     (let st = sv_store sv; cutoff = fst (so_env io 0) - GatewayStaleAfter in
      writeJSON 200
        [(''gateways'', GatewaysF (map (gateway_status cutoff) (ListGatewayEnforcement st))),
         (''pattern_pack_version'', Num (pack_Version (GetPatternPack st))),
         (''pattern_error'', Text (case sv_harness sv of None \<Rightarrow> [] | Some ru \<Rightarrow> error_text (PatternPersistError ru))),
         (''spine_auth'', Text (spineAuthMode (so_spineKey io))),
         (''spine_key_unrotated'', Flag (so_spineKey io \<in> set devSpineKeys)),
         (''admin_auth'', Text (adminAuthMode (so_adminKey io))),
         (''keystore_version'', Num (snap_Version (keySnapshot (st_keystore st)))),
         (''keystore_error'', Text (error_text (KeystorePersistError (st_keystore st)))),
         (''policy_error'', Text (error_text (PolicyPersistError st)))] sv)"

section \<open>The keystore\<close>

definition validBaseline :: "string \<Rightarrow> bool" where
  "validBaseline i \<longleftrightarrow> (if i = [] then True else BaselineByID i \<noteq> None)"

definition auditKeystore :: "reading \<Rightarrow> string \<Rightarrow> string \<Rightarrow> (string \<times> json) list \<Rightarrow> Store \<Rightarrow> Store" where
  "auditKeystore rd action appID after st =
     AddAudit rd
       \<lparr>ae_ID = [], ae_Timestamp = zero_time, ae_Actor = ''air-traffic:admin'', ae_Action = action,
        ae_Resource = ''app/'' @ appID, ae_Plane = PlaneDataPolicy, ae_Vendor = [],
        ae_ControlSurface = DispProxyEnforced, ae_Before = None, ae_After = Some after, ae_RequestID = []\<rparr> st"

definition with_keystore :: "keystore \<Rightarrow> Store \<Rightarrow> Store" where
  "with_keystore k st = st\<lparr>st_keystore := k\<rparr>"

definition clock_of :: "server_io \<Rightarrow> nat \<Rightarrow> time" where
  "clock_of io n = fst (so_env io n)"

definition handleApps :: "server_io \<Rightarrow> api_handler" where
  "handleApps io r sv =
     (let st = sv_store sv in
      if ar_method r = ''GET'' then writeJSON 200 [(''apps'', AppsF (ListApps (st_keystore st)))] sv
      else if ar_method r = ''POST'' then
        (case decodeJSON (so_app io) r of
           Inl err \<Rightarrow> writeError 400 (''invalid app: '' @ err) sv
         | Inr b \<Rightarrow>
             if \<not> validBaseline (ab_Baseline b) then writeError 400 (''unknown baseline '' @ ab_Baseline b) sv
             else (case CreateApp (so_keyFS io) (clock_of io)
                      \<lparr>app_ID = ab_ID b, app_Name = ab_Name b, app_Baseline = ab_Baseline b, app_Disabled = False,
                       app_CreatedAt = zero_time\<rparr> (st_keystore st) of
                    (Inl e, k) \<Rightarrow> writeFailure (statusForError e) (KeystoreFailure e) (with_store (with_keystore k st) sv)
                  | (Inr a, k) \<Rightarrow>
                      writeJSON 201 [(''app'', AppF a)]
                        (with_store (auditKeystore (so_env io 2) ''keystore.app.create'' (app_ID a)
                           [(''name'', JStr (app_Name a)), (''baseline'', JStr (app_Baseline a))] (with_keystore k st)) sv)))
      else writeError 405 ''use GET or POST'' sv)"

definition handleApp :: "server_io \<Rightarrow> string \<Rightarrow> api_handler" where
  "handleApp io i r sv =
     (let st = sv_store sv in
      if ar_method r = ''GET'' then
        (case GetApp i (st_keystore st) of
           None \<Rightarrow> writeError 404 (''no app '' @ i) sv
         | Some a \<Rightarrow> writeJSON 200 [(''app'', AppF a)] sv)
      else if ar_method r = ''PATCH'' then
        (case decodeJSON (so_appPatch io) r of
           Inl err \<Rightarrow> writeError 400 (''invalid patch: '' @ err) sv
         | Inr b \<Rightarrow>
             if (case ax_Baseline b of None \<Rightarrow> False | Some bl \<Rightarrow> \<not> validBaseline bl)
             then writeError 400 (''unknown baseline '' @ the (ax_Baseline b)) sv
             else (case UpdateApp (so_keyFS io) (clock_of io) i (ax_Baseline b) (ax_Disabled b) (ax_Name b) (st_keystore st) of
                    (Inl e, k) \<Rightarrow> writeFailure (statusForError e) (KeystoreFailure e) (with_store (with_keystore k st) sv)
                  | (Inr a, k) \<Rightarrow>
                      writeJSON 200 [(''app'', AppF a)]
                        (with_store (auditKeystore (so_env io 1) ''keystore.app.update'' (app_ID a)
                           [(''baseline'', JStr (app_Baseline a)), (''disabled'', JBool (app_Disabled a))]
                           (with_keystore k st)) sv)))
      else writeError 405 ''use GET or PATCH'' sv)"

text \<open>\<open>AddDate(0, 0, n)\<close> of a UTC time: the seconds are counted in 64 bits.\<close>

definition add_days :: "int \<Rightarrow> time \<Rightarrow> time" where
  "add_days n t = wrap64 (t div second + n * 86400) * second + t mod second"

definition bad_route :: "string \<Rightarrow> bool" where
  "bad_route rt \<longleftrightarrow> rt \<noteq> ''anthropic'' \<and> rt \<noteq> ''openai''"

definition issue_notice :: string where
  "issue_notice = ''this is the only time the key is shown; it is stored as a digest and cannot be recovered''"

definition handleAppKeys :: "server_io \<Rightarrow> string \<Rightarrow> api_handler" where
  "handleAppKeys io appID r sv =
     (let st = sv_store sv in
      if GetApp appID (st_keystore st) = None then writeError 404 (''no app '' @ appID) sv
      else if ar_method r = ''GET'' then writeJSON 200 [(''keys'', KeysF (ListKeys appID (st_keystore st)))] sv
      else if ar_method r = ''POST'' then
        (case decodeJSON (so_key io) r of
           Inl err \<Rightarrow> writeError 400 (''invalid key request: '' @ err) sv
         | Inr b \<Rightarrow>
             (case find bad_route (kb_Routes b) of
                Some rt \<Rightarrow> writeError 400 (''unknown route '' @ rt @ '' (want anthropic or openai)'') sv
              | None \<Rightarrow>
                  (let expiresAt = (if kb_ExpiresInDays b > 0 then Some (add_days (kb_ExpiresInDays b) (clock_of io 0)) else None)
                   in case IssueKey (so_keyFS io) (\<lambda>n. clock_of io (n + 1)) (so_sha io) (so_idBytes io) (so_secretBytes io)
                             appID (kb_Subject b) (kb_Label b) (kb_Routes b) expiresAt (st_keystore st) of
                        (Inl e, k) \<Rightarrow> writeFailure (statusForError e) (KeystoreFailure e) (with_store (with_keystore k st) sv)
                      | (Inr (key, plaintext), k) \<Rightarrow>
                          writeJSON 201
                            [(''key'', KeyF (key\<lparr>key_Digest := []\<rparr>)), (''secret'', Text plaintext), (''notice'', Text issue_notice)]
                            (with_store (auditKeystore (so_env io 4) ''keystore.key.issue'' appID
                               [(''key_id'', JStr (key_ID key)), (''subject'', JStr (key_Subject key)),
                                (''routes'', JArr (map JStr (key_Routes key))),
                                (''expires_at'', (case key_ExpiresAt key of None \<Rightarrow> JNull | Some t \<Rightarrow> JStr (rfc3339 t)))]
                               (with_keystore k st)) sv))))
      else writeError 405 ''use GET or POST'' sv)"

definition revoke_notice :: string where
  "revoke_notice =
     ''revocation reaches gateways on their next keystore pull (GATEWAY_POLICY_PULL_INTERVAL, 15s by default)''"

definition handleKey :: "server_io \<Rightarrow> string \<Rightarrow> api_handler" where
  "handleKey io kid r sv =
     (let st = sv_store sv in
      if ar_method r \<noteq> ''DELETE'' then writeError 405 ''use DELETE'' sv
      else case RevokeKey (so_keyFS io) (clock_of io) kid (st_keystore st) of
             (Inl e, k) \<Rightarrow> writeFailure (statusForError e) (KeystoreFailure e) (with_store (with_keystore k st) sv)
           | (Inr key, k) \<Rightarrow>
               writeJSON 200 [(''key'', KeyF (key\<lparr>key_Digest := []\<rparr>)), (''notice'', Text revoke_notice)]
                 (with_store (auditKeystore (so_env io 2) ''keystore.key.revoke'' (key_AppID key)
                    [(''key_id'', JStr (key_ID key)), (''subject'', JStr (key_Subject key))] (with_keystore k st)) sv))"

definition handleGatewayKeys :: "api_handler" where
  "handleGatewayKeys r sv =
     (if ar_method r \<noteq> ''GET'' then writeError 405 ''use GET'' sv
      else writeJSON 200 [(''snapshot'', SnapshotF (keySnapshot (st_keystore (sv_store sv))))] sv)"

section \<open>The harness\<close>

definition requireHarness :: "(Runner \<Rightarrow> api_handler) \<Rightarrow> api_handler" where
  "requireHarness f r sv =
     (case sv_harness sv of
        None \<Rightarrow> writeError 503 ''harness engine not configured'' sv
      | Some ru \<Rightarrow> f ru r sv)"

text \<open>An accepted run is listed as the run it starts as; its execution is a later step of the runner.\<close>

definition handleHarnessRuns :: "server_io \<Rightarrow> api_handler" where
  "handleHarnessRuns io =
     requireHarness (\<lambda>ru r sv.
       if ar_method r = ''GET'' then writeJSON 200 [(''runs'', RunsF (Runs ru))] sv
       else if ar_method r = ''POST'' then
         (case decodeJSON (so_runConfig io) r of
            Inl err \<Rightarrow> writeError 400 (''invalid config: '' @ err) sv
          | Inr cfg \<Rightarrow>
              (case StartRun (so_env io) cfg (sv_store sv) ru of
                 (Inl e, ru) \<Rightarrow> writeFailure 409 (RunFailure e) (with_harness ru sv)
               | (Inr (run, u), ru) \<Rightarrow> writeJSON 202 [(''run'', RunF run)] (with_harness ru sv)))
       else writeError 405 ''use GET or POST'' sv)"

definition handleHarnessRun :: "api_handler" where
  "handleHarnessRun =
     requireHarness (\<lambda>ru r sv.
       case sub_path ''/api/harness/runs/'' r of (i, sub) \<Rightarrow>
         if i = [] then writeError 404 ''missing run id'' sv
         else if sub = [] then
           (case Run i ru of
              None \<Rightarrow> writeError 404 ''unknown run'' sv
            | Some run \<Rightarrow> writeJSON 200 [(''run'', RunF run)] sv)
         else if sub = ''results'' then writeJSON 200 [(''results'', ResultsF (Results i (limitParam r 500) ru))] sv
         else writeError 404 ''unknown sub-resource'' sv)"

definition handleHarnessRatchet :: "api_handler" where
  "handleHarnessRatchet = requireHarness (\<lambda>ru r. writeJSON 200 [(''ratchet'', RatchetF (Ratchet ru))])"

definition handleHarnessCorpus :: "api_handler" where
  "handleHarnessCorpus = requireHarness (\<lambda>ru r. writeJSON 200 [(''corpus'', CorpusF (Corpus ru))])"

text \<open>Status 0: the handler polls for ever and no reply is written.\<close>

definition no_answer :: "Server \<Rightarrow> (nat \<times> reply) \<times> Server" where
  "no_answer sv = ((0, []), sv)"

definition handleHarnessSample :: "server_io \<Rightarrow> api_handler" where
  "handleHarnessSample io =
     requireHarness (\<lambda>ru r sv.
       if ar_method r \<noteq> ''POST'' then writeError 405 ''use POST'' sv
       else case decodeJSON (so_content io) r of
         Inl err \<Rightarrow> writeError 400 (''invalid sample: '' @ err) sv
       | Inr content \<Rightarrow>
           if trim_space content = [] then writeError 400 ''content is empty'' sv
           else case RunSample (so_codec io) (so_client io) (so_env io) (so_poll io) content ru (sv_store sv) of
             None \<Rightarrow> no_answer sv
           | Some (Inl e) \<Rightarrow> writeFailure 502 (SampleFailure e) sv
           | Some (Inr sample) \<Rightarrow> writeJSON 200 [(''sample'', SampleF sample)] sv)"

definition proposals_root :: "server_io \<Rightarrow> Runner \<Rightarrow> api_handler" where
  "proposals_root io ru r sv =
     (if ar_method r = ''GET'' then writeJSON 200 [(''proposals'', ProposalsF (Proposals ru))] sv
      else if ar_method r = ''POST'' then
        (case decodeJSON (so_proposal io) r of
           Inl err \<Rightarrow> writeError 400 (''invalid proposal: '' @ err) sv
         | Inr p \<Rightarrow>
             (case AddProposal (so_compileErr io) (so_lower io) (so_patternFS io) (so_env io 0) p (sv_store sv) ru of
                (Inl e, ru) \<Rightarrow> writeFailure 400 (ProposalFailure e) (with_harness ru sv)
              | (Inr created, ru) \<Rightarrow>
                  writeJSON 201 [(''proposal'', ProposalF created), (''proposals'', ProposalsF (Proposals ru))]
                    (with_harness ru sv)))
      else writeError 405 ''use GET or POST'' sv)"

definition proposal_verb :: "server_io \<Rightarrow> string \<Rightarrow> string \<Rightarrow> Runner \<Rightarrow> api_handler" where
  "proposal_verb io i verb ru r sv =
     (if verb = ''approve'' then
        (case ApproveProposal (so_compileErr io) (so_patternFS io) (so_env io) i (ru, sv_store sv) of
           (Inl e, (ru, st)) \<Rightarrow> writeFailure 400 (ProposalFailure e) (with_harness ru (with_store st sv))
         | (Inr pack, (ru, st)) \<Rightarrow>
             writeJSON 200 [(''pack'', PackF pack), (''proposals'', ProposalsF (Proposals ru))]
               (with_harness ru (with_store st sv)))
      else if verb = ''reject'' then
        (case RejectProposal (so_patternFS io) i (sv_store sv) ru of
           (Some e, ru) \<Rightarrow> writeFailure 400 (ProposalFailure e) (with_harness ru sv)
         | (None, ru) \<Rightarrow> writeJSON 200 [(''proposals'', ProposalsF (Proposals ru))] (with_harness ru sv))
      else writeError 404 (''unknown verb '' @ verb) sv)"

definition handleHarnessProposals :: "server_io \<Rightarrow> api_handler" where
  "handleHarnessProposals io =
     requireHarness (\<lambda>ru r sv.
       let below = trim_prefix (trim_prefix (ar_path r) ''/api/harness/proposals'') ''/'' in
       if below = [] then proposals_root io ru r sv
       else if ar_method r \<noteq> ''POST'' then writeError 405 ''use POST'' sv
       else case split_on (CHR ''/'') below of
              [i, verb] \<Rightarrow> proposal_verb io i verb ru r sv
            | _ \<Rightarrow> writeError 404 ''use /api/harness/proposals/{id}/approve|reject'' sv)"

end
