(* ===== verification/Control_Routes.thy ===== *)
theory Control_Routes
  imports Control_Server
begin

text \<open>
  The route table of the control plane (\<open>Routes\<close> in \<open>internal/server/server.go\<close>): which handler
  answers which path behind which guard, and what the whole surface guarantees. A read never changes
  the state, a change needs the credential of its route, and every request keeps the invariant of the
  server.
\<close>

section \<open>Paths\<close>

definition path_segments :: "string \<Rightarrow> string list" where
  "path_segments p = split_on (CHR ''/'') (drop 1 p)"

text \<open>The multiplexer redirects a path that is not its own cleaned form.\<close>

definition clean_path :: "string \<Rightarrow> bool" where
  "clean_path p \<longleftrightarrow>
     p \<noteq> [] \<and> hd p = CHR ''/'' \<and> [] \<notin> set (butlast (path_segments p)) \<and>
     ''.'' \<notin> set (path_segments p) \<and> ''..'' \<notin> set (path_segments p)"

datatype gate = Open | AdminWrite | AdminIngest | SpineKey | LocalAdmin

definition gated :: "server_io \<Rightarrow> gate \<Rightarrow> api_handler \<Rightarrow> api_handler" where
  "gated io g h =
     (case g of
        Open \<Rightarrow> h
      | AdminWrite \<Rightarrow> requireAdminWrite error_reply (so_adminKey io) h
      | AdminIngest \<Rightarrow> requireAdminIngest error_reply (so_net io) (so_adminKey io) (so_spineKey io) h
      | SpineKey \<Rightarrow> requireSpineKey error_reply (so_net io) (so_spineKey io) h
      | LocalAdmin \<Rightarrow> requireLocalAdmin error_reply (so_net io) (so_adminKey io) h)"

section \<open>The table\<close>

text \<open>The paths registered without a wildcard, then the two subtrees, then the wildcards.\<close>

definition exact_routes :: "server_io \<Rightarrow> (string \<times> gate \<times> api_handler) list" where
  "exact_routes io =
     [(''/api/health'', Open, handleHealth io),
      (''/api/adapters'', Open, handleAdapters),
      (''/api/baselines'', Open, handleBaselines),
      (''/api/policies'', AdminWrite, handlePolicies io),
      (''/api/credentials'', AdminWrite, handleCredentials io),
      (''/api/observations'', AdminIngest, handleObservations io),
      (''/api/audit'', Open, handleAudit),
      (''/api/activity'', Open, handleActivity),
      (''/api/drift'', Open, handleDrift),
      (''/api/cost/facets'', Open, handleCostFacets),
      (''/api/envconfig'', Open, handleEnvConfig io),
      (''/api/gateway/leaks'', SpineKey, handleGatewayLeaks io),
      (''/api/gateway/enforcement'', SpineKey, handleGatewayEnforcement io),
      (''/api/gateway/patterns'', SpineKey, handleGatewayPatterns),
      (''/api/gateway/keys'', SpineKey, handleGatewayKeys),
      (''/api/gateway/status'', Open, handleGatewayStatus io),
      (''/api/gateway/requests'', Open, handleGatewayRequests),
      (''/api/apps'', LocalAdmin, handleApps io),
      (''/api/harness/runs'', AdminWrite, handleHarnessRuns io),
      (''/api/harness/sample'', AdminWrite, handleHarnessSample io),
      (''/api/harness/ratchet'', Open, handleHarnessRatchet),
      (''/api/harness/corpus'', Open, handleHarnessCorpus),
      (''/api/harness/proposals'', AdminWrite, handleHarnessProposals io)]"

definition subtree_routes :: "server_io \<Rightarrow> (string \<times> gate \<times> api_handler) list" where
  "subtree_routes io =
     [(''/api/adapters/'', AdminWrite, handleAdapter io),
      (''/api/harness/runs/'', Open, handleHarnessRun),
      (''/api/harness/proposals/'', AdminWrite, handleHarnessProposals io)]"

definition wildcard_route :: "server_io \<Rightarrow> string \<Rightarrow> (gate \<times> api_handler) option" where
  "wildcard_route io p =
     (case path_segments p of
        [api, kind, i] \<Rightarrow>
          if api = ''api'' \<and> kind = ''apps'' \<and> i \<noteq> [] then Some (LocalAdmin, handleApp io i)
          else if api = ''api'' \<and> kind = ''keys'' \<and> i \<noteq> [] then Some (LocalAdmin, handleKey io i) else None
      | [api, kind, i, sub] \<Rightarrow>
          if api = ''api'' \<and> kind = ''apps'' \<and> sub = ''keys'' then Some (LocalAdmin, handleAppKeys io i) else None
      | _ \<Rightarrow> None)"

definition route_of :: "server_io \<Rightarrow> string \<Rightarrow> (gate \<times> api_handler) option" where
  "route_of io p =
     (case map_of (exact_routes io) p of
        Some gh \<Rightarrow> Some gh
      | None \<Rightarrow>
          (case find (\<lambda>e. has_prefix p (fst e)) (subtree_routes io) of
             Some e \<Rightarrow> Some (snd e)
           | None \<Rightarrow> wildcard_route io p))"

definition api_index :: "string list" where
  "api_index =
     [''/api/health'', ''/api/adapters'', ''/api/activity'', ''/api/baselines'', ''/api/policies'', ''/api/observations'',
      ''/api/audit'', ''/api/drift'', ''/api/envconfig'', ''/api/cost/facets'']"

definition root_message :: string where
  "root_message =
     ''Air-Traffic control plane API. The SPA is not built here '' @ em_dash @ '' web/dist is gitignored. '' @
     ''Run `cd web && npm install && npm run build` from the repo root and reload, or '' @
     ''`docker compose up -d --build`, which bakes it in.''"

definition handleRoot :: "api_handler" where
  "handleRoot r sv =
     (if ar_path r \<noteq> ''/'' then writeError 404 ''not found'' sv
      else writeJSON 200
        [(''service'', Text ''air-traffic''), (''message'', Text root_message), (''api'', NamesF api_index),
         (''api_reference'', Text ''README.md#http-api''),
         (''synthetic_surfaces'', Text ''/synthetic/{vendor}/{native-path}'')] sv)"

section \<open>Boot\<close>

definition seed_event :: "string \<Rightarrow> string \<Rightarrow> string \<Rightarrow> string \<Rightarrow> string \<Rightarrow> string \<Rightarrow> (string \<times> json) list option \<Rightarrow>
    (string \<times> json) list \<Rightarrow> reading \<Rightarrow> AuditEvent" where
  "seed_event action actor resource plane vendor surface before after r =
     \<lparr>ae_ID = [], ae_Timestamp = zero_time, ae_Actor = actor, ae_Action = action, ae_Resource = resource,
      ae_Plane = plane, ae_Vendor = vendor, ae_ControlSurface = surface, ae_Before = before, ae_After = Some after,
      ae_RequestID = NewUUID (snd r)\<rparr>"

definition Seed :: "(nat \<Rightarrow> reading) \<Rightarrow> AuditEvent list" where
  "Seed env =
     [seed_event ''model_access.set'' ''ada-admin'' ''OpenAI'' PlaneDeveloperWorkflow ''openai'' DispVendorNative
        (Some [(''mode'', JStr ''open'')])
        [(''mode'', JStr ''allow_list''), (''models'', JArr [JStr ''gpt-4o'', JStr ''o3-mini''])] (env 0),
      seed_event ''mcp.policy.set'' ''air-traffic:config-distributor'' ''claude-code:internal-db-readonly''
        PlaneDeveloperWorkflow ''anthropic'' DispEnvManaged
        (Some [(''allow'', JArr [JStr ''filesystem''])])
        [(''allow'', JArr [JStr ''filesystem'', JStr ''internal-db-readonly''])] (env 1),
      seed_event ''guardrail.attach'' ''sec-eng'' ''BEDROCK_POLICY'' PlaneDataPolicy ''bedrock'' DispVendorNative None
        [(''guardrail_id'', JStr ''g-12345abc''), (''apply_cross_account'', JBool True)] (env 2)]"

definition NewServer :: "(nat \<Rightarrow> reading) \<Rightarrow> Store \<Rightarrow> Server" where
  "NewServer env st =
     \<lparr>sv_store = fold (\<lambda>(n, e). AddAudit (env (n + 3)) e) (enumerate 0 (Seed env)) st, sv_harness = None\<rparr>"

definition SetHarness :: "Runner \<Rightarrow> Server \<Rightarrow> Server" where
  "SetHarness ru sv = sv\<lparr>sv_harness := Some ru\<rparr>"

section \<open>A read changes nothing\<close>

text \<open>
  The guard of the write routes lets every read method through, so the table is sound only if no
  handler changes the state on a read.
\<close>

definition reads_keep :: "api_handler \<Rightarrow> bool" where
  "reads_keep h \<longleftrightarrow> (\<forall>r sv. isReadMethod (ar_method r) \<longrightarrow> snd (h r sv) = sv)"

lemma write_keeps [simp]:
  "snd (writeError n msg sv) = sv" "snd (writeJSON n body sv) = sv" "snd (writeFailure n f sv) = sv"
  by (simp_all add: write_defs)

lemma inert_handlers [simp]:
  "snd (handleHealth io r sv) = sv" "snd (handleAdapters r sv) = sv" "snd (handleBaselines r sv) = sv"
  "snd (handleAudit r sv) = sv" "snd (handleActivity r sv) = sv" "snd (handleDrift r sv) = sv"
  "snd (handleCostFacets r sv) = sv" "snd (handleEnvConfig io r sv) = sv" "snd (handleGatewayPatterns r sv) = sv"
  "snd (handleGatewayKeys r sv) = sv" "snd (handleGatewayStatus io r sv) = sv" "snd (handleGatewayRequests r sv) = sv"
  "snd (handleHarnessRatchet r sv) = sv" "snd (handleHarnessCorpus r sv) = sv" "snd (handleRoot r sv) = sv"
  by (simp_all add: handleHealth_def handleAdapters_def handleBaselines_def handleAudit_def handleActivity_def
      handleDrift_def handleCostFacets_def handleEnvConfig_def handleGatewayPatterns_def handleGatewayKeys_def
      handleGatewayStatus_def handleGatewayRequests_def handleHarnessRatchet_def handleHarnessCorpus_def
      handleRoot_def requireHarness_def Let_def split: option.split)

lemma inert_harness_run [simp]: "snd (handleHarnessRun r sv) = sv"
  by (simp add: handleHarnessRun_def requireHarness_def split: option.split prod.split)

lemma inert_harness_sample [simp]: "snd (handleHarnessSample io r sv) = sv"
  by (simp add: handleHarnessSample_def requireHarness_def no_answer_def split: option.split sum.split)

lemma reads_keepI:
  assumes "\<And>r sv. ar_method r \<notin> {''POST'', ''PUT'', ''PATCH'', ''DELETE''} \<Longrightarrow> snd (h r sv) = sv"
  shows "reads_keep h"
  using assms by (auto simp: reads_keep_def isReadMethod_def)

lemma reads_keep_adapter: "reads_keep (handleAdapter io)"
  by (rule reads_keepI) (simp add: handleAdapter_def adapter_record_def adapter_test_def split: prod.split option.split)

lemma reads_keep_writers:
  "reads_keep (handlePolicies io)" "reads_keep (handleCredentials io)" "reads_keep (handleObservations io)"
  "reads_keep (handleGatewayLeaks io)" "reads_keep (handleGatewayEnforcement io)" "reads_keep (handleApps io)"
  "reads_keep (handleApp io i)" "reads_keep (handleAppKeys io i)" "reads_keep (handleKey io i)"
  by (rule reads_keepI, simp add: handlePolicies_def handleCredentials_def handleObservations_def
      handleGatewayLeaks_def handleGatewayEnforcement_def handleApps_def handleApp_def handleAppKeys_def handleKey_def
      Let_def split: option.split)+

lemma reads_keep_harness: "reads_keep (handleHarnessRuns io)" "reads_keep (handleHarnessProposals io)"
  by (rule reads_keepI, simp add: handleHarnessRuns_def handleHarnessProposals_def proposals_root_def
      requireHarness_def Let_def split: option.split)+

lemma reads_keep_inert: "(\<And>r sv. snd (h r sv) = sv) \<Longrightarrow> reads_keep h"
  by (simp add: reads_keep_def)

lemma find_SomeD: "find P xs = Some x \<Longrightarrow> P x \<and> x \<in> set xs"
  by (induction xs) (auto split: if_splits)

lemma route_of_cases:
  assumes "route_of io p = Some (g, h)"
  obtains "(p, g, h) \<in> set (exact_routes io)" | q where "(q, g, h) \<in> set (subtree_routes io)" "has_prefix p q"
    | "wildcard_route io p = Some (g, h)"
proof (cases "map_of (exact_routes io) p")
  case (Some gh)
  with assms have "map_of (exact_routes io) p = Some (g, h)" by (simp add: route_of_def)
  then show ?thesis by (rule that(1) [OF map_of_SomeD])
next
  case None
  show ?thesis
  proof (cases "find (\<lambda>e. has_prefix p (fst e)) (subtree_routes io)")
    case (Some e)
    with assms None have "snd e = (g, h)" by (simp add: route_of_def)
    then have "e = (fst e, g, h)" by (simp add: prod_eq_iff)
    with find_SomeD [OF Some] show ?thesis by (intro that(2) [of "fst e"]) simp_all
  next
    case no_subtree: None
    with assms None show ?thesis by (intro that(3)) (simp add: route_of_def)
  qed
qed

lemma wildcard_route_cases:
  assumes "wildcard_route io p = Some (g, h)"
  obtains i where "g = LocalAdmin" "h = handleApp io i \<or> h = handleAppKeys io i \<or> h = handleKey io i"
  using assms unfolding wildcard_route_def by (auto split: list.splits if_splits)

lemma reads_keep_routes:
  assumes "route_of io p = Some (g, h)"
  shows "reads_keep h"
  using assms
proof (cases rule: route_of_cases)
  case 1
  then show ?thesis
    by (auto simp: exact_routes_def reads_keep_writers reads_keep_harness intro: reads_keep_inert)
next
  case (2 q)
  then show ?thesis
    by (auto simp: subtree_routes_def reads_keep_adapter reads_keep_harness intro: reads_keep_inert)
next
  case 3
  then obtain i where "h = handleApp io i \<or> h = handleAppKeys io i \<or> h = handleKey io i"
    by (rule wildcard_route_cases)
  then show ?thesis by (auto simp: reads_keep_writers)
qed

text \<open>What a gate asks of a request.\<close>

definition gate_in :: "server_io \<Rightarrow> gate \<Rightarrow> api_request \<Rightarrow> bool" where
  "gate_in io g r =
     (case g of
        Open \<Rightarrow> True
      | AdminWrite \<Rightarrow> admin_in (so_adminKey io) r
      | AdminIngest \<Rightarrow> ingest_in (so_net io) (so_adminKey io) (so_spineKey io) r
      | SpineKey \<Rightarrow> spine_in (so_net io) (so_spineKey io) r
      | LocalAdmin \<Rightarrow> local_in (so_net io) (so_adminKey io) r)"

interpretation route_gate: request_guard "gated io g" "gate_in io g"
proof
  fix r :: api_request and h :: api_handler and sv :: Server
  show "gate_in io g r \<Longrightarrow> gated io g h r sv = h r sv"
    by (cases g) (simp_all add: gate_in_def gated_def admin_guard.runs ingest_guard.runs spine_guard.runs local_guard.runs)
  show "\<not> gate_in io g r \<Longrightarrow> snd (gated io g h r sv) = sv \<and> 400 \<le> fst (fst (gated io g h r sv))"
    by (cases g) (simp_all add: gate_in_def gated_def admin_guard.refuses ingest_guard.refuses spine_guard.refuses
        local_guard.refuses)
qed

text \<open>The credential a changing request has shown, by the gate of its route.\<close>

definition credential_shown :: "server_io \<Rightarrow> gate \<Rightarrow> api_request \<Rightarrow> bool" where
  "credential_shown io g r =
     (case g of
        Open \<Rightarrow> False
      | AdminWrite \<Rightarrow> so_adminKey io = [] \<or> validKey r (so_adminKey io)
      | AdminIngest \<Rightarrow> validKey r (so_adminKey io) \<or> spine_in (so_net io) (so_spineKey io) r
      | SpineKey \<Rightarrow> spine_in (so_net io) (so_spineKey io) r
      | LocalAdmin \<Rightarrow> validKey r (so_adminKey io) \<or> isLoopback (so_net io) (ar_remote r))"

lemma open_routes_inert:
  assumes "route_of io p = Some (Open, h)"
  shows "snd (h r sv) = sv"
  using assms
proof (cases rule: route_of_cases)
  case 1
  then show ?thesis by (auto simp: exact_routes_def)
next
  case (2 q)
  then show ?thesis by (auto simp: subtree_routes_def)
next
  case 3
  then show ?thesis by (auto elim: wildcard_route_cases)
qed

lemma route_change_shown:
  assumes route: "route_of io p = Some (g, h)" and changed: "snd (gated io g h r sv) \<noteq> sv"
  shows "\<not> isReadMethod (ar_method r) \<and> credential_shown io g r"
proof -
  have passed: "gate_in io g r" using changed by (rule route_gate.changed_lets_in)
  with changed have "snd (h r sv) \<noteq> sv" by (simp add: route_gate.runs)
  with reads_keep_routes [OF route] have changing: "\<not> isReadMethod (ar_method r)" by (auto simp: reads_keep_def)
  have "g \<noteq> Open" using open_routes_inert [of io p h r sv] route \<open>snd (h r sv) \<noteq> sv\<close> by auto
  with passed changing have "credential_shown io g r"
    by (cases g) (auto simp: gate_in_def credential_shown_def admin_in_def ingest_in_def local_in_def)
  with changing show ?thesis by simp
qed

section \<open>The invariant of the server\<close>

text \<open>
  What the intake handlers let into the store: credentials by reference only, heartbeats of named
  gateways at plain http(s) URLs, clamped reports. \<open>parse\<close> is the URL parser and \<open>c\<close> the regexp
  compiler, which do not change between requests.
\<close>

definition credential_ok :: "Credential \<Rightarrow> bool" where
  "credential_ok c \<longleftrightarrow> IsSecretRef (cr_SecretRef c) \<and> \<not> LooksLikeRawSecret (cr_SecretRef c)"

definition heartbeat_ok :: "(string \<Rightarrow> parsed_url option) \<Rightarrow> string \<times> EnforcementReport \<Rightarrow> bool" where
  "heartbeat_ok parse e \<longleftrightarrow>
     fst e \<noteq> [] \<and> length (fst e) \<le> maxGatewayIDLen \<and> base_url_ok (parse (er_BaseURL (snd e)))"

definition intake_inv :: "(string \<Rightarrow> parsed_url option) \<Rightarrow> Store \<Rightarrow> bool" where
  "intake_inv parse st \<longleftrightarrow>
     (\<forall>e \<in> set (st_credentials st). credential_ok (snd e)) \<and> (\<forall>e \<in> set (st_gwEnforce st). heartbeat_ok parse e) \<and>
     (\<forall>rep \<in> set (st_gwReports st). clamped rep)"

definition harness_inv :: "(string \<Rightarrow> string option) \<Rightarrow> Server \<Rightarrow> bool" where
  "harness_inv c sv \<longleftrightarrow>
     (case sv_harness sv of None \<Rightarrow> True | Some ru \<Rightarrow> runs_inv ru \<and> approvals_inv c (ru, sv_store sv))"

definition server_inv :: "(string \<Rightarrow> parsed_url option) \<Rightarrow> (string \<Rightarrow> string option) \<Rightarrow> Server \<Rightarrow> bool" where
  "server_inv parse c sv \<longleftrightarrow> store_inv (sv_store sv) \<and> intake_inv parse (sv_store sv) \<and> harness_inv c sv"

text \<open>The part of the store the last two read; most operations leave it alone.\<close>

definition intake_view ::
    "Store \<Rightarrow> (string \<times> Credential) list \<times> (string \<times> EnforcementReport) list \<times> Report list \<times> PatternPack \<times> bool" where
  "intake_view st = (st_credentials st, st_gwEnforce st, st_gwReports st, st_patternPack st, st_packNil st)"

lemma view_intake: "intake_view st' = intake_view st \<Longrightarrow> intake_inv parse st' = intake_inv parse st"
  by (simp add: intake_view_def intake_inv_def)

lemma view_pack: "intake_view st' = intake_view st \<Longrightarrow> GetPatternPack st' = GetPatternPack st"
  by (simp add: intake_view_def GetPatternPack_def)

lemma server_inv_store:
  assumes "server_inv parse c sv" and "intake_view st = intake_view (sv_store sv)" and "store_inv st"
  shows "server_inv parse c (with_store st sv)"
  using assms view_intake [OF assms(2)] view_pack [OF assms(2)]
  by (auto simp: server_inv_def with_store_def harness_inv_def approvals_inv_def split: option.splits)

lemma intake_view_frames [simp]:
  "intake_view (AddAudit r e st) = intake_view st"
  "intake_view (RecordActivity r a b d st) = intake_view st"
  "intake_view (snd (PatchAdapter r r' i p st)) = intake_view st"
  "intake_view (SetAdapterStatus r i q st) = intake_view st"
  "intake_view (snd (AddObservation r ob st)) = intake_view st"
  "intake_view (ReplaceDrift r ds st) = intake_view st"
  "intake_view (with_keystore k st) = intake_view st"
  by (simp_all add: intake_view_def AddAudit_def RecordActivity_def PatchAdapter_def SetAdapterStatus_def
      AddObservation_def ReplaceDrift_def with_keystore_def Let_def split: option.split)

lemma intake_view_SetPolicy [simp]: "intake_view (SetPolicy fs r p st) = intake_view st"
  by (simp add: intake_view_def SetPolicy_def Let_def split: prod.split)

lemma intake_view_Apply [simp]: "intake_view (fst (snd (Apply fs env st p))) = intake_view st"
proof -
  have "intake_view (ap_store (reconcile env p st)) = intake_view st"
    by (rule reconcile_invariant) (simp_all add: apply_capability_def Let_def)
  then show ?thesis by (simp add: Apply_def Let_def)
qed

definition same_intake :: "Store \<Rightarrow> drift_state \<Rightarrow> bool" where
  "same_intake st x \<longleftrightarrow> intake_view (fst (snd x)) = intake_view st"

lemma same_intake_env: "same_intake st x \<Longrightarrow> same_intake st (env_drift env ts a x c)"
  by (cases x) (simp add: same_intake_def env_drift_def Let_def emitDriftObs_def)

lemma same_intake_gateway: "same_intake st x \<Longrightarrow> same_intake st (gateway_drift env ts e a x c)"
  by (cases x) (simp add: same_intake_def gateway_drift_def Let_def emitGatewayDriftObs_def split: prod.split)

lemma same_intake_start: "same_intake st ([], st, n)"
  by (simp add: same_intake_def)

lemma intake_view_RefreshDrift [simp]: "intake_view (fst (RefreshDrift env n ts st)) = intake_view st"
proof -
  obtain records st1 n1 where e: "over_capabilities (env_drift env ts) (ListAdapters st) ([], st, n) = (records, st1, n1)"
    by (cases "over_capabilities (env_drift env ts) (ListAdapters st) ([], st, n)")
  have first: "same_intake st (records, st1, n1)"
    unfolding e [symmetric]
    by (rule over_capabilities_invariant [where P = "same_intake st"]) (rule same_intake_start, rule same_intake_env)
  have "same_intake st (gatewayDrift env ts st1 n1)"
    unfolding gatewayDrift_def
  proof (rule over_capabilities_invariant [where P = "same_intake st"])
    show "same_intake st ([], st1, n1)" using first by (simp add: same_intake_def)
  qed (rule same_intake_gateway)
  then show ?thesis by (auto simp: RefreshDrift_def e same_intake_def split: prod.split)
qed

section \<open>Every request keeps it\<close>

definition keeps_inv :: "(string \<Rightarrow> parsed_url option) \<Rightarrow> (string \<Rightarrow> string option) \<Rightarrow> api_handler \<Rightarrow> bool" where
  "keeps_inv parse c h \<longleftrightarrow> (\<forall>r sv. server_inv parse c sv \<longrightarrow> server_inv parse c (snd (h r sv)))"

lemma keeps_inert: "(\<And>r sv. snd (h r sv) = sv) \<Longrightarrow> keeps_inv parse c h"
  by (simp add: keeps_inv_def)

lemma server_inv_parts:
  "server_inv parse c sv \<Longrightarrow> store_inv (sv_store sv)" "server_inv parse c sv \<Longrightarrow> intake_inv parse (sv_store sv)"
  by (simp_all add: server_inv_def)

lemma server_inv_split:
  "server_inv parse c (snd (case x of Inl a \<Rightarrow> f a | Inr b \<Rightarrow> g b)) =
     (case x of Inl a \<Rightarrow> server_inv parse c (snd (f a)) | Inr b \<Rightarrow> server_inv parse c (snd (g b)))"
  by (simp split: sum.split)

text \<open>The results of the store's operations, as the handlers see them.\<close>

lemma op_results:
  "PatchAdapter r r' i p st = (q, st') \<Longrightarrow> store_inv st \<Longrightarrow> store_inv st' \<and> intake_view st' = intake_view st"
  "AddObservation r ob st = (q', st') \<Longrightarrow> store_inv st \<Longrightarrow> store_inv st' \<and> intake_view st' = intake_view st"
  "Apply fs env st pol = (rep, st', n) \<Longrightarrow> store_inv st \<Longrightarrow> store_inv st' \<and> intake_view st' = intake_view st"
  using PatchAdapter_inv [of st r r' i p] intake_view_frames(3) [of r r' i p st] AddObservation_inv [of st r ob]
    intake_view_frames(5) [of r ob st] Apply_inv [of st fs env pol] intake_view_Apply [of fs env st pol]
  by simp_all

lemma keeps_adapter: "keeps_inv parse c (handleAdapter io)"
proof -
  have "server_inv parse c (snd (adapter_record io i r sv))" if inv: "server_inv parse c sv" for i r sv
    using inv server_inv_parts(1) [OF inv]
    by (auto dest: op_results(1) simp: adapter_record_def intro!: server_inv_store split: option.split sum.split prod.split)
  moreover have "server_inv parse c (snd (adapter_test io i r sv))" if inv: "server_inv parse c sv" for i r sv
    using inv by (auto simp: adapter_test_def Let_def server_inv_parts intro!: server_inv_store SetAdapterStatus_inv
        split: option.split)
  ultimately show ?thesis
    by (simp add: keeps_inv_def handleAdapter_def split: prod.split option.split)
qed

lemma keeps_policies: "keeps_inv parse c (handlePolicies io)"
proof -
  have "server_inv parse c (snd (handlePolicies io r sv))" if inv: "server_inv parse c sv" for r sv
    using inv server_inv_parts(1) [OF inv]
    by (auto dest: op_results(3) simp: handlePolicies_def intro!: server_inv_store RefreshDrift_inv split: sum.split prod.split)
  then show ?thesis by (simp add: keeps_inv_def)
qed

lemma keeps_observations: "keeps_inv parse c (handleObservations io)"
proof -
  have "server_inv parse c (snd (handleObservations io r sv))" if inv: "server_inv parse c sv" for r sv
    using inv server_inv_parts(1) [OF inv]
    by (auto dest: op_results(2) simp: handleObservations_def intro!: server_inv_store split: sum.split prod.split)
  then show ?thesis by (simp add: keeps_inv_def)
qed

lemma server_inv_intake:
  assumes "server_inv parse c sv" and "GetPatternPack st = GetPatternPack (sv_store sv)" and "store_inv st"
    and "intake_inv parse st"
  shows "server_inv parse c (with_store st sv)"
  using assms by (auto simp: server_inv_def with_store_def harness_inv_def approvals_inv_def split: option.splits)

lemma AddCredential_eq:
  assumes "AddCredential r cred st = (created, st')"
  shows "st' = st\<lparr>st_credentials := AList.update (cr_ID created) created (st_credentials st)\<rparr>"
    and "cr_SecretRef created = cr_SecretRef cred"
  using assms by (auto simp: AddCredential_def Let_def split: if_split_asm)

lemma AddCredential_intake:
  assumes added: "AddCredential r cred st = (created, st')" and "intake_inv parse st" and "credential_ok cred"
    and "store_inv st"
  shows "intake_inv parse st' \<and> GetPatternPack st' = GetPatternPack st \<and> store_inv st'"
proof -
  have "credential_ok created" using assms(3) AddCredential_eq(2) [OF added] by (simp add: credential_ok_def)
  then have "\<forall>e \<in> set (AList.update (cr_ID created) created (st_credentials st)). credential_ok (snd e)"
    using assms(2) by (auto simp: intake_inv_def dest!: alist_update_in)
  moreover have "store_inv st'" using AddCredential_inv [OF assms(4), of r cred] added by simp
  ultimately show ?thesis
    using assms(2) AddCredential_eq(1) [OF added] by (simp add: intake_inv_def GetPatternPack_def)
qed

lemma keeps_credentials: "keeps_inv parse c (handleCredentials io)"
proof -
  have "server_inv parse c (snd (handleCredentials io r sv))" if inv: "server_inv parse c sv" for r sv
    using inv server_inv_parts [OF inv]
    by (auto simp: handleCredentials_def Let_def credential_ok_def dest: AddCredential_intake [where parse = parse]
        intro!: server_inv_intake split: sum.split prod.split)
  then show ?thesis by (simp add: keeps_inv_def)
qed

lemma audit_leaks_frame:
  "store_inv (fst x) \<Longrightarrow> store_inv (fst (foldl (audit_leak env) x reports)) \<and>
     intake_view (fst (foldl (audit_leak env) x reports)) = intake_view (fst x)"
  by (induction reports arbitrary: x) (simp_all add: audit_leak_def)

lemma AddGatewayReports_intake:
  "intake_inv parse st \<Longrightarrow> \<forall>rep \<in> set reports. clamped rep \<Longrightarrow> intake_inv parse (AddGatewayReports reports st)"
  using set_ring_extend [of ringMax reports "st_gwReports st"]
  by (auto simp: intake_inv_def AddGatewayReports_def)

lemma keeps_leaks: "keeps_inv parse c (handleGatewayLeaks io)"
proof -
  have "server_inv parse c (with_store (fst (foldl (audit_leak env) (AddGatewayReports (map Clamp reports) (sv_store sv), 0)
      (map Clamp reports))) sv)" if inv: "server_inv parse c sv" for env reports sv
  proof -
    let ?st = "AddGatewayReports (map Clamp reports) (sv_store sv)"
    let ?x = "foldl (audit_leak env) (?st, 0) (map Clamp reports)"
    have 1: "store_inv (fst ?x)" "intake_view (fst ?x) = intake_view ?st"
      using audit_leaks_frame [of "(?st, 0)" env "map Clamp reports"]
        AddGatewayReports_inv [OF server_inv_parts(1) [OF inv]] by simp_all
    have 2: "intake_inv parse ?st"
      using server_inv_parts(2) [OF inv] by (rule AddGatewayReports_intake) (simp add: clamped_Clamp)
    show ?thesis
      using 1 2 view_intake [OF 1(2)] view_pack [OF 1(2)]
      by (intro server_inv_intake [OF inv]) (simp_all add: GetPatternPack_def AddGatewayReports_def)
  qed
  then show ?thesis
    by (simp add: keeps_inv_def handleGatewayLeaks_def Let_def split: sum.split)
qed

lemma SetGatewayEnforcement_intake:
  "intake_inv parse st \<Longrightarrow> heartbeat_ok parse (er_GatewayID rep, rep) \<Longrightarrow> intake_inv parse (SetGatewayEnforcement r rep st)"
  by (auto simp: intake_inv_def SetGatewayEnforcement_def Let_def heartbeat_ok_def dest!: alist_update_in in_delete
      split: if_splits)

lemma keeps_enforcement: "keeps_inv (so_url io) c (handleGatewayEnforcement io)"
proof -
  have "server_inv (so_url io) c (with_store (SetGatewayEnforcement r rep (sv_store sv)) sv)"
    if inv: "server_inv (so_url io) c sv" and ok: "heartbeat_ok (so_url io) (er_GatewayID rep, rep)" for r rep sv
    using ok server_inv_parts [OF inv]
    by (intro server_inv_intake [OF inv] SetGatewayEnforcement_inv SetGatewayEnforcement_intake)
      (simp_all add: GetPatternPack_def SetGatewayEnforcement_def Let_def)
  then show ?thesis
    by (simp add: keeps_inv_def handleGatewayEnforcement_def heartbeat_ok_def split: sum.split)
qed

lemma store_inv_keystore: "store_inv st \<Longrightarrow> keystore_inv k \<Longrightarrow> store_inv (with_keystore k st)"
  by (simp add: store_inv_def inv_defs with_keystore_def)

lemma server_inv_keystore:
  assumes "server_inv parse c sv" and "keystore_inv k"
  shows "server_inv parse c (with_store (with_keystore k (sv_store sv)) sv)"
    and "server_inv parse c (with_store (auditKeystore r act i after (with_keystore k (sv_store sv))) sv)"
  using assms
  by (auto intro!: server_inv_store store_inv_keystore AddAudit_inv simp: server_inv_parts auditKeystore_def
      simp del: AddAudit_inv)

lemma keystore_results:
  "CreateApp fs clk a s = (q1, k) \<Longrightarrow> keystore_inv s \<Longrightarrow> keystore_inv k"
  "UpdateApp fs clk i b d n s = (q2, k) \<Longrightarrow> keystore_inv s \<Longrightarrow> keystore_inv k"
  "IssueKey fs clk sha idb secb aid sub lab rts ex s = (q3, k) \<Longrightarrow> keystore_inv s \<Longrightarrow> keystore_inv k"
  "RevokeKey fs clk kid s = (q4, k) \<Longrightarrow> keystore_inv s \<Longrightarrow> keystore_inv k"
  using CreateApp_inv [of s fs clk a] UpdateApp_inv [of s fs clk i b d n]
    IssueKey_inv [of s fs clk sha idb secb aid sub lab rts ex] RevokeKey_inv [of s fs clk kid] by simp_all

lemma server_inv_keys: "server_inv parse c sv \<Longrightarrow> keystore_inv (st_keystore (sv_store sv))"
  by (simp add: server_inv_def store_inv_def)

lemma keeps_apps: "keeps_inv parse c (handleApps io)"
proof -
  have "server_inv parse c (snd (handleApps io r sv))" if inv: "server_inv parse c sv" for r sv
    using inv server_inv_keys [OF inv]
    by (auto simp: handleApps_def Let_def dest: keystore_results(1) intro!: server_inv_keystore
        split: sum.split prod.split)
  then show ?thesis by (simp add: keeps_inv_def)
qed

lemma keeps_app: "keeps_inv parse c (handleApp io i)"
proof -
  have "server_inv parse c (snd (handleApp io i r sv))" if inv: "server_inv parse c sv" for r sv
    using inv server_inv_keys [OF inv]
    by (auto simp: handleApp_def Let_def dest: keystore_results(2) intro!: server_inv_keystore
        split: sum.split prod.split option.split)
  then show ?thesis by (simp add: keeps_inv_def)
qed

lemma keeps_app_keys: "keeps_inv parse c (handleAppKeys io i)"
proof -
  have "server_inv parse c (snd (handleAppKeys io i r sv))" if inv: "server_inv parse c sv" for r sv
    using inv server_inv_keys [OF inv]
    by (auto simp: handleAppKeys_def Let_def dest: keystore_results(3) intro!: server_inv_keystore
        split: sum.split prod.split option.split)
  then show ?thesis by (simp add: keeps_inv_def)
qed

lemma keeps_key: "keeps_inv parse c (handleKey io i)"
proof -
  have "server_inv parse c (snd (handleKey io i r sv))" if inv: "server_inv parse c sv" for r sv
    using inv server_inv_keys [OF inv]
    by (auto simp: handleKey_def Let_def dest: keystore_results(4) intro!: server_inv_keystore
        split: sum.split prod.split)
  then show ?thesis by (simp add: keeps_inv_def)
qed

lemma server_inv_harness:
  assumes "server_inv parse c sv" and "runs_inv ru" and "approvals_inv c (ru, st)" and "store_inv st" and "intake_inv parse st"
  shows "server_inv parse c (with_harness ru (with_store st sv))"
  using assms by (simp add: server_inv_def with_store_def with_harness_def harness_inv_def)

lemma server_inv_runner:
  assumes "server_inv parse c sv" and "runs_inv ru" and "approvals_inv c (ru, sv_store sv)"
  shows "server_inv parse c (with_harness ru sv)"
  using server_inv_harness [OF assms] server_inv_parts [OF assms(1)] by (simp add: with_store_def)

lemma attached:
  "server_inv parse c sv \<Longrightarrow> sv_harness sv = Some ru \<Longrightarrow> runs_inv ru \<and> approvals_inv c (ru, sv_store sv)"
  by (simp add: server_inv_def harness_inv_def)

lemma StartRun_proposals: "ru_proposals (snd (StartRun env cfg st ru)) = ru_proposals ru"
  by (simp add: StartRun_def Let_def split: sum.split prod.split)

lemma keeps_runs: "keeps_inv parse c (handleHarnessRuns io)"
proof -
  have "server_inv parse c (with_harness (snd (StartRun env cfg (sv_store sv) ru)) sv)"
    if "server_inv parse c sv" "sv_harness sv = Some ru" for env cfg ru sv
    using attached [OF that] StartRun_inv [of ru env cfg "sv_store sv"]
    by (intro server_inv_runner that) (simp_all add: approvals_inv_def StartRun_proposals)
  then show ?thesis
    by (auto simp: keeps_inv_def handleHarnessRuns_def requireHarness_def split: option.split sum.split prod.split)
      (metis snd_conv)+
qed

lemma runs_inv_frame:
  "ru_runs ru' = ru_runs ru \<Longrightarrow> ru_running ru' = ru_running ru \<Longrightarrow> ru_results ru' = ru_results ru \<Longrightarrow> runs_inv ru' = runs_inv ru"
  by (simp add: runs_inv_def)

lemma AddProposal_runs: "runs_inv (snd (AddProposal c lower fs r p st ru)) = runs_inv ru"
  by (rule runs_inv_frame) (simp_all add: AddProposal_def Let_def split: sum.split)

lemma RejectProposal_runs: "runs_inv (snd (RejectProposal fs i st ru)) = runs_inv ru"
  by (rule runs_inv_frame) (simp_all add: RejectProposal_def split: option.split)

lemma ApproveProposal_runs: "runs_inv (fst (snd (ApproveProposal c fs env i (ru, st)))) = runs_inv ru"
  by (rule runs_inv_frame) (simp_all add: ApproveProposal_def Let_def split: option.split sum.split)

lemma ApproveProposal_store:
  assumes "store_inv st" and "intake_inv parse st"
  shows "store_inv (snd (snd (ApproveProposal c fs env i (ru, st))))"
    and "intake_inv parse (snd (snd (ApproveProposal c fs env i (ru, st))))"
proof -
  have "intake_inv parse (SetPatternPack b p st)" for b p
    using assms(2) by (simp add: intake_inv_def SetPatternPack_def)
  then have "intake_inv parse (AddAudit r e (SetPatternPack b p st))" for r e b p
    by (simp add: view_intake [OF intake_view_frames(1)])
  with assms show "store_inv (snd (snd (ApproveProposal c fs env i (ru, st))))"
    "intake_inv parse (snd (snd (ApproveProposal c fs env i (ru, st))))"
    by (simp_all add: ApproveProposal_def Let_def SetPatternPack_inv split: option.split sum.split)
qed

lemma keeps_root: 
  assumes "server_inv parse (so_compileErr io) sv" and "sv_harness sv = Some ru"
  shows "server_inv parse (so_compileErr io) (snd (proposals_root io ru r sv))"
proof -
  have "server_inv parse (so_compileErr io)
      (with_harness (snd (AddProposal (so_compileErr io) (so_lower io) (so_patternFS io) (so_env io 0) p (sv_store sv) ru)) sv)" for p
    using attached [OF assms] by (intro server_inv_runner assms) (simp_all add: AddProposal_runs approvals_inv_def AddProposal_ok)
  with assms show ?thesis
    by (auto simp: proposals_root_def split: sum.split prod.split) (metis snd_conv)+
qed

lemma keeps_verb:
  assumes "server_inv parse (so_compileErr io) sv" and "sv_harness sv = Some ru"
  shows "server_inv parse (so_compileErr io) (snd (proposal_verb io i verb ru r sv))"
proof -
  let ?a = "ApproveProposal (so_compileErr io) (so_patternFS io) (so_env io) i (ru, sv_store sv)"
  have "server_inv parse (so_compileErr io) (with_harness (fst (snd ?a)) (with_store (snd (snd ?a)) sv))"
    using attached [OF assms] ApproveProposal_store [OF server_inv_parts [OF assms(1)]]
      approve_cases [of "so_compileErr io" ru "sv_store sv" "so_patternFS io" "so_env io" i]
    by (intro server_inv_harness assms) (simp_all add: ApproveProposal_runs)
  moreover have "server_inv parse (so_compileErr io) (with_harness (snd (RejectProposal (so_patternFS io) i (sv_store sv) ru)) sv)"
    using attached [OF assms] by (intro server_inv_runner assms) (simp_all add: RejectProposal_runs approvals_inv_def RejectProposal_ok)
  ultimately show ?thesis
    using assms by (auto simp: proposal_verb_def split: sum.split prod.split option.split)
qed

lemma keeps_proposals: "keeps_inv parse (so_compileErr io) (handleHarnessProposals io)"
  by (simp add: keeps_inv_def handleHarnessProposals_def requireHarness_def Let_def keeps_root keeps_verb
      split: option.split list.split)

lemmas handlers_keep = keeps_adapter keeps_policies keeps_observations keeps_credentials keeps_leaks keeps_enforcement
  keeps_apps keeps_app keeps_app_keys keeps_key keeps_runs keeps_proposals

lemma keeps_routes:
  assumes "route_of io p = Some (g, h)"
  shows "keeps_inv (so_url io) (so_compileErr io) h"
  using assms
proof (cases rule: route_of_cases)
  case 1
  then show ?thesis by (auto simp: exact_routes_def handlers_keep intro: keeps_inert)
next
  case (2 q)
  then show ?thesis by (auto simp: subtree_routes_def handlers_keep intro: keeps_inert)
next
  case 3
  then obtain i where "h = handleApp io i \<or> h = handleAppKeys io i \<or> h = handleKey io i"
    by (rule wildcard_route_cases)
  then show ?thesis by (auto simp: handlers_keep)
qed

section \<open>A booted server\<close>

lemma NewServer_inv:
  assumes "store_inv st" and "intake_inv parse st"
  shows "server_inv parse c (NewServer env st)"
proof -
  let ?f = "\<lambda>(n, e). AddAudit (env (n + 3)) e"
  have "store_inv st \<longrightarrow> store_inv (fold ?f es st) \<and> intake_view (fold ?f es st) = intake_view st"
    for es :: "(nat \<times> AuditEvent) list"
    by (induction es arbitrary: st) (simp_all add: split_beta)
  with assms(1) have booted: "store_inv (sv_store (NewServer env st))" "intake_view (sv_store (NewServer env st)) = intake_view st"
    by (simp_all add: NewServer_def)
  have "intake_inv parse (sv_store (NewServer env st))" using assms(2) by (simp only: view_intake [OF booted(2)])
  with booted(1) show ?thesis by (simp add: server_inv_def harness_inv_def NewServer_def)
qed

lemma boot_server_inv: "server_inv parse c (NewServer env (new_store r r'))"
proof (rule NewServer_inv)
  have "intake_view (foldl (put_adapter now) st ds) = intake_view st" for now ds st
    by (induction ds arbitrary: st) (simp_all add: put_adapter_def intake_view_def)
  then have "intake_view (new_store r r') = intake_view empty_store"
    by (simp add: new_store_def seed_def)
  from view_intake [OF this] show "intake_inv parse (new_store r r')"
    by (simp add: intake_inv_def empty_store_def)
qed (rule new_store_inv)

end
