(* ===== verification/Synthetic.thy ===== *)
theory Synthetic
  imports Synthetic_Fixtures Control_Routes
begin

text \<open>
  The synthetic vendor surface (\<open>internal/synthetic/synthetic.go\<close>) and the inference upstream the
  gateway forwards to in harness runs (\<open>inference.go\<close>). Decoding of the messages request and of the
  scenario body is an argument; encoding is left at the reply, except for the event stream, whose
  lines are built here from an encoder of payloads.
\<close>

section \<open>Replies\<close>

text \<open>A messages request as far as it is read: the user-visible parts of each message are decoded.\<close>

datatype content = Plain string | Blocks "(string \<times> string) list" | Opaque

record messages_request =
  mr_Model :: string
  mr_Stream :: bool
  mr_Messages :: "(string \<times> content) list"

text \<open>
  What goes on the wire: a JSON value, raw bytes, or a sequence of named stream events. The JSON
  content type \<open>writeJSON\<close> sets is left implicit; \<open>sy_recorded\<close> is the clock when the deferred record
  of the call is written.
\<close>

datatype wire =
    Json json
  | Fields reply
  | Raw string
  | Events "(string \<times> json) list"

record syn_reply =
  sr_status :: nat
  sr_headers :: headers
  sr_body :: wire

record synthetic_io =
  sy_guard :: "api_request \<Rightarrow> bool"
  sy_lower :: "string \<Rightarrow> string"
  sy_env :: "nat \<Rightarrow> reading"
  sy_sha :: "string \<Rightarrow> string"
  sy_scenario :: "string \<Rightarrow> string"
  sy_messages :: "string \<Rightarrow> string + messages_request"
  sy_readError :: bool
  sy_duration :: int
  sy_recorded :: reading

definition syn_json :: "nat \<Rightarrow> json \<Rightarrow> syn_reply" where
  "syn_json status body = \<lparr>sr_status = status, sr_headers = [], sr_body = Json body\<rparr>"

definition syn_fields :: "nat \<Rightarrow> reply \<Rightarrow> syn_reply" where
  "syn_fields status body = \<lparr>sr_status = status, sr_headers = [], sr_body = Fields body\<rparr>"

definition syn_error :: "nat \<Rightarrow> (string \<times> json) list \<Rightarrow> syn_reply" where
  "syn_error status body = syn_json status (JObj body)"

definition syn_vendor :: "nat \<times> json \<Rightarrow> syn_reply" where
  "syn_vendor e = syn_json (fst e) (snd e)"

section \<open>Scenarios\<close>

definition supported_scenarios :: "string list" where
  "supported_scenarios =
     [''healthy'', ''401'', ''403'', ''429-retry-after'', ''500'', ''503'', ''timeout'', ''invalid-json'', ''empty'']"

text \<open>The truncated body \<open>{"object":"list","data":[\<close>.\<close>

definition dq :: string where "dq = [CHR 0x22]"

definition truncated_list :: string where
  "truncated_list = ''{'' @ dq @ ''object'' @ dq @ '':'' @ dq @ ''list'' @ dq @ '','' @ dq @ ''data'' @ dq @ '':[''"

definition writeScenario :: "reading \<Rightarrow> Adapter \<Rightarrow> syn_reply option" where
  "writeScenario rd a =
     (let sc = ad_Scenario a; err = (\<lambda>status code msg. syn_vendor (vendorError rd (ad_ID a) status code msg)) in
      if sc = ''401'' then Some (err 401 ''unauthorized'' ''synthetic unauthorized'')
      else if sc = ''403'' then Some (err 403 ''forbidden'' ''synthetic forbidden'')
      else if sc = ''429-retry-after''
      then Some ((err 429 ''rate_limit_exceeded'' ''synthetic rate limit'')\<lparr>sr_headers := hdr_set [] ''Retry-After'' ''30''\<rparr>)
      else if sc = ''500'' then Some (err 500 ''server_error'' ''synthetic server error'')
      else if sc = ''503'' then Some (err 503 ''service_unavailable'' ''synthetic unavailable'')
      else if sc = ''timeout'' then Some (err 504 ''timeout'' ''synthetic timeout'')
      else if sc = ''invalid-json''
      then Some \<lparr>sr_status = 200, sr_headers = hdr_set [] ''Content-Type'' ''application/json'', sr_body = Raw truncated_list\<rparr>
      else if sc = ''empty'' then Some (syn_json 200 (emptyEnvelope (ad_ID a)))
      else None)"

section \<open>The inference upstream\<close>

definition inferenceMaxBody :: nat where "inferenceMaxBody = 10485760"
definition captureKeepBytes :: nat where "captureKeepBytes = 65536"

definition isInferencePath :: "string \<Rightarrow> string \<Rightarrow> bool" where
  "isInferencePath vendor path \<longleftrightarrow> vendor = ''anthropic'' \<and> path = ''/v1/messages''"

definition message_parts :: "content \<Rightarrow> string list" where
  "message_parts c =
     (case c of
        Plain s \<Rightarrow> [s]
      | Blocks bs \<Rightarrow> map snd (filter (\<lambda>b. fst b = ''text'' \<and> snd b \<noteq> []) bs)
      | Opaque \<Rightarrow> [])"

definition userText :: "messages_request \<Rightarrow> string" where
  "userText req =
     join [CHR 0x0A] (concat (map (\<lambda>(role, c). if role \<noteq> ''user'' then [] else message_parts c) (mr_Messages req)))"

definition authFingerprint :: "(string \<Rightarrow> string) \<Rightarrow> headers \<Rightarrow> string" where
  "authFingerprint sha h =
     (let cred = hdr_get h ''x-api-key'';
          cred = (if cred = [] then trim_prefix (hdr_get h ''Authorization'') ''Bearer '' else cred)
      in if cred = [] then [] else ''sha256:'' @ take 16 (hex_encode (sha cred)))"

text \<open>The chunks of a reply: every piece has the chunk length but the last, which may be shorter.\<close>

fun chunks_of :: "nat \<Rightarrow> nat \<Rightarrow> string \<Rightarrow> string list" where
  "chunks_of 0 n s = []"
| "chunks_of (Suc fuel) n s = (if s = [] then [] else take n s # chunks_of fuel n (drop n s))"

definition usage_json :: "nat \<Rightarrow> nat \<Rightarrow> json" where
  "usage_json i u = JObj [(''input_tokens'', JNum (of_nat i)), (''output_tokens'', JNum (of_nat u))]"

definition delta_event :: "string \<Rightarrow> string \<times> json" where
  "delta_event piece =
     (''content_block_delta'', JObj [(''type'', JStr ''content_block_delta''), (''index'', JNum 0),
        (''delta'', JObj [(''type'', JStr ''text_delta''), (''text'', JStr piece)])])"

definition chunk_size :: "headers \<Rightarrow> nat" where
  "chunk_size h = (if hdr_get h ''X-Harness-Straddle'' = ''on'' then 5 else 48)"

definition message_id :: "reading \<Rightarrow> string" where
  "message_id rd = ''msg_synth_'' @ itoa_int (unix_nano (fst rd))"

definition streamInference :: "reading \<Rightarrow> headers \<Rightarrow> string \<Rightarrow> string \<Rightarrow> nat \<Rightarrow> nat \<Rightarrow> (string \<times> json) list" where
  "streamInference rd h modelName reply usageIn usageOut =
     [(''message_start'', JObj [(''type'', JStr ''message_start''), (''message'', JObj
         [(''id'', JStr (message_id rd)), (''type'', JStr ''message''), (''role'', JStr ''assistant''),
          (''model'', JStr modelName), (''content'', JArr []), (''usage'', usage_json usageIn 0)])]),
      (''content_block_start'', JObj [(''type'', JStr ''content_block_start''), (''index'', JNum 0),
         (''content_block'', JObj [(''type'', JStr ''text''), (''text'', JStr [])])])] @
     map delta_event (chunks_of (length reply) (chunk_size h) reply) @
     [(''content_block_stop'', JObj [(''type'', JStr ''content_block_stop''), (''index'', JNum 0)]),
      (''message_delta'', JObj [(''type'', JStr ''message_delta''),
         (''delta'', JObj [(''stop_reason'', JStr ''end_turn''), (''stop_sequence'', JNull)]),
         (''usage'', JObj [(''output_tokens'', JNum (of_nat usageOut))])]),
      (''message_stop'', JObj [(''type'', JStr ''message_stop'')])]"

text \<open>The bytes of a stream, given the encoder of payloads.\<close>

definition event_bytes :: "(json \<Rightarrow> string) \<Rightarrow> string \<times> json \<Rightarrow> string" where
  "event_bytes marshal_json e =
     ''event: '' @ fst e @ [CHR 0x0A] @ ''data: '' @ marshal_json (snd e) @ [CHR 0x0A, CHR 0x0A]"

definition stream_bytes :: "(json \<Rightarrow> string) \<Rightarrow> (string \<times> json) list \<Rightarrow> string" where
  "stream_bytes marshal_json es = concat (map (event_bytes marshal_json) es)"

definition message_reply :: "reading \<Rightarrow> string \<Rightarrow> string \<Rightarrow> nat \<Rightarrow> nat \<Rightarrow> json" where
  "message_reply rd modelName reply usageIn usageOut =
     JObj [(''id'', JStr (message_id rd)), (''type'', JStr ''message''), (''role'', JStr ''assistant''),
           (''model'', JStr modelName), (''content'', JArr [JObj [(''type'', JStr ''text''), (''text'', JStr reply)]]),
           (''stop_reason'', JStr ''end_turn''), (''stop_sequence'', JNull), (''usage'', usage_json usageIn usageOut)]"

definition capture_of :: "synthetic_io \<Rightarrow> api_request \<Rightarrow> Adapter \<Rightarrow> string \<Rightarrow> string \<Rightarrow> bool \<Rightarrow> InferenceCapture" where
  "capture_of io r a path raw stream =
     \<lparr>ic_ID = 0, ic_AdapterID = ad_ID a, ic_GatewayRequestID = hdr_get (ar_headers r) ''X-Gateway-Request-Id'',
      ic_Path = path, ic_Body = (if length raw > captureKeepBytes then take captureKeepBytes raw else raw),
      ic_Truncated = (length raw > captureKeepBytes), ic_AuthFingerprint = authFingerprint (sy_sha io) (ar_headers r),
      ic_Stream = stream, ic_ReceivedAt = fst (sy_env io 0)\<rparr>"

definition inference_call :: "synthetic_io \<Rightarrow> api_request \<Rightarrow> Adapter \<Rightarrow> string \<Rightarrow> CallRecord" where
  "inference_call io r a path =
     \<lparr>cl_ID = 0, cl_AdapterID = ad_ID a, cl_Method = ar_method r, cl_Path = path, cl_Query = [], cl_Headers = [],
      cl_Scenario = ad_Scenario a, cl_StatusCode = 200, cl_DurationMS = sy_duration io, cl_RecordedAt = zero_time\<rparr>"

definition synthetic_text :: string where
  "synthetic_text = ''Synthetic response from the air-traffic mock upstream.''"

definition reply_text :: "api_request \<Rightarrow> messages_request \<Rightarrow> string" where
  "reply_text r req =
     (if hdr_get (ar_headers r) ''X-Harness-Echo'' = ''input'' \<and> userText req \<noteq> [] then userText req else synthetic_text)"

definition inference_answer :: "synthetic_io \<Rightarrow> api_request \<Rightarrow> Adapter \<Rightarrow> string \<Rightarrow> messages_request \<Rightarrow> syn_reply" where
  "inference_answer io r a raw req =
     (case writeScenario (sy_env io 1) a of
        Some resp \<Rightarrow> resp
      | None \<Rightarrow>
          (let reply = reply_text r req;
               modelName = (if mr_Model req = [] then ''claude-synthetic'' else mr_Model req);
               usageIn = length raw div 4; usageOut = length reply div 4
           in if mr_Stream req
              then \<lparr>sr_status = 200,
                    sr_headers = hdr_set (hdr_set [] ''Content-Type'' ''text/event-stream'') ''Cache-Control'' ''no-cache'',
                    sr_body = Events (streamInference (sy_env io 1) (ar_headers r) modelName reply usageIn usageOut)\<rparr>
              else syn_json 200 (message_reply (sy_env io 1) modelName reply usageIn usageOut)))"

definition handleInference ::
    "synthetic_io \<Rightarrow> api_request \<Rightarrow> Adapter \<Rightarrow> string \<Rightarrow> Store \<Rightarrow> syn_reply \<times> Store" where
  "handleInference io r a path st =
     (let err = (\<lambda>status code msg. syn_vendor (vendorError (sy_env io 0) (ad_ID a) status code msg));
          raw = take inferenceMaxBody (ar_body r) in
      if ar_method r \<noteq> ''POST'' then (err 405 ''invalid_request_error'' ''use POST'', st)
      else if sy_readError io then (err 400 ''invalid_request_error'' ''unreadable body'', st)
      else case sy_messages io raw of
        Inl _ \<Rightarrow> (err 400 ''invalid_request_error'' ''body is not valid JSON'', st)
      | Inr req \<Rightarrow>
          (let st = snd (RecordInferenceCapture (capture_of io r a path raw (mr_Stream req)) st)
           in (inference_answer io r a raw req, RecordCall (sy_recorded io) (inference_call io r a path) st)))"

section \<open>The control paths of the surface\<close>

definition allowHarnessWrite :: "synthetic_io \<Rightarrow> api_request \<Rightarrow> syn_reply option" where
  "allowHarnessWrite io r =
     (if sy_guard io r then None
      else Some (syn_error 401 [(''error'',
        JStr ''this route changes adapter state and requires the operator key (X-Air-Traffic-Admin-Key)'')]))"

definition scenario_name :: "synthetic_io \<Rightarrow> api_request \<Rightarrow> string \<Rightarrow> string" where
  "scenario_name io r path =
     (let name = trim_prefix path ''/_harness/scenario/''
      in if name = ''/_harness/scenario'' \<or> name = path then sy_scenario io (ar_body r) else name)"

definition handleHarness :: "synthetic_io \<Rightarrow> api_request \<Rightarrow> Adapter \<Rightarrow> string \<Rightarrow> Store \<Rightarrow> syn_reply \<times> Store" where
  "handleHarness io r a path st =
     (if has_prefix path ''/_harness/manifest'' then
        (syn_fields 200
          [(''adapter_id'', Text (ad_ID a)), (''vendor'', Text (ad_Vendor a)), (''mode'', Text (ad_Mode a)),
           (''tier'', Num (ad_Tier a)), (''supported_modes'', NamesF [''disabled'', ''synthetic'', ''proxy'']),
           (''supported_scenarios'', NamesF supported_scenarios), (''capabilities'', CapabilitiesF (ad_Capabilities a)),
           (''env_platforms'', PlatformsF (env_platforms (ad_ID a)))], st)
      else if has_prefix path ''/_harness/scenario'' then
        (if ar_method r \<noteq> ''PUT'' then (syn_error 405 [(''error'', JStr ''use PUT'')], st)
         else case allowHarnessWrite io r of
           Some refusal \<Rightarrow> (refusal, st)
         | None \<Rightarrow>
             (case SetScenario (sy_env io 0) (sy_env io 1) (ad_ID a) (scenario_name io r path) st of
                (Inl e, st) \<Rightarrow> (syn_fields 400 [(''error'', Failure (PatchFailure e))], st)
              | (Inr updated, st) \<Rightarrow> (syn_fields 200 [(''adapter'', AdapterF updated)], st)))
      else if has_prefix path ''/_harness/reset'' then
        (case allowHarnessWrite io r of
           Some refusal \<Rightarrow> (refusal, st)
         | None \<Rightarrow> (syn_fields 200 [(''ok'', Flag True)], ResetCalls (ad_ID a) st))
      else if has_prefix path ''/_harness/calls'' then (syn_fields 200 [(''calls'', CallsF (ListCalls (ad_ID a) 200 st))], st)
      else if has_prefix path ''/_harness/inference'' then
        (syn_fields 200 [(''captures'', CapturesF (ListInferenceCaptures (ad_ID a) 200 st))], st)
      else (syn_error 404 [(''error'', JStr ''unknown harness path''), (''path'', JStr path)], st))"

section \<open>ServeHTTP\<close>

definition vendor_answer :: "synthetic_io \<Rightarrow> api_request \<Rightarrow> Adapter \<Rightarrow> string \<Rightarrow> syn_reply" where
  "vendor_answer io r a path =
     (if \<not> ad_Enabled a \<or> ad_Mode a = ModeDisabled
      then syn_vendor (vendorError (sy_env io 0) (ad_ID a) 503 ''service_unavailable'' ''adapter disabled'')
      else case writeScenario (sy_env io 0) a of
        Some resp \<Rightarrow> resp
      | None \<Rightarrow>
          if ad_Mode a = ModeProxy
          then syn_vendor (vendorError (sy_env io 0) (ad_ID a) 501 ProxyNotNormalizedCode ProxyNotNormalizedMessage)
          else syn_json 200 (fixture_body (\<lambda>n. sy_env io (n + 1)) a path (ar_query r)))"

definition vendor_call :: "synthetic_io \<Rightarrow> api_request \<Rightarrow> Adapter \<Rightarrow> string \<Rightarrow> nat \<Rightarrow> CallRecord" where
  "vendor_call io r a path status =
     \<lparr>cl_ID = 0, cl_AdapterID = ad_ID a, cl_Method = ar_method r, cl_Path = path,
      cl_Query = redact_Query (sy_lower io) (ar_query r), cl_Headers = redact_Headers (sy_lower io) (ar_headers r),
      cl_Scenario = ad_Scenario a, cl_StatusCode = int status, cl_DurationMS = sy_duration io, cl_RecordedAt = zero_time\<rparr>"

definition native_path :: "string list \<Rightarrow> string" where
  "native_path parts = (case parts of [i, p] \<Rightarrow> ''/'' @ p | _ \<Rightarrow> ''/'')"

definition ServeHTTP :: "synthetic_io \<Rightarrow> api_request \<Rightarrow> Store \<Rightarrow> syn_reply \<times> Store" where
  "ServeHTTP io r st =
     (let below = trim_prefix (ar_path r) ''/synthetic/'' in
      if below = [] \<or> below = ar_path r then (syn_error 404 [(''error'', JStr ''missing adapter id'')], st)
      else let parts = split_n 2 (CHR ''/'') below; i = hd parts; path = native_path parts in
        (case GetAdapter i st of
           None \<Rightarrow> (syn_error 404 [(''error'', JStr ''unknown adapter''), (''adapter_id'', JStr i)], st)
         | Some a \<Rightarrow>
             if has_prefix path ''/_harness'' then handleHarness io r a path st
             else if isInferencePath (ad_ID a) path then handleInference io r a path st
             else let resp = vendor_answer io r a path
                  in (resp, RecordCall (sy_recorded io) (vendor_call io r a path (sr_status resp)) st)))"

section \<open>What the surface does to the store\<close>

lemma SetScenario_inv: "store_inv st \<Longrightarrow> store_inv (snd (SetScenario r r' i sc st))"
  by (simp add: SetScenario_def PatchAdapter_inv)

lemma handleInference_inv: "store_inv st \<Longrightarrow> store_inv (snd (handleInference io r a path st))"
  by (simp add: handleInference_def Let_def RecordCall_inv RecordInferenceCapture_inv split: sum.split)

lemma handleHarness_inv: "store_inv st \<Longrightarrow> store_inv (snd (handleHarness io r a path st))"
  using SetScenario_inv [of st "sy_env io 0" "sy_env io 1" "ad_ID a" "scenario_name io r path"]
  by (auto simp: handleHarness_def ResetCalls_inv split: option.split sum.split prod.split)

lemma ServeHTTP_inv: "store_inv st \<Longrightarrow> store_inv (snd (ServeHTTP io r st))"
  by (simp add: ServeHTTP_def Let_def handleInference_inv handleHarness_inv RecordCall_inv split: option.split)

text \<open>
  Without the operator key a caller can add call records and captures, and nothing else; what changes more
  goes through a path below \<open>/_harness/\<close>, the paths the cross-site check closes for every method.
\<close>

definition traffic_only :: "Store \<Rightarrow> Store \<Rightarrow> bool" where
  "traffic_only st st' \<longleftrightarrow>
     st' = st\<lparr>st_calls := st_calls st', st_nextCallID := st_nextCallID st', st_inferCaptures := st_inferCaptures st',
             st_nextInferID := st_nextInferID st'\<rparr>"

lemma traffic_only_refl [simp]: "traffic_only st st"
  by (simp add: traffic_only_def)

lemma traffic_only_records [simp]:
  "traffic_only st (RecordCall r c st)" "traffic_only st (snd (RecordInferenceCapture ic st))"
  "traffic_only st (RecordCall r c (snd (RecordInferenceCapture ic st)))"
  by (simp_all add: traffic_only_def RecordCall_def RecordInferenceCapture_def Let_def)

lemma native_path_below:
  assumes "has_prefix (native_path (split_n 2 (CHR ''/'') (trim_prefix s p))) q" and "2 \<le> length q"
  shows "contains s q"
proof -
  let ?parts = "split_n 2 (CHR ''/'') (trim_prefix s p)"
  have "prefix q (native_path ?parts)" using assms(1) by (simp add: has_prefix_iff)
  then have "2 \<le> length (native_path ?parts)" using assms(2) prefix_length_le by fastforce
  then obtain i rest where cut: "cut (CHR ''/'') (trim_prefix s p) = Some (i, rest)" and native: "native_path ?parts = ''/'' @ rest"
    by (auto simp: native_path_def numeral_2_eq_2 split: option.splits)
  obtain more where "''/'' @ rest = q @ more" using \<open>prefix q _\<close> unfolding native prefix_def by blast
  moreover have "trim_prefix s p = i @ ''/'' @ rest" using cut_Some [OF cut] by simp
  moreover obtain b where "s = b @ trim_prefix s p"
  proof (cases "has_prefix s p")
    case True
    then have "s = take (length p) s @ trim_prefix s p" by (simp add: trim_prefix_def)
    then show thesis by (rule that)
  next
    case False
    then have "s = [] @ trim_prefix s p" by (simp add: trim_prefix_def)
    then show thesis by (rule that)
  qed
  ultimately have "s = (b @ i) @ q @ more" by (metis append_assoc)
  then show ?thesis unfolding contains_iff by blast
qed

lemma handleHarness_reads:
  "\<not> has_prefix path ''/_harness/scenario'' \<Longrightarrow> \<not> has_prefix path ''/_harness/reset'' \<Longrightarrow> snd (handleHarness io r a path st) = st"
  by (simp add: handleHarness_def)

lemma handleInference_traffic: "traffic_only st (snd (handleInference io r a path st))"
  by (simp add: handleInference_def Let_def split: sum.split)

lemma ServeHTTP_change:
  "traffic_only st (snd (ServeHTTP io r st)) \<or> sy_guard io r \<and> contains (ar_path r) ''/_harness/''"
proof (rule disjCI)
  let ?path = "native_path (split_n 2 (CHR ''/'') (trim_prefix (ar_path r) ''/synthetic/''))"
  assume no: "\<not> (sy_guard io r \<and> contains (ar_path r) ''/_harness/'')"
  show "traffic_only st (snd (ServeHTTP io r st))"
  proof (cases "sy_guard io r")
    case True
    have below: "contains (ar_path r) ''/_harness/''" if "has_prefix ?path q" "q = ''/_harness/'' @ tail" for q tail
    proof -
      have "contains (ar_path r) q" by (rule native_path_below [OF that(1)]) (simp add: that(2))
      then obtain a b where "ar_path r = a @ q @ b" unfolding contains_iff by blast
      then have "ar_path r = a @ ''/_harness/'' @ (tail @ b)" by (simp add: that(2))
      then show ?thesis unfolding contains_iff by blast
    qed
    have tails: "''/_harness/scenario'' = ''/_harness/'' @ ''scenario''" "''/_harness/reset'' = ''/_harness/'' @ ''reset''"
      by simp_all
    have "\<not> has_prefix ?path ''/_harness/scenario''" "\<not> has_prefix ?path ''/_harness/reset''"
      using no True below [OF _ tails(1)] below [OF _ tails(2)] by blast+
    then have "snd (handleHarness io r a ?path st) = st" for a by (rule handleHarness_reads)
    then show ?thesis by (simp add: ServeHTTP_def Let_def handleInference_traffic split: option.split)
  next
    case False
    then show ?thesis
      by (simp add: ServeHTTP_def Let_def handleInference_traffic handleHarness_def allowHarnessWrite_def split: option.split)
  qed
qed

lemma ServeHTTP_view: "intake_view (snd (ServeHTTP io r st)) = intake_view st"
proof -
  have "intake_view (snd (handleHarness io r a path st)) = intake_view st" for a path
    using intake_view_frames(3) [of "sy_env io 0" "sy_env io 1" "ad_ID a" "no_patch\<lparr>pt_Scenario := Some (scenario_name io r path)\<rparr>" st]
    by (auto simp: handleHarness_def SetScenario_def intake_view_def ResetCalls_def split: option.split sum.split prod.split)
  then show ?thesis
    by (simp add: ServeHTTP_def Let_def handleInference_def intake_view_def RecordCall_def RecordInferenceCapture_def
        split: option.split sum.split)
qed

section \<open>Nothing secret is recorded\<close>

lemma redact_Headers_masks:
  "(k, v) \<in> set (redact_Headers lower h) \<Longrightarrow> isSensitive lower k \<Longrightarrow> v = [placeholder]"
  by (auto simp: redact_Headers_def redact_mask_def split: if_splits)

lemma redact_Query_masks:
  "(k, v) \<in> set (redact_Query lower h) \<Longrightarrow> isSensitive lower k \<Longrightarrow> v = [placeholder]"
  by (auto simp: redact_Query_def redact_mask_def split: if_splits)

definition call_masked :: "(string \<Rightarrow> string) \<Rightarrow> CallRecord \<Rightarrow> bool" where
  "call_masked lower c \<longleftrightarrow> (\<forall>(k, v) \<in> set (cl_Headers c @ cl_Query c). isSensitive lower k \<longrightarrow> v = [placeholder])"

definition capture_bounded :: "InferenceCapture \<Rightarrow> bool" where
  "capture_bounded c \<longleftrightarrow> length (ic_Body c) \<le> captureKeepBytes"

definition records_safe :: "(string \<Rightarrow> string) \<Rightarrow> Store \<Rightarrow> bool" where
  "records_safe lower st \<longleftrightarrow> list_all (call_masked lower) (st_calls st) \<and> list_all capture_bounded (st_inferCaptures st)"

lemma list_all_ring_push: "list_all P xs \<Longrightarrow> P x \<Longrightarrow> list_all P (ring_push n x xs)"
  unfolding ring_push_alt by (auto simp: list_all_iff dest: in_set_dropD)

lemma RecordCall_safe:
  "records_safe lower st \<Longrightarrow> call_masked lower c \<Longrightarrow> records_safe lower (RecordCall r c st)"
  by (simp add: records_safe_def RecordCall_def list_all_ring_push call_masked_def)

lemma RecordInferenceCapture_safe:
  "records_safe lower st \<Longrightarrow> capture_bounded ic \<Longrightarrow> records_safe lower (snd (RecordInferenceCapture ic st))"
  by (simp add: records_safe_def RecordInferenceCapture_def Let_def list_all_ring_push capture_bounded_def)

lemma vendor_call_masked: "call_masked (sy_lower io) (vendor_call io r a path n)"
  using redact_Headers_masks redact_Query_masks by (fastforce simp: call_masked_def vendor_call_def)

lemma inference_call_masked: "call_masked lower (inference_call io r a path)"
  by (simp add: call_masked_def inference_call_def)

lemma capture_of_bounded: "capture_bounded (capture_of io r a path raw stream)"
  by (simp add: capture_bounded_def capture_of_def)

lemma SetScenario_safe: "SetScenario x y i sc st = (q, st') \<Longrightarrow> records_safe lower st \<Longrightarrow> records_safe lower st'"
  by (auto simp: SetScenario_def PatchAdapter_def Let_def records_safe_def RecordActivity_def split: option.splits if_splits)

lemma ResetCalls_safe: "records_safe lower st \<Longrightarrow> records_safe lower (ResetCalls i st)"
  by (simp add: records_safe_def ResetCalls_def list_all_iff)

lemma handleHarness_safe: "records_safe lower st \<Longrightarrow> records_safe lower (snd (handleHarness io r a path st))"
  by (auto simp: handleHarness_def ResetCalls_safe dest: SetScenario_safe split: option.split sum.split prod.split)

lemma ServeHTTP_safe:
  assumes "records_safe (sy_lower io) st"
  shows "records_safe (sy_lower io) (snd (ServeHTTP io r st))"
  using assms
  by (simp add: ServeHTTP_def Let_def handleHarness_safe handleInference_def RecordCall_safe RecordInferenceCapture_safe
      vendor_call_masked inference_call_masked capture_of_bounded split: option.split sum.split)

section \<open>A stream carries its reply\<close>

text \<open>What \<open>encoding/json\<close> reads of a payload into the fields the harness asks for.\<close>

definition delta_of :: "json \<Rightarrow> (string \<times> string) option" where
  "delta_of j =
     (case j of
        JObj kvs \<Rightarrow>
          (case map_of kvs ''delta'' of
             Some (JObj d) \<Rightarrow> Some (str (map_of d ''type''), str (map_of d ''text''))
           | _ \<Rightarrow> Some ([], []))
      | _ \<Rightarrow> None)"

lemma concat_chunks: "0 < n \<Longrightarrow> length s \<le> fuel \<Longrightarrow> concat (chunks_of fuel n s) = s"
  by (induction fuel n s rule: chunks_of.induct) auto

lemma chunk_size_pos: "0 < chunk_size h"
  by (simp add: chunk_size_def)

definition payload_read :: "body_codec \<Rightarrow> (json \<Rightarrow> string) \<Rightarrow> json \<Rightarrow> bool" where
  "payload_read bc marshal_json j \<longleftrightarrow> CHR 0x0A \<notin> set (marshal_json j) \<and> bc_delta bc (marshal_json j) = delta_of j"

definition text_of :: "json \<Rightarrow> string" where
  "text_of j = (case delta_of j of Some (t, txt) \<Rightarrow> if t = ''text_delta'' then txt else [] | None \<Rightarrow> [])"

lemma event_bytes_text:
  assumes "payload_read bc mj (snd e)" and "CHR 0x0A \<notin> set (fst e)"
  shows "reassembleSSE bc (event_bytes mj e @ rest) = text_of (snd e) @ reassembleSSE bc rest"
proof -
  have "event_bytes mj e @ rest =
      (''event: '' @ fst e) @ CHR 0x0A # (''data: '' @ mj (snd e)) @ CHR 0x0A # [] @ CHR 0x0A # rest"
    by (simp add: event_bytes_def)
  moreover have "split_on (CHR 0x0A) (''event: '' @ fst e) = [''event: '' @ fst e]"
    using assms(2) by (intro split_on_single) simp
  moreover have "split_on (CHR 0x0A) (''data: '' @ mj (snd e)) = [''data: '' @ mj (snd e)]"
    using assms(1) by (intro split_on_single) (simp add: payload_read_def)
  ultimately have "split_on (CHR 0x0A) (event_bytes mj e @ rest) =
      [''event: '' @ fst e, ''data: '' @ mj (snd e), []] @ split_on (CHR 0x0A) rest"
    by (simp only: split_on_append_sep) simp
  moreover have "event_text bc (''event: '' @ fst e) = []" "event_text bc [] = []"
    by (simp_all add: event_text_def has_prefix_def)
  moreover have "event_text bc (''data: '' @ mj (snd e)) = text_of (snd e)"
    using assms(1) by (simp add: event_text_def has_prefix_def payload_read_def text_of_def)
  ultimately show ?thesis by (simp add: reassembleSSE_def)
qed

lemma reassemble_events:
  assumes "\<forall>e \<in> set es. payload_read bc mj (snd e) \<and> CHR 0x0A \<notin> set (fst e)"
  shows "reassembleSSE bc (stream_bytes mj es) = concat (map (\<lambda>e. text_of (snd e)) es)"
  using assms
proof (induction es)
  case Nil
  show ?case by (simp add: stream_bytes_def reassembleSSE_def event_text_def has_prefix_def)
next
  case (Cons e es)
  then show ?case using event_bytes_text [of bc mj e "stream_bytes mj es"] by (simp add: stream_bytes_def)
qed

lemma delta_event_text: "text_of (snd (delta_event piece)) = piece"
  by (simp add: delta_event_def text_of_def delta_of_def str_def)

lemma event_names: "e \<in> set (streamInference rd h m reply i u) \<Longrightarrow> CHR 0x0A \<notin> set (fst e)"
  by (auto simp: streamInference_def delta_event_def)

lemma stream_texts: "concat (map (\<lambda>e. text_of (snd e)) (streamInference rd h m reply i u)) = reply"
proof -
  have "text_of (snd e) = []" if "e \<in> set (streamInference rd h m [] i u)" for e
    using that by (auto simp: streamInference_def text_of_def delta_of_def str_def)
  moreover have "concat (map (\<lambda>e. text_of (snd e)) (map delta_event (chunks_of (length reply) (chunk_size h) reply))) = reply"
    using concat_chunks [OF chunk_size_pos, of reply "length reply" h] by (simp add: comp_def delta_event_text)
  ultimately show ?thesis by (simp add: streamInference_def text_of_def delta_of_def str_def)
qed

end
