(* ===== verification/Control_System.thy ===== *)
theory Control_System
  imports Synthetic
begin

text \<open>
  The control plane as one program: the multiplexer (\<open>Routes\<close> in \<open>internal/server/server.go\<close>) over the
  API and the synthetic surface, the browser guard around it and the background work
  \<open>cmd/air-traffic-server\<close> starts: harness runs and emitter ticks. The built web application, when
  there is one, is an argument. The theorems are about every sequence of requests and background steps.
\<close>

section \<open>The handler of the process\<close>

datatype answer = Api reply | Vendor headers wire | Refused string

definition from_api :: "(nat \<times> reply) \<times> Server \<Rightarrow> (nat \<times> answer) \<times> Server" where
  "from_api x = ((fst (fst x), Api (snd (fst x))), snd x)"

definition from_vendor :: "Server \<Rightarrow> syn_reply \<times> Store \<Rightarrow> (nat \<times> answer) \<times> Server" where
  "from_vendor sv x = ((sr_status (fst x), Vendor (sr_headers (fst x)) (sr_body (fst x))), with_store (snd x) sv)"

text \<open>The predicate \<open>New\<close> installs in front of the writing control paths of the synthetic surface.\<close>

definition harness_guard :: "server_io \<Rightarrow> api_request \<Rightarrow> bool" where
  "harness_guard io r \<longleftrightarrow> so_adminKey io = [] \<or> validKey r (so_adminKey io)"

text \<open>A redirect is a 307 with no body of its own.\<close>

definition Routes :: "server_io \<Rightarrow> synthetic_io \<Rightarrow> (answer, Server) handler option \<Rightarrow> (answer, Server) handler" where
  "Routes io sio spa r sv =
     (if ar_method r \<noteq> ''CONNECT'' \<and> \<not> clean_path (ar_path r) then ((307, Api []), sv)
      else case route_of io (ar_path r) of
        Some (g, h) \<Rightarrow> from_api (gated io g h r sv)
      | None \<Rightarrow>
          if has_prefix (ar_path r) ''/synthetic/''
          then from_vendor sv (ServeHTTP (sio\<lparr>sy_guard := harness_guard io\<rparr>) r (sv_store sv))
          else (case spa of Some h \<Rightarrow> h r sv | None \<Rightarrow> from_api (handleRoot r sv)))"

definition control_plane ::
    "string list \<Rightarrow> server_io \<Rightarrow> synthetic_io \<Rightarrow> (answer, Server) handler option \<Rightarrow> (answer, Server) handler" where
  "control_plane hosts io sio spa = Wrap Refused (so_net io) hosts (Routes io sio spa)"

text \<open>The web application only serves files.\<close>

definition serves_files :: "(answer, Server) handler option \<Rightarrow> bool" where
  "serves_files spa \<longleftrightarrow> (case spa of None \<Rightarrow> True | Some h \<Rightarrow> (\<forall>r sv. snd (h r sv) = sv))"

lemma from_api_state [simp]: "snd (from_api x) = snd x"
  by (simp add: from_api_def)

lemma from_vendor_state [simp]: "snd (from_vendor sv x) = with_store (snd x) sv"
  by (simp add: from_vendor_def)

lemma with_store_same [simp]: "with_store (sv_store sv) sv = sv"
  by (simp add: with_store_def)

lemma Routes_state:
  assumes "serves_files spa"
  shows "snd (Routes io sio spa r sv) =
    (if ar_method r \<noteq> ''CONNECT'' \<and> \<not> clean_path (ar_path r) then sv
     else case route_of io (ar_path r) of
       Some (g, h) \<Rightarrow> snd (gated io g h r sv)
     | None \<Rightarrow>
         if has_prefix (ar_path r) ''/synthetic/''
         then with_store (snd (ServeHTTP (sio\<lparr>sy_guard := harness_guard io\<rparr>) r (sv_store sv))) sv else sv)"
  using assms by (cases spa) (simp_all add: Routes_def serves_files_def split: option.split)

section \<open>Who can change what\<close>

text \<open>The outcome of a request, by the route it takes.\<close>

definition change_allowed :: "server_io \<Rightarrow> api_request \<Rightarrow> Server \<Rightarrow> Server \<Rightarrow> bool" where
  "change_allowed io r sv sv' \<longleftrightarrow>
     (case route_of io (ar_path r) of
        Some (g, h) \<Rightarrow> \<not> isReadMethod (ar_method r) \<and> credential_shown io g r
      | None \<Rightarrow>
          has_prefix (ar_path r) ''/synthetic/'' \<and> sv_harness sv' = sv_harness sv \<and>
          (traffic_only (sv_store sv) (sv_store sv') \<or> harness_guard io r \<and> contains (ar_path r) ''/_harness/''))"

lemma Routes_change:
  assumes "serves_files spa" and changed: "snd (Routes io sio spa r sv) \<noteq> sv"
  shows "change_allowed io r sv (snd (Routes io sio spa r sv))"
proof (cases "route_of io (ar_path r)")
  case None
  let ?sv = "with_store (snd (ServeHTTP (sio\<lparr>sy_guard := harness_guard io\<rparr>) r (sv_store sv))) sv"
  have "has_prefix (ar_path r) ''/synthetic/''" "snd (Routes io sio spa r sv) = ?sv"
    using changed None by (simp_all add: Routes_state [OF assms(1)] split: if_split_asm)
  moreover have "traffic_only (sv_store sv) (sv_store ?sv) \<or> harness_guard io r \<and> contains (ar_path r) ''/_harness/''"
    using ServeHTTP_change [of "sv_store sv" "sio\<lparr>sy_guard := harness_guard io\<rparr>" r] by (simp add: with_store_def)
  ultimately show ?thesis using None by (simp add: change_allowed_def with_store_def)
next
  case (Some gh)
  obtain g h where gh: "gh = (g, h)" by (cases gh)
  with Some changed have "snd (gated io g h r sv) \<noteq> sv"
    by (simp add: Routes_state [OF assms(1)] split: if_split_asm)
  with Some gh route_change_shown [of io "ar_path r" g h r sv] show ?thesis by (simp add: change_allowed_def)
qed

section \<open>Reachable states\<close>

lemma execute_approvals:
  assumes "approvals_inv c rs" and "library_compiles c"
  shows "approvals_inv c (execute source client io run u ru rs)"
proof -
  obtain ru1 st where rs: "rs = (ru1, st)" by (cases rs)
  have "approvals_inv c (finish_run io snapshot run outcomes (ru2, st))" if "ru_proposals ru2 = ru_proposals ru1"
    for snapshot outcomes ru2
  proof -
    obtain score results where 1: "scoreRun (io_codec io) st (hn_ID run) outcomes = (score, results)" by (rule prod.exhaust)
    obtain promoted ru3 where 2: "flywheel (io_flywheel io) (hn_ID run) (hn_DetectorChain run) results st ru2 = (promoted, ru3)"
      by (rule prod.exhaust)
    have "proposals_ok c (ru_proposals ru3)"
      using flywheel_ok [of c ru2 "io_flywheel io" "hn_ID run" "hn_DetectorChain run" results st] assms that
      by (simp add: 2 rs approvals_inv_def)
    then show ?thesis
      using assms(1) by (simp add: finish_run_def 1 2 Let_def approvals_inv_def rs ingestRatchetObservation_def
          view_pack [OF intake_view_frames(5)])
  qed
  then show ?thesis by (simp add: execute_def Let_def rs)
qed

lemma execute_store:
  assumes "store_inv (snd rs)"
  shows "store_inv (snd (execute source client io run u ru rs))"
    and "intake_view (snd (execute source client io run u ru rs)) = intake_view (snd rs)"
  using assms
  by (simp_all add: execute_def finish_run_def Let_def ingestRatchetObservation_def AddObservation_inv split: prod.split)

text \<open>An emitter tick with the hook of the process: metrics of every adapter, then the drift set.\<close>

definition server_tick ::
    "(nat \<Rightarrow> float64) \<Rightarrow> (nat \<Rightarrow> reading) \<Rightarrow> int \<Rightarrow> (string \<times> float64) list \<Rightarrow> nat \<Rightarrow> nat \<Rightarrow> time \<Rightarrow> Store \<Rightarrow> Store" where
  "server_tick draw env interval m nd nr ts st =
     em_store (emitTick draw env (AddTickHook (drift_hook env) (new_emitter interval))
       \<lparr>em_state = m, em_store = st, em_draws = nd, em_reads = nr\<rparr> ts)"

lemma server_tick_inv: "store_inv st \<Longrightarrow> store_inv (server_tick draw env interval m nd nr ts st)"
  unfolding server_tick_def
  by (rule emitTick_inv) (simp_all add: AddTickHook_def new_emitter_def drift_hook_inv)

lemma emit_adapter_view: "intake_view (em_store (emit_adapter draw env n ts x a)) = intake_view (em_store x)"
  by (simp add: emit_adapter_def emitProxyStub_def emitSynthetic_def Let_def storeBatch_def split: option.split)

lemma server_tick_view: "intake_view (server_tick draw env interval m nd nr ts st) = intake_view st"
proof -
  have "intake_view (em_store (foldl (emit_adapter draw env interval ts) x as)) = intake_view (em_store x)" for x as
    by (induction as arbitrary: x) (simp_all add: emit_adapter_view)
  then show ?thesis
    by (simp add: server_tick_def emitTick_def AddTickHook_def new_emitter_def run_hook_def drift_hook_def split_beta)
qed

text \<open>
  One step: a request from anyone, the end of a run the harness had started, or a tick. \<open>parse\<close> is the
  URL parser and \<open>c\<close> the regexp compiler of the process.
\<close>

inductive server_step :: "(string \<Rightarrow> parsed_url option) \<Rightarrow> (string \<Rightarrow> string option) \<Rightarrow> Server \<Rightarrow> Server \<Rightarrow> bool" for parse c where
  request: "so_url io = parse \<Longrightarrow> so_compileErr io = c \<Longrightarrow> serves_files spa \<Longrightarrow>
    server_step parse c sv (snd (control_plane hosts io sio spa r sv))"
| run_ends: "sv_harness sv = Some ru \<Longrightarrow> execute source client rio run u ru0 (ru, sv_store sv) = (ru', st') \<Longrightarrow>
    server_step parse c sv (with_harness ru' (with_store st' sv))"
| tick: "server_step parse c sv (with_store (server_tick draw env interval m nd nr ts (sv_store sv)) sv)"

inductive_cases server_stepE: "server_step parse c sv sv'"

lemma Routes_keeps:
  assumes inv: "server_inv (so_url io) (so_compileErr io) sv" and spa: "serves_files spa"
  shows "server_inv (so_url io) (so_compileErr io) (snd (Routes io sio spa r sv))"
proof (cases "route_of io (ar_path r)")
  case None
  have "server_inv (so_url io) (so_compileErr io)
      (with_store (snd (ServeHTTP (sio\<lparr>sy_guard := harness_guard io\<rparr>) r (sv_store sv))) sv)"
    using inv by (intro server_inv_store ServeHTTP_inv ServeHTTP_view) (simp_all add: server_inv_parts)
  with inv None show ?thesis by (simp add: Routes_state [OF spa])
next
  case (Some gh)
  obtain g h where gh: "gh = (g, h)" by (cases gh)
  have "server_inv (so_url io) (so_compileErr io) (snd (gated io g h r sv))"
    using keeps_routes [of io "ar_path r" g h] Some gh inv
    by (intro route_gate.keeps [where P = "server_inv (so_url io) (so_compileErr io)"]) (simp_all add: keeps_inv_def)
  with Some gh inv show ?thesis by (simp add: Routes_state [OF spa])
qed

lemma control_plane_keeps:
  assumes "server_inv (so_url io) (so_compileErr io) sv" and "serves_files spa"
  shows "server_inv (so_url io) (so_compileErr io) (snd (control_plane hosts io sio spa r sv))"
  unfolding control_plane_def
  by (rule browser_guard.keeps [where P = "server_inv (so_url io) (so_compileErr io)"])
    (use assms in \<open>simp_all add: Routes_keeps\<close>)

lemma server_step_inv:
  assumes "server_step parse c sv sv'" and inv: "server_inv parse c sv" and compiles: "library_compiles c"
  shows "server_inv parse c sv'"
  using assms(1)
proof cases
  case (request io spa hosts sio r)
  with inv control_plane_keeps show ?thesis by blast
next
  case (run_ends ru source client rio run u ru0 ru' st')
  let ?rs = "execute source client rio run u ru0 (ru, sv_store sv)"
  have "runs_inv (fst ?rs)" "approvals_inv c ?rs"
    using attached [OF inv run_ends(2)] compiles by (simp_all add: execute_inv execute_approvals)
  moreover have "store_inv (snd ?rs)" and view: "intake_view (snd ?rs) = intake_view (sv_store sv)"
    using server_inv_parts(1) [OF inv] execute_store [of "(ru, sv_store sv)" source client rio run u ru0] by simp_all
  moreover have "intake_inv parse (snd ?rs)"
    using server_inv_parts(2) [OF inv] by (simp only: view_intake [OF view])
  ultimately show ?thesis
    using run_ends by (auto intro: server_inv_harness [OF inv])
next
  case (tick draw env interval m nd nr ts)
  with inv show ?thesis
    by (auto intro!: server_inv_store server_tick_inv server_tick_view simp: server_inv_parts)
qed

lemma server_steps_inv:
  assumes "(server_step parse c)\<^sup>*\<^sup>* sv sv'" and "server_inv parse c sv" and "library_compiles c"
  shows "server_inv parse c sv'"
  using assms(1)
proof (induction rule: rtranclp_induct)
  case (step y z)
  then show ?case using server_step_inv assms(3) by blast
qed (rule assms(2))

section \<open>Start-up\<close>

text \<open>
  What \<open>main\<close> builds before it listens, from the files it finds: a keystore that does not load is
  fatal, a policy or a pattern pack that does not load is reported. The emitter, unless it is off,
  seeds its history and the drift set.
\<close>

record boot_io =
  bo_env :: "nat \<Rightarrow> reading"
  bo_keyDir :: "string option"
  bo_keyUnmarshal :: "string \<Rightarrow> string + KeySnapshot"
  bo_keyRaw :: "string + string option"
  bo_policyDir :: "string option"
  bo_policyUnmarshal :: "string \<Rightarrow> string + Policy"
  bo_policyRaw :: "string + string option"
  bo_patterns :: "string \<Rightarrow> string + (PatternPack \<times> bool) \<times> PatternProposal list"
  bo_patternsRaw :: "string + string option"
  bo_ratchet :: "string \<Rightarrow> RatchetPoint option"
  bo_ratchetLines :: "string list"
  bo_corpus :: "string \<Rightarrow> string + CorpusEntry"
  bo_unreadable :: "string \<Rightarrow> bool"
  bo_corpusDir :: "(string \<times> string) list"
  bo_gatewayKey :: string
  bo_presidioURL :: string
  bo_gatewayURL :: "string option"
  bo_emit :: "((nat \<Rightarrow> float64) \<times> int) option"

definition boot_history :: "boot_io \<Rightarrow> Store \<Rightarrow> Store" where
  "boot_history b st =
     (case bo_emit b of
        None \<Rightarrow> st
      | Some (draw, interval) \<Rightarrow>
          (let x = SeedHistory draw (bo_env b) (AddTickHook (drift_hook (bo_env b)) (new_emitter interval))
                     \<lparr>em_state = [], em_store = st, em_draws = 0, em_reads = 8\<rparr>;
               n = em_reads x
           in fst (RefreshDrift (bo_env b) (n + 1) (fst (bo_env b n)) (em_store x))))"

definition Boot :: "boot_io \<Rightarrow> string + Server" where
  "Boot b =
     (let sv = NewServer (\<lambda>n. bo_env b (n + 2)) (new_store (bo_env b 0) (bo_env b 1));
          st = sv_store sv
      in case EnableKeystorePersistence (bo_keyDir b) (bo_keyUnmarshal b) (bo_keyRaw b) (st_keystore st) of
           (Some err, k) \<Rightarrow> Inl err
         | (None, k) \<Rightarrow>
             (let st = with_keystore k st;
                  st = snd (EnablePolicyPersistence (bo_policyUnmarshal b) (bo_policyDir b) (bo_policyRaw b) st)
              in case NewRunner (bo_patterns b) (bo_patternsRaw b) (bo_ratchet b) (bo_ratchetLines b) (bo_corpus b)
                        (bo_unreadable b) (bo_corpusDir b) (bo_gatewayKey b) (bo_presidioURL b) st of
                   (ru, st) \<Rightarrow>
                     Inr (SetHarness (case bo_gatewayURL b of None \<Rightarrow> ru | Some u \<Rightarrow> SetGatewayURL u ru)
                            (with_store (boot_history b st) sv))))"

lemma SeedHistory_inv:
  assumes "store_inv (em_store x)" and "\<And>h st n ts. h \<in> set (et_hooks e) \<Longrightarrow> store_inv st \<Longrightarrow> store_inv (fst (h ts st n))"
  shows "store_inv (em_store (SeedHistory draw env e x))"
proof -
  have "store_inv (em_store (foldl (emitTick draw env e) y tss))" if "store_inv (em_store y)" for y tss
    using that assms(2) by (intro foldl_invariant [where P = "\<lambda>x. store_inv (em_store x)"] emitTick_inv) auto
  then show ?thesis using assms(1) by (simp add: SeedHistory_def Let_def)
qed

lemma boot_history_inv: "store_inv st \<Longrightarrow> store_inv (boot_history b st)"
  by (auto simp: boot_history_def Let_def AddTickHook_def new_emitter_def drift_hook_inv
      intro!: RefreshDrift_inv SeedHistory_inv split: option.split)

lemma emitTick_view:
  assumes "\<And>h st n ts. h \<in> set (et_hooks e) \<Longrightarrow> intake_view (fst (h ts st n)) = intake_view st"
  shows "intake_view (em_store (emitTick draw env e x ts)) = intake_view (em_store x)"
proof -
  have "intake_view (em_store (foldl (emit_adapter draw env (et_interval e) ts) y as)) = intake_view (em_store y)" for y as
    by (induction as arbitrary: y) (simp_all add: emit_adapter_view)
  moreover have "set hs \<subseteq> set (et_hooks e) \<Longrightarrow> intake_view (em_store (foldl (run_hook ts) y hs)) = intake_view (em_store y)" for hs y
    by (induction hs arbitrary: y) (simp_all add: run_hook_def split_beta assms)
  ultimately show ?thesis by (simp add: emitTick_def)
qed

lemma boot_history_view: "intake_view (boot_history b st) = intake_view st"
proof -
  have "intake_view (em_store (SeedHistory draw env e x)) = intake_view (em_store x)" if "et_hooks e = [drift_hook env]" for draw env e x
  proof -
    have hook: "intake_view (fst (h ts st n)) = intake_view st" if "h \<in> set (et_hooks e)" for h st n ts
      using that \<open>et_hooks e = [drift_hook env]\<close> by (simp add: drift_hook_def)
    have tick: "intake_view (em_store (emitTick draw env e y ts)) = intake_view (em_store y)" for y ts
      by (rule emitTick_view) (rule hook)
    have "intake_view (em_store (foldl (emitTick draw env e) y tss)) = intake_view (em_store y)" for y tss
      by (induction tss arbitrary: y) (simp_all add: tick)
    then show ?thesis by (simp add: SeedHistory_def Let_def)
  qed
  then show ?thesis
    by (simp add: boot_history_def Let_def AddTickHook_def new_emitter_def split: option.split)
qed

text \<open>The first start, with an empty data directory, is one the invariant holds in.\<close>

lemma server_inv_ready:
  assumes "store_inv st" "intake_inv parse st" "pack_Rules (GetPatternPack st) = []" "runs_inv ru" "ru_proposals ru = []"
  shows "server_inv parse c (SetHarness ru (with_store st sv))"
  using assms
  by (simp add: server_inv_def harness_inv_def SetHarness_def with_store_def approvals_inv_def proposals_ok_def pack_checked_def)

lemma first_keystore:
  "keystore_inv k \<Longrightarrow> EnableKeystorePersistence d u (Inr None) k = (err, k') \<Longrightarrow> keystore_inv k'"
  by (auto simp: EnableKeystorePersistence_def keyfile_load_def Let_def keystore_inv_def split: option.splits)

lemma first_policy:
  "intake_view (snd (EnablePolicyPersistence u d (Inr None) st)) = intake_view st"
  by (simp add: EnablePolicyPersistence_def policyfile_load_def intake_view_def Let_def split: option.split)

lemma first_runner:
  assumes "NewRunner u (Inr None) pt lines pe unread dir key purl st = (ru, st')"
  shows "runs_inv ru" "ru_proposals ru = []" "st' = SetPatternPack False empty_pattern_pack st"
  using assms by (auto simp: NewRunner_def loadPatterns_def Let_def runs_inv_def)

lemma Boot_inv:
  assumes boot: "Boot b = Inr sv" and "bo_keyRaw b = Inr None" and "bo_policyRaw b = Inr None" and "bo_patternsRaw b = Inr None"
  shows "server_inv parse c sv"
proof -
  define sv0 where "sv0 = NewServer (\<lambda>n. bo_env b (n + 2)) (new_store (bo_env b 0) (bo_env b 1))"
  have 0: "server_inv parse c sv0" unfolding sv0_def by (rule boot_server_inv)
  obtain k where k: "EnableKeystorePersistence (bo_keyDir b) (bo_keyUnmarshal b) (Inr None) (st_keystore (sv_store sv0)) = (None, k)"
    using boot assms(2) unfolding Boot_def Let_def sv0_def by (auto split: prod.splits option.splits)
  define st1 where "st1 = with_keystore k (sv_store sv0)"
  define st2 where "st2 = snd (EnablePolicyPersistence (bo_policyUnmarshal b) (bo_policyDir b) (Inr None) st1)"
  obtain ru st3 where new: "NewRunner (bo_patterns b) (Inr None) (bo_ratchet b) (bo_ratchetLines b) (bo_corpus b)
      (bo_unreadable b) (bo_corpusDir b) (bo_gatewayKey b) (bo_presidioURL b) st2 = (ru, st3)" by (rule prod.exhaust)
  have sv: "sv = SetHarness (case bo_gatewayURL b of None \<Rightarrow> ru | Some u \<Rightarrow> SetGatewayURL u ru) (with_store (boot_history b st3) sv0)"
    using boot k new unfolding Boot_def Let_def assms(2-4) sv0_def [symmetric] st2_def st1_def by simp
  have 1: "store_inv st1"
    unfolding st1_def using first_keystore [OF server_inv_keys [OF 0] k] server_inv_parts(1) [OF 0] by (intro store_inv_keystore)
  have 2: "store_inv st2" unfolding st2_def using 1 by (rule EnablePolicyPersistence_inv)
  have "intake_view st2 = intake_view (sv_store sv0)" unfolding st2_def st1_def by (simp add: first_policy)
  from view_intake [OF this] have "intake_inv parse st2" using server_inv_parts(2) [OF 0] by simp
  then have 3: "intake_inv parse st3" "pack_Rules (GetPatternPack st3) = []"
    unfolding first_runner(3) [OF new]
    by (simp_all add: intake_inv_def SetPatternPack_def GetPatternPack_def empty_pattern_pack_def)
  have "store_inv st3" unfolding first_runner(3) [OF new] using 2 by (rule SetPatternPack_inv)
  then have "store_inv (boot_history b st3)" by (rule boot_history_inv)
  moreover have "intake_inv parse (boot_history b st3)" using 3(1) by (simp only: view_intake [OF boot_history_view])
  moreover have "pack_Rules (GetPatternPack (boot_history b st3)) = []" using 3(2) by (simp only: view_pack [OF boot_history_view])
  moreover have "runs_inv (case bo_gatewayURL b of None \<Rightarrow> ru | Some u \<Rightarrow> SetGatewayURL u ru)"
    "ru_proposals (case bo_gatewayURL b of None \<Rightarrow> ru | Some u \<Rightarrow> SetGatewayURL u ru) = []"
    using first_runner(1,2) [OF new] by (simp_all add: SetGatewayURL_def runs_inv_def split: option.split)
  ultimately show ?thesis unfolding sv by (rule server_inv_ready)
qed

end
