(* ===== verification/Coverage_Properties.thy ===== *)
theory Coverage_Properties
  imports Demo Control_System
begin

text \<open>
  What the control plane says about enforcement, across its parts: the coverage report of an applied
  policy, the drift set, the policy that comes back after a restart, and the heartbeats both rest on.
\<close>

section \<open>Coverage\<close>

text \<open>A store with one adapter and one heartbeat, and a policy, for the concrete runs.\<close>

definition demo_capability :: "string \<Rightarrow> string \<Rightarrow> Capability" where
  "demo_capability key disposition =
     \<lparr>cap_Key = key, cap_Name = key, cap_Plane = PlaneDataPolicy, cap_Disposition = disposition,
      cap_Enforcement = EnforcementSeedOnly, cap_Mechanism = [], cap_Endpoint = [], cap_DocumentationURL = [],
      cap_Retryable = False, cap_Note = []\<rparr>"

definition demo_adapter :: "string \<Rightarrow> Capability list \<Rightarrow> Adapter" where
  "demo_adapter i caps =
     zero_adapter\<lparr>ad_ID := i, ad_Enabled := True, ad_Mode := ModeSynthetic, ad_Capabilities := caps\<rparr>"

definition demo_adapters :: "Adapter \<Rightarrow> Store" where
  "demo_adapters a = empty_store\<lparr>st_adapters := [(ad_ID a, a)], st_order := [ad_ID a]\<rparr>"

definition demo_received :: Store where
  "demo_received =
     SetGatewayEnforcement (100, []) (heartbeat demo_gw)
       (demo_adapters (demo_adapter ''anthropic'' [demo_capability ''pii_redaction'' DispProxyEnforced]))"

definition demo_policy :: Policy where
  "demo_policy =
     \<lparr>pol_Baseline = ''fintech'', pol_VendorDefaults = [], pol_Vendors = [], pol_Agentic = [], pol_Budget = [],
      pol_AppliedAt = 0\<rparr>"

text \<open>A store all of whose heartbeats were built by gateways, stamped on receipt.\<close>

definition genuine :: "Store \<Rightarrow> bool" where
  "genuine st \<longleftrightarrow> (\<forall>e \<in> set (st_gwEnforce st). \<exists>gw t. snd e = (heartbeat gw)\<lparr>er_At := t\<rparr>)"

definition demo_clock :: "nat \<Rightarrow> reading" where
  "demo_clock n = (int n, replicate 16 (CHR ''0''))"

definition demo_policy_fs :: policy_fs where
  "demo_policy_fs =
     \<lparr>pol_marshal = (\<lambda>p. if p = demo_policy\<lparr>pol_AppliedAt := 4\<rparr> then Inr ''P'' else Inl ''no''),
      pol_write_err = None, pol_rename_err = None\<rparr>"

lemma demo_gw_vendors: "er_Vendors (heartbeat demo_gw) = [(''anthropic'', [''pii_redaction''])]"
proof -
  have "actionFor demo_gw no_principal = (''mask'', [])"
    by (subst actionFor_pinned) (simp_all add: demo_gw_def demo_cfg_def)
  then show ?thesis
    by (simp add: heartbeat_def enforces_def ActionMask_def allAppsEnforce_def) (simp add: demo_gw_def demo_cfg_def)
qed

lemma demo_heartbeats:
  "st_gwEnforce demo_received = [(gatewayID demo_gw, (heartbeat demo_gw)\<lparr>er_At := 100\<rparr>)]"
  by (simp add: demo_received_def SetGatewayEnforcement_def demo_adapters_def empty_store_def heartbeat_def Let_def
      zero_time_def maxGatewayEnforce_def)

lemma demo_listed:
  "ListAdapters demo_received = [demo_adapter ''anthropic'' [demo_capability ''pii_redaction'' DispProxyEnforced]]"
  by (simp add: demo_received_def SetGatewayEnforcement_def demo_adapters_def ListAdapters_def demo_adapter_def Let_def)

lemma demo_genuine: "genuine demo_received"
  by (auto simp: genuine_def demo_heartbeats)

lemma demo_outcome:
  assumes "now < 100 + GatewayStaleAfter"
  shows "outcome_of demo_policy now demo_received
    (demo_adapter ''anthropic'' [demo_capability ''pii_redaction'' DispProxyEnforced])
    (demo_capability ''pii_redaction'' DispProxyEnforced) = ''applied_proxy''"
proof -
  have "\<not> baa_excluded demo_policy a" for a
    by (simp add: baa_excluded_def BaselineByID_def Baselines_def demo_policy_def)
  moreover have "fst (snd (GatewayEnforcement now ''anthropic'' ''pii_redaction'' GatewayStaleAfter demo_received))"
    using assms by (simp add: GatewayEnforcement_def demo_heartbeats listed_def demo_gw_vendors)
  ultimately show ?thesis
    by (simp add: outcome_of_def classify_outcome enforced_by_def demo_adapter_def demo_capability_def disposition_defs
        split_beta)
qed

lemma demo_rows:
  "map cv_Outcome (rep_Rows (fst (Apply demo_policy_fs demo_clock demo_received demo_policy))) = [''applied_proxy'']"
proof -
  have "fst (demo_clock 1) < 100 + GatewayStaleAfter"
    by (simp add: demo_clock_def GatewayStaleAfter_def GatewayHeartbeatInterval_def second_def)
  from demo_outcome [OF this] show ?thesis
    by (simp add: Apply_rows reconcile_def demo_listed) (simp add: demo_adapter_def)
qed

text \<open>
  C27: The coverage report covers every control once: its rows are the capabilities of the adapters in
  catalog order, each with the outcome its disposition, the baseline's BAA rule and the heartbeats of
  that moment give, and the summary counts, for every outcome, the rows that have it.
\<close>

theorem coverage_report_complete:
  "let rep = fst (Apply fs env st p) in
     map row_key (rep_Rows rep) = controls (ListAdapters st) \<and>
     (\<forall>row \<in> set (rep_Rows rep). row_of p env st row) \<and>
     (\<forall>outcome. tally outcome (rep_Summary rep) = int (length (filter (\<lambda>r. cv_Outcome r = outcome) (rep_Rows rep))))"
  using reconcile_rows [of env p st] by (simp add: Apply_rows reconcile_keys reconcile_summary)

theorem coverage_report_complete_witness:
  "map row_key (rep_Rows (fst (Apply demo_policy_fs demo_clock demo_received demo_policy))) =
    [(''anthropic'', ''pii_redaction'')]"
  using coverage_report_complete [of demo_policy_fs demo_clock demo_received demo_policy]
  by (simp add: Let_def demo_listed controls_def demo_adapter_def demo_capability_def)

text \<open>
  C26: A control reported as applied by the proxy is enforced: when every heartbeat the store holds was
  built by a gateway, the row names Anthropic's PII redaction, its adapter has a signed BAA if the
  baseline only admits such vendors, and a gateway whose heartbeat is younger than the staleness window runs
  every caller it authenticates under mask or block.
\<close>

theorem applied_proxy_honest:
  assumes "genuine st" and row: "row \<in> set (rep_Rows (fst (Apply fs env st p)))" and "cv_Outcome row = ''applied_proxy''"
  shows "cv_Vendor row = ''anthropic'' \<and> cv_Capability row = ''pii_redaction'' \<and> cv_Disposition row = DispProxyEnforced \<and>
    (\<exists>a \<in> set (ListAdapters st). ad_ID a = ''anthropic'' \<and>
      (\<forall>b. BaselineByID (pol_Baseline p) = Some b \<and> bl_BAAOnly b \<longrightarrow> ad_BAASigned a)) \<and>
    (\<exists>i gw t k. (i, (heartbeat gw)\<lparr>er_At := t\<rparr>) \<in> set (st_gwEnforce st) \<and> fst (env k) - GatewayStaleAfter < t \<and>
      (\<forall>w now key route caller. authenticate w now gw key route = Some caller \<longrightarrow> enforces (fst (actionFor gw caller))))"
proof -
  from row have "row_of p env st row" using reconcile_rows [of env p st] by (simp add: Apply_rows)
  then obtain a c k where r: "cv_Vendor row = ad_ID a" "cv_Capability row = cap_Key c" "cv_Disposition row = cap_Disposition c"
      "outcome_of p (fst (env k)) st a c = ''applied_proxy''" and a: "a \<in> set (ListAdapters st)"
    using assms(3) unfolding row_of_def by force
  from applied_proxy_fresh [OF r(4)] obtain i rep where rep: "cap_Disposition c = DispProxyEnforced"
      "(i, rep) \<in> set (st_gwEnforce st)" "listed (ad_ID a) (cap_Key c) rep" "fst (env k) - GatewayStaleAfter < er_At rep"
      and baa: "\<not> baa_excluded p a"
    by blast
  with assms(1) obtain gw t where gw: "rep = (heartbeat gw)\<lparr>er_At := t\<rparr>" unfolding genuine_def by fastforce
  with rep(3) have claim: "ad_ID a = ''anthropic''" "cap_Key c = ''pii_redaction''"
      "enforces (fst (actionFor gw no_principal))" "allAppsEnforce gw"
    by (simp_all add: heartbeat_claim)
  then have "\<forall>w now key route caller. authenticate w now gw key route = Some caller \<longrightarrow> enforces (fst (actionFor gw caller))"
    using allAppsEnforce_callers by blast
  with rep(2,4) have "\<exists>i gw t k. (i, (heartbeat gw)\<lparr>er_At := t\<rparr>) \<in> set (st_gwEnforce st) \<and> fst (env k) - GatewayStaleAfter < t \<and>
      (\<forall>w now key route caller. authenticate w now gw key route = Some caller \<longrightarrow> enforces (fst (actionFor gw caller)))"
    unfolding gw by (intro exI [of _ i] exI [of _ gw] exI [of _ t] exI [of _ k]) simp
  moreover have "\<exists>a \<in> set (ListAdapters st). ad_ID a = ''anthropic'' \<and>
      (\<forall>b. BaselineByID (pol_Baseline p) = Some b \<and> bl_BAAOnly b \<longrightarrow> ad_BAASigned a)"
    using a claim(1) baa by (auto simp: baa_excluded_def)
  ultimately show ?thesis using r(1-3) rep(1) claim(1,2) by simp
qed

theorem applied_proxy_honest_witness:
  "\<exists>row. row \<in> set (rep_Rows (fst (Apply demo_policy_fs demo_clock demo_received demo_policy))) \<and>
    cv_Outcome row = ''applied_proxy'' \<and> cv_Vendor row = ''anthropic''"
proof -
  obtain row where row: "row \<in> set (rep_Rows (fst (Apply demo_policy_fs demo_clock demo_received demo_policy)))"
      "cv_Outcome row = ''applied_proxy''"
    using demo_rows by auto
  with applied_proxy_honest [OF demo_genuine row] show ?thesis by blast
qed

section \<open>Drift\<close>

text \<open>
  C28: The drift set is right. Its environment records are exactly the managed controls of enabled
  adapters that a device can override and the simulated device did; every other record names a
  proxy-enforced control no gateway freshly reports, an error if one ever reported it and a warning
  only where the applied baseline expects redaction; and a control whose every report went stale is
  in the set as an error.
\<close>

theorem drift_report_exact:
  "let keys = drift_core ` set (st_drift (fst (RefreshDrift env n ts st))) in
     (\<forall>k. env_reason st k \<longrightarrow> k \<in> keys) \<and> (\<forall>k \<in> keys. env_reason st k \<or> gateway_reason env st k) \<and>
     (\<forall>a \<in> set (ListAdapters st). \<forall>c \<in> set (ad_Capabilities a).
        \<not> inactive a \<and> cap_Disposition c = DispProxyEnforced \<and> silent env st (ad_ID a) (cap_Key c) \<longrightarrow>
        (ad_ID a, cap_Key c, DispProxyEnforced, ''error'') \<in> keys)"
proof -
  let ?keys = "drift_core ` set (st_drift (fst (RefreshDrift env n ts st)))"
  obtain records st1 n1 where e: "over_capabilities (env_drift env ts) (ListAdapters st) ([], st, n) = (records, st1, n1)"
    by (cases "over_capabilities (env_drift env ts) (ListAdapters st) ([], st, n)")
  have view: "drift_view st1 = drift_view st" using env_drifts_sound [of st env ts n] by (simp add: e env_sound_def)
  have keys: "?keys = found (records, st1, n1) \<union> found (gatewayDrift env ts st1 n1)" by (simp add: drift_found e)
  have "k \<in> ?keys" if "env_reason st k" for k
    using env_reason_found [OF that, of env ts "([], st, n)"] by (simp add: keys e)
  moreover have "\<forall>k \<in> ?keys. env_reason st k \<or> gateway_reason env st k" using RefreshDrift_reasons by blast
  moreover have "(ad_ID a, cap_Key c, DispProxyEnforced, ''error'') \<in> ?keys"
    if "a \<in> set (ListAdapters st)" "c \<in> set (ad_Capabilities a)" "\<not> inactive a" "cap_Disposition c = DispProxyEnforced"
      "silent env st (ad_ID a) (cap_Key c)" for a c
  proof -
    have "silent env st1 (ad_ID a) (cap_Key c)" using that(5) view by (simp add: silent_def drift_view_def)
    then show ?thesis
      using that(1-4) unfolding keys by (intro UnI2 silent_found) (simp_all add: view_ListAdapters [OF view])
  qed
  ultimately show ?thesis by (simp add: Let_def)
qed

theorem drift_report_exact_witness:
  "(''anthropic'', ''pii_redaction'', DispProxyEnforced, ''error'')
     \<in> drift_core ` set (st_drift (fst (RefreshDrift (\<lambda>n. (GatewayStaleAfter + 100 + int n, [])) 0 0 demo_received)))"
proof -
  let ?env = "\<lambda>n. (GatewayStaleAfter + 100 + int n, [])" and ?c = "demo_capability ''pii_redaction'' DispProxyEnforced"
  have "silent ?env demo_received ''anthropic'' ''pii_redaction''"
    by (simp add: silent_def demo_heartbeats listed_def demo_gw_vendors)
  moreover have "\<not> inactive (demo_adapter ''anthropic'' [?c])"
    by (simp add: inactive_def demo_adapter_def mode_defs)
  ultimately show ?thesis
    using drift_report_exact [of ?env 0 0 demo_received]
    by (simp add: Let_def demo_listed) (simp add: demo_adapter_def demo_capability_def)
qed

section \<open>Restarts and outages\<close>

lemma reconcile_policy:
  "st_policyFile (ap_store (reconcile env p st)) = st_policyFile st \<and>
     st_policyDisk (ap_store (reconcile env p st)) = st_policyDisk st"
  by (rule reconcile_invariant) (simp_all add: apply_capability_def Let_def)

text \<open>
  C29: An applied policy survives a restart: when \<open>Apply\<close> with persistence enabled reports no error, a
  new process that reads the committed file comes back with that very policy, applied time
  included, whatever it held before; and when it reports one, the file is still the previous one.
  The JSON encoding of a policy is assumed to decode to it.
\<close>

theorem policy_survives_restart:
  assumes codec: "\<And>p buf. pol_marshal fs p = Inr buf \<Longrightarrow> unmarshal buf = Inr p"
    and "st_policyFile st" and st': "st' = fst (snd (Apply fs env st p))"
  shows "case PolicyPersistError st' of
      None \<Rightarrow> (\<exists>fresh. EnablePolicyPersistence unmarshal None (Inr (st_policyDisk st')) other = (None, fresh) \<and>
        GetPolicy fresh = GetPolicy st' \<and> GetPolicy fresh \<noteq> None)
    | Some _ \<Rightarrow> st_policyDisk st' = st_policyDisk st"
proof -
  define x where "x = reconcile env p st"
  define q where "q = p\<lparr>pol_AppliedAt := fst (env (ap_reads x))\<rparr>"
  have on: "st_policyFile (ap_store x)" and disk: "st_policyDisk (ap_store x) = st_policyDisk st"
    using assms(2) reconcile_policy [of env p st] by (simp_all add: x_def)
  obtain err committed where save: "policyfile_save fs q (st_policyDisk st) = (err, committed)" by (rule prod.exhaust)
  have parts: "PolicyPersistError st' = err" "st_policyDisk st' = committed" "GetPolicy st' = Some q"
    using save on disk unfolding st' Apply_def x_def q_def
    by (simp_all add: Let_def SetPolicy_def PolicyPersistError_def GetPolicy_def)
  show ?thesis
  proof (cases err)
    case None
    with save obtain buf where "pol_marshal fs q = Inr buf" "committed = Some buf"
      by (auto simp: policyfile_save_def split: sum.splits option.splits)
    with codec have "committed = Some buf" "unmarshal buf = Inr q" by simp_all
    with None parts show ?thesis
      by (simp add: EnablePolicyPersistence_def policyfile_load_def GetPolicy_def)
  next
    case (Some e)
    with save have "committed = st_policyDisk st"
      by (auto simp: policyfile_save_def split: sum.splits option.splits)
    with Some parts show ?thesis by simp
  qed
qed

definition demo_filed :: Store where
  "demo_filed = demo_received\<lparr>st_policyFile := True\<rparr>"

lemma demo_policy_saved: "PolicyPersistError (fst (snd (Apply demo_policy_fs demo_clock demo_filed demo_policy))) = None"
proof -
  let ?x = "reconcile demo_clock demo_policy demo_filed"
  have "ListAdapters demo_filed = ListAdapters demo_received"
    by (simp add: demo_filed_def ListAdapters_def)
  moreover have "ap_reads (apply_capability env p base a x c) = ap_reads x + 3" for env p base a x c
    by (simp add: apply_capability_def Let_def)
  ultimately have "ap_reads ?x = 4"
    by (simp add: reconcile_def demo_listed) (simp add: demo_adapter_def)
  moreover have "st_policyFile (ap_store ?x)" using reconcile_policy by (simp add: demo_filed_def)
  ultimately show ?thesis
    by (simp add: Apply_def Let_def SetPolicy_def policyfile_save_def demo_policy_fs_def demo_clock_def PolicyPersistError_def)
qed

theorem policy_survives_restart_witness:
  "\<exists>fresh. EnablePolicyPersistence (\<lambda>b. if b = ''P'' then Inr (demo_policy\<lparr>pol_AppliedAt := 4\<rparr>) else Inl ''no'') None
      (Inr (st_policyDisk (fst (snd (Apply demo_policy_fs demo_clock demo_filed demo_policy))))) empty_store = (None, fresh) \<and>
    GetPolicy fresh \<noteq> None"
proof -
  let ?unmarshal = "\<lambda>b. if b = ''P'' then Inr (demo_policy\<lparr>pol_AppliedAt := 4\<rparr>) else Inl ''no''"
  have codec: "?unmarshal buf = Inr p" if "pol_marshal demo_policy_fs p = Inr buf" for p buf
    using that by (simp add: demo_policy_fs_def split: if_splits)
  have "st_policyFile demo_filed" by (simp add: demo_filed_def)
  from policy_survives_restart [where fs = demo_policy_fs and env = demo_clock and p = demo_policy
      and unmarshal = ?unmarshal and other = empty_store, OF codec this refl]
  show ?thesis by (auto simp: demo_policy_saved)
qed

text \<open>
  C30: A short outage does not cost the coverage claim. A heartbeat was accepted; then some attempts fail
  and one more is made, each held up in the loop by at most \<open>hold\<close> and taking at most \<open>most\<close>; as long as
  the waits (the interval, two seconds after each failure) and these delays stay below the staleness window, the control
  plane believes the accepted heartbeat, for every control it listed, until that last attempt is over. With an idle
  loop that is fourteen failures that are answered at once, and two that run into the client's timeout.
\<close>

theorem heartbeat_survives_outage:
  assumes "(i, rep) \<in> set (st_gwEnforce st)" and "listed v c rep" and "sent \<le> er_At rep" and "took \<le> most"
    and "\<forall>b \<in> set failures. bt_answer b \<noteq> Accepted" and "\<forall>b \<in> set (failures @ [next_beat]). bt_held b \<le> hold \<and> bt_took b \<le> most"
    and "GatewayHeartbeatInterval + most + (hold + most) * (int (length failures) + 1) + 2 * second * int (length failures)
      < GatewayStaleAfter"
    and "now \<le> last (beat_ends (sent + took + GatewayHeartbeatInterval) (failures @ [next_beat]))"
  shows "fst (snd (GatewayEnforcement now v c GatewayStaleAfter st))"
proof -
  have "last (beat_ends (sent + took + GatewayHeartbeatInterval) (failures @ [next_beat])) \<le>
      sent + took + GatewayHeartbeatInterval + (hold + most) * (int (length failures) + 1) + 2 * second * int (length failures)"
    by (rule beat_ends_bound) (use assms(5,6) in auto)
  with assms(3,4,7,8) have "now - GatewayStaleAfter < er_At rep" by linarith
  with assms(1,2) show ?thesis unfolding GatewayEnforcement_def scan_heartbeats_fresh by force
qed

text \<open>Two attempts in a row run into the timeout, in a loop held up for a second each time.\<close>

definition demo_timeout :: beat where
  "demo_timeout = \<lparr>bt_held = second, bt_took = postTimeout, bt_answer = Unreachable\<rparr>"

theorem heartbeat_survives_outage_witness:
  "fst (snd (GatewayEnforcement (100 + 37 * second) ''anthropic'' ''pii_redaction'' GatewayStaleAfter demo_received))"
proof -
  let ?next = "\<lparr>bt_held = second, bt_took = postTimeout, bt_answer = Accepted\<rparr>"
  have ends: "beat_ends (100 + 0 + GatewayHeartbeatInterval) ([demo_timeout, demo_timeout] @ [?next]) =
      [100 + 21 * second, 100 + 29 * second, 100 + 37 * second]"
    by (simp add: demo_timeout_def beat_delay_def postTimeout_def GatewayHeartbeatInterval_def second_def)
  show ?thesis
    by (rule heartbeat_survives_outage [where i = "gatewayID demo_gw" and rep = "(heartbeat demo_gw)\<lparr>er_At := 100\<rparr>"
          and sent = 100 and took = 0 and most = postTimeout and hold = second and failures = "[demo_timeout, demo_timeout]"
          and next_beat = ?next])
      (simp_all only: ends, simp_all add: demo_heartbeats listed_def demo_gw_vendors demo_timeout_def postTimeout_def
        GatewayHeartbeatInterval_def GatewayStaleAfter_def second_def)
qed

end
