(* ===== verification/Control_Properties.thy ===== *)
theory Control_Properties
  imports Coverage_Properties
begin

text \<open>
  What holds of the control plane as a whole: its invariant over every run of the process, and who
  can change its state.
\<close>

section \<open>The process\<close>

text \<open>
  C24: The control plane keeps its invariant from its first start on, over every sequence of requests
  from anyone, ends of harness runs and emitter ticks: the rings hold at most 5000 records and ids
  rise, the adapters are the catalog's in a known mode, at most 32 heartbeats are kept, each under
  its gateway's id and with a plain http(s) URL, credentials hold references and no raw secret, every
  report is clamped, the keystore satisfies its invariant, one run at most is unfinished and is the
  last one started, and every rule in the served pack compiles. The recognizers of the candidate library
  are assumed to compile.
\<close>

theorem server_invariant:
  assumes boot: "Boot b = Inr sv" and "bo_keyRaw b = Inr None" "bo_policyRaw b = Inr None" "bo_patternsRaw b = Inr None"
    and run: "(server_step parse c)\<^sup>*\<^sup>* sv sv'" and compiles: "library_compiles c"
  shows "store_inv (sv_store sv') \<and> intake_inv parse (sv_store sv') \<and> harness_inv c sv'"
proof -
  have "server_inv parse c sv" by (rule Boot_inv [OF assms(1-4)])
  from server_steps_inv [OF run this compiles] show ?thesis by (simp add: server_inv_def)
qed

definition demo_boot :: boot_io where
  "demo_boot =
     \<lparr>bo_env = demo_clock, bo_keyDir = None, bo_keyUnmarshal = (\<lambda>_. Inl ''no''), bo_keyRaw = Inr None,
      bo_policyDir = None, bo_policyUnmarshal = (\<lambda>_. Inl ''no''), bo_policyRaw = Inr None,
      bo_patterns = (\<lambda>_. Inl ''no''), bo_patternsRaw = Inr None, bo_ratchet = (\<lambda>_. None), bo_ratchetLines = [],
      bo_corpus = (\<lambda>_. Inl ''no''), bo_unreadable = (\<lambda>_. False), bo_corpusDir = [], bo_gatewayKey = [],
      bo_presidioURL = [], bo_gatewayURL = None, bo_emit = None\<rparr>"

lemma demo_boots: "\<exists>sv. Boot demo_boot = Inr sv"
  by (simp add: Boot_def demo_boot_def EnableKeystorePersistence_def keyfile_load_def Let_def split: prod.split)

theorem server_invariant_witness:
  "\<exists>sv sv'. Boot demo_boot = Inr sv \<and> server_step (\<lambda>_. None) (\<lambda>_. None) sv sv' \<and> store_inv (sv_store sv')"
proof -
  obtain sv where sv: "Boot demo_boot = Inr sv" using demo_boots by blast
  let ?sv = "with_store (server_tick (\<lambda>_. 1/2) demo_clock 60 [] 0 0 5 (sv_store sv)) sv"
  have step: "server_step (\<lambda>_. None) (\<lambda>_. None) sv ?sv" by (rule server_step.tick)
  then have steps: "(server_step (\<lambda>_. None) (\<lambda>_. None))\<^sup>*\<^sup>* sv ?sv" by (rule r_into_rtranclp)
  have "store_inv (sv_store ?sv)"
    using server_invariant [OF sv _ _ _ steps] by (simp add: demo_boot_def library_compiles_def)
  with sv step show ?thesis by blast
qed









end
