(* ===== verification/Score_Spec.thy ===== *)
theory Score_Spec
  imports Harness_Score
begin

text \<open>
  What a score says, stated over the outcomes one by one and without the loops of \<open>score.go\<close>: which
  seeded values were reported, which arrived raw, which nothing is known about; and that the loops
  count exactly these.
\<close>

section \<open>One outcome\<close>

definition report_of :: "Store \<Rightarrow> requestOutcome \<Rightarrow> Report option" where
  "report_of st o1 = GatewayReportByRequestID (oc_RequestID o1) st"

definition capture_at :: "Store \<Rightarrow> requestOutcome \<Rightarrow> InferenceCapture option" where
  "capture_at st o1 = InferenceCaptureByRequestID (oc_RequestID o1) st"

text \<open>Blocked: the report says so, or there is none and the answer was 400.\<close>

definition was_blocked :: "Store \<Rightarrow> requestOutcome \<Rightarrow> bool" where
  "was_blocked st o1 \<longleftrightarrow>
     (case report_of st o1 of Some rep \<Rightarrow> rr_Action rep = ''block'' | None \<Rightarrow> oc_HTTPStatus o1 = 400)"

text \<open>A value whose fate is known: the upstream recorded what it received, or nothing was sent.\<close>

definition verified :: "Store \<Rightarrow> requestOutcome \<Rightarrow> bool" where
  "verified st o1 \<longleftrightarrow> capture_at st o1 \<noteq> None \<or> was_blocked st o1"

definition arrived_raw :: "Store \<Rightarrow> requestOutcome \<Rightarrow> TruthSpan \<Rightarrow> bool" where
  "arrived_raw st o1 truth \<longleftrightarrow> (\<exists>c. capture_at st o1 = Some c \<and> contains (ic_Body c) (tr_Value truth))"

definition redactions_of :: "Store \<Rightarrow> requestOutcome \<Rightarrow> GatewayRedaction list" where
  "redactions_of st o1 = (case report_of st o1 of Some rep \<Rightarrow> rr_Redactions rep | None \<Rightarrow> [])"

text \<open>A redaction answers a seeded value when it has its type and overlaps it.\<close>

definition answers :: "GatewayRedaction \<Rightarrow> TruthSpan \<Rightarrow> bool" where
  "answers red truth \<longleftrightarrow> red_Type red = tr_Type truth \<and> red_Start red < tr_End truth \<and> tr_Start truth < red_End red"

definition reported :: "Store \<Rightarrow> requestOutcome \<Rightarrow> TruthSpan \<Rightarrow> bool" where
  "reported st o1 truth \<longleftrightarrow> (\<exists>red \<in> set (redactions_of st o1). answers red truth)"

text \<open>A redaction is a false positive unless some seeded value has it as its first answer.\<close>

definition first_answer :: "GatewayRedaction list \<Rightarrow> TruthSpan \<Rightarrow> nat \<Rightarrow> bool" where
  "first_answer reds truth i \<longleftrightarrow> i < length reds \<and> answers (reds ! i) truth \<and> (\<forall>j < i. \<not> answers (reds ! j) truth)"

definition spurious :: "Store \<Rightarrow> requestOutcome \<Rightarrow> nat list" where
  "spurious st o1 =
     filter (\<lambda>i. \<not> (\<exists>truth \<in> set (gi_Truth (oc_Item o1)). first_answer (redactions_of st o1) truth i))
       [0..<length (redactions_of st o1)]"

text \<open>A sum over the outcomes that were answered.\<close>

definition over :: "(requestOutcome \<Rightarrow> nat) \<Rightarrow> requestOutcome list \<Rightarrow> nat" where
  "over f outcomes = (\<Sum>o1\<leftarrow>outcomes. if oc_Err o1 = [] then f o1 else 0)"

definition count_truth :: "(TruthSpan \<Rightarrow> bool) \<Rightarrow> requestOutcome \<Rightarrow> nat" where
  "count_truth P o1 = length (filter P (gi_Truth (oc_Item o1)))"

text \<open>How many seeded values of answered requests have a property.\<close>

definition values_with :: "(requestOutcome \<Rightarrow> TruthSpan \<Rightarrow> bool) \<Rightarrow> requestOutcome list \<Rightarrow> nat" where
  "values_with P outcomes = over (\<lambda>o1. count_truth (P o1) o1) outcomes"

section \<open>The loops count these\<close>

text \<open>The counts a loop changes, as one tuple: hits, misses, false positives, caught, total, orphans.\<close>

definition counts :: "scoring \<Rightarrow> nat \<times> nat \<times> nat \<times> nat \<times> nat \<times> nat" where
  "counts g = (sg_tp g, sg_fn g, sg_fp g, sg_caught g, sg_total g, sc_CaptureOrphans (sg_score g))"

lemma length_filter_Cons: "length (filter P (x # xs)) = (if P x then 1 else 0) + length (filter P xs)"
  by simp

lemma behavioral_counts:
  assumes "counts (fst gr) = (tp, fn, fp, ca, tot, orph)"
  shows "counts (fst (foldl (behavioral_step capture v) gr ts)) =
    (tp, fn, fp, ca + (if v then length (filter (\<lambda>t. \<not> (\<exists>c. capture = Some c \<and> contains (ic_Body c) (tr_Value t))) ts) else 0),
     tot + (if v then length ts else 0), orph + (if v then 0 else length ts))"
  using assms
proof (induction ts arbitrary: gr ca tot orph)
  case (Cons t ts)
  let ?leak = "\<exists>c. capture = Some c \<and> contains (ic_Body c) (tr_Value t)"
  have "counts (fst (behavioral_step capture v gr t)) =
      (tp, fn, fp, ca + (if v \<and> \<not> ?leak then 1 else 0), tot + (if v then 1 else 0), orph + (if v then 0 else 1))"
    using Cons.prems by (cases gr) (auto simp: behavioral_step_def counts_def Let_def split: option.splits)
  from Cons.IH [OF this] show ?case by (simp add: length_filter_Cons del: filter.simps)
qed simp

lemma first_match_Some: "first_match reds truth = Some i \<longleftrightarrow> first_answer reds truth i"
  by (auto simp: first_match_def first_answer_def find_Some_iff redaction_matches_def answers_def)

lemma first_match_None: "first_match reds truth = None \<longleftrightarrow> \<not> (\<exists>red \<in> set reds. answers red truth)"
  by (auto simp: first_match_def find_None_iff redaction_matches_def answers_def in_set_conv_nth) (metis nth_mem)

lemma span_counts:
  assumes "counts (fst grm) = (tp, fn, fp, ca, tot, orph)"
  shows "counts (fst (foldl (span_step reds) grm ts)) =
      (tp + length (filter (\<lambda>t. \<exists>red \<in> set reds. answers red t) ts),
       fn + length (filter (\<lambda>t. \<not> (\<exists>red \<in> set reds. answers red t)) ts), fp, ca, tot, orph) \<and>
    set (snd (snd (foldl (span_step reds) grm ts))) =
      set (snd (snd grm)) \<union> {i. \<exists>t \<in> set ts. first_answer reds t i}"
  using assms
proof (induction ts arbitrary: grm tp fn)
  case (Cons t ts)
  have "counts (fst (span_step reds grm t)) =
      (tp + (if \<exists>red \<in> set reds. answers red t then 1 else 0),
       fn + (if \<exists>red \<in> set reds. answers red t then 0 else 1), fp, ca, tot, orph)"
    using Cons.prems first_match_None [of reds t]
    by (cases grm; cases "first_match reds t") (auto simp: span_step_def counts_def)
  moreover have "set (snd (snd (span_step reds grm t))) = set (snd (snd grm)) \<union> {i. first_answer reds t i}"
    by (cases grm; cases "first_match reds t") (auto simp: span_step_def simp flip: first_match_Some)
  ultimately show ?case using Cons.IH [of "span_step reds grm t"]
    by (auto simp: length_filter_Cons simp del: filter.simps)
qed simp

lemma redaction_counts:
  assumes "counts g = (tp, fn, fp, ca, tot, orph)"
  shows "counts (foldl (redaction_step traps matched) g irs) =
    (tp, fn, fp + length (filter (\<lambda>(i, red). i \<notin> set matched) irs), ca, tot, orph)"
  using assms
proof (induction irs arbitrary: g fp)
  case (Cons ir irs)
  have "counts (redaction_step traps matched g ir) =
      (tp, fn, fp + (if fst ir \<notin> set matched then 1 else 0), ca, tot, orph)"
    using Cons.prems by (cases ir) (simp add: redaction_step_def counts_def Let_def)
  from Cons.IH [OF this] show ?case by (cases ir) simp
qed simp

lemma filter_enumerate_length:
  "length (filter (\<lambda>(i, x). P i) (enumerate n xs)) = length (filter P [n..<n + length xs])"
proof (induction xs arbitrary: n)
  case (Cons x xs)
  have "[n..<n + length (x # xs)] = n # [Suc n..<Suc n + length xs]" by (simp add: upt_conv_Cons del: upt_Suc)
  then show ?case by (simp add: Cons.IH [of "Suc n"] del: upt_Suc)
qed simp

lemma join_report_counts:
  "counts (g\<lparr>sg_score := fst (join_report report status (sg_score g, res))\<rparr>) = counts g"
  "hr_Redactions (snd (join_report report status (sc, res))) =
     (case report of Some rep \<Rightarrow> rr_Redactions rep | None \<Rightarrow> hr_Redactions res)"
  "hr_Action (snd (join_report report status (sc, res))) =
     (case report of Some rep \<Rightarrow> rr_Action rep | None \<Rightarrow> if status = 400 then ''block'' else hr_Action res)"
  by (auto simp: join_report_def counts_def split: option.split)

lemma behavioral_redactions [simp]:
  "hr_Redactions (snd (foldl (behavioral_step capture v) gr ts)) = hr_Redactions (snd gr)"
proof (induction ts arbitrary: gr)
  case (Cons t ts)
  then show ?case by (cases gr) (simp add: behavioral_step_def missing_def Let_def)
qed simp

lemma span_redactions [simp]:
  "hr_Redactions (fst (snd (foldl (span_step reds) grm ts))) = hr_Redactions (fst (snd grm))"
proof (induction ts arbitrary: grm)
  case (Cons t ts)
  then show ?case by (cases grm) (simp add: span_step_def missing_def split: option.split)
qed simp

lemma score_one_counts:
  assumes "counts g = (tp, fn, fp, ca, tot, orph)" and "oc_Err o1 = []"
  shows "counts (score_one bc st runID g o1) =
    (tp + count_truth (reported st o1) o1, fn + count_truth (\<lambda>t. \<not> reported st o1 t) o1, fp + length (spurious st o1),
     ca + (if verified st o1 then count_truth (\<lambda>t. \<not> arrived_raw st o1 t) o1 else 0),
     tot + (if verified st o1 then count_truth (\<lambda>_. True) o1 else 0),
     orph + (if verified st o1 then 0 else count_truth (\<lambda>_. True) o1))"
proof -
  let ?capture = "capture_at st o1" and ?truth = "gi_Truth (oc_Item o1)"
  obtain sc res where 1: "join_report (report_of st o1) (oc_HTTPStatus o1) (sg_score g, base_result runID o1) = (sc, res)"
    by (cases "join_report (report_of st o1) (oc_HTTPStatus o1) (sg_score g, base_result runID o1)")
  define res' where "res' = (case ?capture of None \<Rightarrow> res | Some c \<Rightarrow> res\<lparr>hr_UpstreamText := upstreamContent bc (ic_Body c)\<rparr>)"
  define v where "v = (?capture \<noteq> None \<or> hr_Action res' = ''block'')"
  obtain g2 res2 where 2: "foldl (behavioral_step ?capture v) (g\<lparr>sg_score := sc\<rparr>, res') ?truth = (g2, res2)"
    by (cases "foldl (behavioral_step ?capture v) (g\<lparr>sg_score := sc\<rparr>, res') ?truth")
  obtain g3 res3 matched where 3: "foldl (span_step (hr_Redactions res2)) (g2, res2, []) ?truth = (g3, res3, matched)"
    by (cases "foldl (span_step (hr_Redactions res2)) (g2, res2, []) ?truth")
  define g4 where "g4 = foldl (redaction_step (gi_Traps (oc_Item o1)) matched) g3 (enumerate 0 (hr_Redactions res2))"
  note joined = join_report_counts [where report = "report_of st o1" and status = "oc_HTTPStatus o1" and res = "base_result runID o1"]
  have res: "hr_Redactions res = redactions_of st o1"
    "hr_Action res = (case report_of st o1 of Some rep \<Rightarrow> rr_Action rep | None \<Rightarrow> if oc_HTTPStatus o1 = 400 then ''block'' else [])"
    using joined(2,3) [where sc = "sg_score g", unfolded 1 snd_conv]
    by (simp_all add: redactions_of_def base_result_def split: option.split)
  have reds: "hr_Redactions res2 = redactions_of st o1"
    using behavioral_redactions [where capture = ?capture and v = v and gr = "(g\<lparr>sg_score := sc\<rparr>, res')" and ts = ?truth, unfolded 2 snd_conv]
    by (simp add: res'_def res(1) split: option.splits)
  have reds3: "hr_Redactions res3 = redactions_of st o1"
    using span_redactions [where reds = "redactions_of st o1" and grm = "(g2, res2, [])" and ts = ?truth,
        unfolded 3 [unfolded reds] fst_conv snd_conv] by (simp add: reds)
  have v: "v = verified st o1"
    by (auto simp: v_def res'_def verified_def was_blocked_def res(2) split: option.splits)
  have c1: "counts (fst (g\<lparr>sg_score := sc\<rparr>, res')) = (tp, fn, fp, ca, tot, orph)"
    using joined(1) [where g = g, unfolded 1 fst_conv] assms(1) by simp
  note c2 = behavioral_counts [OF c1, of ?capture v ?truth, unfolded 2 fst_conv]
  have c3: "counts (fst (g2, res2, [] :: nat list)) = counts g2" by simp
  note c3 = span_counts [OF trans [OF c3 c2], of "redactions_of st o1" ?truth, unfolded 3 [unfolded reds] fst_conv snd_conv]
  note c4 = redaction_counts [OF conjunct1 [OF c3], of "gi_Traps (oc_Item o1)" matched "enumerate 0 (redactions_of st o1)"]
  have unmatched: "length (filter (\<lambda>(i, red). i \<notin> set matched) (enumerate 0 (redactions_of st o1))) = length (spurious st o1)"
    using conjunct2 [OF c3]
      filter_enumerate_length [where P = "\<lambda>i. i \<notin> set matched" and n = 0 and xs = "redactions_of st o1"]
    by (simp add: spurious_def)
  have "score_one bc st runID g o1 = g4\<lparr>sg_score := (sg_score g4)\<lparr>sc_ResponseLeaks := sc_ResponseLeaks (sg_score g4) + response_leaks bc o1\<rparr>,
      sg_results := sg_results g4 @ [res3\<lparr>hr_ResponseLeaks := response_leaks bc o1\<rparr>]\<rparr>"
    using 1 2 3 assms(2) unfolding report_of_def capture_at_def
    by (simp add: score_one_def Let_def g4_def reds reds3 res'_def v_def capture_at_def)
  then have "counts (score_one bc st runID g o1) = counts g4" by (simp add: counts_def)
  also have "\<dots> = (tp + count_truth (reported st o1) o1, fn + count_truth (\<lambda>t. \<not> reported st o1 t) o1, fp + length (spurious st o1),
     ca + (if v then count_truth (\<lambda>t. \<not> arrived_raw st o1 t) o1 else 0),
     tot + (if v then count_truth (\<lambda>_. True) o1 else 0), orph + (if v then 0 else count_truth (\<lambda>_. True) o1))"
    unfolding g4_def reds c4 unmatched by (simp add: count_truth_def reported_def [abs_def] arrived_raw_def)
  finally show ?thesis unfolding v .
qed

lemma score_all_counts:
  "counts (score_all bc st runID outcomes) =
    (over (\<lambda>o1. count_truth (reported st o1) o1) outcomes, over (\<lambda>o1. count_truth (\<lambda>t. \<not> reported st o1 t) o1) outcomes,
     over (\<lambda>o1. length (spurious st o1)) outcomes,
     over (\<lambda>o1. if verified st o1 then count_truth (\<lambda>t. \<not> arrived_raw st o1 t) o1 else 0) outcomes,
     over (\<lambda>o1. if verified st o1 then count_truth (\<lambda>_. True) o1 else 0) outcomes,
     over (\<lambda>o1. if verified st o1 then 0 else count_truth (\<lambda>_. True) o1) outcomes)"
proof -
  have "counts (foldl (score_one bc st runID) g os) =
      (tp + over (\<lambda>o1. count_truth (reported st o1) o1) os, fn + over (\<lambda>o1. count_truth (\<lambda>t. \<not> reported st o1 t) o1) os,
       fp + over (\<lambda>o1. length (spurious st o1)) os,
       ca + over (\<lambda>o1. if verified st o1 then count_truth (\<lambda>t. \<not> arrived_raw st o1 t) o1 else 0) os,
       tot + over (\<lambda>o1. if verified st o1 then count_truth (\<lambda>_. True) o1 else 0) os,
       orph + over (\<lambda>o1. if verified st o1 then 0 else count_truth (\<lambda>_. True) o1) os)"
    if "counts g = (tp, fn, fp, ca, tot, orph)" for g os tp fn fp ca tot orph
    using that
  proof (induction os arbitrary: g tp fn fp ca tot orph)
    case (Cons o1 os)
    show ?case
    proof (cases "oc_Err o1 = []")
      case True
      show ?thesis using Cons.IH [OF score_one_counts [OF Cons.prems True]] True by (simp add: over_def)
    next
      case False
      then have "counts (score_one bc st runID g o1) = counts g" by (simp add: score_one_def Let_def counts_def)
      with Cons.IH [of "score_one bc st runID g o1"] Cons.prems False show ?thesis by (simp add: over_def)
    qed
  qed (simp add: over_def)
  from this [of "\<lparr>sg_score = zero_score, sg_results = [], sg_tp = 0, sg_fn = 0, sg_fp = 0, sg_caught = 0, sg_total = 0\<rparr>" 0 0 0 0 0 0]
  show ?thesis by (simp add: score_all_def counts_def zero_score_def)
qed

lemma over_add: "over f os + over g os = over (\<lambda>o1. f o1 + g o1) os"
  by (induction os) (simp_all add: over_def)

lemma values_with_split: "values_with P os + values_with (\<lambda>o1 t. \<not> P o1 t) os = values_with (\<lambda>_ _. True) os"
proof -
  have "count_truth p o1 + count_truth (\<lambda>t. \<not> p t) o1 = count_truth (\<lambda>_. True) o1" for p o1
    using sum_length_filter_compl [of p "gi_Truth (oc_Item o1)"] by (simp add: count_truth_def)
  then show ?thesis by (simp add: values_with_def over_add)
qed

lemma values_with_part:
  "values_with (\<lambda>o1 t. P o1 t \<and> Q o1 t) os + values_with (\<lambda>o1 t. P o1 t \<and> \<not> Q o1 t) os = values_with P os"
proof -
  have "length (filter (\<lambda>t. p t \<and> q t) ts) + length (filter (\<lambda>t. p t \<and> \<not> q t) ts) = length (filter p ts)" for p q :: "TruthSpan \<Rightarrow> bool" and ts
    by (induction ts) auto
  then show ?thesis by (simp add: values_with_def over_add count_truth_def)
qed

lemma score_values:
  "sg_tp (score_all bc st runID outcomes) = values_with (reported st) outcomes"
  "sg_fn (score_all bc st runID outcomes) = values_with (\<lambda>o1 t. \<not> reported st o1 t) outcomes"
  "sg_fp (score_all bc st runID outcomes) = over (\<lambda>o1. length (spurious st o1)) outcomes"
  "sg_caught (score_all bc st runID outcomes) = values_with (\<lambda>o1 t. verified st o1 \<and> \<not> arrived_raw st o1 t) outcomes"
  "sg_total (score_all bc st runID outcomes) = values_with (\<lambda>o1 _. verified st o1) outcomes"
  "sc_CaptureOrphans (sg_score (score_all bc st runID outcomes)) = values_with (\<lambda>o1 _. \<not> verified st o1) outcomes"
proof -
  have "(if b then count_truth p o1 else 0) = count_truth (\<lambda>t. b \<and> p t) o1" "(if b then 0 else count_truth p o1) = count_truth (\<lambda>t. \<not> b \<and> p t) o1"
    for b p o1 by (simp_all add: count_truth_def)
  with score_all_counts [where bc = bc and st = st and runID = runID and outcomes = outcomes]
  show "sg_tp (score_all bc st runID outcomes) = values_with (reported st) outcomes"
    "sg_fn (score_all bc st runID outcomes) = values_with (\<lambda>o1 t. \<not> reported st o1 t) outcomes"
    "sg_fp (score_all bc st runID outcomes) = over (\<lambda>o1. length (spurious st o1)) outcomes"
    "sg_caught (score_all bc st runID outcomes) = values_with (\<lambda>o1 t. verified st o1 \<and> \<not> arrived_raw st o1 t) outcomes"
    "sg_total (score_all bc st runID outcomes) = values_with (\<lambda>o1 _. verified st o1) outcomes"
    "sc_CaptureOrphans (sg_score (score_all bc st runID outcomes)) = values_with (\<lambda>o1 _. \<not> verified st o1) outcomes"
    by (simp_all add: counts_def values_with_def)
qed

end
