(* ===== verification/Harness_Properties.thy ===== *)
theory Harness_Properties
  imports Control_System Score_Spec
begin

text \<open>
  What holds of the emitter, the synthetic surface, the report feed and the test harness.
\<close>

section \<open>The synthetic surface\<close>

text \<open>
  C34: A streamed answer carries its reply: whatever the chunk size, the bytes of the event stream,
  read back the way the harness reads them, give exactly the text the answer was built from. The
  JSON encoder and the harness's decoder are assumed to agree on the payloads that were sent, and an
  encoded payload to have no line break.
\<close>

theorem stream_carries_reply:
  assumes "\<forall>e \<in> set (streamInference rd h m reply i u). payload_read bc marshal_json (snd e)"
  shows "reassembleSSE bc (stream_bytes marshal_json (streamInference rd h m reply i u)) = reply"
  using reassemble_events [of "streamInference rd h m reply i u" bc marshal_json] assms event_names stream_texts
  by simp

definition demo_marshal :: "json \<Rightarrow> string" where
  "demo_marshal j = (if text_of j \<noteq> [] then ''+'' @ text_of j else if delta_of j = Some ([], []) then ''0'' else ''1'')"

definition demo_bodies :: body_codec where
  "demo_bodies =
     \<lparr>bc_messages = (\<lambda>_. None),
      bc_delta = (\<lambda>s. if s = ''0'' then Some ([], []) else if s = ''1'' then Some (''text_delta'', [])
                     else Some (''text_delta'', tl s)),
      bc_content = (\<lambda>_. None)\<rparr>"

lemma demo_payloads:
  "payload_read demo_bodies demo_marshal (JObj kvs)" if "case map_of kvs ''delta'' of Some (JObj d) \<Rightarrow>
    str (map_of d ''type'') = ''text_delta'' \<and> str (map_of d ''text'') \<noteq> [] \<and> CHR 0x0A \<notin> set (str (map_of d ''text'')) \<or>
    str (map_of d ''type'') = [] \<and> str (map_of d ''text'') = [] | _ \<Rightarrow> True"
  using that by (auto simp: payload_read_def demo_bodies_def demo_marshal_def text_of_def delta_of_def
      split: option.splits json.splits)

theorem stream_carries_reply_witness:
  "reassembleSSE demo_bodies (stream_bytes demo_marshal
     (streamInference (0, []) [(''X-Harness-Straddle'', [''on''])] ''m'' ''hello world'' 1 2)) = ''hello world''"
proof (rule stream_carries_reply, intro ballI)
  have chunks: "chunks_of (length ''hello world'') (chunk_size [(''X-Harness-Straddle'', [''on''])]) ''hello world'' =
      [''hello'', '' worl'', ''d'']" by code_simp
  fix e assume "e \<in> set (streamInference (0, []) [(''X-Harness-Straddle'', [''on''])] ''m'' ''hello world'' 1 2)"
  then show "payload_read demo_bodies demo_marshal (snd e)"
    unfolding streamInference_def chunks
    by (auto simp: delta_event_def str_def intro!: demo_payloads)
qed

text \<open>
  C33: However many requests the synthetic surface is sent, no record it keeps of a vendor call shows a
  sensitive header or query parameter, only the placeholder in its place, and no kept request body is
  longer than 64 KiB.
\<close>

theorem recorded_calls_masked:
  "records_safe lower (foldl (\<lambda>st (io, r). snd (ServeHTTP (io\<lparr>sy_lower := lower\<rparr>) r st)) (new_store d d') requests)"
proof (rule foldl_invariant [where P = "records_safe lower"])
  have "st_calls (foldl (put_adapter t) st as) = st_calls st \<and> st_inferCaptures (foldl (put_adapter t) st as) = st_inferCaptures st"
    for t st as by (induction as arbitrary: st) (simp_all add: put_adapter_def)
  then show "records_safe lower (new_store d d')"
    by (simp add: records_safe_def new_store_def seed_def RecordActivity_def empty_store_def)
  fix x y assume "records_safe lower x"
  then show "records_safe lower ((\<lambda>(io, r). snd (ServeHTTP (io\<lparr>sy_lower := lower\<rparr>) r x)) y)"
    using ServeHTTP_safe [of "(fst y)\<lparr>sy_lower := lower\<rparr>" x "snd y"] by (simp add: split_beta)
qed

section \<open>The emitter\<close>

definition catalog_values :: "(string \<times> float64) list \<Rightarrow> bool" where
  "catalog_values m \<longleftrightarrow>
     (\<forall>kv \<in> set m. \<exists>d \<in> set All. \<exists>md \<in> set (df_Metrics d). fst kv = metric_key (df_ID d) md \<and> in_range md (snd kv))"

lemma catalog_values_update:
  "catalog_values m \<Longrightarrow> d \<in> set All \<Longrightarrow> md \<in> set (df_Metrics d) \<Longrightarrow> in_range md v \<Longrightarrow>
     catalog_values (AList.update (metric_key (df_ID d) md) v m)"
  unfolding catalog_values_def by (fastforce dest!: alist_update_in)

lemma walk_catalog_values:
  assumes "d \<in> set All" and "set mds \<subseteq> set (df_Metrics d)" and "catalog_values (mw_state x)"
  shows "catalog_values (mw_state (foldl (emit_metric draw (df_ID d)) x mds))"
  using assms(2,3)
proof (induction mds arbitrary: x)
  case (Cons md mds)
  have md: "md \<in> set (df_Metrics d)" "metric_ok md"
    using Cons.prems(1) catalog_metrics [OF assms(1)] by (auto simp: list_all_iff)
  obtain v where "in_range md v" "mw_state (emit_metric draw (df_ID d) x md) = AList.update (metric_key (df_ID d) md) v (mw_state x)"
    using emit_metric_in_range [OF md(2)] by blast
  then show ?case using Cons catalog_values_update [OF _ assms(1) md(1)] by simp
qed simp

lemma ByID_catalog: "ByID i = Some d \<Longrightarrow> d \<in> set All \<and> df_ID d = i"
  by (auto simp: ByID_def find_Some_iff)

lemma emit_adapter_catalog_values:
  assumes "catalog_values (em_state x)"
  shows "catalog_values (em_state (emit_adapter draw env n ts x a))"
proof (cases "ByID (ad_ID a)")
  case (Some d)
  from ByID_catalog [OF this] have d: "d \<in> set All" "df_ID d = ad_ID a" by simp_all
  from walk_catalog_values [OF d(1) subset_refl, unfolded d(2), of "start_walk (em_state x) (em_draws x)"] assms
  show ?thesis
    by (simp add: emit_adapter_def emitProxyStub_def emitSynthetic_def storeBatch_def Let_def Some start_walk_def)
qed (simp add: emit_adapter_def emitProxyStub_def storeBatch_def Let_def assms)

lemma emitTick_catalog_values:
  assumes "catalog_values (em_state x)"
  shows "catalog_values (em_state (emitTick draw env e x ts))"
proof -
  have "catalog_values (em_state (foldl (emit_adapter draw env (et_interval e) ts) x (ListAdapters (em_store x))))"
    by (rule foldl_invariant [where P = "\<lambda>x. catalog_values (em_state x)"]) (simp_all add: assms emit_adapter_catalog_values)
  then show ?thesis
    unfolding emitTick_def
    by (rule foldl_invariant [where P = "\<lambda>x. catalog_values (em_state x)"]) (simp add: run_hook_def split_beta)
qed

text \<open>
  C39: Whatever is drawn, and however many ticks have passed, every value the emitter holds is the value
  of a metric of the catalog and lies within that metric's bounds.
\<close>

theorem emitter_values_in_range:
  assumes "em_state x = []"
  shows "catalog_values (em_state (foldl (emitTick draw env e) x ticks))"
  by (rule foldl_invariant [where P = "\<lambda>x. catalog_values (em_state x)"])
    (simp_all add: assms catalog_values_def [of "[]"] emitTick_catalog_values)

theorem emitter_values_in_range_witness:
  "catalog_values (em_state (foldl (emitTick (\<lambda>_. 1) (\<lambda>_. (5, [])) (new_emitter 60))
     \<lparr>em_state = [], em_store = new_store (1, []) (2, []), em_draws = 0, em_reads = 0\<rparr> [10, 70]))"
  by (rule emitter_values_in_range) simp

section \<open>The report feed\<close>

definition feed :: "Report list list \<Rightarrow> Store \<Rightarrow> Store" where
  "feed batches st = foldl (\<lambda>st rs. AddGatewayReports rs st) st batches"

lemma rev_last: "rev (drop (length xs - n) xs) = take n (rev xs)"
  by (cases "length xs \<le> n") (simp_all add: rev_drop)

lemma feed_reports:
  assumes "st_gwReports st = drop (length hist - ringMax) hist"
  shows "st_gwReports (feed batches st) = (let hist = hist @ concat batches in drop (length hist - ringMax) hist)"
  using assms
proof (induction batches arbitrary: st hist)
  case (Cons rs batches)
  have "st_gwReports (AddGatewayReports rs st) = drop (length (hist @ rs) - ringMax) (hist @ rs)"
    by (cases "length hist \<le> ringMax") (simp_all add: AddGatewayReports_def ring_extend_alt Cons.prems add.commute)
  from Cons.IH [OF this] show ?case by (simp add: feed_def)
qed (simp add: feed_def)

text \<open>
  C38: The report feed refines the unbounded log of everything the gateways ever pushed: however the
  reports are batched, a listing reads the newest entries of that log, newest first, and a lookup
  finds the newest report with the request id, as long as it is among the last 5000.
\<close>

theorem feed_refines_log:
  "ListGatewayReports n (feed batches (new_store d d')) = take n (take ringMax (rev (concat batches))) \<and>
   GatewayReportByRequestID rid (feed batches (new_store d d')) =
     find (\<lambda>r. rr_RequestID r = rid) (take ringMax (rev (concat batches)))"
proof -
  have "st_gwReports (foldl (put_adapter t) st as) = st_gwReports st" for t st as
    by (induction as arbitrary: st) (simp_all add: put_adapter_def)
  then have "st_gwReports (new_store d d') = []"
    by (simp add: new_store_def seed_def RecordActivity_def empty_store_def)
  with feed_reports [of "new_store d d'" "[]" batches]
  have "st_gwReports (feed batches (new_store d d')) = drop (length (concat batches) - ringMax) (concat batches)"
    by (simp add: Let_def)
  then show ?thesis
    by (simp add: ListGatewayReports_def GatewayReportByRequestID_def ring_newest_def rev_last)
qed

section \<open>The harness\<close>

text \<open>
  C35: The generator's ground truth is exact: a run asks for as many items as its configuration says, and
  whatever the seed, every recorded span of every item, seeded value or trap, marks exactly the
  value it names, of a form its type allows, and the seeded values do not overlap. For replayed
  corpus entries this is what was assumed of them.
\<close>

theorem generated_truth_exact:
  assumes "\<And>e. e \<in> set corpus \<Longrightarrow> item_exact (replay_item e)"
  shows "length (generate source cfg corpus) = nat (rc_Count cfg) \<and> list_all item_exact (generate source cfg corpus)"
  using generate_exact [where corpus = corpus and source = source and cfg = cfg, OF assms] by blast

definition demo_config :: HarnessRunConfig where
  "demo_config =
     \<lparr>rc_Count = 3, rc_Concurrency = 2, rc_Seed = 7, rc_IncludeTraps = True, rc_IncludePresidioOnly = True,
      rc_IncludeStraddle = True, rc_ReplayPercent = 50\<rparr>"

definition demo_entry :: CorpusEntry where
  "demo_entry =
     \<lparr>ce_ID = ''c'', ce_Text = ''ask Ann Lee'', ce_Truth = [\<lparr>tr_Start = 4, tr_End = 11, tr_Type = slotName, tr_Value = ''Ann Lee''\<rparr>],
      ce_SourceRun = [], ce_MissTypes = [], ce_AddedAt = 0\<rparr>"

lemma demo_name: "value_ok slotName ''Ann Lee''" "slotName \<noteq> slotTrap"
proof -
  have "name_form ''Ann Lee''"
    unfolding name_form_def
    by (rule exI [of _ "''Ann''"], rule exI [of _ "''Lee''"]) (simp add: capital_word_def)
  then show "value_ok slotName ''Ann Lee''" by (simp add: value_ok_def slot_defs)
  show "slotName \<noteq> slotTrap" by (simp add: slot_defs)
qed

theorem generated_truth_exact_witness:
  "length (generate (\<lambda>_ k. k) demo_config [demo_entry]) = 3 \<and> list_all item_exact (generate (\<lambda>_ k. k) demo_config [demo_entry])"
proof -
  have "item_exact (replay_item e)" if "e \<in> set [demo_entry]" for e
    using that demo_name by (simp add: demo_entry_def replay_item_def item_exact_def span_exact_def slice_def)
  from generated_truth_exact [where corpus = "[demo_entry]" and cfg = demo_config and source = "\<lambda>_ k. k", OF this]
  show ?thesis by (simp add: demo_config_def)
qed

definition over_all :: "(TypeScore \<Rightarrow> nat) \<Rightarrow> RunScore \<Rightarrow> nat" where
  "over_all f sc = (\<Sum>(t, ts)\<leftarrow>sc_ByType sc. f ts)"

lemma share_bounded: "a \<le> b \<Longrightarrow> 0 \<le> share a b" "a \<le> b \<Longrightarrow> share a b \<le> 1"
  using share_bounds by blast+

text \<open>
  C36: The score of a run says what happened: every outcome has a result, every answered request is joined
  or an orphan. Over all types, the true positives are the seeded values some redaction of their request's
  report answers by type and overlap, the false negatives the others, the false positives the redactions that are no
  seeded value's first answer; the behavioural misses are the values that arrived raw in the captured
  upstream body, and the values of a request neither captured nor blocked are set aside. Recall, precision and
  behavioural recall are the shares of these: values answered among all, among all reported, and values
  that did not arrive raw among those whose fate is known. All three lie between 0 and 1.
\<close>

theorem score_adds_up:
  "case scoreRun bc st runID outcomes of (sc, results) \<Rightarrow>
     let seeds = values_with (\<lambda>_ _. True) outcomes; found = values_with (reported st) outcomes;
         wrong = over (\<lambda>o1. length (spurious st o1)) outcomes; known = values_with (\<lambda>o1 _. verified st o1) outcomes;
         safe = values_with (\<lambda>o1 t. verified st o1 \<and> \<not> arrived_raw st o1 t) outcomes
     in length results = length outcomes \<and> sc_JoinedReports sc + sc_OrphanRequests sc = answered outcomes \<and>
       over_all ts_TP sc = found \<and> over_all ts_FN sc = values_with (\<lambda>o1 t. \<not> reported st o1 t) outcomes \<and>
       over_all ts_FP sc = wrong \<and>
       over_all ts_BehavioralMisses sc = values_with (\<lambda>o1 t. verified st o1 \<and> arrived_raw st o1 t) outcomes \<and>
       sc_CaptureOrphans sc = values_with (\<lambda>o1 _. \<not> verified st o1) outcomes \<and>
       sc_RecallReported sc = share found seeds \<and> sc_Precision sc = share found (found + wrong) \<and>
       sc_RecallBehavioral sc = share safe known \<and>
       list_all (\<lambda>q. 0 \<le> q \<and> q \<le> 1) [sc_Precision sc, sc_RecallReported sc, sc_RecallBehavioral sc]"
proof -
  let ?g = "score_all bc st runID outcomes"
  note balance = score_all_ok(1) [where bc = bc and st = st and runID = runID and outcomes = outcomes, unfolded balanced_def]
  note c = score_values [where bc = bc and st = st and runID = runID and outcomes = outcomes]
  have seeds: "sg_tp ?g + sg_fn ?g = values_with (\<lambda>_ _. True) outcomes"
    unfolding c by (rule values_with_split)
  have missed: "over_types ts_BehavioralMisses ?g = values_with (\<lambda>o1 t. verified st o1 \<and> arrived_raw st o1 t) outcomes"
    using balance values_with_part [of "\<lambda>o1 _. verified st o1" "arrived_raw st" outcomes] unfolding c by linarith
  show ?thesis
    using balance seeds missed score_all_ok(2) [where bc = bc and st = st and runID = runID and outcomes = outcomes]
    by (simp add: scoreRun_def Let_def over_types_def over_all_def c share_bounded)
qed

text \<open>
  A run's admission is exclusive and bounded: a refused run leaves the runner as it was; an admitted
  one found no other in progress, asks for 1 to 2000 requests, at most eight at a time, is sent to
  a gateway heard from within the staleness window (or the configured address), and is listed last.
\<close>

theorem run_admission:
  "case StartRun env cfg st ru of
     (Inl e, ru') \<Rightarrow> ru' = ru
   | (Inr (run, url), ru') \<Rightarrow>
       \<not> ru_running ru \<and> ru_running ru' \<and> last (ru_runs ru') = run \<and> length (ru_runs ru') \<le> maxStoredRuns \<and>
       hn_Status run = ''running'' \<and> config_bounded (hn_Config run) \<and> hn_Total run = rc_Count (hn_Config run) \<and>
       list_ex (\<lambda>rep. fst (env 1) - er_At rep \<le> GatewayStaleAfter \<and>
         url = (if ru_gatewayURL ru \<noteq> [] then ru_gatewayURL ru else er_BaseURL rep)) (ListGatewayEnforcement st)"
proof (cases "StartRun env cfg st ru" rule: prod.exhaust)
  case (Pair result ru')
  show ?thesis
  proof (cases result)
    case (Inl e)
    with Pair StartRun_refused show ?thesis by simp
  next
    case (Inr ok)
    obtain run url where ok: "ok = (run, url)" by (cases ok)
    note admitted = StartRun_admitted [OF Pair [unfolded Inr ok]]
    have "last (keep_last maxStoredRuns (ru_runs ru @ [run])) = run"
      by (simp add: keep_last_def maxStoredRuns_def last_drop)
    with admitted keep_last_length [of maxStoredRuns "ru_runs ru @ [run]"] show ?thesis
      by (simp add: Pair Inr ok list_ex_iff)
  qed
qed

text \<open>
  C37: The wait for the gateway's reports ends: if the clock moves on by half a second from poll to poll,
  it is over after at most 50 more polls, and when it is over before the deadline, every answered
  request has its report.
\<close>

theorem wait_for_reports_ends:
  assumes "\<And>k. fst (poll k) + second div 2 \<le> fst (poll (Suc k))" and "now \<le> fst (poll 0)"
  shows "\<exists>j \<le> 50. waitForReports now poll outcomes = Some j \<and>
    \<not> (fst (poll j) < now + reportJoinTimeout \<and> unreported (snd (poll j)) outcomes \<noteq> 0)"
proof -
  have "0 < second div 2" "now + reportJoinTimeout \<le> fst (poll 0) + second div 2 * int 50"
    using assms(2) by (simp_all add: reportJoinTimeout_def second_def)
  from wait_from_ends [OF assms(1) this, of outcomes] obtain j where
    j: "j \<le> 50" "wait_from (now + reportJoinTimeout) poll outcomes 0 = Some j" by auto
  with wait_from_complete [OF j(2)] show ?thesis by (auto simp: waitForReports_def)
qed

theorem wait_for_reports_ends_witness:
  "\<exists>j \<le> 50. waitForReports 0 (\<lambda>k. (int k * (second div 2), empty_store)) [] = Some j"
  using wait_for_reports_ends [of "\<lambda>k. (int k * (second div 2), empty_store)" 0 "[]"]
  by (auto simp: algebra_simps)

text \<open>
  C32: A decision on a pattern proposal is final: through any sequence of flywheel rounds, authored
  proposals, approvals and rejections, the ids stay distinct, a proposal that was approved or
  rejected is kept as it was, and a proposal that is still open could be approved.
\<close>

theorem decisions_are_final:
  assumes "(approval_step c)\<^sup>*\<^sup>* s s'" and "approvals_inv c s" and "library_compiles c"
  shows "settled_kept (ru_proposals (fst s)) (ru_proposals (fst s')) \<and> proposals_ok c (ru_proposals (fst s'))"
  using approval_steps_inv [OF assms] by (simp add: approvals_inv_def)

definition demo_runner :: Runner where
  "demo_runner =
     \<lparr>ru_gatewayKey = [], ru_gatewayURL = [], ru_probe = False, ru_runs = [], ru_results = [], ru_ratchet = [],
      ru_corpus = [], ru_proposals = [], ru_running = False, ru_patternPersistErr = None, ru_disk = None,
      ru_corpusDir = [], ru_ratchetFile = []\<rparr>"

definition demo_decided :: PatternProposal where
  "demo_decided =
     \<lparr>pp_ID = ''p'', pp_Type = ''SSN'', pp_Kind = KindRegex, pp_Regex = ''x'', pp_DenyList = [], pp_AllowList = [],
      pp_Threshold = 0, pp_Context = [], pp_Confidence = 0, pp_Rationale = [], pp_SampleMisses = 0,
      pp_Status = ''rejected'', pp_SourceRun = [], pp_CreatedAt = 0\<rparr>"

theorem decisions_are_final_witness:
  "\<exists>s'. approval_step (\<lambda>_. None) (demo_runner\<lparr>ru_proposals := [demo_decided]\<rparr>, empty_store) s' \<and>
     demo_decided \<in> set (ru_proposals (fst s'))"
proof -
  let ?s = "(demo_runner\<lparr>ru_proposals := [demo_decided]\<rparr>, empty_store)"
  let ?s' = "snd (ApproveProposal (\<lambda>_. None) fs (\<lambda>_. (0, [])) ''p'' ?s)"
  have step: "approval_step (\<lambda>_. None) ?s ?s'" for fs by (rule approval_step.approve)
  then have steps: "(approval_step (\<lambda>_. None))\<^sup>*\<^sup>* ?s ?s'" for fs by (rule r_into_rtranclp)
  have "approvals_inv (\<lambda>_. None) ?s" "library_compiles (\<lambda>_. None)"
    by (simp_all add: approvals_inv_def proposals_ok_def demo_decided_def pack_checked_def GetPatternPack_def
        empty_store_def empty_pattern_pack_def library_compiles_def)
  from decisions_are_final [OF steps this] show ?thesis
    using step by (fastforce simp: settled_kept_def settled_def demo_decided_def)
qed

end
