(* ===== verification/Spec2Isabelle.thy ===== *)
theory Spec2Isabelle
  imports Gateway_Properties Control_Properties Harness_Properties
begin

text \<open>
  A verification development of air-traffic, the Go program under \<open>src/\<close>: a control plane
  (\<open>cmd/air-traffic-server\<close>) that keeps a catalog of AI vendors, baselines and policies, keys, pattern packs
  and what was observed, and an optional gateway (\<open>cmd/air-traffic-gateway\<close>) that sits between
  applications and the vendors' APIs and masks or blocks sensitive values in the requests.

  HOW THE PARTS INTERACT. A request reaches the gateway (\<open>Proxy.serve\<close>), is authenticated against the
  configured keys or the pulled keystore snapshot, its body is walked by the dialect of its route,
  every string is run through the detector chain, the body is passed, masked or refused as the
  action of the caller's baseline says, and the answer is relayed while its token usage is counted.
  One report per request enters a ring and is pushed to the control plane; heartbeats say what the
  gateway enforces; policies, pattern packs and keys are pulled back. On the control plane a
  policy is reconciled against the catalog of every adapter, and the coverage report and the drift
  set rest on the heartbeats received. The test harness generates traffic with known seeded
  values, sends it through a gateway to the synthetic upstream, scores what was masked against what
  arrived, and proposes pattern rules, which an operator approves into the pack the gateways pull.

  THEORIES AND SOURCES (paths under \<open>src/internal\<close>).
  Ground: \<open>Prelude\<close> (Go's slices, \<open>sort.Slice\<close>, insertion order, bounded rings, 64-bit wrap-around),
  \<open>Go_Strings\<close> (\<open>strings\<close>, \<open>utf8\<close>, \<open>strconv\<close>), \<open>Json\<close> (decoded documents, paths into them).
  Detection, \<open>gateway/detect\<close> and \<open>gateway/redact\<close>: \<open>Spans\<close> (spans, their merge, masking), \<open>Validators\<close>
  (Luhn, IBAN, octets), \<open>Chain\<close>, \<open>Regexp\<close> (the fragment of \<open>regexp\<close> the built-in patterns use, leftmost
  first), \<open>Recognizers\<close>, \<open>Presidio\<close> (rune to byte offsets, pack overlay, results of the sidecar).
  Gateway, \<open>gateway\<close>: \<open>Walkers\<close> (\<open>adapter_anthropic.go\<close>, \<open>adapter_openai.go\<close>), \<open>Stream_Relay\<close> (\<open>stream.go\<close>),
  \<open>Secrets\<close> (\<open>redact\<close>, \<open>gateway/config\<close>, \<open>gateway/credbroker\<close>), \<open>Policy_Model\<close>, \<open>Gateway_Server\<close> (\<open>server.go\<close>,
  \<open>keystore.go\<close>, \<open>spine_pull.go\<close>), \<open>Reports\<close> (\<open>audit.go\<close>, \<open>metrics.go\<close>, the outbox), \<open>Proxy\<close> (\<open>proxy.go\<close>),
  \<open>Gateway_Run\<close> (booted gateways and their pulls), \<open>Spine_Emit\<close> (\<open>spine_emit.go\<close>, \<open>health.go\<close>).
  Control plane: \<open>Keystore\<close> (\<open>store/keystore.go\<close> and its file), \<open>Control_Model\<close> (\<open>model\<close>), \<open>Catalog\<close>
  (\<open>catalog\<close>), \<open>Control_Store\<close> (\<open>store\<close>), \<open>Policy_Engine\<close> (\<open>policy\<close>, \<open>envconfig\<close>), \<open>Emitter\<close> (\<open>emitter\<close>),
  \<open>Control_Auth\<close> (\<open>server/spine_auth.go\<close>, \<open>hostguard\<close>), \<open>Control_Server\<close> and \<open>Control_Routes\<close> (the handlers and
  the route table of \<open>server\<close>), \<open>Synthetic_Fixtures\<close> and \<open>Synthetic\<close> (\<open>synthetic\<close>), \<open>Control_System\<close> (the
  multiplexer, \<open>main\<close>'s start-up order, the steps of the running process).
  Harness, \<open>harness\<close>: \<open>Harness_Model\<close>, \<open>Harness_Flywheel\<close> and \<open>Harness_Proposals\<close> (\<open>flywheel.go\<close>, \<open>probe.go\<close>,
  \<open>persist.go\<close>), \<open>Harness_Gen\<close> (\<open>gen.go\<close>), \<open>Harness_Score\<close> (\<open>score.go\<close>, \<open>streamscan.go\<close>) with its
  specification \<open>Score_Spec\<close>, \<open>Harness_Runner\<close> (\<open>runner.go\<close>, \<open>sample.go\<close>).
  Properties: \<open>Gateway_Properties\<close>, \<open>Coverage_Properties\<close>, \<open>Control_Properties\<close>, \<open>Harness_Properties\<close> and this
  theory; \<open>Demo\<close> is the concrete gateway and request the gateway's properties are applied to.

  HOW THE CODE IS RENDERED. A Go string is its list of bytes, a struct a record, a map that is ranged
  over an association list, a slice a list; an error is the left side of a sum, a panic None; time is
  an integer of nanoseconds with Go's zero time at 0. A method that changes its receiver returns
  the new state; a handler maps a request and a server to a reply and a server, a reply of status 0
  being a handler that never writes. Where a clock or random bytes are read several times the
  readings are a sequence \<open>env\<close>, indexed in the order the code takes them. Integers that can overflow
  are wrapped by \<open>wrap64\<close>; counters that cannot in practice are unbounded, and \<open>float64\<close> is an exact
  rational. Code outside the repository and what the standard library reads from outside is an
  argument: SHA-256, JSON coding, \<open>regexp.Compile\<close> on operator patterns, Unicode case mapping, URL and
  IP parsing, the Presidio sidecar, the HTTP clients, the file system, the random source. Laws such
  a parameter must have (an encoder and its decoder agree, a matcher returns spans inside its
  text) are hypotheses of the properties that need them.

  WHAT THE LEMMAS SHOW. \<open>Spans\<close>, \<open>Chain\<close>: the merged spans are disjoint, sorted and exactly the kept ones
  not covered by a preferred one. \<open>Walkers\<close>: each dialect's walk masks exactly the strings at the documented
  positions (\<open>anthropic_pos\<close>, \<open>openai_pos\<close>, tool inputs down to \<open>maxWalkDepth\<close>) and leaves the rest of the document as it
  was; \<open>mask_doc\<close> is that document, and \<open>scan_walk\<close> shows that the code's scan loop computes it. \<open>Reports\<close>: what a push
  acknowledges, loses and returns to the ring, and what a drained metrics window says. \<open>Spine_Emit\<close>: when an
  attempt to announce the gateway is over, however long the ones before took. \<open>Stream_Relay\<close>: counting usage does not depend on
  how the stream is cut into reads. \<open>Proxy\<close>, \<open>Gateway_Run\<close>: what is sent, what is recorded, for every gateway
  reachable by pulls. \<open>Keystore\<close>, \<open>Control_Store\<close>: an invariant every operation keeps, and a boot from the
  committed file gives the state back. \<open>Policy_Engine\<close>: every row of the report is earned, and the drift set is
  exact. \<open>Control_Server\<close>, \<open>Control_Routes\<close>, \<open>Control_System\<close>: every handler keeps the invariant, and changes
  nothing before its caller has shown the credential of the route, call records of the synthetic surface apart. \<open>Harness_Gen\<close>: whatever the seed, the
  generated truth is exact and every value has the form of its type (rules for a small logic of state-monad programs,
  \<open>yields\<close>). \<open>Harness_Proposals\<close>: the
  approval loop as a transition system with its invariant, and what its approvals publish. \<open>Harness_Score\<close>: the counts
  balance; \<open>Score_Spec\<close>: they count what was reported, what arrived raw and what nothing is known about.

  INTERFACES. Locales state what one part relies on: \<open>go_less\<close> and \<open>key_less\<close> (the comparison handed to a
  sort), \<open>bounded_ring\<close> (the report ring and the store's rings), \<open>usage_scan\<close> (the two usage scanners),
  \<open>body_walker\<close> (the two dialects), \<open>key_source\<close> (where a gateway's keys come from), \<open>request_guard\<close> (every
  middleware). Each is interpreted on the code's own operations in the theory that provides them.

  BOUNDS AND TERMINATION. Rings hold 5000 entries (\<open>ringMax\<close>, \<open>auditRingMax\<close>), the heartbeat map 32
  (\<open>maxGatewayEnforce\<close>), the list of runs 50; the invariants say so. Recursion over documents stops at the
  code's own \<open>maxWalkDepth\<close>. The search loop of \<open>Regexp\<close> and \<open>push_chunks\<close> are total by a measure; \<open>chunks_of\<close> runs
  on the length of its string, which \<open>concat_chunks\<close> shows to be enough; the polling loops \<open>wait_from\<close> and
  \<open>sample_from\<close> are partial functions, shown to end once the clock moves on.

  NOT MODELLED. \<open>cmd/air-traffic-gateway/main.go\<close>, flags, logging, listeners, signal handling and graceful
  shutdown: process edges without state of their own. Goroutines are steps: each handler and each
  tick of the control plane runs under the lock it takes in Go and is one step of \<open>server_step\<close>; on the gateway a push holds the ring's
  lock only to drain and to requeue, and what the request handlers record while its posts run is an argument of the step; the parallel sends of a harness
  run write one slot each and are a list. The web application is served as files and is an argument.
  Documents, deployment files and the browser code are not Go.
\<close>

section \<open>From an approval to the gateways\<close>

text \<open>The recognizer a regex proposal becomes.\<close>

definition recognizer_for :: "world \<Rightarrow> PatternProposal \<Rightarrow> recognizer \<Rightarrow> bool" where
  "recognizer_for w p rec \<longleftrightarrow>
     rec_typ rec = pp_Type p \<and> compile w (pp_Regex p) = Inr (rec_re rec) \<and> rec_validate rec = None \<and>
     rec_confidence rec = (if pp_Confidence p = 0 then 75/100 else pp_Confidence p)"

lemma isRegex_published: "isRegex (published p) \<longleftrightarrow> regex_proposal p"
  by (auto simp: isRegex_def published_def regex_proposal_def)

lemma published_fields:
  "rule_Type (published p) = pp_Type p" "regex_proposal p \<Longrightarrow> rule_Regex (published p) = pp_Regex p"
  "rule_Confidence (published p) = pp_Confidence p"
  by (simp_all add: published_def)

lemma published_recognizers:
  assumes "\<forall>r \<in> set (map published ps). isRegex r \<longrightarrow> (\<exists>m. compile w (rule_Regex r) = Inr m)"
  shows "\<exists>recs. pack_recognizers (compile w) (map published ps) = Inr recs \<and>
    list_all2 (recognizer_for w) (filter regex_proposal ps) recs"
  using assms
proof (induction ps)
  case (Cons p ps)
  then obtain recs where recs: "pack_recognizers (compile w) (map published ps) = Inr recs"
      "list_all2 (recognizer_for w) (filter regex_proposal ps) recs" by auto
  show ?case
  proof (cases "regex_proposal p")
    case True
    with Cons.prems obtain m where m: "compile w (pp_Regex p) = Inr m" by (auto simp: isRegex_published published_fields)
    with True recs show ?thesis
      by (simp add: isRegex_published published_fields) (simp add: recognizer_for_def)
  qed (simp add: recs isRegex_published)
qed simp

text \<open>
  C31: What an operator approves, every gateway can install, and it is what was approved. On a control plane that started
  without proposals, through any flywheel rounds, authored proposals, approvals and rejections: the served
  pack holds one rule per approved proposal, in the order of approval, with the proposal's id, type,
  confidence and the payload of its kind, and its version has risen by one for each; the proposals are kept as approved.
  A gateway that pulls the pack accepts it without an error and is then at its version; unless it was at it already,
  its regex engine runs the built-in recognizers followed by one recognizer per approved regex
  proposal, in that order, searching with that proposal's expression; the analyzer's gates and the allow
  list are those of the same rules. The control plane's and the gateway's regular expression compilers are
  assumed to accept the same sources, and the candidate library to compile.
\<close>

theorem approved_pack_installs:
  assumes "approval_run c (ru, st) ps s" and "ru_proposals ru = []" and "pack_Rules (GetPatternPack st) = []"
    and "library_compiles c" and "\<forall>re. c re = None \<longrightarrow> (\<exists>m. compile w re = Inr m)"
    and "pack = GetPatternPack (snd s)" and "pull = pullPatterns w (Inr pack) gw"
  shows "map PatternRule.truncate (pack_Rules pack) = map published ps \<and>
    pack_Version pack = pack_Version (GetPatternPack st) + int (length ps) \<and>
    (\<forall>p \<in> set ps. p\<lparr>pp_Status := ''approved''\<rparr> \<in> set (ru_proposals (fst s))) \<and>
    fst pull = None \<and> packVersion (snd pull) = pack_Version pack \<and>
    (pack_Version pack \<noteq> packVersion gw \<and> last_regex (dets gw) \<noteq> None \<longrightarrow>
      (\<exists>recs. list_all2 (recognizer_for w) (filter regex_proposal ps) recs \<and>
        dets (snd pull) = set_presidio (Presidio_SetPatternPack (map published ps)) (set_regex (builtinRecognizers @ recs) (dets gw)) \<and>
        chain_allow (snd pull) = allow (Chain_SetPatternPack (ulow w) (map published ps) (gw_chain w gw))))"
proof -
  have inv: "approvals_inv c (ru, st)" using assms(2,3) by (simp add: approvals_inv_def proposals_ok_def pack_checked_def)
  have rules: "map PatternRule.truncate (pack_Rules pack) = map published ps"
    and rest: "pack_Version pack = pack_Version (GetPatternPack st) + int (length ps)"
      "\<forall>p \<in> set ps. p\<lparr>pp_Status := ''approved''\<rparr> \<in> set (ru_proposals (fst s))"
    using approval_run_publishes [OF assms(1) inv assms(4)] assms(3,6) by simp_all
  have "pack_checked c pack"
    using approval_steps_inv [OF approval_run_steps [OF assms(1)] inv assms(4)] assms(6) by (simp add: approvals_inv_def)
  then have "\<forall>r \<in> set (map PatternRule.truncate (pack_Rules pack)). isRegex r \<longrightarrow> (\<exists>m. compile w (rule_Regex r) = Inr m)"
    using assms(5) by (auto simp: pack_checked_def rule_checked_def isRegex_def kind_defs PatternRule.truncate_def)
  from published_recognizers [OF this [unfolded rules]] obtain recs where
    recs: "pack_recognizers (compile w) (map published ps) = Inr recs" "list_all2 (recognizer_for w) (filter regex_proposal ps) recs"
    by blast
  have "fst pull = None \<and> packVersion (snd pull) = pack_Version pack \<and>
    (pack_Version pack \<noteq> packVersion gw \<and> last_regex (dets gw) \<noteq> None \<longrightarrow>
        dets (snd pull) = set_presidio (Presidio_SetPatternPack (map published ps)) (set_regex (builtinRecognizers @ recs) (dets gw)) \<and>
        chain_allow (snd pull) = allow (Chain_SetPatternPack (ulow w) (map published ps) (gw_chain w gw)))"
    by (auto simp: assms(7) pullPatterns_def Let_def Regex_SetPatternPack_def rules recs(1) split: option.split)
  with rules rest recs(2) show ?thesis by blast
qed

definition demo_pattern_fs :: pattern_fs where
  "demo_pattern_fs = \<lparr>pat_marshal = (\<lambda>_. Inl ''no''), pat_write_err = None, pat_rename_err = None\<rparr>"

definition demo_proposal :: PatternProposal where
  "demo_proposal = demo_decided\<lparr>pp_Status := [], pp_Rationale := ''seen in tickets''\<rparr>"

definition demo_approved :: "Runner \<times> Store" where
  "demo_approved =
     snd (ApproveProposal (\<lambda>_. None) demo_pattern_fs (\<lambda>_. (0, [])) ''p''
       (snd (AddProposal (\<lambda>_. None) (\<lambda>s. s) demo_pattern_fs (0, []) demo_proposal empty_store demo_runner), empty_store))"

lemma demo_decision:
  "\<exists>pack. ApproveProposal (\<lambda>_. None) demo_pattern_fs (\<lambda>_. (0, [])) ''p''
     (snd (AddProposal (\<lambda>_. None) (\<lambda>s. s) demo_pattern_fs (0, []) demo_proposal empty_store demo_runner), empty_store) =
       (Inr pack, demo_approved)"
  "\<exists>p \<in> set (ru_proposals (snd (AddProposal (\<lambda>_. None) (\<lambda>s. s) demo_pattern_fs (0, []) demo_proposal empty_store demo_runner))).
     pp_ID p = ''p'' \<and> pp_Type p = ''SSN'' \<and> pp_Regex p = ''x'' \<and> regex_proposal p"
  by (simp_all add: demo_approved_def AddProposal_def authored_def demo_proposal_def demo_decided_def Let_def
      ruleFromProposal_def demo_runner_def savePatternsLocked_def savePatterns_def demo_pattern_fs_def
      ApproveProposal_def find_last_def has_id_def kind_defs regex_proposal_def)

lemma demo_approval_run: "\<exists>p. approval_run (\<lambda>_. None) (demo_runner, empty_store) [p] demo_approved \<and>
  pp_Type p = ''SSN'' \<and> pp_Regex p = ''x'' \<and> regex_proposal p"
proof -
  have authored: "approval_run (\<lambda>_. None) (demo_runner, empty_store) []
      (snd (AddProposal (\<lambda>_. None) (\<lambda>s. s) demo_pattern_fs (0, []) demo_proposal empty_store demo_runner), empty_store)"
    by (rule run_author [OF run_start])
  obtain pack where granted: "ApproveProposal (\<lambda>_. None) demo_pattern_fs (\<lambda>_. (0, [])) ''p''
     (snd (AddProposal (\<lambda>_. None) (\<lambda>s. s) demo_pattern_fs (0, []) demo_proposal empty_store demo_runner), empty_store) =
       (Inr pack, demo_approved)"
    using demo_decision(1) by blast
  from demo_decision(2) run_granted [OF authored granted] show ?thesis by fastforce
qed

theorem approved_pack_installs_witness:
  "\<exists>rec. dets (snd (pullPatterns (demo_world\<lparr>compile := \<lambda>re. Inr (\<lambda>_. [(0, int (length re))])\<rparr>)
        (Inr (GetPatternPack (snd demo_approved))) demo_gw)) = [DRegex (builtinRecognizers @ [rec])] \<and>
      rec_typ rec = ''SSN'' \<and> rec_re rec = (\<lambda>_. [(0, 1)])"
proof -
  let ?w = "demo_world\<lparr>compile := \<lambda>re. Inr (\<lambda>_. [(0, int (length re))])\<rparr>"
  have ex: "\<forall>re. (\<lambda>_. None) re = None \<longrightarrow> (\<exists>m. compile ?w re = Inr m)" by simp
  have set_dets: "set_presidio f (set_regex recs (dets demo_gw)) = [DRegex recs]" for f recs
    by (simp add: demo_gw_def set_regex_def set_presidio_def)
  have gw: "last_regex (dets demo_gw) \<noteq> None" "packVersion demo_gw = 0"
    by (simp_all add: demo_gw_def last_regex_def List.map_filter_def as_regex_def)
  have start: "ru_proposals demo_runner = []" "pack_Rules (GetPatternPack empty_store) = []"
    "library_compiles (\<lambda>_. None)" "pack_Version (GetPatternPack empty_store) = 0"
    by (simp_all add: demo_runner_def empty_store_def empty_pattern_pack_def GetPatternPack_def library_compiles_def)
  obtain p where p: "approval_run (\<lambda>_. None) (demo_runner, empty_store) [p] demo_approved"
      "pp_Type p = ''SSN''" "pp_Regex p = ''x''" "regex_proposal p"
    using demo_approval_run by blast
  note installed = approved_pack_installs [OF p(1) start(1-3) ex refl refl, of demo_gw]
  from installed gw p(4) start(4) obtain recs where
    "list_all2 (recognizer_for ?w) [p] recs"
    "dets (snd (pullPatterns ?w (Inr (GetPatternPack (snd demo_approved))) demo_gw)) = [DRegex (builtinRecognizers @ recs)]"
    by (auto simp: set_dets)
  then obtain rec where "recs = [rec]" "recognizer_for ?w p rec" by (auto simp: list_all2_Cons1)
  with p(2,3) \<open>dets _ = _\<close> show ?thesis by (auto simp: recognizer_for_def)
qed

end
